(* ===== verification/Rust_Prelude.thy ===== *)
theory Rust_Prelude imports Main
begin

section \<open>Rust strings, options and lists\<close>

text \<open>
  What the components share: the part of Rust's \<open>str\<close>, \<open>char\<close>, \<open>Option\<close> and slice
  library that the modelled code calls, with the facts their proofs use.

  A Rust \<open>str\<close> is its UTF-8 encoding, so it is modelled as the list of its bytes, an Isabelle
  \<^typ>\<open>string\<close>: \<open>len\<close> is \<^const>\<open>length\<close>, comparison is bytewise, and slicing is at byte
  offsets.  Where the code walks over characters and tests them against ASCII only, the model
  walks over the bytes, which gives the same result, because no byte of a multi-byte character
  is below 128.  Where a character counts as a whole (white space, the wildcard \<open>?\<close>, lower
  case), \<open>chars\<close> groups the bytes into characters first.
\<close>

named_theorems hx_defs \<open>definitions that a closed evaluation unfolds\<close>
named_theorems hx_str \<open>laws of the string operations\<close>

subsection \<open>Bytes and characters\<close>

definition byte :: "char \<Rightarrow> nat" where [hx_defs]:
  "byte c = of_char c"

definition is_cont :: "char \<Rightarrow> bool" where [hx_defs]:
  "is_cont c \<longleftrightarrow> 128 \<le> byte c \<and> byte c < 192"

text \<open>\<open>str::chars\<close>: the bytes grouped into characters, each a leading byte and its
  continuation bytes.\<close>

fun chars :: "string \<Rightarrow> string list" where
  "chars [] = []"
| "chars (b # bs) = (case chars bs of
     (k # c) # cs \<Rightarrow> if is_cont k then (b # k # c) # cs else [b] # (k # c) # cs
   | cs \<Rightarrow> [b] # cs)"

definition is_char_boundary :: "string \<Rightarrow> nat \<Rightarrow> bool" where [hx_defs]:
  "is_char_boundary s i \<longleftrightarrow>
     i = 0 \<or> i = length s \<or> (i < length s \<and> \<not> is_cont (s ! i))"

text \<open>\<open>char::is_whitespace\<close>: the Unicode property \<open>White_Space\<close>, on the UTF-8 bytes of one
  character.\<close>

definition is_ws :: "string \<Rightarrow> bool" where [hx_defs]:
  "is_ws c \<longleftrightarrow> (case map byte c of
     [a] \<Rightarrow> (9 \<le> a \<and> a \<le> 13) \<or> a = 32
   | [a, b] \<Rightarrow> a = 194 \<and> (b = 133 \<or> b = 160)
   | [a, b, d] \<Rightarrow>
       (a = 225 \<and> b = 154 \<and> d = 128)
     \<or> (a = 226 \<and> b = 128 \<and> ((128 \<le> d \<and> d \<le> 138) \<or> d = 168 \<or> d = 169 \<or> d = 175))
     \<or> (a = 226 \<and> b = 129 \<and> d = 159)
     \<or> (a = 227 \<and> b = 128 \<and> d = 128)
   | _ \<Rightarrow> False)"

definition is_ascii_alphabetic :: "char \<Rightarrow> bool" where [hx_defs]:
  "is_ascii_alphabetic c \<longleftrightarrow> (65 \<le> byte c \<and> byte c \<le> 90) \<or> (97 \<le> byte c \<and> byte c \<le> 122)"

definition is_ascii_digit :: "char \<Rightarrow> bool" where [hx_defs]:
  "is_ascii_digit c \<longleftrightarrow> 48 \<le> byte c \<and> byte c \<le> 57"

definition is_ascii_alphanumeric :: "char \<Rightarrow> bool" where [hx_defs]:
  "is_ascii_alphanumeric c \<longleftrightarrow> is_ascii_alphabetic c \<or> is_ascii_digit c"

definition ascii_lower :: "char \<Rightarrow> char" where [hx_defs]:
  "ascii_lower c = (if 65 \<le> byte c \<and> byte c \<le> 90 then char_of (byte c + 32) else c)"

definition ascii_upper :: "char \<Rightarrow> char" where [hx_defs]:
  "ascii_upper c = (if 97 \<le> byte c \<and> byte c \<le> 122 then char_of (byte c - 32) else c)"

definition to_ascii_lowercase :: "string \<Rightarrow> string" where [hx_defs]:
  "to_ascii_lowercase s = map ascii_lower s"

definition eq_ignore_ascii_case :: "string \<Rightarrow> string \<Rightarrow> bool" where [hx_defs]:
  "eq_ignore_ascii_case s t \<longleftrightarrow> to_ascii_lowercase s = to_ascii_lowercase t"

text \<open>
  \<open>str::to_lowercase\<close>.  The ASCII letters are mapped, and so are the only two other characters
  whose lower case holds an ASCII letter, the Kelvin sign (to \<open>k\<close>) and the capital I with a dot
  (to \<open>i\<close> and a combining dot).  Every other character is kept: its lower case has no ASCII byte,
  so a test against an ASCII pattern, which is all the modelled code makes on the result, is not
  affected.
\<close>

definition lower_char :: "string \<Rightarrow> string" where [hx_defs]:
  "lower_char c =
     (if map byte c = [226, 132, 170] then ''k''
      else if map byte c = [196, 176] then [CHR ''i'', CHR 0xCC, CHR 0x87]
      else map ascii_lower c)"

definition to_lowercase :: "string \<Rightarrow> string" where [hx_defs]:
  "to_lowercase s = concat (map lower_char (chars s))"

text \<open>The em dash, which some messages hold.\<close>

definition em_dash :: string where [hx_defs]:
  "em_dash = [CHR 0xE2, CHR 0x80, CHR 0x94]"

subsection \<open>Trimming, splitting, searching\<close>

definition trim_start :: "string \<Rightarrow> string" where [hx_defs]:
  "trim_start s = concat (dropWhile is_ws (chars s))"

definition trim_end :: "string \<Rightarrow> string" where [hx_defs]:
  "trim_end s = concat (rev (dropWhile is_ws (rev (chars s))))"

definition trim :: "string \<Rightarrow> string" where [hx_defs]:
  "trim s = concat (rev (dropWhile is_ws (rev (dropWhile is_ws (chars s)))))"

definition starts_with :: "string \<Rightarrow> string \<Rightarrow> bool" where [hx_defs]:
  "starts_with s p \<longleftrightarrow> take (length p) s = p"

definition ends_with :: "string \<Rightarrow> string \<Rightarrow> bool" where [hx_defs]:
  "ends_with s p \<longleftrightarrow> length p \<le> length s \<and> drop (length s - length p) s = p"

fun contains_str :: "string \<Rightarrow> string \<Rightarrow> bool" where
  "contains_str [] p \<longleftrightarrow> p = []"
| "contains_str (c # s) p \<longleftrightarrow> starts_with (c # s) p \<or> contains_str s p"

text \<open>\<open>str::split\<close> on an ASCII character: always at least one piece.\<close>

fun split_on :: "char \<Rightarrow> string \<Rightarrow> string list" where
  "split_on d [] = [[]]"
| "split_on d (c # s) =
     (if c = d then [] # split_on d s
      else (case split_on d s of [] \<Rightarrow> [[c]] | w # ws \<Rightarrow> (c # w) # ws))"

fun split_once :: "char \<Rightarrow> string \<Rightarrow> (string \<times> string) option" where
  "split_once d [] = None"
| "split_once d (c # s) =
     (if c = d then Some ([], s) else map_option (\<lambda>(a, b). (c # a, b)) (split_once d s))"

text \<open>\<open>str::split_whitespace\<close> on the characters.\<close>

fun ws_words :: "string list \<Rightarrow> string list" where
  "ws_words [] = []"
| "ws_words (c # cs) =
     (if is_ws c then ws_words cs
      else (case cs of
          [] \<Rightarrow> [c]
        | d # _ \<Rightarrow> if is_ws d then c # ws_words cs
            else (case ws_words cs of [] \<Rightarrow> [c] | w # ws \<Rightarrow> (c @ w) # ws)))"

definition split_whitespace :: "string \<Rightarrow> string list" where [hx_defs]:
  "split_whitespace s = ws_words (chars s)"

fun join :: "string \<Rightarrow> string list \<Rightarrow> string" where
  "join sep [] = []"
| "join sep [w] = w"
| "join sep (w # ws) = w @ sep @ join sep ws"

definition replace_char :: "char \<Rightarrow> char \<Rightarrow> string \<Rightarrow> string" where [hx_defs]:
  "replace_char a b s = map (\<lambda>c. if c = a then b else c) s"

text \<open>Pop trailing bytes while the string is longer than \<open>n\<close> and ends in \<open>d\<close>.\<close>

definition pop_while :: "nat \<Rightarrow> char \<Rightarrow> string \<Rightarrow> string" where [hx_defs]:
  "pop_while n d s = take n s @ rev (dropWhile (\<lambda>c. c = d) (rev (drop n s)))"

text \<open>Decimal rendering of an unsigned integer.\<close>

fun show_nat :: "nat \<Rightarrow> string" where
  "show_nat n =
     (if n < 10 then [char_of (48 + n)] else show_nat (n div 10) @ [char_of (48 + n mod 10)])"

declare show_nat.simps [simp del]

subsection \<open>Options\<close>

text \<open>
  \<^const>\<open>None\<close> is also the outcome of code that panics; \<open>filter_opt\<close> is \<open>Iterator::filter\<close> run
  to its end with a test that may panic.
\<close>

fun filter_opt :: "('a \<Rightarrow> bool option) \<Rightarrow> 'a list \<Rightarrow> 'a list option" where
  "filter_opt p [] = Some []"
| "filter_opt p (x # xs) =
     (case p x of
        None \<Rightarrow> None
      | Some b \<Rightarrow> map_option (\<lambda>ys. if b then x # ys else ys) (filter_opt p xs))"

definition opt_max :: "'a::linorder option \<Rightarrow> 'a \<Rightarrow> 'a option" where [hx_defs]:
  "opt_max best l = Some (case best of None \<Rightarrow> l | Some c \<Rightarrow> max c l)"

text \<open>The first element that satisfies a predicate, with its panics: \<open>Iterator::find\<close> stops at
  the first hit, which \<^const>\<open>find\<close> models where the test cannot panic.\<close>

lemma filter_opt_total:
  assumes "\<And>x. x \<in> set xs \<Longrightarrow> p x \<noteq> None"
  shows "filter_opt p xs = Some (filter (\<lambda>x. p x = Some True) xs)"
  using assms by (induction xs) (auto split: option.splits)

lemma filter_opt_SomeD:
  "filter_opt p xs = Some ys \<Longrightarrow> ys = filter (\<lambda>x. p x = Some True) xs"
  by (induction xs arbitrary: ys) (auto split: option.splits if_splits)

lemma filter_opt_None_iff: "filter_opt p xs = None \<longleftrightarrow> (\<exists>x \<in> set xs. p x = None)"
  by (induction xs) (auto split: option.splits)

lemma filter_opt_eq:
  "filter_opt p xs =
     (if \<exists>x \<in> set xs. p x = None then None else Some (filter (\<lambda>x. p x = Some True) xs))"
  by (induction xs) (auto split: option.splits)

lemma filter_opt_append:
  "filter_opt p (xs @ ys) =
     (case filter_opt p xs of None \<Rightarrow> None
      | Some a \<Rightarrow> map_option (\<lambda>b. a @ b) (filter_opt p ys))"
  by (induction xs; cases "filter_opt p ys") (auto split: option.splits)

subsection \<open>Facts about the string operations\<close>

lemma concat_chars [simp, hx_str]: "concat (chars s) = s"
  by (induction s) (auto split: list.splits if_splits)

lemma chars_nonempty: "c \<in> set (chars s) \<Longrightarrow> c \<noteq> []"
  by (induction s arbitrary: c) (auto split: list.splits if_splits)

lemma chars_eq_Nil [simp]: "chars s = [] \<longleftrightarrow> s = []"
  by (cases s) (auto split: list.splits)

lemma starts_with_iff [hx_str]: "starts_with s p \<longleftrightarrow> (\<exists>t. s = p @ t)"
  unfolding starts_with_def by (metis append_eq_conv_conj append_take_drop_id)

lemma ends_with_iff [hx_str]: "ends_with s p \<longleftrightarrow> (\<exists>t. s = t @ p)"
  unfolding ends_with_def
  by (metis append_eq_conv_conj append_take_drop_id diff_diff_cancel diff_le_self length_append
      length_drop add_diff_cancel_right' le_add2)

lemma contains_str_iff [hx_str]: "contains_str s p \<longleftrightarrow> (\<exists>a b. s = a @ p @ b)"
proof (induction s)
  case Nil
  then show ?case by auto
next
  case (Cons c s)
  show ?case
  proof
    assume "contains_str (c # s) p"
    then consider "starts_with (c # s) p" | "contains_str s p" by auto
    then show "\<exists>a b. c # s = a @ p @ b"
    proof cases
      case 1
      then show ?thesis by (metis append_Nil starts_with_iff)
    next
      case 2
      with Cons show ?thesis by (metis append_Cons)
    qed
  next
    assume "\<exists>a b. c # s = a @ p @ b"
    then obtain a b where ab: "c # s = a @ p @ b" by blast
    show "contains_str (c # s) p"
    proof (cases a)
      case Nil
      with ab have "starts_with (c # s) p" by (simp add: starts_with_iff)
      then show ?thesis by simp
    next
      case (Cons x a')
      with ab have "\<exists>a b. s = a @ p @ b" by auto
      then show ?thesis by (simp add: Cons.IH)
    qed
  qed
qed

lemma split_on_nonempty [simp]: "split_on d s \<noteq> []"
  by (induction s) (auto split: list.splits)

lemma split_on_append_sep:
  "split_on d (s @ d # t) = split_on d s @ split_on d t"
  by (induction s) (auto split: list.splits)

lemma split_on_no_sep: "d \<notin> set s \<Longrightarrow> split_on d s = [s]"
  by (induction s) auto

lemma join_Cons_nonempty: "ws \<noteq> [] \<Longrightarrow> join sep (w # ws) = w @ sep @ join sep ws"
  by (cases ws) auto

lemma join_append:
  "xs \<noteq> [] \<Longrightarrow> ys \<noteq> [] \<Longrightarrow> join sep (xs @ ys) = join sep xs @ sep @ join sep ys"
  by (induction sep xs rule: join.induct) (auto simp: join_Cons_nonempty)

lemma join_split_on [simp, hx_str]: "join [d] (split_on d s) = s"
proof (induction s)
  case Nil
  then show ?case by simp
next
  case (Cons c s)
  obtain w ws where ww: "split_on d s = w # ws"
    by (meson neq_Nil_conv split_on_nonempty)
  with Cons show ?case by (cases ws) auto
qed

lemma split_on_prefix_iff:
  "(\<exists>rest. split_on d r = split_on d g @ rest) \<longleftrightarrow> r = g \<or> starts_with r (g @ [d])"
proof
  assume "\<exists>rest. split_on d r = split_on d g @ rest"
  then obtain rest where rest: "split_on d r = split_on d g @ rest" by blast
  show "r = g \<or> starts_with r (g @ [d])"
  proof (cases "rest = []")
    case True
    with rest show ?thesis by (metis append_Nil2 join_split_on)
  next
    case False
    from rest have "r = join [d] (split_on d g @ rest)" by (metis join_split_on)
    with False have "r = g @ [d] @ join [d] rest" by (simp add: join_append)
    then show ?thesis by (auto simp: starts_with_iff)
  qed
next
  assume "r = g \<or> starts_with r (g @ [d])"
  then consider "r = g" | t where "r = g @ d # t" by (auto simp: starts_with_iff)
  then show "\<exists>rest. split_on d r = split_on d g @ rest"
    by cases (auto simp: split_on_append_sep)
qed

lemma set_pop_while: "set (pop_while n d s) \<subseteq> set s"
proof -
  have "set (dropWhile (\<lambda>c. c = d) (rev (drop n s))) \<subseteq> set (drop n s)"
    using set_dropWhileD by fastforce
  then show ?thesis
    unfolding pop_while_def by (auto dest: in_set_takeD in_set_dropD)
qed

lemma pop_while_last:
  assumes "pop_while n d s = t" and "n < length t"
  shows "last t \<noteq> d"
proof -
  let ?w = "dropWhile (\<lambda>c. c = d) (rev (drop n s))"
  from assms have t: "t = take n s @ rev ?w" by (simp add: pop_while_def)
  have "?w \<noteq> []"
  proof
    assume "?w = []"
    with t assms(2) show False by (simp del: dropWhile_eq_Nil_conv)
  qed
  moreover from this have "hd ?w \<noteq> d" by (rule hd_dropWhile)
  ultimately show ?thesis
    unfolding t by (simp add: last_append last_rev del: dropWhile_eq_Nil_conv)
qed

lemma byte_less_256 [simp]: "byte c < 256"
  by (simp add: byte_def)

subsection \<open>Closed evaluation\<close>

text \<open>
  Equations for evaluating the tests on bytes of a closed string: on the bits of a byte instead of
  its number, and with the connectives evaluated from left to right.
\<close>

lemma lazy_conj [code_unfold]: "(P \<and> Q) = (if P then Q else False)"
  by simp

lemma lazy_disj [code_unfold]: "(P \<or> Q) = (if P then True else Q)"
  by simp

lemma byte_Char:
  "byte (Char b0 b1 b2 b3 b4 b5 b6 b7) = of_bool b0 + 2 * (of_bool b1 + 2 * (of_bool b2 + 2 * (of_bool b3
     + 2 * (of_bool b4 + 2 * (of_bool b5 + 2 * (of_bool b6 + 2 * of_bool b7))))))"
  by (simp add: byte_def of_char_def)

lemma is_cont_code [code]:
  "is_cont (Char b0 b1 b2 b3 b4 b5 b6 b7) = (if b7 then \<not> b6 else False)"
  by (cases b0; cases b1; cases b2; cases b3; cases b4; cases b5; cases b6; cases b7)
    (simp_all add: is_cont_def byte_Char)

lemma ascii_lower_code [code]:
  "ascii_lower (Char b0 b1 b2 b3 b4 b5 b6 b7) =
     (if b7 then Char b0 b1 b2 b3 b4 b5 b6 b7
      else if \<not> b6 then Char b0 b1 b2 b3 b4 b5 b6 b7
      else if b5 then Char b0 b1 b2 b3 b4 b5 b6 b7
      else if (if b4 then (if b3 then \<not> (if b2 then True else if b1 then b0 else False) else True)
               else (if b3 then True else if b2 then True else if b1 then True else b0))
      then Char b0 b1 b2 b3 b4 True b6 b7 else Char b0 b1 b2 b3 b4 b5 b6 b7)"
  by (cases b0; cases b1; cases b2; cases b3; cases b4; cases b5; cases b6; cases b7)
    (simp_all add: ascii_lower_def byte_Char char_of_def bit_numeral_rec bit_0)

lemma byte_eq_iff: "n < 256 \<Longrightarrow> byte c = n \<longleftrightarrow> c = char_of n"
  by (auto simp: byte_def)

lemma byte_range:
  "(9 \<le> byte a \<and> byte a \<le> 13) \<longleftrightarrow> byte a = 9 \<or> byte a = 10 \<or> byte a = 11 \<or> byte a = 12 \<or> byte a = 13"
  "(128 \<le> byte a \<and> byte a \<le> 138) \<longleftrightarrow> byte a = 128 \<or> byte a = 129 \<or> byte a = 130 \<or> byte a = 131
     \<or> byte a = 132 \<or> byte a = 133 \<or> byte a = 134 \<or> byte a = 135 \<or> byte a = 136 \<or> byte a = 137
     \<or> byte a = 138"
  by presburger+

lemma char_of_numerals:
  "char_of (9 :: nat) = CHR 0x09" "char_of (10 :: nat) = CHR 0x0A" "char_of (11 :: nat) = CHR 0x0B"
  "char_of (12 :: nat) = CHR 0x0C" "char_of (13 :: nat) = CHR 0x0D" "char_of (32 :: nat) = CHR '' ''"
  "char_of (194 :: nat) = CHR 0xC2" "char_of (133 :: nat) = CHR 0x85" "char_of (160 :: nat) = CHR 0xA0"
  "char_of (225 :: nat) = CHR 0xE1" "char_of (154 :: nat) = CHR 0x9A" "char_of (128 :: nat) = CHR 0x80"
  "char_of (226 :: nat) = CHR 0xE2" "char_of (129 :: nat) = CHR 0x81" "char_of (130 :: nat) = CHR 0x82"
  "char_of (131 :: nat) = CHR 0x83" "char_of (132 :: nat) = CHR 0x84" "char_of (134 :: nat) = CHR 0x86"
  "char_of (135 :: nat) = CHR 0x87" "char_of (136 :: nat) = CHR 0x88" "char_of (137 :: nat) = CHR 0x89"
  "char_of (138 :: nat) = CHR 0x8A" "char_of (168 :: nat) = CHR 0xA8" "char_of (169 :: nat) = CHR 0xA9"
  "char_of (175 :: nat) = CHR 0xAF" "char_of (159 :: nat) = CHR 0x9F" "char_of (227 :: nat) = CHR 0xE3"
  "char_of (170 :: nat) = CHR 0xAA" "char_of (196 :: nat) = CHR 0xC4" "char_of (176 :: nat) = CHR 0xB0"
  by (simp_all add: char_of_def bit_numeral_rec bit_0)

lemma is_ws_code [code]:
  "is_ws [] = False"
  "is_ws [a] = (a = CHR 0x09 \<or> a = CHR 0x0A \<or> a = CHR 0x0B \<or> a = CHR 0x0C \<or> a = CHR 0x0D
     \<or> a = CHR '' '')"
  "is_ws [a, b] = (a = CHR 0xC2 \<and> (b = CHR 0x85 \<or> b = CHR 0xA0))"
  "is_ws [a, b, d] =
     ((a = CHR 0xE1 \<and> b = CHR 0x9A \<and> d = CHR 0x80)
      \<or> (a = CHR 0xE2 \<and> b = CHR 0x80
          \<and> (d = CHR 0x80 \<or> d = CHR 0x81 \<or> d = CHR 0x82 \<or> d = CHR 0x83 \<or> d = CHR 0x84 \<or> d = CHR 0x85
              \<or> d = CHR 0x86 \<or> d = CHR 0x87 \<or> d = CHR 0x88 \<or> d = CHR 0x89 \<or> d = CHR 0x8A
              \<or> d = CHR 0xA8 \<or> d = CHR 0xA9 \<or> d = CHR 0xAF))
      \<or> (a = CHR 0xE2 \<and> b = CHR 0x81 \<and> d = CHR 0x9F)
      \<or> (a = CHR 0xE3 \<and> b = CHR 0x80 \<and> d = CHR 0x80))"
  "is_ws (a # b # d # x # cs) = False"
  by (simp_all add: is_ws_def byte_range byte_eq_iff char_of_numerals disj_assoc conj_assoc
      del: de_Morgan_disj de_Morgan_conj)

lemma lower_char_code [code]:
  "lower_char c =
     (if c = [CHR 0xE2, CHR 0x84, CHR 0xAA] then ''k''
      else if c = [CHR 0xC4, CHR 0xB0] then [CHR ''i'', CHR 0xCC, CHR 0x87]
      else map ascii_lower c)"
proof -
  have "map byte c = [226, 132, 170] \<longleftrightarrow> c = [CHR 0xE2, CHR 0x84, CHR 0xAA]"
    "map byte c = [196, 176] \<longleftrightarrow> c = [CHR 0xC4, CHR 0xB0]"
    by (auto simp: map_eq_Cons_conv byte_eq_iff char_of_numerals)
  then show ?thesis by (simp add: lower_char_def)
qed

subsection \<open>ASCII strings\<close>

definition is_ascii :: "string \<Rightarrow> bool" where [hx_defs]:
  "is_ascii s \<longleftrightarrow> list_all (\<lambda>c. byte c < 128) s"

lemma is_ascii_subset: "set t \<subseteq> set s \<Longrightarrow> is_ascii s \<Longrightarrow> is_ascii t"
  by (auto simp: is_ascii_def list_all_iff)

lemma is_ascii_Cons [simp]: "is_ascii (c # s) \<longleftrightarrow> byte c < 128 \<and> is_ascii s"
  by (simp add: is_ascii_def)

lemma is_ascii_Nil [simp]: "is_ascii []"
  by (simp add: is_ascii_def)

lemma set_trim: "set (trim s) \<subseteq> set s"
proof -
  have "set (trim s) \<subseteq> \<Union> (set ` set (chars s))"
    by (auto simp: trim_def dest!: set_dropWhileD)
  also have "\<dots> = set (concat (chars s))" by (simp only: set_concat)
  finally show ?thesis by (simp only: concat_chars)
qed

lemma byte_ascii_upper: "byte c < 128 \<Longrightarrow> byte (ascii_upper c) < 128"
  by (auto simp: ascii_upper_def byte_def)

lemma is_ascii_replace_char:
  "is_ascii s \<Longrightarrow> byte b < 128 \<Longrightarrow> is_ascii (replace_char a b s)"
  by (auto simp: is_ascii_def replace_char_def list_all_iff)

lemma is_ascii_boundary: "is_ascii s \<Longrightarrow> i \<le> length s \<Longrightarrow> is_char_boundary s i"
  by (auto simp: is_char_boundary_def is_ascii_def is_cont_def list_all_length not_le
      dest!: spec [of _ i])

subsection \<open>Sequences of characters\<close>

text \<open>Which lists of byte groups are the characters of their concatenation: a group is a leading
  byte and continuation bytes, and only the first may lead with a continuation byte.\<close>

definition char_seq :: "string list \<Rightarrow> bool" where
  "char_seq cs \<longleftrightarrow>
     list_all (\<lambda>c. c \<noteq> [] \<and> list_all is_cont (tl c)) cs \<and> list_all (\<lambda>c. \<not> is_cont (hd c)) (tl cs)"

lemma char_seq_Nil [simp]: "char_seq []"
  by (simp add: char_seq_def)

lemma char_seq_Cons_Cons:
  "char_seq (c # d # cs) \<longleftrightarrow>
     c \<noteq> [] \<and> list_all is_cont (tl c) \<and> \<not> is_cont (hd d) \<and> char_seq (d # cs)"
  by (auto simp: char_seq_def)

lemma char_seq_single: "char_seq [c] \<longleftrightarrow> c \<noteq> [] \<and> list_all is_cont (tl c)"
  by (simp add: char_seq_def)

lemma char_seq_chars [simp]: "char_seq (chars s)"
proof (induction s)
  case Nil
  then show ?case by simp
next
  case (Cons b s)
  show ?case
  proof (cases "chars s")
    case Nil
    then show ?thesis by (simp add: char_seq_single)
  next
    case (Cons c cs)
    then obtain k t where c: "c = k # t"
      by (metis chars_nonempty list.exhaust list.set_intros(1))
    with Cons \<open>char_seq (chars s)\<close> show ?thesis by (auto simp: char_seq_def)
  qed
qed

lemma chars_group:
  assumes "list_all is_cont t" and "s \<noteq> [] \<Longrightarrow> \<not> is_cont (hd s)"
  shows "chars ((b # t) @ s) = (b # t) # chars s"
  using assms
proof (induction t arbitrary: b)
  case Nil
  show ?case
  proof (cases "chars s")
    case (Cons c cs)
    then have "concat (c # cs) = s" by (metis concat_chars)
    moreover obtain k u where c: "c = k # u"
      by (metis Cons chars_nonempty list.exhaust list.set_intros(1))
    ultimately have "\<not> is_cont k" using Nil.prems(2) by auto
    with Cons c show ?thesis by simp
  qed simp
next
  case (Cons a t)
  then have "chars ((a # t) @ s) = (a # t) # chars s" by simp
  with Cons.prems show ?case by simp
qed

lemma chars_concat: "char_seq cs \<Longrightarrow> chars (concat cs) = cs"
proof (induction cs)
  case Nil
  then show ?case by simp
next
  case (Cons c cs)
  then obtain b t where c: "c = b # t" and t: "list_all is_cont t"
    by (cases c) (auto simp: char_seq_def)
  have cs: "char_seq cs" using Cons.prems by (cases cs) (auto simp: char_seq_def)
  have "\<not> is_cont (hd (concat cs))" if "concat cs \<noteq> []"
    using that Cons.prems by (cases cs) (auto simp: char_seq_def)
  with t have "chars ((b # t) @ concat cs) = (b # t) # chars (concat cs)"
    by (rule chars_group)
  with c Cons.IH [OF cs] show ?case by simp
qed

lemma char_seq_suffix:
  assumes "char_seq (xs @ ys)" shows "char_seq ys"
  using assms by (cases xs; cases ys) (auto simp: char_seq_def)

lemma char_seq_prefix: "char_seq (xs @ ys) \<Longrightarrow> char_seq xs"
  by (cases xs) (auto simp: char_seq_def)

lemma char_seq_dropWhile: "char_seq cs \<Longrightarrow> char_seq (dropWhile P cs)"
  by (metis char_seq_suffix takeWhile_dropWhile_id)

lemma char_seq_rdropWhile: "char_seq cs \<Longrightarrow> char_seq (rev (dropWhile P (rev cs)))"
  by (metis char_seq_prefix rev_append rev_rev_ident takeWhile_dropWhile_id)

lemma chars_trim: "chars (trim s) = rev (dropWhile is_ws (rev (dropWhile is_ws (chars s))))"
  unfolding trim_def by (intro chars_concat char_seq_rdropWhile char_seq_dropWhile) simp

lemma dropWhile_idem: "dropWhile P (dropWhile P xs) = dropWhile P xs"
  by (induction xs) auto

lemma dropWhile_rdropWhile:
  "dropWhile P (rev (dropWhile P (rev (dropWhile P xs)))) = rev (dropWhile P (rev (dropWhile P xs)))"
proof (cases "dropWhile P xs")
  case (Cons a as)
  then have "\<not> P a" by (metis hd_dropWhile list.sel(1) list.distinct(1))
  then have "dropWhile P (rev as @ [a]) = dropWhile P (rev as) @ [a]"
    by (cases "\<forall>x \<in> set as. P x") (auto simp: dropWhile_append)
  with Cons \<open>\<not> P a\<close> show ?thesis by simp
next
  case Nil
  show ?thesis unfolding Nil by simp
qed

lemma trim_trim [simp]: "trim (trim s) = trim s"
proof -
  have "chars (trim (trim s)) = chars (trim s)"
    by (simp add: chars_trim dropWhile_rdropWhile dropWhile_idem)
  then show ?thesis by (metis concat_chars)
qed

end
