(* ===== verification/Rust_Float.thy ===== *)
theory Rust_Float imports Complex_Main Rust_Prelude
begin

section \<open>Machine numbers\<close>

text \<open>
  \<open>f64\<close> holds the finite binary64 values, as the rationals they denote: comparisons, \<open>min\<close> and
  \<open>max\<close> on them are exact.  Neither a NaN, nor an infinity, nor the sign of zero is modelled, so
  what is proved speaks of configurations and prices that are numbers.  Every arithmetic
  operation rounds its exact result with \<open>f64_round\<close>, IEEE 754's round to nearest, ties to even,
  on a significand of 53 bits with gradual underflow; a result beyond the largest finite value is
  kept instead of becoming infinite.  The components use two laws of the rounding: it is monotone, and
  it keeps an integer of at most 53 bits.
\<close>

type_synonym f64 = rat

text \<open>\<open>DateTime<Utc>\<close>: nanoseconds since the epoch.\<close>

type_synonym datetime = int

subsection \<open>Rounding to nearest, ties to even\<close>

fun bit_length :: "nat \<Rightarrow> nat" where
  "bit_length n = (if n = 0 then 0 else Suc (bit_length (n div 2)))"

declare bit_length.simps [simp del]

text \<open>The exponent of the binade a positive value lies in.\<close>

definition binade :: "rat \<Rightarrow> int" where
  "binade x = (let (p, q) = quotient_of x;
                   e = int (bit_length (nat p)) - int (bit_length (nat q))
               in if 2 powi e \<le> x then e else e - 1)"

definition round_half_even :: "rat \<Rightarrow> int" where
  "round_half_even x =
     (let n = \<lfloor>x\<rfloor>; d = x - of_int n in
      if d < 1 / 2 then n else if 1 / 2 < d then n + 1 else if even n then n else n + 1)"

definition ulp_exponent :: "rat \<Rightarrow> int" where
  "ulp_exponent x = max (binade x - 52) (- 1074)"

definition round_positive :: "rat \<Rightarrow> rat" where
  "round_positive x =
     (let u = 2 powi ulp_exponent x in of_int (round_half_even (x / u)) * u)"

definition f64_round :: "rat \<Rightarrow> f64" where
  "f64_round x =
     (if x = 0 then 0 else if x < 0 then - round_positive (- x) else round_positive x)"

subsection \<open>Its laws\<close>

lemma round_half_even_bounds: "\<lfloor>x\<rfloor> \<le> round_half_even x \<and> round_half_even x \<le> \<lfloor>x\<rfloor> + 1"
  by (simp add: round_half_even_def Let_def)

lemma round_half_even_of_int [simp]: "round_half_even (of_int n) = n"
  by (simp add: round_half_even_def)

lemma round_half_even_mono:
  assumes "x \<le> y"
  shows "round_half_even x \<le> round_half_even y"
proof (cases "\<lfloor>x\<rfloor> = \<lfloor>y\<rfloor>")
  case True
  with assms show ?thesis by (auto simp: round_half_even_def Let_def)
next
  case False
  with floor_mono [OF assms] have "\<lfloor>x\<rfloor> + 1 \<le> \<lfloor>y\<rfloor>" by linarith
  with round_half_even_bounds [of x] round_half_even_bounds [of y] show ?thesis by linarith
qed

lemma bit_length_bounds: "0 < n \<Longrightarrow> 2 ^ (bit_length n - 1) \<le> n \<and> n < 2 ^ bit_length n"
proof (induction n rule: bit_length.induct)
  case (1 n)
  show ?case
  proof (cases "n div 2 = 0")
    case True
    with "1.prems" have "n = 1" by auto
    then show ?thesis by (simp add: bit_length.simps)
  next
    case False
    then have "2 ^ (bit_length (n div 2) - 1) \<le> n div 2" "n div 2 < 2 ^ bit_length (n div 2)"
      using "1.IH" "1.prems" by auto
    moreover obtain k where "bit_length (n div 2) = Suc k"
      using False by (metis bit_length.simps)
    ultimately have "2 ^ bit_length (n div 2) \<le> n" "n < 2 * 2 ^ bit_length (n div 2)"
      by simp_all
    then show ?thesis using "1.prems" by (subst (1 2) bit_length.simps) simp
  qed
qed

lemma binade_bounds:
  assumes "0 < x"
  shows "2 powi binade x \<le> x" and "x < 2 powi (binade x + 1)"
proof -
  obtain p q where pq: "quotient_of x = (p, q)" by fastforce
  then have q: "0 < q" and x: "x = of_int p / of_int q"
    by (simp_all add: quotient_of_denom_pos quotient_of_div)
  with assms have p: "0 < p" by (simp add: zero_less_divide_iff)
  define a where "a = bit_length (nat p)"
  define b where "b = bit_length (nat q)"
  have ab: "0 < a" "0 < b" using p q by (simp_all add: a_def b_def bit_length.simps)
  have nats: "2 ^ (a - 1) \<le> nat p" "nat p < 2 ^ a" "2 ^ (b - 1) \<le> nat q" "nat q < 2 ^ b"
    using bit_length_bounds [of "nat p"] bit_length_bounds [of "nat q"] p q
    by (simp_all add: a_def b_def)
  have ints: "2 ^ (a - 1) \<le> p" "p < 2 ^ a" "2 ^ (b - 1) \<le> q" "q < 2 ^ b"
    using nats p q by (simp_all add: le_nat_iff nat_less_iff zless_nat_eq_int_zless)
  have rats: "(2::rat) ^ (a - 1) \<le> of_int p" "of_int p < (2::rat) ^ a"
    "(2::rat) ^ (b - 1) \<le> of_int q" "of_int q < (2::rat) ^ b"
    using ints by (metis of_int_le_iff of_int_less_iff of_int_numeral of_int_power)+
  have powi: "(2::rat) powi (int m - int n) = 2 ^ m / 2 ^ n" for m n
    by (simp add: power_int_diff)
  have "x < 2 ^ a / 2 ^ (b - 1)"
    unfolding x using rats p q by (intro frac_less) (auto intro: less_imp_le)
  also have "\<dots> = 2 powi (int a - int b + 1)"
    using powi [of a "b - 1"] ab by (simp add: of_nat_diff algebra_simps)
  finally have up: "x < 2 powi (int a - int b + 1)" .
  have "2 powi (int a - int b - 1) = (2::rat) ^ (a - 1) / 2 ^ b"
    using powi [of "a - 1" b] ab by (simp add: of_nat_diff algebra_simps)
  also have "\<dots> \<le> x" unfolding x using rats p q by (intro frac_le) auto
  finally have lo: "2 powi (int a - int b - 1) \<le> x" .
  have bin: "binade x = (if 2 powi (int a - int b) \<le> x then int a - int b else int a - int b - 1)"
    by (simp add: binade_def pq a_def b_def Let_def)
  show "2 powi binade x \<le> x" "x < 2 powi (binade x + 1)"
    unfolding bin using up lo by auto
qed

lemma powi_less_iff: "(2::rat) powi a < 2 powi b \<longleftrightarrow> a < b"
  by (metis linorder_less_linear one_less_numeral_iff order_less_asym power_int_strict_increasing
      semiring_norm(76))

lemma binade_mono:
  assumes "0 < x" "x \<le> y"
  shows "binade x \<le> binade y"
proof -
  have "2 powi binade x < (2::rat) powi (binade y + 1)"
    using binade_bounds(1) [of x] binade_bounds(2) [of y] assms by linarith
  then show ?thesis by (simp add: powi_less_iff)
qed

lemma round_positive_exact:
  assumes "x / 2 powi ulp_exponent x = of_int n"
  shows "round_positive x = x"
proof -
  have "round_positive x = x / 2 powi ulp_exponent x * 2 powi ulp_exponent x"
    unfolding round_positive_def Let_def assms round_half_even_of_int ..
  then show ?thesis by simp
qed

lemma powi_diff_int: "b \<le> a \<Longrightarrow> (2::rat) powi a / 2 powi b = of_int (2 ^ nat (a - b))"
  by (subst power_int_diff [symmetric]) (simp_all add: power_int_def)

lemma round_positive_mono:
  assumes "0 < x" "x \<le> y"
  shows "round_positive x \<le> round_positive y"
proof (cases "ulp_exponent x = ulp_exponent y")
  case True
  have "x / 2 powi ulp_exponent x \<le> y / 2 powi ulp_exponent x"
    using assms by (simp add: divide_right_mono)
  then show ?thesis
    using round_half_even_mono by (simp add: round_positive_def Let_def True mult_right_mono)
next
  case False
  let ?B = "(2::rat) powi binade y"
  have le: "binade x \<le> binade y" by (rule binade_mono [OF assms])
  with False have lt: "binade x < binade y" and ey: "ulp_exponent y = binade y - 52"
    and ex: "ulp_exponent x \<le> binade y"
    by (auto simp: ulp_exponent_def)
  have "x < 2 powi (binade x + 1)" using binade_bounds(2) assms by blast
  also have "\<dots> \<le> ?B" using lt by (intro power_int_increasing) auto
  finally have xB: "x \<le> ?B" by simp
  have yB: "?B \<le> y" using binade_bounds(1) assms by auto
  have up: "x / 2 powi ulp_exponent x \<le> ?B / 2 powi ulp_exponent x"
    using xB by (simp add: divide_right_mono)
  have "round_half_even (x / 2 powi ulp_exponent x)
      \<le> round_half_even (?B / 2 powi ulp_exponent x)"
    by (rule round_half_even_mono [OF up])
  then have "of_int (round_half_even (x / 2 powi ulp_exponent x)) \<le> ?B / 2 powi ulp_exponent x"
    unfolding powi_diff_int [OF ex] round_half_even_of_int
    by (metis of_int_le_iff)
  then have "round_positive x \<le> ?B"
    by (simp add: round_positive_def Let_def field_simps)
  moreover have "?B / 2 powi ulp_exponent y \<le> of_int (round_half_even (y / 2 powi ulp_exponent y))"
  proof -
    have e: "?B / 2 powi ulp_exponent y = of_int (2 ^ nat (binade y - ulp_exponent y))"
      by (rule powi_diff_int) (simp add: ey)
    have "?B / 2 powi ulp_exponent y \<le> y / 2 powi ulp_exponent y"
      using yB by (simp add: divide_right_mono)
    from round_half_even_mono [OF this] show ?thesis
      unfolding e round_half_even_of_int by (metis of_int_le_iff)
  qed
  then have "?B \<le> round_positive y"
    by (simp add: round_positive_def Let_def field_simps)
  ultimately show ?thesis by simp
qed

lemma round_positive_nonneg: "0 < x \<Longrightarrow> 0 \<le> round_positive x"
  using round_half_even_mono [of 0 "x / 2 powi ulp_exponent x"]
    round_half_even_of_int [of 0]
  by (simp add: round_positive_def Let_def)

lemma f64_round_0 [simp]: "f64_round 0 = 0"
  by (simp add: f64_round_def)

lemma f64_round_uminus: "f64_round (- x) = - f64_round x"
  by (simp add: f64_round_def)

lemma f64_round_mono:
  assumes "x \<le> y"
  shows "f64_round x \<le> f64_round y"
proof -
  consider "x < 0" "y < 0" | "x < 0" "0 \<le> y" | "x = 0" "0 \<le> y" | "0 < x" using assms by linarith
  then show ?thesis
  proof cases
    case 1
    with round_positive_mono [of "- y" "- x"] assms show ?thesis by (simp add: f64_round_def)
  next
    case 2
    with round_positive_nonneg [of "- x"] round_positive_nonneg [of y] show ?thesis
      by (cases "y = 0") (auto simp: f64_round_def)
  next
    case 3
    with round_positive_nonneg [of y] show ?thesis by (cases "y = 0") (auto simp: f64_round_def)
  next
    case 4
    with round_positive_mono [of x y] assms show ?thesis by (simp add: f64_round_def)
  qed
qed

lemma f64_round_nonneg: "0 \<le> x \<Longrightarrow> 0 \<le> f64_round x"
  using f64_round_mono [of 0 x] by simp

lemma round_positive_of_int:
  assumes "0 < n" "n \<le> 2 ^ 53"
  shows "round_positive (of_int n) = of_int n"
proof (cases "n = 2 ^ 53")
  case True
  have "2 powi binade (2 ^ 53) \<le> (2::rat) ^ 53" "(2::rat) ^ 53 < 2 powi (binade (2 ^ 53) + 1)"
    by (rule binade_bounds; simp)+
  then have "binade (2 ^ 53) < 54" "53 < binade (2 ^ 53) + 1"
    using powi_less_iff [of "binade (2 ^ 53)" 54] powi_less_iff [of 53 "binade (2 ^ 53) + 1"]
    by (simp_all add: power_int_numeral)
  then have "ulp_exponent (2 ^ 53) = 1" by (simp add: ulp_exponent_def)
  then show ?thesis
    by (intro round_positive_exact [where n = "2 ^ 52"]) (simp add: True)
next
  case False
  have "(of_int n :: rat) < 2 ^ 53" using assms False
    by (metis le_imp_less_or_eq of_int_less_iff of_int_numeral of_int_power)
  with binade_bounds(1) [of "of_int n"] assms
  have "2 powi binade (of_int n) < (2::rat) powi 53"
    by (simp add: power_int_numeral)
  then have "binade (of_int n) \<le> 52" by (simp only: powi_less_iff)
  then have e: "ulp_exponent (of_int n) \<le> 0" by (simp add: ulp_exponent_def)
  have "(of_int n :: rat) / 2 powi ulp_exponent (of_int n)
      = of_int (n * 2 ^ nat (- ulp_exponent (of_int n)))"
    using powi_diff_int [OF e] by (simp add: field_simps)
  then show ?thesis by (rule round_positive_exact)
qed

lemma f64_round_of_int:
  assumes "\<bar>n\<bar> \<le> 2 ^ 53"
  shows "f64_round (of_int n) = of_int n"
  using round_positive_of_int [of n] round_positive_of_int [of "- n"] assms
  by (auto simp: f64_round_def)

text \<open>What was rounded once is a machine number: rounding it again changes nothing.\<close>

lemma round_half_even_nonneg: "0 \<le> x \<Longrightarrow> 0 \<le> round_half_even x"
  using round_half_even_mono [of 0 x] round_half_even_of_int [of 0] by simp

lemma ulp_exponent_mono: "0 < x \<Longrightarrow> x \<le> y \<Longrightarrow> ulp_exponent x \<le> ulp_exponent y"
  using binade_mono [of x y] by (simp add: ulp_exponent_def)

lemma ulp_exponent_eq_binade: "binade x = binade y \<Longrightarrow> ulp_exponent x = ulp_exponent y"
  by (simp add: ulp_exponent_def)

lemma binade_unique:
  assumes "2 powi k \<le> x" "x < 2 powi (k + 1)"
  shows "binade x = k"
proof -
  have x: "0 < x" by (rule less_le_trans [OF _ assms(1)]) (simp add: zero_less_power_int)
  have "2 powi k < (2::rat) powi (binade x + 1)" "2 powi binade x < (2::rat) powi (k + 1)"
    using binade_bounds [OF x] assms by simp_all
  then show ?thesis by (simp add: powi_less_iff)
qed

lemma binade_powi [simp]: "binade (2 powi k) = k"
  by (rule binade_unique) (simp_all add: power_int_strict_increasing)

lemma round_positive_multiple:
  assumes "y = of_int n * 2 powi e" "ulp_exponent y \<le> e"
  shows "round_positive y = y"
proof (rule round_positive_exact)
  have "y / 2 powi ulp_exponent y = of_int n * (2 powi e / 2 powi ulp_exponent y)"
    using assms(1) by simp
  also have "\<dots> = of_int (n * 2 ^ nat (e - ulp_exponent y))"
    unfolding powi_diff_int [OF assms(2)] by simp
  finally show "y / 2 powi ulp_exponent y = of_int (n * 2 ^ nat (e - ulp_exponent y))" .
qed

lemma round_positive_0 [simp]: "round_positive 0 = 0"
  by (simp add: round_positive_def Let_def round_half_even_def)

lemma round_positive_idem:
  assumes "0 < x"
  shows "round_positive (round_positive x) = round_positive x"
proof -
  define e where "e = ulp_exponent x"
  define n where "n = round_half_even (x / 2 powi e)"
  define y where "y = round_positive x"
  have y: "y = of_int n * 2 powi e"
    by (simp add: y_def round_positive_def n_def e_def Let_def)
  have n: "0 \<le> n" unfolding n_def by (rule round_half_even_nonneg) (use assms in simp)
  show ?thesis
  proof (cases "n = 0")
    case True
    then have "y = 0" by (simp add: y)
    then show ?thesis unfolding y_def [symmetric] by simp
  next
    case False
    then have n1: "1 \<le> n" using n by simp
    let ?B = "(2::rat) powi (binade x + 1)"
    have "x / 2 powi e \<le> 2 powi (max (binade x + 1) e) / 2 powi e"
    proof (rule divide_right_mono)
      have "x < ?B" using binade_bounds(2) [OF assms] .
      also have "\<dots> \<le> 2 powi (max (binade x + 1) e)" by (rule power_int_increasing) auto
      finally show "x \<le> 2 powi (max (binade x + 1) e)" by simp
    qed simp
    also have "\<dots> = of_int (2 ^ nat (max (binade x + 1) e - e))" by (rule powi_diff_int) simp
    finally have "n \<le> 2 ^ nat (max (binade x + 1) e - e)"
      unfolding n_def using round_half_even_mono round_half_even_of_int by metis
    then have "of_int n \<le> (of_int (2 ^ nat (max (binade x + 1) e - e)) :: rat)"
      by (simp only: of_int_le_iff)
    also have "\<dots> = 2 powi (max (binade x + 1) e) / 2 powi e"
      by (rule powi_diff_int [symmetric]) simp
    finally have yB: "y \<le> 2 powi (max (binade x + 1) e)" by (simp add: y field_simps)
    have ey: "2 powi e \<le> y"
      using n1 mult_right_mono [of 1 "of_int n :: rat" "2 powi e"] by (simp add: y)
    have y0: "0 < y" by (rule less_le_trans [OF _ ey]) (simp add: zero_less_power_int)
    show ?thesis
    proof (cases "y = 2 powi (max (binade x + 1) e)")
      case True
      have "- 1074 \<le> e" by (simp add: e_def ulp_exponent_def)
      then have "ulp_exponent y \<le> max (binade x + 1) e"
        unfolding True ulp_exponent_def by simp
      from round_positive_multiple [OF _ this, of 1] True show ?thesis by (simp add: y_def [symmetric])
    next
      case False
      with yB have lt: "y < 2 powi (max (binade x + 1) e)" by simp
      have "ulp_exponent y \<le> e"
      proof (cases "binade x + 1 \<le> e")
        case True
        then show ?thesis using lt ey by simp
      next
        case False
        then have "y < 2 powi (binade x + 1)" using lt by (simp add: max_def)
        then have "2 powi binade y < (2::rat) powi (binade x + 1)"
          using binade_bounds(1) [OF y0] by linarith
        then have "binade y \<le> binade x" by (simp add: powi_less_iff)
        then show ?thesis by (simp add: e_def ulp_exponent_def)
      qed
      from round_positive_multiple [OF y this] show ?thesis by (simp add: y_def)
    qed
  qed
qed

lemma f64_round_idem [simp]: "f64_round (f64_round x) = f64_round x"
proof -
  have pos: "f64_round (round_positive z) = round_positive z" if "0 < z" for z
    using round_positive_idem [OF that] round_positive_nonneg [OF that]
    by (auto simp: f64_round_def)
  then show ?thesis
    using pos [of x] pos [of "- x"] f64_round_uminus
    by (cases "x < 0"; cases "x = 0") (auto simp: f64_round_def [of x])
qed

subsection \<open>Arithmetic\<close>

definition fadd :: "f64 \<Rightarrow> f64 \<Rightarrow> f64" where "fadd a b = f64_round (a + b)"
definition fsub :: "f64 \<Rightarrow> f64 \<Rightarrow> f64" where "fsub a b = f64_round (a - b)"
definition fmul :: "f64 \<Rightarrow> f64 \<Rightarrow> f64" where "fmul a b = f64_round (a * b)"
definition fdiv :: "f64 \<Rightarrow> f64 \<Rightarrow> f64" where "fdiv a b = f64_round (a / b)"

lemma f64_round_1 [simp]: "f64_round 1 = 1"
  using f64_round_of_int [of 1] by simp

lemma f64_round_of_nat: "n \<le> 2 ^ 53 \<Longrightarrow> f64_round (of_nat n) = of_nat n"
  using f64_round_of_int [of "int n"] by (simp add: numeral_power_le_of_nat_cancel_iff)

lemma fadd_nonneg: "0 \<le> a \<Longrightarrow> 0 \<le> b \<Longrightarrow> 0 \<le> fadd a b"
  by (simp add: fadd_def f64_round_nonneg)

lemma fsub_nonneg: "b \<le> a \<Longrightarrow> 0 \<le> fsub a b"
  by (simp add: fsub_def f64_round_nonneg)

lemma fmul_nonneg: "0 \<le> a \<Longrightarrow> 0 \<le> b \<Longrightarrow> 0 \<le> fmul a b"
  by (simp add: fmul_def f64_round_nonneg)

lemma fdiv_nonneg: "0 \<le> a \<Longrightarrow> 0 \<le> b \<Longrightarrow> 0 \<le> fdiv a b"
  by (simp add: fdiv_def f64_round_nonneg)

text \<open>Taking a whole number from a machine number below \<open>2 ^ 53\<close> does not round.\<close>

definition machine :: "rat \<Rightarrow> bool" where
  "machine x \<longleftrightarrow> f64_round x = x"

lemma machine_round [simp]: "machine (f64_round x)"
  by (simp add: machine_def)

lemma machine_arith [simp]:
  "machine (fadd a b)" "machine (fsub a b)" "machine (fmul a b)" "machine (fdiv a b)"
  by (simp_all add: fadd_def fsub_def fmul_def fdiv_def)

lemma machine_0 [simp]: "machine 0"
  by (simp add: machine_def)

lemma machine_min [intro]: "machine a \<Longrightarrow> machine b \<Longrightarrow> machine (min a b)"
  by (simp add: min_def)

lemma machine_max [intro]: "machine a \<Longrightarrow> machine b \<Longrightarrow> machine (max a b)"
  by (simp add: max_def)

lemma fsub_of_nat:
  assumes "machine t" "of_nat k \<le> t" "t < 2 ^ 53"
  shows "fsub t (of_nat k) = t - of_nat k"
proof (cases "of_nat k = t")
  case True
  then show ?thesis by (simp add: fsub_def)
next
  case False
  with assms(2) have z: "0 < t - of_nat k" by simp
  have t: "0 < t" by (rule le_less_trans [of 0 "of_nat k"]) (use False assms(2) in simp_all)
  let ?e = "ulp_exponent t"
  have "t = round_positive t" using assms(1) t by (simp add: machine_def f64_round_def)
  then obtain n where n: "t = of_int n * 2 powi ?e"
    unfolding round_positive_def Let_def by blast
  have "2 powi binade t < (2::rat) powi 53"
    using binade_bounds(1) [OF t] assms(3) by (simp add: power_int_numeral)
  then have "binade t < 53" by (simp only: powi_less_iff)
  then have e: "?e \<le> 0" by (simp add: ulp_exponent_def)
  have "(1 :: rat) = of_int (2 ^ nat (- ?e)) * 2 powi ?e"
    using powi_diff_int [OF e] by (simp add: field_simps)
  then have "(of_nat k :: rat) = of_int (int k * 2 ^ nat (- ?e)) * 2 powi ?e"
    by (simp add: mult.assoc)
  with n have "t - of_nat k = of_int (n - int k * 2 ^ nat (- ?e)) * 2 powi ?e"
    by (simp only: of_int_diff left_diff_distrib)
  then have "round_positive (t - of_nat k) = t - of_nat k"
    by (rule round_positive_multiple) (rule ulp_exponent_mono [OF z], simp)
  with z show ?thesis by (simp add: fsub_def f64_round_def)
qed

lemma fsub_le: "0 \<le> b \<Longrightarrow> machine a \<Longrightarrow> fsub a b \<le> a"
  using f64_round_mono [of "a - b" a] by (simp add: fsub_def machine_def)

subsection \<open>Decimal rendering\<close>

text \<open>\<open>{:.k}\<close>: the exact value of the float rounded to \<open>k\<close> decimals, half to even.\<close>

definition pad_left :: "nat \<Rightarrow> string \<Rightarrow> string" where
  "pad_left k s = replicate (k - length s) CHR ''0'' @ s"

definition show_fixed :: "nat \<Rightarrow> f64 \<Rightarrow> string" where
  "show_fixed k v =
     (let n = nat (round_half_even (\<bar>v\<bar> * 10 ^ k)) in
      (if v < 0 then ''-'' else '''') @ show_nat (n div 10 ^ k)
      @ (if k = 0 then '''' else ''.'' @ pad_left k (show_nat (n mod 10 ^ k))))"

end
