(* ===== verification/Capability.thy ===== *)
theory Capability imports Rust_Float
begin

section \<open>Capability tokens\<close>

text \<open>
  The authority model of \<open>crates/hx-core/src/capability.rs\<close>: resources, actions, grants with
  their bounds, the token and its check, and the path and host matching underneath.  A grant
  match may panic (a string is sliced inside a character), so the matching functions return
  an option whose \<^const>\<open>None\<close> is the panic, and so does everything built on them.  Instants are
  nanoseconds since the epoch; identifiers are the strings they wrap; the fresh identifier that
  \<open>Capability::new\<close> draws is an argument.
\<close>

datatype resource =
    FsPath (fs_path: string)
  | Host string
  | Sandbox string
  | NetworkHost string
  | Provider string
  | Secret string
  | Process

datatype action = Read | Write | Execute | Connect | Spawn | Delete | Admin

definition is_mutating :: "action \<Rightarrow> bool" where [hx_defs]:
  "is_mutating a \<longleftrightarrow> a \<in> {Write, Delete, Execute, Spawn, Admin}"

record constraints =
  max_bytes :: "nat option"
  budget_usd :: "f64 option"
  con_read_only :: bool
  con_expires_at :: "datetime option"

definition default_constraints :: constraints where [hx_defs]:
  "default_constraints =
     \<lparr>max_bytes = None, budget_usd = None, con_read_only = False, con_expires_at = None\<rparr>"

record capability =
  cap_id :: string
  cap_resource :: resource
  cap_actions :: "action list"
  cap_constraints :: constraints

definition new_capability :: "string \<Rightarrow> resource \<Rightarrow> action list \<Rightarrow> capability" where [hx_defs]:
  "new_capability fresh r acts =
     \<lparr>cap_id = fresh, cap_resource = r, cap_actions = acts,
      cap_constraints = default_constraints\<rparr>"

definition read_only :: "capability \<Rightarrow> capability" where [hx_defs]:
  "read_only c = c\<lparr>cap_constraints := (cap_constraints c)\<lparr>con_read_only := True\<rparr>\<rparr>"

definition with_budget :: "capability \<Rightarrow> f64 \<Rightarrow> capability" where [hx_defs]:
  "with_budget c usd = c\<lparr>cap_constraints := (cap_constraints c)\<lparr>budget_usd := Some usd\<rparr>\<rparr>"

definition with_max_bytes :: "capability \<Rightarrow> nat \<Rightarrow> capability" where [hx_defs]:
  "with_max_bytes c n = c\<lparr>cap_constraints := (cap_constraints c)\<lparr>max_bytes := Some n\<rparr>\<rparr>"

definition workspace :: "string \<Rightarrow> string \<Rightarrow> capability" where [hx_defs]:
  "workspace fresh path = new_capability fresh (FsPath path) [Read, Write, Execute, Delete]"

record request_usage =
  usage_bytes :: "nat option"
  usage_spend :: "f64 option"

definition no_usage :: request_usage where [hx_defs]:
  "no_usage = \<lparr>usage_bytes = None, usage_spend = None\<rparr>"

definition bytes_usage :: "nat \<Rightarrow> request_usage" where [hx_defs]:
  "bytes_usage n = \<lparr>usage_bytes = Some n, usage_spend = None\<rparr>"

definition spend_usage :: "f64 \<Rightarrow> request_usage" where [hx_defs]:
  "spend_usage usd = \<lparr>usage_bytes = None, usage_spend = Some usd\<rparr>"

record capability_token =
  subject :: string
  grants :: "capability list"
  issued_at :: datetime
  tok_expires_at :: datetime

definition issue :: "string \<Rightarrow> capability list \<Rightarrow> datetime \<Rightarrow> int \<Rightarrow> capability_token" where [hx_defs]:
  "issue sub gs now ttl_secs =
     \<lparr>subject = sub, grants = gs, issued_at = now, tok_expires_at = now + ttl_secs * 1000000000\<rparr>"

datatype deny_reason =
    NoMatchingGrant
  | ActionNotGranted "action list"
  | ReadOnly
  | TokenExpired
  | GrantExpired
  | UnsafePath string
  | TooLarge nat nat
  | BudgetExceeded f64 f64
  | SymlinkEscape string

datatype decision = Allow | Deny deny_reason

definition decision_allowed :: "decision \<Rightarrow> bool" where [hx_defs]:
  "decision_allowed d \<longleftrightarrow> d = Allow"

subsection \<open>Paths\<close>

definition is_absolute_path :: "string \<Rightarrow> bool" where [hx_defs]:
  "is_absolute_path p \<longleftrightarrow>
     starts_with p ''/''
   \<or> (3 \<le> length p \<and> is_ascii_alphabetic (p ! 0) \<and> p ! 1 = CHR '':''
       \<and> (p ! 2 = CHR 0x5C \<or> p ! 2 = CHR ''/''))
   \<or> starts_with p [CHR 0x5C, CHR 0x5C] \<or> starts_with p ''//''"

definition is_windows_drive_path :: "string \<Rightarrow> bool" where [hx_defs]:
  "is_windows_drive_path s \<longleftrightarrow>
     3 \<le> length s \<and> is_ascii_alphabetic (s ! 0) \<and> s ! 1 = CHR '':'' \<and> s ! 2 = CHR ''/''"

definition normalize_path :: "string \<Rightarrow> string" where [hx_defs]:
  "normalize_path p =
     (let trimmed = trim p in
      if trimmed = [] then ''/''
      else let s = replace_char (CHR 0x5C) (CHR ''/'') trimmed in
        if is_windows_drive_path s
        then pop_while 3 (CHR ''/'') (ascii_upper (hd s) # tl s)
        else let s' = pop_while 1 (CHR ''/'') s in
          if starts_with s' ''/'' then s' else CHR ''/'' # s')"

definition has_parent_component :: "string \<Rightarrow> bool" where [hx_defs]:
  "has_parent_component p \<longleftrightarrow>
     ''..'' \<in> set (split_on (CHR ''/'') (replace_char (CHR 0x5C) (CHR ''/'') p))"

text \<open>\<open>r[..2]\<close> panics where byte 2 is inside a character.\<close>

definition path_grant_covers :: "string \<Rightarrow> string \<Rightarrow> bool option" where [hx_defs]:
  "path_grant_covers granted requested =
     (let g_raw = trim granted; r_raw = trim requested in
      if g_raw = [] \<or> r_raw = [] then Some False
      else if \<not> is_absolute_path g_raw \<or> \<not> is_absolute_path r_raw then Some False
      else let g = normalize_path g_raw; r = normalize_path r_raw in
        if g = ''/'' then Some True
        else if length g = 3 \<and> ends_with g '':/'' then
          (if 3 \<le> length r then
             (if is_char_boundary r 2 \<and> is_char_boundary g 2
              then Some (eq_ignore_ascii_case (take 2 r) (take 2 g)) else None)
           else Some False)
        else Some (r = g \<or> starts_with r (g @ ''/'')))"

subsection \<open>Symlink resolution\<close>

text \<open>
  \<open>std::path\<close> on Unix: a path is read as its components; \<open>file_name\<close> is the last one where it is
  a normal name, \<open>parent\<close> drops the last one.  \<open>std::fs::canonicalize\<close> asks the file system, so it
  is the argument \<open>canon\<close>.
\<close>

datatype component = RootDir | CurDir | ParentDir | Normal string

definition component_of :: "string \<Rightarrow> component" where [hx_defs]:
  "component_of w = (if w = ''..'' then ParentDir else if w = ''.'' then CurDir else Normal w)"

definition components :: "string \<Rightarrow> component list" where [hx_defs]:
  "components p =
     (let ws = split_on (CHR ''/'') p;
          body = map component_of (filter (\<lambda>w. w \<noteq> [] \<and> w \<noteq> ''.'') ws)
      in if starts_with p ''/'' then RootDir # body
         else if p \<noteq> [] \<and> hd ws = ''.'' then CurDir # body
         else body)"

fun component_text :: "component \<Rightarrow> string" where
  "component_text RootDir = []"
| "component_text CurDir = ''.''"
| "component_text ParentDir = ''..''"
| "component_text (Normal w) = w"

definition render_components :: "component list \<Rightarrow> string" where [hx_defs]:
  "render_components cs = (if cs = [RootDir] then ''/'' else join ''/'' (map component_text cs))"

definition push_path :: "string \<Rightarrow> string \<Rightarrow> string" where [hx_defs]:
  "push_path base w = (if base = [] \<or> ends_with base ''/'' then base @ w else base @ ''/'' @ w)"

text \<open>The climb to the nearest ancestor that resolves; the directory is kept reversed, the tail in
  the order it is joined back on.\<close>

fun climb :: "(string \<Rightarrow> string option) \<Rightarrow> component list \<Rightarrow> string list \<Rightarrow> string option" where
  "climb canon [] tail = None"
| "climb canon (c # rest) tail =
     (case canon (render_components (rev (c # rest))) of
        Some resolved \<Rightarrow> Some (foldl push_path resolved tail)
      | None \<Rightarrow>
          (if c = RootDir then None
           else climb canon rest (case c of Normal w \<Rightarrow> w # tail | _ \<Rightarrow> tail)))"

definition canonicalize_for_check :: "(string \<Rightarrow> string option) \<Rightarrow> string \<Rightarrow> string option" where [hx_defs]:
  "canonicalize_for_check canon requested =
     (case canon requested of
        Some canonical \<Rightarrow> Some canonical
      | None \<Rightarrow>
          (case rev (components requested) of
             Normal name # rest \<Rightarrow> climb canon rest [name]
           | _ \<Rightarrow> None))"

definition path_grant_covers_canonical ::
  "(string \<Rightarrow> string option) \<Rightarrow> string \<Rightarrow> string \<Rightarrow> bool option" where [hx_defs]:
  "path_grant_covers_canonical canon granted requested_canonical =
     (case canonicalize_for_check canon granted of
        Some canonical_grant \<Rightarrow> path_grant_covers canonical_grant requested_canonical
      | None \<Rightarrow> path_grant_covers granted requested_canonical)"

subsection \<open>Hosts and the match on resources\<close>

definition host_grant_covers :: "string \<Rightarrow> string \<Rightarrow> bool" where [hx_defs]:
  "host_grant_covers granted requested =
     (let g = to_ascii_lowercase (trim granted); r = to_ascii_lowercase (trim requested) in
      if g = ''*'' then True
      else case g of
          CHR ''*'' # suffix \<Rightarrow> ends_with r suffix \<and> length suffix < length r
        | _ \<Rightarrow> g = r)"

fun resource_matches :: "resource \<Rightarrow> resource \<Rightarrow> bool option" where
  "resource_matches (FsPath g) (FsPath r) = path_grant_covers g r"
| "resource_matches (Host g) (Host r) = Some (g = r)"
| "resource_matches (Sandbox g) (Sandbox r) = Some (g = r)"
| "resource_matches (Provider g) (Provider r) = Some (g = r)"
| "resource_matches (NetworkHost g) (NetworkHost r) = Some (host_grant_covers g r)"
| "resource_matches (Secret g) (Secret r) = Some (g = ''*'' \<or> g = r)"
| "resource_matches Process Process = Some True"
| "resource_matches _ _ = Some False"

subsection \<open>The check\<close>

text \<open>One pass over a matching grant: \<^const>\<open>None\<close> where the grant allows the call, otherwise the
  refusal that \<open>best\<close> is set to.  \<open>grant_live\<close> is the part of it that \<open>max_bytes_for\<close>
  repeats.\<close>

definition grant_lapsed :: "capability \<Rightarrow> datetime \<Rightarrow> bool" where [hx_defs]:
  "grant_lapsed g now =
     (case con_expires_at (cap_constraints g) of Some e \<Rightarrow> e \<le> now | None \<Rightarrow> False)"

definition grant_refusal ::
  "capability \<Rightarrow> action \<Rightarrow> datetime \<Rightarrow> request_usage \<Rightarrow> deny_reason option" where [hx_defs]:
  "grant_refusal g act now usage =
     (let c = cap_constraints g;
          too_large = (case (max_bytes c, usage_bytes usage) of
              (Some limit, Some actual) \<Rightarrow>
                if limit < actual then Some (TooLarge limit actual) else None
            | _ \<Rightarrow> None);
          too_dear = (case (budget_usd c, usage_spend usage) of
              (Some limit, Some spent) \<Rightarrow>
                if limit < spent then Some (BudgetExceeded limit spent) else None
            | _ \<Rightarrow> None)
      in if grant_lapsed g now then Some GrantExpired
         else if act \<notin> set (cap_actions g) then Some (ActionNotGranted (cap_actions g))
         else if con_read_only c \<and> is_mutating act then Some ReadOnly
         else if too_large \<noteq> None then too_large
         else too_dear)"

fun check_loop ::
  "action \<Rightarrow> datetime \<Rightarrow> request_usage \<Rightarrow> deny_reason option \<Rightarrow> capability list \<Rightarrow> decision" where
  "check_loop act now usage best [] =
     Deny (case best of None \<Rightarrow> NoMatchingGrant | Some r \<Rightarrow> r)"
| "check_loop act now usage best (g # gs) =
     (case grant_refusal g act now usage of
        None \<Rightarrow> Allow
      | Some r \<Rightarrow> check_loop act now usage (Some r) gs)"

definition unsafe_path :: "resource \<Rightarrow> bool" where [hx_defs]:
  "unsafe_path r = (case r of FsPath p \<Rightarrow> has_parent_component p | _ \<Rightarrow> False)"

definition check_with_usage ::
  "capability_token \<Rightarrow> resource \<Rightarrow> action \<Rightarrow> datetime \<Rightarrow> request_usage \<Rightarrow> decision option" where [hx_defs]:
  "check_with_usage tok r act now usage =
     (if tok_expires_at tok \<le> now then Some (Deny TokenExpired)
      else if unsafe_path r then Some (Deny (UnsafePath (fs_path r)))
      else (case filter_opt (\<lambda>g. resource_matches (cap_resource g) r) (grants tok) of
          None \<Rightarrow> None
        | Some matching \<Rightarrow>
            Some (if matching = [] then Deny NoMatchingGrant
                  else check_loop act now usage None matching)))"

definition check :: "capability_token \<Rightarrow> resource \<Rightarrow> action \<Rightarrow> datetime \<Rightarrow> decision option" where [hx_defs]:
  "check tok r act now = check_with_usage tok r act now no_usage"

subsection \<open>The bounds the loop enforces later\<close>

record cap_search =
  seen_allow :: bool
  best_cap :: "nat option"
  unbounded :: bool

definition cap_step :: "action \<Rightarrow> datetime \<Rightarrow> capability \<Rightarrow> cap_search \<Rightarrow> cap_search" where [hx_defs]:
  "cap_step act now g s =
     (if grant_lapsed g now then s
      else if act \<notin> set (cap_actions g) then s
      else if con_read_only (cap_constraints g) \<and> is_mutating act then s
      else (case max_bytes (cap_constraints g) of
          None \<Rightarrow> s\<lparr>seen_allow := True, unbounded := True\<rparr>
        | Some l \<Rightarrow> s\<lparr>seen_allow := True, best_cap := opt_max (best_cap s) l\<rparr>))"

definition max_bytes_for ::
  "capability_token \<Rightarrow> resource \<Rightarrow> action \<Rightarrow> datetime \<Rightarrow> nat option option" where [hx_defs]:
  "max_bytes_for tok r act now =
     (if tok_expires_at tok \<le> now then Some None
      else if unsafe_path r then Some None
      else map_option
        (\<lambda>matching.
           let s = fold (cap_step act now) matching
                     \<lparr>seen_allow = False, best_cap = None, unbounded = False\<rparr>
           in if \<not> seen_allow s \<or> unbounded s then None else best_cap s)
        (filter_opt (\<lambda>g. resource_matches (cap_resource g) r) (grants tok)))"

definition is_provider :: "resource \<Rightarrow> bool" where [hx_defs]:
  "is_provider r = (case r of Provider _ \<Rightarrow> True | _ \<Rightarrow> False)"

text \<open>The result of the loop: the early return of \<open>?\<close> is \<^const>\<open>None\<close>, and so is the end where
  no provider grant was seen.\<close>

fun provider_budget_loop :: "bool \<Rightarrow> f64 option \<Rightarrow> capability list \<Rightarrow> f64 option" where
  "provider_budget_loop seen best [] = (if seen then best else None)"
| "provider_budget_loop seen best (g # gs) =
     (if \<not> is_provider (cap_resource g) then provider_budget_loop seen best gs
      else (case budget_usd (cap_constraints g) of
          None \<Rightarrow> None
        | Some limit \<Rightarrow> provider_budget_loop True (opt_max best limit) gs))"

definition provider_budget_usd :: "capability_token \<Rightarrow> f64 option" where [hx_defs]:
  "provider_budget_usd tok = provider_budget_loop False None (grants tok)"

subsection \<open>The check allows exactly what a live grant covers\<close>

text \<open>What a grant permits, without the order in which the code looks.\<close>

definition grant_permits :: "capability \<Rightarrow> action \<Rightarrow> datetime \<Rightarrow> request_usage \<Rightarrow> bool" where
  "grant_permits g act now usage \<longleftrightarrow>
     \<not> grant_lapsed g now \<and> act \<in> set (cap_actions g)
   \<and> \<not> (con_read_only (cap_constraints g) \<and> is_mutating act)
   \<and> (\<forall>limit b. max_bytes (cap_constraints g) = Some limit \<longrightarrow> usage_bytes usage = Some b \<longrightarrow> b \<le> limit)
   \<and> (\<forall>limit usd. budget_usd (cap_constraints g) = Some limit \<longrightarrow> usage_spend usage = Some usd \<longrightarrow>
        usd \<le> limit)"

definition covers_resource :: "resource \<Rightarrow> capability \<Rightarrow> bool" where
  "covers_resource r g \<longleftrightarrow> resource_matches (cap_resource g) r = Some True"

definition check_panics :: "capability_token \<Rightarrow> resource \<Rightarrow> bool" where
  "check_panics tok r \<longleftrightarrow> (\<exists>g \<in> set (grants tok). resource_matches (cap_resource g) r = None)"

lemma grant_refusal_None: "grant_refusal g act now u = None \<longleftrightarrow> grant_permits g act now u"
  unfolding grant_refusal_def grant_permits_def Let_def
  by (auto split: option.splits if_splits)

lemma check_loop_Allow:
  "check_loop act now u best gs = Allow \<longleftrightarrow> (\<exists>g \<in> set gs. grant_permits g act now u)"
  by (induction gs arbitrary: best) (auto simp: grant_refusal_None [symmetric] split: option.splits)

lemma matching_grants:
  "filter_opt (\<lambda>g. resource_matches (cap_resource g) r) gs =
     (if \<exists>g \<in> set gs. resource_matches (cap_resource g) r = None then None
      else Some (filter (covers_resource r) gs))"
  by (simp add: filter_opt_eq covers_resource_def [abs_def])

lemma check_with_usage_eq:
  "check_with_usage tok r act now u =
     (if tok_expires_at tok \<le> now then Some (Deny TokenExpired)
      else if unsafe_path r then Some (Deny (UnsafePath (fs_path r)))
      else if check_panics tok r then None
      else Some (check_loop act now u None (filter (covers_resource r) (grants tok))))"
  unfolding check_with_usage_def matching_grants check_panics_def by auto

lemma check_Allow_iff:
  "check_with_usage tok r act now u = Some Allow \<longleftrightarrow>
     now < tok_expires_at tok \<and> \<not> unsafe_path r \<and> \<not> check_panics tok r
   \<and> (\<exists>g \<in> set (grants tok). covers_resource r g \<and> grant_permits g act now u)"
  unfolding check_with_usage_eq by (auto simp: check_loop_Allow)

text \<open>C10. The token check is an authority check: it allows a request exactly if the token is live, the
  path cannot climb, and some grant that covers the resource permits the action with the stated
  usage.  In particular the order of the grants does not matter.\<close>

theorem check_allows_iff:
  "check_with_usage tok r act now u = Some Allow \<longleftrightarrow>
     now < tok_expires_at tok \<and> \<not> unsafe_path r \<and> \<not> check_panics tok r
   \<and> (\<exists>g. g \<in> set (grants tok) \<and> covers_resource r g \<and> grant_permits g act now u)"
  using check_Allow_iff by blast

text \<open>Authority is the union of the grants: a token that holds more grants allows whatever the
  smaller token allows, unless matching one of the extra grants panics.  A tighter grant never
  narrows a wider one.\<close>

theorem check_union:
  assumes "check_with_usage tok r act now u = Some Allow"
    and "set (grants tok) \<subseteq> set gs"
    and "\<not> check_panics (tok\<lparr>grants := gs\<rparr>) r"
  shows "check_with_usage (tok\<lparr>grants := gs\<rparr>) r act now u = Some Allow"
  using assms by (auto simp: check_Allow_iff)

theorem check_union_witness:
  "check_with_usage
     (issue ''a'' [read_only (workspace ''c1'' ''/w''), workspace ''c2'' ''/w''] 0 60)
     (FsPath ''/w/f'') Write 5 no_usage = Some Allow"
proof -
  let ?tok = "issue ''a'' [workspace ''c2'' ''/w''] 0 60"
  let ?gs = "[read_only (workspace ''c1'' ''/w''), workspace ''c2'' ''/w'']"
  have "check_with_usage (?tok\<lparr>grants := ?gs\<rparr>) (FsPath ''/w/f'') Write 5 no_usage = Some Allow"
    by (rule check_union; code_simp)
  then show ?thesis by (simp add: issue_def)
qed

subsection \<open>The byte cap agrees with the check\<close>

definition grant_active :: "capability \<Rightarrow> action \<Rightarrow> datetime \<Rightarrow> bool" where
  "grant_active g act now \<longleftrightarrow>
     \<not> grant_lapsed g now \<and> act \<in> set (cap_actions g)
   \<and> \<not> (con_read_only (cap_constraints g) \<and> is_mutating act)"

lemma grant_permits_bytes:
  "grant_permits g act now (bytes_usage b) \<longleftrightarrow>
     grant_active g act now
   \<and> (case max_bytes (cap_constraints g) of None \<Rightarrow> True | Some l \<Rightarrow> b \<le> l)"
  by (auto simp: grant_permits_def grant_active_def bytes_usage_def split: option.splits)

lemma grant_permits_none: "grant_permits g act now no_usage \<longleftrightarrow> grant_active g act now"
  by (auto simp: grant_permits_def grant_active_def no_usage_def)

definition fits :: "nat \<Rightarrow> nat option \<Rightarrow> bool" where
  "fits b cap \<longleftrightarrow> (\<exists>l. cap = Some l \<and> b \<le> l)"

lemma fits_None [simp]: "\<not> fits b None"
  by (simp add: fits_def)

lemma fits_opt_max [simp]: "fits b (opt_max cap l) \<longleftrightarrow> fits b cap \<or> b \<le> l"
  by (auto simp: fits_def opt_max_def le_max_iff_disj split: option.splits)

lemma cap_step_fields:
  "seen_allow (cap_step act now g s) \<longleftrightarrow> seen_allow s \<or> grant_active g act now"
  "unbounded (cap_step act now g s) \<longleftrightarrow>
     unbounded s \<or> grant_active g act now \<and> max_bytes (cap_constraints g) = None"
  "fits b (best_cap (cap_step act now g s)) \<longleftrightarrow>
     fits b (best_cap s) \<or> grant_active g act now \<and> fits b (max_bytes (cap_constraints g))"
  by (auto simp: cap_step_def grant_active_def fits_def [of b "Some _"] fits_def [of b None]
      split: option.splits)

lemma fold_cap_step:
  "seen_allow (fold (cap_step act now) gs s) \<longleftrightarrow>
     seen_allow s \<or> (\<exists>g \<in> set gs. grant_active g act now)"
  "unbounded (fold (cap_step act now) gs s) \<longleftrightarrow>
     unbounded s
   \<or> (\<exists>g \<in> set gs. grant_active g act now \<and> max_bytes (cap_constraints g) = None)"
  "fits b (best_cap (fold (cap_step act now) gs s)) \<longleftrightarrow>
     fits b (best_cap s)
   \<or> (\<exists>g \<in> set gs. grant_active g act now \<and> fits b (max_bytes (cap_constraints g)))"
  by (induction gs arbitrary: s) (auto simp: cap_step_fields)

lemma bytes_bound_exact:
  "check_with_usage tok r act now (bytes_usage b) = Some Allow \<longleftrightarrow>
     check tok r act now = Some Allow
   \<and> (case max_bytes_for tok r act now of Some (Some cap) \<Rightarrow> b \<le> cap | _ \<Rightarrow> True)"
proof (cases "now < tok_expires_at tok \<and> \<not> unsafe_path r \<and> \<not> check_panics tok r")
  case False
  then show ?thesis by (auto simp: check_def check_Allow_iff)
next
  case True
  let ?M = "filter (covers_resource r) (grants tok)"
  let ?s = "fold (cap_step act now) ?M \<lparr>seen_allow = False, best_cap = None, unbounded = False\<rparr>"
  let ?act = "\<lambda>g. g \<in> set ?M \<and> grant_active g act now"
  have mb: "max_bytes_for tok r act now =
      Some (if \<not> seen_allow ?s \<or> unbounded ?s then None else best_cap ?s)"
    using True unfolding max_bytes_for_def matching_grants check_panics_def
    by (auto simp: Let_def)
  have seen: "seen_allow ?s \<longleftrightarrow> (\<exists>g. ?act g)"
    and free: "unbounded ?s \<longleftrightarrow> (\<exists>g. ?act g \<and> max_bytes (cap_constraints g) = None)"
    and best: "\<And>n. fits n (best_cap ?s) \<longleftrightarrow>
      (\<exists>g. ?act g \<and> fits n (max_bytes (cap_constraints g)))"
    by (auto simp: fold_cap_step)
  have l: "check_with_usage tok r act now (bytes_usage b) = Some Allow \<longleftrightarrow>
      unbounded ?s \<or> fits b (best_cap ?s)"
    using True unfolding check_Allow_iff grant_permits_bytes free best
    by (auto simp: fits_def split: option.splits)
  have c: "check tok r act now = Some Allow \<longleftrightarrow> seen_allow ?s"
    using True unfolding check_def check_Allow_iff grant_permits_none seen by auto
  have some: "\<exists>cap. best_cap ?s = Some cap" if "seen_allow ?s" "\<not> unbounded ?s"
    using that best [of 0] unfolding seen free by (auto simp: fits_def)
  have none: "\<not> fits b (best_cap ?s)" "\<not> unbounded ?s" if "\<not> seen_allow ?s"
    using that unfolding seen best free by blast+
  show ?thesis
  proof (cases "seen_allow ?s \<and> \<not> unbounded ?s")
    case True
    then obtain cap where "best_cap ?s = Some cap" using some by blast
    with True show ?thesis unfolding l c mb by (simp add: fits_def)
  next
    case False
    with none show ?thesis unfolding l c mb by auto
  qed
qed

text \<open>\<open>max_bytes_for\<close> is the exact byte bound of the check: a call that states a size is
  allowed if and only if the call with no size stated is allowed and the size is within the cap
  (or there is no cap), for every token, resource, action and instant.\<close>

theorem max_bytes_for_exact:
  "check_with_usage tok r act now (bytes_usage b) = Some Allow \<longleftrightarrow>
     check tok r act now = Some Allow
   \<and> (case max_bytes_for tok r act now of Some (Some cap) \<Rightarrow> b \<le> cap | _ \<Rightarrow> True)"
  by (rule bytes_bound_exact)

subsection \<open>A path grant covers its subtree and nothing beside it\<close>

definition drive_root :: "string \<Rightarrow> bool" where
  "drive_root g \<longleftrightarrow> length g = 3 \<and> ends_with g '':/''"

text \<open>C30. Containment is decided component by component: for absolute paths, a grant that is
  neither the root nor a drive root covers a path if and only if the components of the normalized
  grant are a prefix of the components of the normalized path.  So a grant on \<open>/workspace/a\<close>
  does not leak into \<open>/workspace/ab\<close>, and no such match panics.\<close>

theorem path_grant_covers_components:
  assumes "is_absolute_path (trim granted)" and "is_absolute_path (trim requested)"
    and "normalize_path (trim granted) \<noteq> ''/''" and "\<not> drive_root (normalize_path (trim granted))"
  shows "path_grant_covers granted requested =
    Some (\<exists>rest. split_on (CHR ''/'') (normalize_path (trim requested)) =
                 split_on (CHR ''/'') (normalize_path (trim granted)) @ rest)"
proof -
  have "trim granted \<noteq> []" "trim requested \<noteq> []"
    using assms(1,2) by (auto simp: is_absolute_path_def starts_with_def)
  with assms show ?thesis
    by (auto simp: path_grant_covers_def Let_def drive_root_def split_on_prefix_iff)
qed

theorem path_grant_covers_components_witness:
  "path_grant_covers ''/workspace/a'' ''/workspace/a/b'' = Some True
 \<and> path_grant_covers ''/workspace/a'' ''/workspace/ab'' = Some False"
proof -
  have h: "is_absolute_path (trim ''/workspace/a'')" "is_absolute_path (trim ''/workspace/ab'')"
    "is_absolute_path (trim ''/workspace/a/b'')"
    "normalize_path (trim ''/workspace/a'') \<noteq> ''/''"
    "\<not> drive_root (normalize_path (trim ''/workspace/a''))"
    unfolding drive_root_def by code_simp+
  have n: "split_on (CHR ''/'') (normalize_path (trim ''/workspace/a'')) = [[], ''workspace'', ''a'']"
    "split_on (CHR ''/'') (normalize_path (trim ''/workspace/ab'')) = [[], ''workspace'', ''ab'']"
    "split_on (CHR ''/'') (normalize_path (trim ''/workspace/a/b'')) =
       [[], ''workspace'', ''a'', ''b'']"
    by code_simp+
  show ?thesis
    using path_grant_covers_components [OF h(1) h(2) h(4,5)]
      path_grant_covers_components [OF h(1) h(3) h(4,5)]
    unfolding n by simp
qed

lemma is_ascii_normalize_path:
  assumes p: "is_ascii p"
  shows "is_ascii (normalize_path p)"
proof -
  let ?s = "replace_char (CHR 0x5C) (CHR ''/'') (trim p)"
  have s: "is_ascii ?s"
    using is_ascii_subset [OF set_trim p] by (rule is_ascii_replace_char) (simp add: byte_def)
  have drive: "is_ascii (pop_while 3 (CHR ''/'') (ascii_upper (hd ?s) # tl ?s))"
    if "is_windows_drive_path ?s"
  proof (rule is_ascii_subset [OF set_pop_while])
    from that have "?s \<noteq> []" by (auto simp: is_windows_drive_path_def)
    then obtain c t where ct: "?s = c # t" by (cases ?s) auto
    show "is_ascii (ascii_upper (hd ?s) # tl ?s)"
      using s unfolding ct by (simp add: byte_ascii_upper)
  qed
  have "is_ascii (pop_while 1 (CHR ''/'') ?s)"
    by (rule is_ascii_subset [OF set_pop_while s])
  with drive show ?thesis
    by (auto simp: normalize_path_def Let_def byte_def)
qed

text \<open>Matching a path grant returns (it does not panic) for every ASCII request and grant.\<close>

theorem path_grant_covers_total:
  assumes "is_ascii requested" and "is_ascii granted"
  shows "\<exists>b. path_grant_covers granted requested = Some b"
proof -
  have "is_ascii (normalize_path (trim requested))" "is_ascii (normalize_path (trim granted))"
    using assms by (auto intro!: is_ascii_normalize_path is_ascii_subset [OF set_trim])
  then have "3 \<le> length (normalize_path (trim requested)) \<Longrightarrow>
      is_char_boundary (normalize_path (trim requested)) 2"
    "length (normalize_path (trim granted)) = 3 \<Longrightarrow>
      is_char_boundary (normalize_path (trim granted)) 2"
    by (auto intro!: is_ascii_boundary)
  then show ?thesis by (auto simp: path_grant_covers_def Let_def)
qed

theorem path_grant_covers_total_witness:
  "\<exists>b. path_grant_covers ''C:/'' ''/home/user/notes.txt'' = Some b"
  by (rule path_grant_covers_total; code_simp)

text \<open>The panic is real: with a grant on a drive root, a request whose second character is not
  ASCII (here a slash and the letter e with an acute accent) is sliced inside that character.\<close>

lemma drive_root_grant_panics:
  "path_grant_covers ''C:/'' [CHR ''/'', CHR 0xC3, CHR 0xA9] = None"
  by code_simp

text \<open>A UNC prefix with no server normalizes to the root, so that grant covers every path.\<close>

lemma bare_unc_grant_is_root:
  "path_grant_covers [CHR 0x5C, CHR 0x5C] ''/etc/shadow'' = Some True"
  by code_simp

text \<open>What follows a leading asterisk need not start with a dot: the wildcard then covers hosts
  outside the domain.\<close>

lemma host_wildcard_without_dot:
  "host_grant_covers ''*example.com'' ''evilexample.com''
 \<and> \<not> host_grant_covers ''*.example.com'' ''evilexample.com''
 \<and> \<not> host_grant_covers ''*.example.com'' ''example.com''"
  by code_simp

subsection \<open>Symlinks above the target are resolved\<close>

lemma climb_resolves:
  assumes "climb canon rdir tail = Some q" and "ParentDir \<notin> set rdir"
    and "CurDir \<notin> set (butlast rdir)"
  shows "\<exists>above names resolved. rev rdir = above @ map Normal names
     \<and> canon (render_components above) = Some resolved \<and> q = foldl push_path resolved (names @ tail)"
  using assms
proof (induction canon rdir tail rule: climb.induct)
  case (1 canon tail)
  then show ?case by simp
next
  case (2 canon c rest tail)
  show ?case
  proof (cases "canon (render_components (rev (c # rest)))")
    case (Some resolved)
    with "2.prems"(1) show ?thesis
      by (intro exI [of _ "rev (c # rest)"] exI [of _ "[]"] exI [of _ resolved]) simp
  next
    case None
    with "2.prems"(1) have nr: "c \<noteq> RootDir" and rest: "rest \<noteq> []"
      by (auto split: if_splits component.splits)
    with "2.prems"(2,3) obtain w where w: "c = Normal w" by (cases c) auto
    with None "2.prems" nr rest have
      "\<exists>above names resolved. rev rest = above @ map Normal names
        \<and> canon (render_components above) = Some resolved \<and> q = foldl push_path resolved (names @ w # tail)"
      using "2.IH" [OF None nr] by (simp split: if_splits)
    then obtain above names resolved where
      "rev rest = above @ map Normal names" "canon (render_components above) = Some resolved"
      "q = foldl push_path resolved (names @ w # tail)" by blast
    with w show ?thesis
      by (intro exI [of _ above] exI [of _ "names @ [w]"] exI [of _ resolved]) simp
  qed
qed

text \<open>Whatever the file system answers, the path that \<open>canonicalize_for_check\<close> hands to the
  containment check is either the file system's own resolution of the request, or the resolution of
  one of its ancestors with the remaining plain names joined back on: no symlink above the target
  is left unresolved, for every request without a parent component.\<close>

theorem canonicalize_for_check_resolves:
  assumes "canonicalize_for_check canon requested = Some q"
    and "ParentDir \<notin> set (components requested)"
  shows "canon requested = Some q
   \<or> (\<exists>above names resolved. components requested = above @ map Normal names \<and> names \<noteq> []
        \<and> canon (render_components above) = Some resolved \<and> q = foldl push_path resolved names)"
proof (cases "canon requested")
  case (Some c)
  with assms(1) show ?thesis by (simp add: canonicalize_for_check_def)
next
  case None
  with assms(1) obtain name rest where nr: "rev (components requested) = Normal name # rest"
    and climb: "climb canon rest [name] = Some q"
    by (auto simp: canonicalize_for_check_def split: list.splits component.splits)
  have comps: "components requested = rev rest @ [Normal name]"
    using nr by (metis rev.simps(2) rev_rev_ident)
  have cur: "CurDir \<notin> set (tl (components requested))"
  proof -
    let ?body = "map component_of
      (filter (\<lambda>w. w \<noteq> [] \<and> w \<noteq> ''.'') (split_on (CHR ''/'') requested))"
    have "CurDir \<notin> set ?body" by (auto simp: component_of_def)
    moreover have "set (tl (components requested)) \<subseteq> set ?body"
      by (cases ?body) (auto simp: components_def Let_def)
    ultimately show ?thesis by blast
  qed
  have "CurDir \<notin> set (butlast rest)"
  proof
    assume "CurDir \<in> set (butlast rest)"
    then have "CurDir \<in> set (tl (rev rest))" by (metis butlast_rev rev_rev_ident set_rev)
    then show False using cur comps by (cases "rev rest") auto
  qed
  moreover have "ParentDir \<notin> set rest" using assms(2) comps by simp
  ultimately obtain above names resolved where
    "rev rest = above @ map Normal names" "canon (render_components above) = Some resolved"
    "q = foldl push_path resolved (names @ [name])"
    using climb_resolves [OF climb] by blast
  with comps show ?thesis
    by (intro disjI2 exI [of _ above] exI [of _ "names @ [name]"] exI [of _ resolved]) simp
qed

theorem canonicalize_for_check_resolves_witness:
  "\<exists>above names resolved. components ''/w/link/new.txt'' = above @ map Normal names \<and> names \<noteq> []
     \<and> [''/w/link'' \<mapsto> ''/etc''] (render_components above) = Some resolved
     \<and> ''/etc/new.txt'' = foldl push_path resolved names"
proof -
  let ?canon = "\<lambda>p. if p = ''/w/link'' then Some ''/etc'' else None"
  have c: "?canon = [''/w/link'' \<mapsto> ''/etc'']" by auto
  have "canonicalize_for_check ?canon ''/w/link/new.txt'' = Some ''/etc/new.txt''"
    and "ParentDir \<notin> set (components ''/w/link/new.txt'')" by code_simp+
  from canonicalize_for_check_resolves [OF this] show ?thesis by (auto simp: c)
qed

end
