(* ===== verification/Risk.thy ===== *)
theory Risk imports Rust_Prelude
begin

section \<open>Risk classes and autonomy levels\<close>

text \<open>
  The two scales of \<open>crates/hx-core/src/approval.rs\<close>: \<open>RiskClass\<close>, how bad an action is, and
  \<open>AutonomyLevel\<close>, the threshold over it, both ordered as the derived \<open>Ord\<close> orders them, and the
  comparisons every policy decision is made of.
\<close>

datatype risk_class = Read | Mutate | External | ThirdParty | Destructive | Privileged

fun risk_rank :: "risk_class \<Rightarrow> nat" where
  "risk_rank Read = 0"
| "risk_rank Mutate = 1"
| "risk_rank External = 2"
| "risk_rank ThirdParty = 3"
| "risk_rank Destructive = 4"
| "risk_rank Privileged = 5"

lemma risk_rank_inj [simp]: "risk_rank a = risk_rank b \<longleftrightarrow> a = b"
  by (cases a; cases b) auto

instantiation risk_class :: linorder
begin

definition less_eq_risk_class :: "risk_class \<Rightarrow> risk_class \<Rightarrow> bool" where
  "less_eq_risk_class a b \<longleftrightarrow> risk_rank a \<le> risk_rank b"

definition less_risk_class :: "risk_class \<Rightarrow> risk_class \<Rightarrow> bool" where
  "less_risk_class a b \<longleftrightarrow> risk_rank a < risk_rank b"

instance
  by standard (auto simp: less_eq_risk_class_def less_risk_class_def)

end

lemma risk_le_simps [simp]:
  "Read \<le> r" "r \<le> Privileged"
  "r \<le> Read \<longleftrightarrow> r = Read" "Privileged \<le> r \<longleftrightarrow> r = Privileged"
  "\<not> r < Read" "\<not> Privileged < r"
  "r < Mutate \<longleftrightarrow> r = Read"
  by (cases r; simp add: less_eq_risk_class_def less_risk_class_def)+

lemma Mutate_le_iff: "Mutate \<le> r \<longleftrightarrow> r \<noteq> Read"
  by (cases r) (auto simp: less_eq_risk_class_def)

lemmas risk_order = less_eq_risk_class_def less_risk_class_def

fun risk_label :: "risk_class \<Rightarrow> string" where
  "risk_label Read = ''read''"
| "risk_label Mutate = ''mutate''"
| "risk_label External = ''external''"
| "risk_label ThirdParty = ''third_party''"
| "risk_label Destructive = ''destructive''"
| "risk_label Privileged = ''privileged''"

fun blurb :: "risk_class \<Rightarrow> string" where
  "blurb Read = ''reads only '' @ em_dash @ '' nothing is changed''"
| "blurb Mutate = ''changes files in the workspace''"
| "blurb External = ''sends data outside this machine''"
| "blurb ThirdParty = ''runs a program the operator did not write''"
| "blurb Destructive = ''cannot be undone''"
| "blurb Privileged = ''elevates privileges or touches credentials''"

definition covers :: "risk_class \<Rightarrow> risk_class \<Rightarrow> bool" where [hx_defs]:
  "covers ceiling risk \<longleftrightarrow> risk \<le> ceiling"

subsection \<open>Classifications\<close>

record classification =
  risk :: risk_class
  reason :: string

definition classified :: "risk_class \<Rightarrow> string \<Rightarrow> classification" where [hx_defs]:
  "classified r why = \<lparr>risk = r, reason = why\<rparr>"

definition higher :: "classification \<Rightarrow> classification \<Rightarrow> classification" where [hx_defs]:
  "higher self other = (if risk self < risk other then other else self)"

lemma risk_classified [simp]: "risk (classified r why) = r"
  by (simp add: classified_def)

lemma risk_higher [simp]: "risk (higher a b) = max (risk a) (risk b)"
  by (auto simp: higher_def)

subsection \<open>Autonomy levels\<close>

datatype autonomy_level = Paranoid | Cautious | Balanced | Trusting | Yolo

fun level_rank :: "autonomy_level \<Rightarrow> nat" where
  "level_rank Paranoid = 0"
| "level_rank Cautious = 1"
| "level_rank Balanced = 2"
| "level_rank Trusting = 3"
| "level_rank Yolo = 4"

lemma level_rank_inj [simp]: "level_rank a = level_rank b \<longleftrightarrow> a = b"
  by (cases a; cases b) auto

instantiation autonomy_level :: linorder
begin

definition less_eq_autonomy_level :: "autonomy_level \<Rightarrow> autonomy_level \<Rightarrow> bool" where
  "less_eq_autonomy_level a b \<longleftrightarrow> level_rank a \<le> level_rank b"

definition less_autonomy_level :: "autonomy_level \<Rightarrow> autonomy_level \<Rightarrow> bool" where
  "less_autonomy_level a b \<longleftrightarrow> level_rank a < level_rank b"

instance
  by standard (auto simp: less_eq_autonomy_level_def less_autonomy_level_def)

end

lemmas level_order = less_eq_autonomy_level_def less_autonomy_level_def

fun threshold :: "autonomy_level \<Rightarrow> risk_class option" where
  "threshold Paranoid = Some Read"
| "threshold Cautious = Some Mutate"
| "threshold Balanced = Some External"
| "threshold Trusting = Some Destructive"
| "threshold Yolo = None"

definition auto_allows :: "autonomy_level \<Rightarrow> risk_class \<Rightarrow> bool" where [hx_defs]:
  "auto_allows l r = (case threshold l of Some t \<Rightarrow> r < t | None \<Rightarrow> True)"

fun level_label :: "autonomy_level \<Rightarrow> string" where
  "level_label Paranoid = ''paranoid''"
| "level_label Cautious = ''cautious''"
| "level_label Balanced = ''balanced''"
| "level_label Trusting = ''trusting''"
| "level_label Yolo = ''yolo''"

fun level_describe :: "autonomy_level \<Rightarrow> string" where
  "level_describe Paranoid = ''asks before every action, including reads''"
| "level_describe Cautious = ''asks before anything that changes state''"
| "level_describe Balanced = ''asks before anything leaving the machine, or worse''"
| "level_describe Trusting = ''asks only for irreversible or privileged actions''"
| "level_describe Yolo = ''never asks in this chat''"

definition level_names :: "string list" where [hx_defs]:
  "level_names = [''paranoid'', ''cautious'', ''balanced'', ''trusting'', ''yolo'']"

definition parse_level :: "string \<Rightarrow> autonomy_level option" where [hx_defs]:
  "parse_level s =
     (let w = to_lowercase (trim s) in
      if w \<in> {''paranoid'', ''ask''} then Some Paranoid
      else if w \<in> {''cautious'', ''careful''} then Some Cautious
      else if w \<in> {''balanced'', ''default''} then Some Balanced
      else if w \<in> {''trusting'', ''auto'', ''auto-edit''} then Some Trusting
      else if w \<in> {''yolo'', ''full-auto'', ''none''} then Some Yolo
      else None)"

fun tighten :: "autonomy_level \<Rightarrow> autonomy_level" where
  "tighten Paranoid = Paranoid"
| "tighten Cautious = Paranoid"
| "tighten Balanced = Cautious"
| "tighten Trusting = Balanced"
| "tighten Yolo = Trusting"

subsection \<open>The scales agree\<close>

text \<open>Autonomy is monotone: a level is above another exactly if it auto-allows everything the
  other does, what a level allows is closed under less severe risks, and tightening only takes
  permissions away.\<close>

lemma level_le_iff: "l \<le> l' \<longleftrightarrow> (\<forall>r. auto_allows l r \<longrightarrow> auto_allows l' r)"
proof
  assume "l \<le> l'"
  then show "\<forall>r. auto_allows l r \<longrightarrow> auto_allows l' r"
    by (cases l; cases l'; simp add: auto_allows_def risk_order level_order)
next
  assume h: "\<forall>r. auto_allows l r \<longrightarrow> auto_allows l' r"
  from h [rule_format, of Read] h [rule_format, of Mutate] h [rule_format, of External]
    h [rule_format, of Privileged]
  show "l \<le> l'"
    by (cases l; cases l'; simp add: auto_allows_def risk_order level_order)
qed

lemma auto_allows_less_severe: "auto_allows l r \<Longrightarrow> r' \<le> r \<Longrightarrow> auto_allows l r'"
  by (auto simp: auto_allows_def split: option.splits)

lemma tighten_le: "tighten l \<le> l"
  by (cases l) (auto simp: level_order)

lemma auto_allows_tighten: "auto_allows (tighten l) r \<Longrightarrow> auto_allows l r"
  using tighten_le level_le_iff by blast

lemma tighten_tighten_tighten_tighten: "tighten (tighten (tighten (tighten l))) = Paranoid"
  by (cases l) auto

lemma balanced_prompts_third_party: "\<not> auto_allows Balanced ThirdParty"
  by (simp add: auto_allows_def risk_order)

lemma parse_level_label: "parse_level (level_label l) = Some l"
  by (cases l; simp only:; code_simp)

lemma level_names_labels: "level_names = map level_label [Paranoid, Cautious, Balanced, Trusting, Yolo]"
  by (simp add: level_names_def)

end
