(* ===== verification/Command_Lexer.thy ===== *)
theory Command_Lexer imports Rust_Prelude
begin

section \<open>Reading a shell command line\<close>

text \<open>
  The lexical half of the classifier in \<open>crates/hx-core/src/approval.rs\<close>: splitting on shell
  operators, pulling out substitutions, spotting a redirection, and peeling off the wrappers
  that do not change what runs.  The loops over \<open>chars().peekable()\<close> and over indices are
  recursions over the rest of the line; they test characters against ASCII only, so they run over
  the bytes.
\<close>

subsection \<open>Segments\<close>

datatype quoting = QNone | QSingle | QDouble

abbreviation (input) squote :: char where "squote \<equiv> CHR 0x27"
abbreviation (input) dquote :: char where "dquote \<equiv> CHR 0x22"
abbreviation (input) backslash :: char where "backslash \<equiv> CHR 0x5C"
abbreviation (input) newline :: char where "newline \<equiv> CHR 0x0A"

definition next_is :: "char \<Rightarrow> string \<Rightarrow> bool" where [hx_defs]:
  "next_is c cs \<longleftrightarrow> (case cs of [] \<Rightarrow> False | n # _ \<Rightarrow> n = c)"

definition skip_doubled :: "char \<Rightarrow> string \<Rightarrow> string" where [hx_defs]:
  "skip_doubled c cs = (if next_is c cs then tl cs else cs)"

lemma length_skip_doubled [termination_simp]: "length (skip_doubled c cs) < Suc (length cs)"
  by (cases cs) (auto simp: skip_doubled_def next_is_def)

definition ends_in_redirection :: "string \<Rightarrow> bool" where [hx_defs]:
  "ends_in_redirection cur \<longleftrightarrow> ends_with (trim_end cur) ''>'' \<or> ends_with (trim_end cur) ''<''"

fun split_loop :: "quoting \<Rightarrow> string \<Rightarrow> string \<Rightarrow> string list" where
  "split_loop q cur [] = [cur]"
| "split_loop QSingle cur (c # cs) =
     split_loop (if c = squote then QNone else QSingle) (cur @ [c]) cs"
| "split_loop QDouble cur (c # cs) =
     (if c = backslash then
        (case cs of
           [] \<Rightarrow> [cur @ [c]]
         | n # cs' \<Rightarrow> split_loop QDouble (cur @ [c, n]) cs')
      else split_loop (if c = dquote then QNone else QDouble) (cur @ [c]) cs)"
| "split_loop QNone cur (c # cs) =
     (if c = squote then split_loop QSingle (cur @ [c]) cs
      else if c = dquote then split_loop QDouble (cur @ [c]) cs
      else if c = backslash then
        (case cs of
           [] \<Rightarrow> [cur @ [c]]
         | n # cs' \<Rightarrow> split_loop QNone (cur @ [c, n]) cs')
      else if c = CHR ''&'' then
        (if ends_in_redirection cur \<or> next_is (CHR ''>'') cs
         then split_loop QNone (cur @ [c]) cs
         else cur # split_loop QNone [] (skip_doubled c cs))
      else if c = CHR '';'' \<or> c = newline \<or> c = CHR ''|'' then
        cur # split_loop QNone [] (skip_doubled c cs)
      else split_loop QNone (cur @ [c]) cs)"

definition split_segments :: "string \<Rightarrow> string list" where [hx_defs]:
  "split_segments cmd = split_loop QNone [] cmd"

subsection \<open>Substitutions and redirections\<close>

text \<open>The body of \<open>$(\<dots>)\<close> up to the parenthesis that closes it, with the rest of the line; no
  body where the line ends first.\<close>

fun scan_paren :: "nat \<Rightarrow> string \<Rightarrow> string \<Rightarrow> string option \<times> string" where
  "scan_paren depth acc [] = (None, [])"
| "scan_paren depth acc (c # cs) =
     (let depth' = (if c = CHR ''('' then depth + 1 else if c = CHR '')'' then depth - 1 else depth)
      in if depth' = 0 then (Some acc, cs) else scan_paren depth' (acc @ [c]) cs)"

lemma length_scan_paren: "length (snd (scan_paren d acc cs)) \<le> length cs"
  by (induction d acc cs rule: scan_paren.induct) (auto simp: Let_def)

lemma scan_paren_rest:
  "(body, rest) = scan_paren d acc (tl cs) \<Longrightarrow> length rest < Suc (length cs)"
  using length_scan_paren [of d acc "tl cs"] by (metis length_tl diff_le_self le_imp_less_Suc
      le_trans snd_conv)

lemma length_split_once: "split_once d cs = Some (a, b) \<Longrightarrow> length a + length b < length cs"
  by (induction cs arbitrary: a b) (fastforce split: if_splits)+

lemma split_once_rest: "split_once d cs = Some (a, b) \<Longrightarrow> length b < Suc (length cs)"
  using length_split_once [of d cs a b] by simp

function extract_substitutions :: "string \<Rightarrow> string list" where
  "extract_substitutions [] = []"
| "extract_substitutions (c # cs) =
     (if c = CHR ''$'' \<and> next_is (CHR ''('') cs then
        (case scan_paren 1 [] (tl cs) of
           (Some body, rest) \<Rightarrow> body # extract_substitutions rest
         | (None, rest) \<Rightarrow> extract_substitutions rest)
      else if c = CHR ''`'' then
        (case split_once (CHR ''`'') cs of
           Some (body, rest) \<Rightarrow> body # extract_substitutions rest
         | None \<Rightarrow> [])
      else extract_substitutions cs)"
  by pat_completeness auto
termination
  by (relation "measure length") (auto dest!: scan_paren_rest split_once_rest)

fun redirection_loop :: "char option \<Rightarrow> string \<Rightarrow> bool" where
  "redirection_loop quote [] = False"
| "redirection_loop (Some q) (c # cs) = redirection_loop (if c = q then None else Some q) cs"
| "redirection_loop None (c # cs) =
     (if c = squote \<or> c = dquote then redirection_loop (Some c) cs
      else if c = CHR ''>'' \<and> \<not> next_is (CHR ''&'') cs then True
      else redirection_loop None cs)"

definition has_file_redirection :: "string \<Rightarrow> bool" where [hx_defs]:
  "has_file_redirection cmd = redirection_loop None cmd"

subsection \<open>Heads and wrappers\<close>

definition basename :: "string \<Rightarrow> string" where [hx_defs]:
  "basename head = last (split_on (CHR ''/'') head)"

definition split_head :: "string \<Rightarrow> string \<times> string" where [hx_defs]:
  "split_head seg =
     (let cs = chars (trim seg) in
      (concat (takeWhile (\<lambda>c. \<not> is_ws c) cs),
       concat (dropWhile is_ws (dropWhile (\<lambda>c. \<not> is_ws c) cs))))"

definition is_env_assignment :: "string \<Rightarrow> bool" where [hx_defs]:
  "is_env_assignment tok \<longleftrightarrow> (case split_once (CHR ''='') tok of
       Some (name, _) \<Rightarrow>
         name \<noteq> []
       \<and> list_all (\<lambda>c. is_ascii_alphanumeric c \<or> c = CHR ''_'') name
       \<and> (is_ascii_alphabetic (hd name) \<or> hd name = CHR ''_'')
     | None \<Rightarrow> False)"

definition wrapper_heads :: "string list" where [hx_defs]:
  "wrapper_heads =
     [''env'', ''nohup'', ''time'', ''nice'', ''ionice'', ''stdbuf'', ''command'', ''exec'',
      ''builtin'', ''setsid'', ''sudo'', ''doas'', ''pkexec'']"

definition escalation_wrappers :: "string list" where [hx_defs]:
  "escalation_wrappers = [''sudo'', ''doas'', ''pkexec'']"

lemma length_concat_dropWhile_le:
  "length (concat (dropWhile P cs)) \<le> length (concat cs)"
  by (induction cs) auto

lemma length_concat_take_drop:
  "length (concat (takeWhile P cs)) + length (concat (dropWhile P cs)) = length (concat cs)"
  by (metis concat_append length_append takeWhile_dropWhile_id)

lemma length_trim_le: "length (trim s) \<le> length s"
proof -
  have rev_le: "length (concat (rev (dropWhile P (rev cs)))) \<le> length (concat cs)"
    for P and cs :: "string list"
    using length_concat_dropWhile_le [of P "rev cs"]
    by (simp add: length_concat rev_map [symmetric])
  show ?thesis
    unfolding trim_def
    using rev_le [of is_ws "dropWhile is_ws (chars s)"]
      length_concat_dropWhile_le [of is_ws "chars s"]
    by simp
qed

lemma length_trim_start_le: "length (trim_start s) \<le> length s"
  using length_concat_dropWhile_le [of is_ws "chars s"] by (simp add: trim_start_def)

lemma split_head_length:
  assumes "split_head s = (h, r)"
  shows "length h + length r \<le> length s"
proof -
  let ?cs = "chars (trim s)"
  have "length h + length r \<le> length (concat ?cs)"
    using assms length_concat_take_drop [of "\<lambda>c. \<not> is_ws c" ?cs]
      length_concat_dropWhile_le [of is_ws "dropWhile (\<lambda>c. \<not> is_ws c) ?cs"]
    by (auto simp: split_head_def Let_def)
  then show ?thesis using length_trim_le [of s] by simp
qed

lemma split_head_smaller: "split_head s = (h, r) \<Longrightarrow> h \<noteq> [] \<Longrightarrow> length r < length s"
  using split_head_length [of s h r] by (cases h) auto

lemma is_env_assignment_nonempty: "is_env_assignment h \<Longrightarrow> h \<noteq> []"
  by (auto simp: is_env_assignment_def)

lemma basename_Nil [simp]: "basename [] = []"
  by (simp add: basename_def)

lemma split_head_trim_start:
  "(h, r) = split_head s \<Longrightarrow> h \<noteq> [] \<Longrightarrow> length (trim_start r) < length s"
  using split_head_smaller [of s h r] length_trim_start_le [of r] by simp

text \<open>The inner loop of \<open>strip_wrappers\<close>: the wrapper's own flags and assignments are skipped.\<close>

function skip_flags :: "string \<Rightarrow> string" where
  "skip_flags remaining =
     (case split_head remaining of (h, r) \<Rightarrow>
        if starts_with h ''-'' \<or> is_env_assignment h then skip_flags (trim_start r) else remaining)"
  by pat_completeness auto
termination
  by (relation "measure length")
     (auto simp: starts_with_def intro!: split_head_trim_start dest: is_env_assignment_nonempty)

declare skip_flags.simps [simp del]

lemma length_skip_flags: "length (skip_flags s) \<le> length s"
proof (induction s rule: skip_flags.induct)
  case (1 s)
  obtain h r where hr: "split_head s = (h, r)" by fastforce
  show ?case
  proof (cases "starts_with h ''-'' \<or> is_env_assignment h")
    case True
    then have "length (skip_flags (trim_start r)) \<le> length (trim_start r)"
      using 1 hr by auto
    also have "\<dots> \<le> length s"
      using length_trim_start_le [of r] split_head_length [OF hr] by simp
    finally show ?thesis using True hr by (simp add: skip_flags.simps [of s])
  next
    case False
    with hr show ?thesis by (simp add: skip_flags.simps [of s])
  qed
qed

text \<open>The outer loop: \<open>s\<close> is the command line that is left.\<close>

function strip_loop :: "string \<Rightarrow> string" where
  "strip_loop s =
     (case split_head s of (head_raw, rest) \<Rightarrow>
        let head = basename head_raw in
        if is_env_assignment head then strip_loop rest
        else if head \<in> set wrapper_heads \<and> rest \<noteq> [] then
          (let remaining = skip_flags (trim_start rest) in
           if remaining = [] then s
           else if head \<in> set escalation_wrappers then s
           else strip_loop remaining)
        else s)"
  by pat_completeness auto
termination
proof (relation "measure length", goal_cases)
  case 1
  show ?case by simp
next
  case prems: (2 s h r head)
  then have "h \<noteq> []" by (auto dest: is_env_assignment_nonempty)
  with prems show ?case using split_head_smaller [of s h r] by simp
next
  case prems: (3 s h r head remaining)
  then have "h \<noteq> []" by (auto simp: wrapper_heads_def)
  with prems show ?case
    using split_head_trim_start [of h r s] length_skip_flags [of "trim_start r"] by simp
qed

declare strip_loop.simps [simp del]

definition strip_wrappers :: "string \<Rightarrow> string" where [hx_defs]:
  "strip_wrappers seg = strip_loop (trim seg)"

lemma length_strip_loop: "length (strip_loop s) \<le> length s"
proof (induction s rule: strip_loop.induct)
  case (1 s)
  obtain h r where hr: "split_head s = (h, r)" by fastforce
  have "length (skip_flags (trim_start r)) \<le> length s"
    using length_skip_flags [of "trim_start r"] length_trim_start_le [of r]
      split_head_length [OF hr] by simp
  with 1 hr split_head_length [OF hr] show ?case
    by (subst strip_loop.simps) (fastforce simp: Let_def)
qed

lemma length_strip_wrappers: "length (strip_wrappers s) \<le> length s"
  using length_strip_loop [of "trim s"] length_trim_le [of s] by (simp add: strip_wrappers_def)

definition shell_interpreters :: "string list" where [hx_defs]:
  "shell_interpreters = [''sh'', ''bash'', ''zsh'', ''dash'', ''ksh'', ''fish'']"

definition is_shell_interpreter :: "string \<Rightarrow> bool" where [hx_defs]:
  "is_shell_interpreter seg \<longleftrightarrow> basename (fst (split_head seg)) \<in> set shell_interpreters"

definition network_fetchers :: "string list" where [hx_defs]:
  "network_fetchers = [''curl'', ''wget'', ''fetch'', ''http'', ''httpie'', ''aria2c'']"

definition is_network_fetch :: "string \<Rightarrow> bool" where [hx_defs]:
  "is_network_fetch seg \<longleftrightarrow>
     basename (fst (split_head (strip_wrappers seg))) \<in> set network_fetchers"

subsection \<open>Checks on concrete lines\<close>

lemma split_segments_examples:
  "split_segments ''ls && rm -rf /'' = [''ls '', '' rm -rf /'']"
  "split_segments ''ls 2>&1'' = [''ls 2>&1'']"
  "split_segments (''echo '' @ [dquote] @ ''a | b'' @ [dquote]) =
     [''echo '' @ [dquote] @ ''a | b'' @ [dquote]]"
  "extract_substitutions ''echo $(a $(b)) `c`'' = [''a $(b)'', ''c'']"
  "strip_wrappers ''FOO=1 nice -n5 rm -rf /'' = ''rm -rf /''"
  by code_simp+

end
