(* ===== verification/Command_Risk.thy ===== *)
theory Command_Risk imports Risk Command_Lexer
begin

section \<open>Classifying a command line\<close>

text \<open>
  The classifier of \<open>crates/hx-core/src/approval.rs\<close>: one segment by its head and arguments, a
  whole line by its worst segment, with substitutions classified recursively and a download piped
  into a shell treated as destructive.  The recursion of \<open>classify_command_depth\<close> counts its depth
  up to 8; \<open>classify_at\<close> counts the levels that are left, so \<open>classify_at 0\<close> is a call at depth 9.
\<close>

definition read_only_heads :: "string list" where [hx_defs]:
  "read_only_heads =
      [''ls'', ''cat'', ''head'', ''tail'', ''less'', ''more'', ''bat'', ''grep'', ''rg'',
       ''ag'', ''find'', ''fd'', ''stat'', ''file'', ''wc'', ''diff'', ''cmp'', ''pwd'',
       ''whoami'', ''id'', ''hostname'', ''uname'', ''uptime'', ''date'', ''df'', ''du'',
       ''ps'', ''top'', ''htop'', ''free'', ''env'', ''printenv'', ''which'', ''whereis'',
       ''type'', ''jq'', ''yq'', ''sort'', ''uniq'', ''cut'', ''tr'', ''awk'', ''sed'',
       ''tree'', ''realpath'', ''dirname'', ''basename'', ''readlink'', ''hexdump'',
       ''xxd'', ''strings'', ''md5sum'', ''sha256sum'', ''echo'', ''printf'', ''true'',
       ''false'', ''sleep'', ''man'', ''help'', ''test'', ''seq'', ''nl'', ''column'',
       ''sudo'', ''git'', ''docker'', ''kubectl'', ''systemctl'', ''brew'', ''pip'',
       ''pip3'', ''npm'', ''pnpm'', ''yarn'', ''cargo'', ''go'', ''rustc'', ''node'',
       ''python'', ''python3'', ''java'', ''make'', ''sqlite3'', ''psql'', ''mysql'',
       ''aws'', ''gcloud'', ''az'', ''terraform'', ''rsync'', ''scp'', ''ssh'', ''tar'',
       ''zip'', ''unzip'', ''gzip'', ''gunzip'', ''install'', ''mktemp'', ''timeout'',
       ''watch'', ''nmap'', ''dig'', ''nslookup'', ''ping'', ''traceroute'', ''netstat'',
       ''ss'', ''lsof'', ''lscpu'', ''lsblk'', ''lsusb'', ''lspci'', ''dmesg'', ''sysctl'',
       ''ulimit'', ''groups'', ''last'', ''w'', ''who'', ''finger'', ''crontab'', ''at'',
       ''journalctl'']"

definition credential_heads :: "string list" where [hx_defs]:
  "credential_heads =
      [''gpg'', ''bw'', ''op'', ''pass'', ''secret-tool'', ''keyctl'', ''ssh-add'',
       ''vault'', ''aws-vault'', ''kubectl-secret'']"

definition system_heads :: "string list" where [hx_defs]:
  "system_heads =
      [''mount'', ''umount'', ''insmod'', ''modprobe'', ''rmmod'', ''iptables'',
       ''ip6tables'', ''nft'', ''ufw'', ''firewall-cmd'', ''useradd'', ''userdel'',
       ''usermod'', ''groupadd'', ''passwd'', ''chpasswd'', ''visudo'', ''parted'',
       ''fdisk'', ''gdisk'', ''cryptsetup'', ''lvremove'', ''vgremove'', ''pvremove'',
       ''lvcreate'', ''vgcreate'', ''zpool'', ''sysctl'', ''setenforce'', ''chroot'',
       ''pivot_root'', ''update-grub'', ''grub-install'']"

definition deletion_heads :: "string list" where [hx_defs]:
  "deletion_heads =
      [''rm'', ''rmdir'', ''shred'', ''truncate'', ''wipefs'', ''mkfs'', ''mkfs.ext4'',
       ''mkfs.xfs'', ''diskutil'', ''srm'']"

definition remote_heads :: "string list" where [hx_defs]:
  "remote_heads =
      [''ssh'', ''scp'', ''sftp'', ''telnet'', ''nc'', ''ncat'', ''socat'']"

definition external_heads :: "string list" where [hx_defs]:
  "external_heads =
      [''sendmail'', ''mail'', ''mutt'', ''twilio'', ''stripe'', ''gh'']"

definition local_heads :: "string list" where [hx_defs]:
  "local_heads =
      [''cp'', ''mv'', ''mkdir'', ''touch'', ''ln'', ''chmod'', ''chown'', ''chgrp'',
       ''tee'', ''install'', ''patch'', ''apt'', ''apt-get'', ''dpkg'', ''pacman'',
       ''yum'', ''dnf'', ''apk'', ''brew'', ''pip'', ''pip3'', ''npm'', ''pnpm'', ''yarn'',
       ''cargo'', ''go'', ''make'', ''cmake'', ''ninja'', ''systemd-run'', ''crontab'',
       ''at'', ''pipx'']"

definition script_heads :: "string list" where [hx_defs]:
  "script_heads =
      [''python'', ''python3'', ''node'', ''ruby'', ''perl'', ''bash'', ''sh'', ''zsh'']"

subsection \<open>Sub-command classifiers\<close>

definition classify_git :: "string \<Rightarrow> classification" where [hx_defs]:
  "classify_git rest =
     (let r = dropWhile (\<lambda>c. c = CHR ''-'') rest in
      if starts_with r ''push'' then
        (if contains_str r ''--force'' \<or> contains_str r '' -f'' \<or> contains_str r ''--delete''
         then classified Destructive ''git push --force rewrites published history''
         else classified External ''git push publishes commits'')
      else if starts_with r ''reset'' \<and> contains_str r ''--hard''
        then classified Destructive ''git reset --hard discards work''
      else if starts_with r ''clean'' \<and> (contains_str r ''-f'' \<or> contains_str r ''-x'')
        then classified Destructive ''git clean deletes untracked files''
      else if starts_with r ''branch'' \<and> (contains_str r '' -d'' \<or> contains_str r '' -D'')
        then classified Destructive ''git branch -D deletes a branch''
      else if starts_with r ''reflog'' \<and> contains_str r ''delete''
        then classified Destructive ''git reflog delete removes recovery points''
      else if starts_with r ''filter-branch''
            \<or> starts_with r ''update-ref'' \<and> contains_str r ''-d''
        then classified Destructive ''git rewrites repository history''
      else if starts_with r ''remote'' \<and> contains_str r '' set-url''
        then classified Mutate ''git remote set-url redirects pushes''
      else if starts_with r ''clone'' \<or> starts_with r ''fetch'' \<or> starts_with r ''pull''
            \<or> starts_with r ''submodule update''
        then classified External ''git fetches from a remote''
      else if starts_with r ''status'' \<or> starts_with r ''log'' \<or> starts_with r ''diff''
            \<or> starts_with r ''show'' \<or> starts_with r ''blame'' \<or> starts_with r ''describe''
            \<or> starts_with r ''rev-parse'' \<or> starts_with r ''ls-files'' \<or> r = []
        then classified Read ''git inspects the repository''
      else classified Mutate ''git changes local repository state'')"

definition classify_container :: "string \<Rightarrow> classification" where [hx_defs]:
  "classify_container rest =
     (if starts_with rest ''system prune'' \<or> starts_with rest ''volume prune''
           \<or> starts_with rest ''image prune -a''
        then classified Destructive ''prune deletes unused images and volumes irrecoverably''
      else if starts_with rest ''push''
        then classified External ''pushes an image to a registry''
      else if starts_with rest ''run'' \<or> starts_with rest ''build''
        then classified Mutate ''starts or builds a container, which runs arbitrary code''
      else if starts_with rest ''ps'' \<or> starts_with rest ''images'' \<or> starts_with rest ''logs''
            \<or> starts_with rest ''inspect'' \<or> starts_with rest ''stats''
        then classified Read ''inspects container state''
      else classified Mutate ''changes container state'')"

definition classify_kubectl :: "string \<Rightarrow> classification" where [hx_defs]:
  "classify_kubectl rest =
     (if starts_with rest ''delete'' \<or> contains_str rest ''--force''
        then classified Destructive ''deletes cluster resources''
      else if starts_with rest ''apply'' \<or> starts_with rest ''create''
            \<or> starts_with rest ''patch'' \<or> starts_with rest ''edit'' \<or> starts_with rest ''rollout''
        then classified Mutate ''changes cluster state''
      else if starts_with rest ''get'' \<or> starts_with rest ''describe'' \<or> starts_with rest ''logs''
            \<or> starts_with rest ''top''
        then classified Read ''reads cluster state''
      else classified Mutate ''acts on a cluster'')"

definition classify_service :: "string \<Rightarrow> string \<Rightarrow> string \<Rightarrow> classification" where [hx_defs]:
  "classify_service head rest rest_l =
     (if starts_with rest_l ''status'' \<or> starts_with rest_l ''show'' \<or> starts_with rest_l ''list''
           \<or> starts_with rest_l ''is-'' \<or> rest_l = []
        then classified Read (head @ '' '' @ rest)
      else classified Privileged (head @ '' changes a system service''))"

definition classify_infra :: "string \<Rightarrow> string \<Rightarrow> classification" where [hx_defs]:
  "classify_infra head rest_l =
     (if starts_with rest_l ''destroy'' \<or> starts_with rest_l ''apply -auto-approve''
        then classified Destructive (head @ '' destroys managed infrastructure'')
      else classified External (head @ '' changes cloud state''))"

definition classify_cloud :: "string \<Rightarrow> string \<Rightarrow> classification" where [hx_defs]:
  "classify_cloud head rest_l =
     (if contains_str rest_l '' delete'' \<or> contains_str rest_l '' rb '' \<or> contains_str rest_l '' rm ''
        then classified Destructive (head @ '' deletes cloud resources'')
      else if starts_with rest_l ''s3'' \<or> contains_str rest_l '' cp ''
            \<or> contains_str rest_l '' sync ''
        then classified External (head @ '' transfers data'')
      else classified Mutate (head @ '' mutates cloud state''))"

definition classify_database :: "string \<Rightarrow> string \<Rightarrow> classification" where [hx_defs]:
  "classify_database head rest_l =
     (if contains_str rest_l ''drop '' \<or> contains_str rest_l ''truncate ''
           \<or> contains_str rest_l ''delete from''
        then classified Destructive (head @ '' issues a destructive statement'')
      else if contains_str rest_l ''insert '' \<or> contains_str rest_l ''update ''
            \<or> contains_str rest_l ''alter ''
        then classified Mutate (head @ '' mutates data'')
      else classified Read (head @ '' queries data''))"

subsection \<open>One segment\<close>

text \<open>
  \<open>classify_simple\<close> is a chain of tests on the head.  It is cut in two where the code's own
  section comments cut it: everything from the first test that is not about privilege
  escalation on is \<open>classify_head\<close>, and its second half, from the trust boundary on, is
  \<open>classify_late\<close>.
\<close>

definition classify_late :: "string \<Rightarrow> string \<Rightarrow> string \<Rightarrow> classification" where [hx_defs]:
  "classify_late head rest rest_l =
     (if head \<in> set remote_heads
        then classified External (head @ '' opens a remote session'')
      else if head = ''rsync'' \<and> CHR '':'' \<in> set rest_l
        then classified External ''rsync transfers to a remote host''
      else if head = ''curl'' \<or> head = ''wget''
        then classified External (head @ '' sends a network request'')
      else if head \<in> set external_heads
        then classified External (head @ '' acts on an external service'')
      else if (head = ''npm'' \<or> head = ''pnpm'' \<or> head = ''yarn'') \<and> starts_with rest_l ''publish''
        then classified External ''publishing a package is irreversible''
      else if head = ''cargo'' \<and> starts_with rest_l ''publish''
        then classified External ''publishing a crate is irreversible''
      else if head \<in> set local_heads
        then classified Mutate (head @ '' changes local state'')
      else if head \<in> set script_heads \<and> trim rest \<noteq> []
        then classified Mutate (head @ '' executes a script'')
      else if head = ''sed'' \<and> (starts_with rest_l ''-i'' \<or> contains_str rest_l '' -i'')
        then classified Mutate ''sed rewrites files in place''
      else if head = ''find'' \<and> (contains_str rest_l ''-delete'' \<or> contains_str rest_l ''-exec'')
        then classified Destructive ''find deletes or executes against matched files''
      else if head = ''tar'' \<and> contains_str rest_l ''-x''
        then classified Mutate ''tar extracts onto the filesystem''
      else if head \<in> set read_only_heads
        then classified Read (head @ '' is read-only'')
      else classified Mutate (head @ '' is not a recognised command''))"

definition classify_head :: "string \<Rightarrow> string \<Rightarrow> classification" where [hx_defs]:
  "classify_head head rest =
     (let rest_l = to_lowercase rest in
      if head \<in> set credential_heads
        then classified Privileged (head @ '' reads from a credential store'')
      else if head \<in> set system_heads
        then classified Privileged (head @ '' changes system-level configuration'')
      else if head = ''systemctl'' \<or> head = ''service''
        then classify_service head rest rest_l
      else if (head = ''chmod'' \<or> head = ''chown'' \<or> head = ''chgrp'')
            \<and> (contains_str rest_l '' 777'' \<or> contains_str rest_l '' 666''
               \<or> contains_str rest_l ''root'')
        then classified Privileged (head @ '' widens permissions or takes ownership'')
      else if (head = ''rm'' \<or> head = ''mv'' \<or> head = ''cp'' \<or> head = ''tee'' \<or> head = ''dd'')
            \<and> (contains_str rest_l '' /etc'' \<or> contains_str rest_l '' /boot''
               \<or> contains_str rest_l '' /usr'' \<or> contains_str rest_l '' /var''
               \<or> contains_str rest_l '' /root'')
        then classified Destructive (head @ '' targets a system directory'')
      else if head \<in> set deletion_heads
        then classified Destructive (head @ '' deletes data permanently'')
      else if head = ''dd''
        then classified Destructive ''dd overwrites raw device data''
      else if head = ''dropdb'' \<or> head = ''dropuser''
        then classified Destructive (head @ '' drops a database'')
      else if head = ''git'' then classify_git rest_l
      else if head = ''docker'' \<or> head = ''podman'' \<or> head = ''nerdctl''
        then classify_container rest_l
      else if head = ''kubectl'' \<or> head = ''helm'' then classify_kubectl rest_l
      else if head = ''terraform'' \<or> head = ''tofu'' \<or> head = ''pulumi''
        then classify_infra head rest_l
      else if head = ''aws'' \<or> head = ''gcloud'' \<or> head = ''az''
        then classify_cloud head rest_l
      else if head = ''psql'' \<or> head = ''mysql'' \<or> head = ''sqlite3'' \<or> head = ''mongosh''
        then classify_database head rest_l
      else classify_late head rest rest_l)"

definition escalation_heads :: "string list" where [hx_defs]:
  "escalation_heads = [''sudo'', ''doas'', ''pkexec'', ''su'']"

lemma split_head_strip_smaller:
  "(h, r) = split_head (strip_wrappers seg) \<Longrightarrow> h \<noteq> [] \<Longrightarrow> length r < length seg"
  using split_head_smaller [of "strip_wrappers seg" h r] length_strip_wrappers [of seg] by simp

function classify_simple :: "string \<Rightarrow> classification" where
  "classify_simple seg =
     (case split_head (strip_wrappers seg) of (head_raw, rest) \<Rightarrow>
        if head_raw = [] then classified Read ''empty''
        else let head = basename head_raw in
          if head \<in> set escalation_heads then
            (let inner = classify_simple rest in
             classified (max (risk inner) Privileged)
               (''escalates privileges via '' @ head @ ''; '' @ reason inner))
          else classify_head head rest)"
  by pat_completeness auto
termination
  by (relation "measure length") (auto intro: split_head_strip_smaller)

declare classify_simple.simps [simp del]

subsection \<open>The whole line\<close>

text \<open>The loop over the segments: \<open>prev\<close> is the last segment before this one that is not blank,
  which is what the search over \<open>segments[..idx]\<close> finds.\<close>

primrec segment_loop ::
  "(string \<Rightarrow> classification) \<Rightarrow> string option \<Rightarrow> string list \<Rightarrow> classification \<Rightarrow> classification" where
  "segment_loop inner prev [] worst = worst"
| "segment_loop inner prev (s # ss) worst =
     (let seg = trim s in
      if seg = [] then segment_loop inner prev ss worst
      else if is_shell_interpreter seg
            \<and> (case prev of Some p \<Rightarrow> is_network_fetch p | None \<Rightarrow> False)
        then segment_loop inner (Some s) ss
          (higher worst (classified Destructive
             ''pipes code downloaded from the network straight into a shell''))
      else segment_loop inner (Some s) ss
          (higher (fold (\<lambda>sub w. higher w (inner sub)) (extract_substitutions seg) worst)
             (classify_simple seg)))"

primrec classify_at :: "nat \<Rightarrow> string \<Rightarrow> classification" where
  "classify_at 0 cmd = classified Mutate ''deeply nested substitution''"
| "classify_at (Suc n) cmd =
     (let worst = segment_loop (classify_at n) None (split_segments cmd)
            (classified Read ''empty command'')
      in if risk worst < Mutate \<and> has_file_redirection cmd
         then classified Mutate ''redirects output to a file''
         else worst)"

definition classify_command :: "string \<Rightarrow> classification" where [hx_defs]:
  "classify_command cmd = classify_at 9 cmd"

end
