(* ===== verification/Approval_Rules.thy ===== *)
theory Approval_Rules imports Rust_Float Command_Risk "HOL-Library.Word"
begin

section \<open>Approval rules, requests and policies\<close>

text \<open>
  The second half of \<open>crates/hx-core/src/approval.rs\<close>, less the per-chat session: glob patterns,
  rules, proposed actions and the keys their decisions are remembered under, what a call will
  touch, the policy and its shipped deny list.  Strings are bytes; a glob works on characters.
\<close>

type_synonym u64 = "64 word"

subsection \<open>Deletions whose targets cannot be listed\<close>

definition pattern_metachar :: "string \<Rightarrow> char option" where [hx_defs]:
  "pattern_metachar token =
     (if starts_with token ''-'' then None
      else if CHR ''$'' \<in> set token then Some (CHR ''$'')
      else if 2 \<le> length token \<and> starts_with token [CHR 0x27] \<and> ends_with token [CHR 0x27] then None
      else if starts_with token [CHR 0x22] then None
      else find (\<lambda>c. c \<in> {CHR ''*'', CHR ''?'', CHR ''[''}) token)"

definition deleting_heads :: "string list" where [hx_defs]:
  "deleting_heads = [''rm'', ''rmdir'', ''shred'', ''truncate'', ''srm'', ''unlink'']"

definition refusal :: "string \<Rightarrow> char \<Rightarrow> string" where
  "refusal token metachar =
     ''refused: `'' @ token @ ''` contains `'' @ [metachar] @
     ''`, so the files this would delete cannot be listed before it runs. Name the paths '' @
     ''(`rm -rf ./build/a ./build/b`), or remove them one at a time with the `delete` tool '' @
     em_dash @ '' which moves them to the trash and reports exactly what it moved.''"

fun first_pattern :: "string list \<Rightarrow> (string \<times> char) option" where
  "first_pattern [] = None"
| "first_pattern (t # ts) =
     (case pattern_metachar t of Some m \<Rightarrow> Some (t, m) | None \<Rightarrow> first_pattern ts)"

definition deletes :: "string \<Rightarrow> string \<Rightarrow> bool" where [hx_defs]:
  "deletes head rest \<longleftrightarrow>
     head \<in> set deleting_heads \<or> (head = ''find'' \<and> contains_str rest ''-delete'')"

fun unenumerable_segment :: "string list \<Rightarrow> string option" where
  "unenumerable_segment [] = None"
| "unenumerable_segment (segment # rest_segments) =
     (let (head, rest) = split_head (strip_wrappers segment) in
      if \<not> deletes (basename head) rest then unenumerable_segment rest_segments
      else (case first_pattern (split_whitespace rest) of
          Some (token, metachar) \<Rightarrow> Some (refusal token metachar)
        | None \<Rightarrow> unenumerable_segment rest_segments))"

definition unenumerable_deletion :: "string \<Rightarrow> string option" where [hx_defs]:
  "unenumerable_deletion command = unenumerable_segment (split_segments command)"

subsection \<open>Globs\<close>

text \<open>The recursion of \<open>glob_match\<close>, on characters.  A star tries every suffix.\<close>

fun glob_rec :: "string list \<Rightarrow> string list \<Rightarrow> bool" where
  "glob_rec [] t \<longleftrightarrow> t = []"
| "glob_rec (c # p) t \<longleftrightarrow>
     (if c = ''*'' then list_ex (\<lambda>i. glob_rec p (drop i t)) [0..<Suc (length t)]
      else if c = ''?'' then t \<noteq> [] \<and> glob_rec p (drop 1 t)
      else (case t of [] \<Rightarrow> False | d # t' \<Rightarrow> d = c \<and> glob_rec p t'))"

text \<open>The same recursion with every test in front of what it guards, which is how a closed
  evaluation has to take it.\<close>

lemma glob_rec_eval [code]:
  "glob_rec [] t \<longleftrightarrow> (case t of [] \<Rightarrow> True | _ # _ \<Rightarrow> False)"
  "glob_rec (c # p) t \<longleftrightarrow>
     (if c = ''*''
      then (if glob_rec p t then True else (case t of [] \<Rightarrow> False | _ # t' \<Rightarrow> glob_rec (c # p) t'))
      else if c = ''?'' then (case t of [] \<Rightarrow> False | _ # t' \<Rightarrow> glob_rec p t')
      else (case t of [] \<Rightarrow> False | d # t' \<Rightarrow> if d = c then glob_rec p t' else False))"
proof -
  have ex: "list_ex (\<lambda>i. Q i) [0..<Suc n] \<longleftrightarrow> (\<exists>i \<le> n. Q i)" for Q n
    by (auto simp: list_ex_iff less_Suc_eq_le simp del: upt_Suc)
  have first: "(\<exists>i \<le> Suc n. Q i) \<longleftrightarrow> Q 0 \<or> (\<exists>i \<le> n. Q (Suc i))" for Q n
    by (metis Suc_le_mono not0_implies_Suc zero_le)
  have suffixes: "list_ex (\<lambda>i. P (drop i (d # t))) [0..<Suc (length (d # t))]
      \<longleftrightarrow> P (d # t) \<or> list_ex (\<lambda>i. P (drop i t)) [0..<Suc (length t)]"
    for P and d :: string and t
    unfolding ex list.size(4) add_Suc_right add_0_right first by simp
  show "glob_rec [] t \<longleftrightarrow> (case t of [] \<Rightarrow> True | _ # _ \<Rightarrow> False)" by (cases t) simp_all
  show "glob_rec (c # p) t \<longleftrightarrow>
     (if c = ''*''
      then (if glob_rec p t then True else (case t of [] \<Rightarrow> False | _ # t' \<Rightarrow> glob_rec (c # p) t'))
      else if c = ''?'' then (case t of [] \<Rightarrow> False | _ # t' \<Rightarrow> glob_rec p t')
      else (case t of [] \<Rightarrow> False | d # t' \<Rightarrow> if d = c then glob_rec p t' else False))"
  proof (cases t)
    case (Cons d t')
    then show ?thesis using suffixes [of "glob_rec p" d t'] by (simp del: upt_Suc)
  qed simp
qed

definition glob_match :: "string \<Rightarrow> string \<Rightarrow> bool" where [hx_defs]:
  "glob_match pattern text = glob_rec (chars pattern) (chars text)"

definition normalize_ws :: "string \<Rightarrow> string" where [hx_defs]:
  "normalize_ws s = join '' '' (split_whitespace s)"

subsection \<open>What a call will touch\<close>

datatype target_kind = File | Directory | Symlink | Missing | Unknown

fun kind_label :: "target_kind \<Rightarrow> string" where
  "kind_label File = ''file''"
| "kind_label Directory = ''directory''"
| "kind_label Symlink = ''symlink''"
| "kind_label Missing = ''missing''"
| "kind_label Unknown = ''not measured''"

record target =
  tgt_path :: string
  tgt_kind :: target_kind
  tgt_entries :: "u64 option"
  tgt_bytes :: "u64 option"
  tgt_partial :: bool
  tgt_note :: "string option"

definition target_file :: "string \<Rightarrow> u64 \<Rightarrow> target" where [hx_defs]:
  "target_file path bytes =
     \<lparr>tgt_path = path, tgt_kind = File, tgt_entries = None, tgt_bytes = Some bytes,
      tgt_partial = False, tgt_note = None\<rparr>"

definition target_directory :: "string \<Rightarrow> u64 \<Rightarrow> u64 \<Rightarrow> bool \<Rightarrow> target" where [hx_defs]:
  "target_directory path entries bytes part =
     \<lparr>tgt_path = path, tgt_kind = Directory, tgt_entries = Some entries, tgt_bytes = Some bytes,
      tgt_partial = part, tgt_note = None\<rparr>"

definition target_missing :: "string \<Rightarrow> target" where [hx_defs]:
  "target_missing path =
     \<lparr>tgt_path = path, tgt_kind = Missing, tgt_entries = None, tgt_bytes = None,
      tgt_partial = False, tgt_note = Some ''nothing is there''\<rparr>"

definition target_unmeasured :: "string \<Rightarrow> string \<Rightarrow> target" where [hx_defs]:
  "target_unmeasured path why =
     \<lparr>tgt_path = path, tgt_kind = Unknown, tgt_entries = None, tgt_bytes = None,
      tgt_partial = False, tgt_note = Some why\<rparr>"

definition show_u64 :: "u64 \<Rightarrow> string" where [hx_defs]:
  "show_u64 n = show_nat (unat n)"

definition units :: "string list" where [hx_defs]:
  "units = [''B'', ''KB'', ''MB'', ''GB'', ''TB'']"

text \<open>The loop of \<open>human_bytes\<close>, and \<open>{value:.1}\<close>: the decimal rendering rounds the exact value of
  the float, half to even.\<close>

fun scale_bytes :: "nat \<Rightarrow> nat \<Rightarrow> f64 \<Rightarrow> nat \<times> f64" where
  "scale_bytes 0 unit value = (unit, value)"
| "scale_bytes (Suc n) unit value =
     (if 1024 \<le> value then scale_bytes n (unit + 1) (fdiv value 1024) else (unit, value))"

definition show_tenths :: "f64 \<Rightarrow> string" where [hx_defs]:
  "show_tenths v =
     (let n = nat (round_half_even (v * 10)) in show_nat (n div 10) @ ''.'' @ show_nat (n mod 10))"

definition human_bytes :: "u64 \<Rightarrow> string" where [hx_defs]:
  "human_bytes bytes =
     (let (unit, value) = scale_bytes (length units - 1) 0 (f64_round (of_nat (unat bytes))) in
      if unit = 0 then show_u64 bytes @ '' B'' else show_tenths value @ '' '' @ units ! unit)"

definition describe_target :: "target \<Rightarrow> string" where [hx_defs]:
  "describe_target t =
     (let label = tgt_path t @ '' '' @ em_dash @ '' '' @ kind_label (tgt_kind t);
          at_least = (if tgt_partial t then ''at least '' else '''')
      in case tgt_note t of
        Some note \<Rightarrow> label @ '', '' @ note
      | None \<Rightarrow> label
          @ (case tgt_entries t of None \<Rightarrow> ''''
             | Some n \<Rightarrow> '', '' @ at_least @ show_u64 n @ '' entr'' @ (if n = 1 then ''y'' else ''ies''))
          @ (case tgt_bytes t of None \<Rightarrow> ''''
             | Some b \<Rightarrow> '', '' @ at_least @ human_bytes b))"

subsection \<open>Proposed actions and their keys\<close>

datatype confinement = OnHost | InSandbox

definition is_host :: "confinement \<Rightarrow> bool" where [hx_defs]:
  "is_host c \<longleftrightarrow> c = OnHost"

definition is_sandbox :: "confinement \<Rightarrow> bool" where [hx_defs]:
  "is_sandbox c \<longleftrightarrow> c = InSandbox"

fun confinement_label :: "confinement \<Rightarrow> string" where
  "confinement_label OnHost = ''the host''"
| "confinement_label InSandbox = ''a sandbox''"

record action_request =
  req_tool :: string
  req_summary :: string
  req_command :: "string option"
  req_risk :: risk_class
  req_reason :: string
  req_key :: string
  req_reversible :: bool
  req_targets :: "target list"
  req_undo :: "string option"
  req_confined :: confinement

definition rule_key :: "string \<Rightarrow> string option \<Rightarrow> string" where [hx_defs]:
  "rule_key tool command = (case command of
     None \<Rightarrow> tool
   | Some c \<Rightarrow>
       (let norm = normalize_ws c in
        if risk (classify_command norm) \<le> Mutate
        then (let parts = take 2 (split_on CHR '' '' norm);
                  parts = (if parts \<noteq> [] \<and> hd parts \<in> {''sudo'', ''doas'', ''pkexec''}
                           then take 3 (split_on CHR '' '' norm) else parts)
              in tool @ ''|'' @ join '' '' parts)
        else tool @ ''|'' @ norm))"

definition shell_request :: "string \<Rightarrow> action_request" where [hx_defs]:
  "shell_request command =
     (let c = classify_command command in
      \<lparr>req_tool = ''shell'', req_summary = normalize_ws command, req_command = Some command,
       req_risk = risk c, req_reason = reason c, req_key = rule_key ''shell'' (Some command),
       req_reversible = (risk c < Destructive), req_targets = [], req_undo = None,
       req_confined = OnHost\<rparr>)"

definition tool_request :: "string \<Rightarrow> string \<Rightarrow> risk_class \<Rightarrow> string \<Rightarrow> action_request" where [hx_defs]:
  "tool_request tool summary rc why =
     \<lparr>req_tool = tool, req_summary = summary, req_command = None, req_risk = rc, req_reason = why,
      req_key = rule_key tool None, req_reversible = (rc < Destructive), req_targets = [],
      req_undo = None, req_confined = OnHost\<rparr>"

definition with_targets :: "action_request \<Rightarrow> target list \<Rightarrow> action_request" where [hx_defs]:
  "with_targets r ts = r\<lparr>req_targets := ts\<rparr>"

definition with_undo :: "action_request \<Rightarrow> string \<Rightarrow> action_request" where [hx_defs]:
  "with_undo r undo = r\<lparr>req_undo := Some undo\<rparr>"

definition with_undo_opt :: "action_request \<Rightarrow> string option \<Rightarrow> action_request" where [hx_defs]:
  "with_undo_opt r undo = r\<lparr>req_undo := undo\<rparr>"

definition confined_to :: "action_request \<Rightarrow> confinement \<Rightarrow> action_request" where [hx_defs]:
  "confined_to r c = r\<lparr>req_confined := c\<rparr>"

subsection \<open>Rules\<close>

record rule =
  rule_tool :: string
  rule_command :: "string option"
  rule_risk :: "risk_class option"
  rule_confined :: "bool option"
  rule_note :: "string option"

definition tool_rule :: "string \<Rightarrow> rule" where [hx_defs]:
  "tool_rule pattern =
     \<lparr>rule_tool = pattern, rule_command = None, rule_risk = None, rule_confined = None,
      rule_note = None\<rparr>"

definition for_command :: "rule \<Rightarrow> string \<Rightarrow> rule" where [hx_defs]:
  "for_command r pattern = r\<lparr>rule_command := Some pattern\<rparr>"

definition for_confined :: "rule \<Rightarrow> bool \<Rightarrow> rule" where [hx_defs]:
  "for_confined r c = r\<lparr>rule_confined := Some c\<rparr>"

definition for_risk :: "rule \<Rightarrow> risk_class \<Rightarrow> rule" where [hx_defs]:
  "for_risk r rc = r\<lparr>rule_risk := Some rc\<rparr>"

definition with_note :: "rule \<Rightarrow> string \<Rightarrow> rule" where [hx_defs]:
  "with_note r note = r\<lparr>rule_note := Some note\<rparr>"

definition rule_matches :: "rule \<Rightarrow> action_request \<Rightarrow> bool" where [hx_defs]:
  "rule_matches r req \<longleftrightarrow>
     (if \<not> glob_match (rule_tool r) (req_tool req) then False
      else if (case rule_risk r of Some rc \<Rightarrow> rc \<noteq> req_risk req | None \<Rightarrow> False) then False
      else if (case rule_command r of
            Some pattern \<Rightarrow>
              \<not> glob_match pattern
                  (normalize_ws (case req_command req of Some c \<Rightarrow> c | None \<Rightarrow> req_summary req))
          | None \<Rightarrow> False) then False
      else if (case rule_confined r of
            Some required \<Rightarrow> required \<noteq> is_sandbox (req_confined req) | None \<Rightarrow> False) then False
      else True)"

subsection \<open>Policies and the shipped deny list\<close>

definition deny_rule :: "string \<Rightarrow> string \<Rightarrow> rule" where [hx_defs]:
  "deny_rule command note = with_note (for_command (tool_rule ''shell'') command) note"

definition deny_tree :: "string \<Rightarrow> rule" where [hx_defs]:
  "deny_tree dir =
     deny_rule (''rm -r* '' @ dir @ ''*'')
       (''recursive delete of '' @ dir @ '', which nothing can restore'')"

definition system_dirs :: "string list" where [hx_defs]:
  "system_dirs =
     [''/bin'', ''/boot'', ''/dev'', ''/etc'', ''/lib'', ''/lib64'', ''/proc'', ''/root'', ''/run'',
      ''/sbin'', ''/srv'', ''/sys'', ''/usr'', ''/var'']"

definition default_denials :: "rule list" where [hx_defs]:
  "default_denials =
     [deny_rule ''rm -rf /'' ''recursive delete of the root directory'',
      deny_rule ''rm -fr /'' ''recursive delete of the root directory'',
      deny_rule ''*--no-preserve-root*'' ''removing the last guard against a root delete'']
     @ map deny_tree system_dirs
     @ map deny_tree [''/System'', ''/Library'', ''/Applications'']
     @ [deny_rule ''*rm -rf ~*'' ''recursive delete of the home directory'',
        deny_rule ''*rm -rf $*'' ''recursive delete whose targets cannot be enumerated'',
        deny_rule ''*dd *of=/dev/*'' ''writing raw bytes to a device'',
        deny_rule ''*mkfs*'' ''formatting a filesystem'',
        deny_rule ''*> /dev/sd*'' ''writing to a block device'',
        deny_rule ''*chmod -R 777 /*'' ''making the whole filesystem world-writable'',
        deny_rule ''*curl * | sh*'' ''running code fetched from the network'',
        deny_rule ''*curl * | bash*'' ''running code fetched from the network'',
        deny_rule ''*wget * | sh*'' ''running code fetched from the network'',
        deny_rule ''*git push --force*'' ''rewriting published history'',
        deny_rule ''*git push -f *'' ''rewriting published history'',
        deny_rule ''*DROP DATABASE*'' ''dropping a database'']"

record approval_policy =
  pol_level :: autonomy_level
  pol_ceiling :: "risk_class option"
  pol_budget :: "u64 option"
  pol_expires_at :: "datetime option"
  pol_allow :: "rule list"
  pol_deny :: "rule list"
  pol_ask :: "rule list"
  pol_refuse_unenumerable :: bool
  pol_inherit_denials :: "bool option"

definition default_policy :: approval_policy where [hx_defs]:
  "default_policy =
     \<lparr>pol_level = Balanced, pol_ceiling = None, pol_budget = None, pol_expires_at = None,
      pol_allow = [], pol_deny = [], pol_ask = [], pol_refuse_unenumerable = False,
      pol_inherit_denials = None\<rparr>"

definition with_floor :: "approval_policy \<Rightarrow> approval_policy" where [hx_defs]:
  "with_floor p =
     (if pol_inherit_denials p \<noteq> Some True then p
      else p\<lparr>pol_deny := filter (\<lambda>r. r \<notin> set default_denials) (pol_deny p) @ default_denials,
             pol_refuse_unenumerable := True\<rparr>)"

definition with_floor_for_deployment :: "approval_policy \<Rightarrow> approval_policy" where [hx_defs]:
  "with_floor_for_deployment p = with_floor (p\<lparr>pol_inherit_denials := Some True\<rparr>)"

definition deployment_default :: approval_policy where [hx_defs]:
  "deployment_default = with_floor_for_deployment default_policy"

definition without_floor :: "approval_policy \<Rightarrow> approval_policy" where [hx_defs]:
  "without_floor p =
     p\<lparr>pol_inherit_denials := Some False,
       pol_deny := filter (\<lambda>r. r \<notin> set default_denials) (pol_deny p),
       pol_refuse_unenumerable := False\<rparr>"

definition has_floor :: "approval_policy \<Rightarrow> bool" where [hx_defs]:
  "has_floor p \<longleftrightarrow> default_denials \<noteq> [] \<and> list_all (\<lambda>r. r \<in> set (pol_deny p)) default_denials"

definition policy_at :: "autonomy_level \<Rightarrow> approval_policy" where [hx_defs]:
  "policy_at level = default_policy\<lparr>pol_level := level\<rparr>"

definition paranoid_policy :: approval_policy where [hx_defs]:
  "paranoid_policy = policy_at Paranoid"

definition yolo_until :: "datetime \<Rightarrow> approval_policy" where [hx_defs]:
  "yolo_until when = default_policy\<lparr>pol_level := Yolo, pol_expires_at := Some when\<rparr>"

definition with_ceiling :: "approval_policy \<Rightarrow> risk_class \<Rightarrow> approval_policy" where [hx_defs]:
  "with_ceiling p c = p\<lparr>pol_ceiling := Some c\<rparr>"

definition with_unattended_budget :: "approval_policy \<Rightarrow> u64 \<Rightarrow> approval_policy" where [hx_defs]:
  "with_unattended_budget p n = p\<lparr>pol_budget := Some n\<rparr>"

end
