(* ===== verification/Approval_Rules_Facts.thy ===== *)
theory Approval_Rules_Facts imports Approval_Rules
begin

section \<open>What rules, keys and the deny list mean\<close>

text \<open>
  The glob matcher is the declarative reading of its pattern; a remembered key never joins two
  different dangerous lines, but does join a line with one that differs in white space only; the
  floor of a policy is idempotent, keeps the operator's rules and can be taken away again.
\<close>

subsection \<open>Globs\<close>

text \<open>The pieces of text one pattern character may stand for.\<close>

definition piece :: "string \<Rightarrow> string list \<Rightarrow> bool" where
  "piece c u \<longleftrightarrow> (if c = ''*'' then True else if c = ''?'' then length u = 1 else u = [c])"

lemma piece_simps [simp]:
  "piece ''*'' u" "piece ''?'' u \<longleftrightarrow> length u = 1"
  "c \<noteq> ''*'' \<Longrightarrow> c \<noteq> ''?'' \<Longrightarrow> piece c u \<longleftrightarrow> u = [c]"
  by (simp_all add: piece_def)

lemma glob_rec_iff: "glob_rec p t \<longleftrightarrow> (\<exists>us. list_all2 piece p us \<and> concat us = t)"
proof (induction p arbitrary: t)
  case Nil
  show ?case by (auto simp: list_all2_Nil)
next
  case (Cons c p)
  have split: "(\<exists>us. list_all2 piece (c # p) us \<and> concat us = t)
      \<longleftrightarrow> (\<exists>u r. piece c u \<and> t = u @ r \<and> (\<exists>us. list_all2 piece p us \<and> concat us = r))"
    (is "?l \<longleftrightarrow> ?r")
  proof
    assume ?l
    then obtain u us where "piece c u" "list_all2 piece p us" "t = u @ concat us"
      by (auto simp: list_all2_Cons1)
    then show ?r by blast
  next
    assume ?r
    then obtain u us where "piece c u" "list_all2 piece p us" "t = u @ concat us" by blast
    then show ?l by (intro exI [of _ "u # us"]) simp
  qed
  consider (star) "c = ''*''" | (any) "c = ''?''" | (lit) "c \<noteq> ''*''" "c \<noteq> ''?''" by blast
  then show ?case
  proof cases
    case star
    have "glob_rec (c # p) t \<longleftrightarrow> (\<exists>i \<le> length t. glob_rec p (drop i t))"
      by (auto simp: star list_ex_iff less_Suc_eq_le simp del: upt_Suc)
    also have "\<dots> \<longleftrightarrow> (\<exists>u r. t = u @ r \<and> glob_rec p r)"
      by (metis append_eq_conv_conj append_take_drop_id length_append le_add1)
    finally show ?thesis unfolding split by (simp add: star Cons.IH del: glob_rec.simps)
  next
    case any
    show ?thesis
    proof (cases t)
      case (Cons d t')
      have "glob_rec (c # p) t \<longleftrightarrow> glob_rec p t'" by (simp add: any Cons)
      also have "\<dots> \<longleftrightarrow> (\<exists>u r. length u = 1 \<and> t = u @ r \<and> glob_rec p r)"
        by (auto simp: Cons length_Suc_conv)
      finally show ?thesis unfolding split by (simp add: any Cons.IH del: glob_rec.simps)
    qed (auto simp: any list_all2_Cons1 length_Suc_conv)
  next
    case lit
    then show ?thesis unfolding split
      by (cases t) (auto simp: Cons.IH)
  qed
qed

text \<open>A pattern matches a text exactly if the text can be cut into consecutive pieces, one
  for each character of the pattern: any text for a star, one character for a question mark, and the
  character itself otherwise.\<close>

theorem glob_match_iff:
  "glob_match pattern text \<longleftrightarrow> (\<exists>us. list_all2 piece (chars pattern) us \<and> concat us = chars text)"
  by (simp add: glob_match_def glob_rec_iff)

lemma glob_rec_literal:
  "''*'' \<notin> set p \<Longrightarrow> ''?'' \<notin> set p \<Longrightarrow> glob_rec p t \<longleftrightarrow> p = t"
  by (induction p arbitrary: t) (auto split: list.split)

lemma glob_rec_star_last: "''*'' \<notin> set p \<Longrightarrow> ''?'' \<notin> set p \<Longrightarrow>
    glob_rec (p @ [''*'']) t \<longleftrightarrow> (\<exists>r. t = p @ r)"
proof (induction p arbitrary: t)
  case Nil
  have "\<exists>i \<in> {0..<Suc (length t)}. drop i t = []" by (intro bexI [of _ "length t"]) simp_all
  then show ?case by (auto simp: list_ex_iff simp del: upt_Suc)
next
  case (Cons c p)
  then show ?case by (cases t) auto
qed

subsection \<open>White space and keys\<close>

lemma is_ws_space [simp]: "is_ws '' ''"
  by (simp add: is_ws_def byte_def)

lemma ws_words_word:
  assumes "w \<noteq> []" "list_all (\<lambda>c. \<not> is_ws c) w"
  shows "ws_words (w @ '' '' # cs) = concat w # ws_words cs" and "ws_words w = [concat w]"
  using assms
proof (induction w)
  case (Cons c w)
  { case 1
    with Cons show ?case by (cases w) auto
  next
    case 2
    with Cons show ?case by (cases w) auto }
qed simp_all

lemma starts_with_append [simp]: "starts_with (p @ s) p"
  by (simp add: starts_with_def)

lemma join_take_prefix: "\<exists>r. join sep ws = join sep (take n ws) @ r"
proof (induction ws arbitrary: n rule: join.induct)
  case (3 sep w v vs)
  show ?case
  proof (cases n)
    case (Suc m)
    with 3 [of m] show ?thesis by (cases m) auto
  qed simp
qed (auto simp: take_Cons')

text \<open>What a mild line is remembered under: its first words.\<close>

lemma rule_key_mild:
  assumes "risk (classify_command (normalize_ws d)) \<le> Mutate"
  shows "\<exists>k r. rule_key tool (Some d) = tool @ ''|'' @ k \<and> normalize_ws d = k @ r"
proof -
  let ?ws = "split_on CHR '' '' (normalize_ws d)"
  let ?n = "if take 2 ?ws \<noteq> [] \<and> hd (take 2 ?ws) \<in> {''sudo'', ''doas'', ''pkexec''} then 3 else 2"
  have "rule_key tool (Some d) = tool @ ''|'' @ join '' '' (take ?n ?ws)"
    using assms unfolding rule_key_def Let_def by (simp only: option.case if_True) simp
  then obtain n where "rule_key tool (Some d) = tool @ ''|'' @ join '' '' (take n ?ws)" ..
  moreover obtain r where "join '' '' ?ws = join '' '' (take n ?ws) @ r"
    using join_take_prefix by blast
  ultimately show ?thesis by (metis join_split_on)
qed

text \<open>A decision remembered for a line that is more than a local change covers no other line,
  up to white space, that is more than a local change; a milder line it also covers can only be
  one that begins with the very line the decision was made on.\<close>

theorem rule_key_dangerous:
  assumes "Mutate < risk (classify_command (normalize_ws c))"
    and "rule_key tool (Some c) = rule_key tool (Some d)"
  shows "normalize_ws d = normalize_ws c \<or>
    (risk (classify_command (normalize_ws d)) \<le> Mutate
      \<and> starts_with (normalize_ws d) (normalize_ws c))"
proof (cases "risk (classify_command (normalize_ws d)) \<le> Mutate")
  case True
  then obtain k r where "rule_key tool (Some d) = tool @ ''|'' @ k" "normalize_ws d = k @ r"
    using rule_key_mild by blast
  with assms True show ?thesis by (simp add: rule_key_def Let_def not_le [symmetric])
next
  case False
  with assms show ?thesis by (simp add: rule_key_def Let_def not_le [symmetric])
qed

theorem rule_key_dangerous_witness:
  "normalize_ws ''git  push origin'' = normalize_ws ''git push origin'' \<or>
    (risk (classify_command (normalize_ws ''git  push origin'')) \<le> Mutate
      \<and> starts_with (normalize_ws ''git  push origin'') (normalize_ws ''git push origin''))"
proof (rule rule_key_dangerous [where tool = "''shell''"])
  show "Mutate < risk (classify_command (normalize_ws ''git push origin''))" by code_simp
  show "rule_key ''shell'' (Some ''git push origin'') = rule_key ''shell'' (Some ''git  push origin'')"
    by code_simp
qed

text \<open>The line break is white space like any other to \<open>normalize_ws\<close>, but it ends a command: a
  line whose second command deletes a home directory is remembered under the key of the harmless first
  command, because the key is computed from a line that has lost the break.\<close>

lemma newline_shares_the_key:
  "rule_key ''shell'' (Some (''npm install'' @ [CHR 0x0A] @ ''rm -rf /home/me''))
    = rule_key ''shell'' (Some ''npm install'')"
  by code_simp

lemma newline_request_is_destructive:
  "req_risk (shell_request (''npm install'' @ [CHR 0x0A] @ ''rm -rf /home/me'')) = Destructive"
  by code_simp

subsection \<open>The floor\<close>

lemma deny_with_floor:
  "pol_inherit_denials p = Some True \<Longrightarrow>
     set (pol_deny (with_floor p)) = set (pol_deny p) \<union> set default_denials"
  by (auto simp: with_floor_def)

text \<open>Folding the floor in a second time changes nothing.\<close>

theorem with_floor_idem: "with_floor (with_floor p) = with_floor p"
  by (simp add: with_floor_def filter_False)

lemma default_denials_nonempty: "default_denials \<noteq> []"
  by (simp add: default_denials_def)

lemma has_floor_with_floor: "pol_inherit_denials p = Some True \<Longrightarrow> has_floor (with_floor p)"
  by (simp add: has_floor_def list_all_iff deny_with_floor default_denials_nonempty)

lemma find_filter_append: "find P xs = Some x \<Longrightarrow> x \<notin> F \<Longrightarrow>
    find P (filter (\<lambda>r. r \<notin> F) xs @ ys) = find P (filter (\<lambda>r. r \<notin> F) xs)"
  by (induction xs) (auto split: if_splits)

lemma find_append: "find P (xs @ ys) = (case find P xs of Some x \<Rightarrow> Some x | None \<Rightarrow> find P ys)"
  by (induction xs) auto

lemma find_filter_first: "find P xs = Some x \<Longrightarrow> Q x \<Longrightarrow> \<exists>y. find P (filter Q xs) = Some y"
  by (induction xs) (auto split: if_splits)

text \<open>The rule that decides, and so the note the operator reads, is the operator's own wherever
  one of the operator's own rules applies.\<close>

lemma operator_rule_first:
  assumes "pol_inherit_denials p = Some True" "rule_matches r req" "r \<in> set (pol_deny p)"
    and "r \<notin> set default_denials"
  shows "\<exists>r'. find (\<lambda>r. rule_matches r req) (pol_deny (with_floor p)) = Some r'
    \<and> r' \<in> set (pol_deny p) \<and> r' \<notin> set default_denials"
proof -
  let ?own = "filter (\<lambda>r. r \<notin> set default_denials) (pol_deny p)"
  have "find (\<lambda>r. rule_matches r req) ?own \<noteq> None"
    using assms by (auto simp: find_None_iff)
  then obtain r' where "find (\<lambda>r. rule_matches r req) ?own = Some r'" by blast
  moreover from this have "r' \<in> set ?own" by (metis find_Some_iff nth_mem)
  ultimately show ?thesis using assms(1) by (simp add: with_floor_def find_append)
qed

lemma without_floor_has_none: "\<not> has_floor (without_floor p)"
  using list.set_sel(1) [OF default_denials_nonempty]
  by (auto simp: has_floor_def without_floor_def list_all_iff)

lemma without_floor_with_floor:
  "pol_inherit_denials p = Some True \<Longrightarrow> without_floor (with_floor p) = without_floor p"
  by (simp add: with_floor_def without_floor_def filter_False)

lemma has_floor_deployment_default: "has_floor deployment_default"
  by (simp add: deployment_default_def with_floor_for_deployment_def has_floor_with_floor)

subsection \<open>Refused deletions\<close>

lemma first_pattern_None: "first_pattern ts = None \<longleftrightarrow> (\<forall>t \<in> set ts. pattern_metachar t = None)"
  by (induction ts) (auto split: option.splits)

text \<open>A segment that deletes something named by a pattern.\<close>

definition deletes_by_pattern :: "string \<Rightarrow> bool" where [hx_defs]:
  "deletes_by_pattern segment \<longleftrightarrow>
     (let (head, rest) = split_head (strip_wrappers segment) in
      deletes (basename head) rest
        \<and> list_ex (\<lambda>t. pattern_metachar t \<noteq> None) (split_whitespace rest))"

lemma unenumerable_segment_None:
  "unenumerable_segment ss = None \<longleftrightarrow> (\<forall>s \<in> set ss. \<not> deletes_by_pattern s)"
proof (induction ss)
  case (Cons s ss)
  obtain head rest where h: "split_head (strip_wrappers s) = (head, rest)" by fastforce
  have "deletes_by_pattern s
      \<longleftrightarrow> deletes (basename head) rest \<and> first_pattern (split_whitespace rest) \<noteq> None"
    unfolding first_pattern_None by (simp add: deletes_by_pattern_def h list_ex_iff)
  then show ?case using Cons.IH by (auto simp: h split: option.split)
qed simp

text \<open>A command line is refused as a deletion that cannot be listed exactly if one of its
  segments, behind its wrappers, deletes and has an argument that is a pattern.\<close>

theorem unenumerable_deletion_iff:
  "unenumerable_deletion command \<noteq> None
    \<longleftrightarrow> (\<exists>segment \<in> set (split_segments command). deletes_by_pattern segment)"
  using unenumerable_segment_None by (auto simp: unenumerable_deletion_def)

text \<open>A quotation at the start of an argument counts for all of it, so a glob behind one is
  missed, and so is a set named by a command in backquotes.\<close>

lemma quoted_prefix_hides_the_glob:
  "unenumerable_deletion (''rm -rf '' @ [CHR 0x22] @ ''build'' @ [CHR 0x22] @ ''*'') = None"
  by code_simp

lemma backquotes_hide_the_set:
  "unenumerable_deletion (''rm -rf '' @ [CHR 0x60] @ ''find . -newer x'' @ [CHR 0x60]) = None"
  by code_simp

lemma bare_glob_is_refused: "unenumerable_deletion ''rm -rf build*'' \<noteq> None"
  by code_simp

text \<open>The wrappers that escalate are not looked behind.\<close>

lemma sudo_hides_the_glob: "unenumerable_deletion ''sudo rm -rf build*'' = None"
  by code_simp

end
