(* ===== verification/Approval_Session.thy ===== *)
theory Approval_Session imports Approval_Rules
begin

section \<open>The approval session of a chat\<close>

text \<open>
  \<open>ApprovalRequest\<close>, \<open>Verdict\<close> and \<open>ApprovalSession\<close> of \<open>crates/hx-core/src/approval.rs\<close>: the state
  machine that decides every proposed action, asks, and takes the answer.  An operation returns
  its verdict and the state it leaves.  The clock and the identifier that \<open>ApprovalId::new\<close> draws
  are arguments.  The counter of unattended actions is the code's \<open>u64\<close> and wraps.
\<close>

subsection \<open>Questions and verdicts\<close>

datatype approval_option = AllowOnce | AllowForChat | AllowAlways | DenyIt

fun option_label :: "approval_option \<Rightarrow> string" where
  "option_label AllowOnce = ''allow once''"
| "option_label AllowForChat = ''allow for this chat''"
| "option_label AllowAlways = ''always allow this''"
| "option_label DenyIt = ''deny''"

record unattended_budget =
  ub_budget :: u64
  ub_remaining :: u64

record approval_request =
  apr_id :: string
  apr_tool :: string
  apr_summary :: string
  apr_risk :: risk_class
  apr_reason :: string
  apr_key :: string
  apr_options :: "approval_option list"
  apr_targets :: "target list"
  apr_reversible :: bool
  apr_undo :: "string option"
  apr_unattended :: "unattended_budget option"
  apr_session :: "string option"
  apr_confined :: confinement
  apr_on_timeout :: approval_option
  apr_timeout_secs :: "u64 option"

definition after_line :: "approval_request \<Rightarrow> string" where [hx_defs]:
  "after_line r = (case (apr_undo r, apr_reversible r) of
     (Some undo, _) \<Rightarrow> undo
   | (None, True) \<Rightarrow> ''this change can be undone''
   | (None, False) \<Rightarrow> ''This cannot be undone.'')"

definition render :: "approval_request \<Rightarrow> string" where [hx_defs]:
  "render r =
     (let options = join '' | '' (map option_label (apr_options r)) in
      join [CHR 0x0A]
       ([apr_summary r, ''risk: '' @ risk_label (apr_risk r), ''why:  '' @ apr_reason r]
        @ (if apr_targets r = [] then []
           else ''target:'' # map (\<lambda>t. ''  '' @ describe_target t) (apr_targets r))
        @ (if is_sandbox (apr_confined r) then [''where: inside a sandbox, not on the host''] else [])
        @ [''after: '' @ after_line r]
        @ (case apr_timeout_secs r of
             Some secs \<Rightarrow>
               [''answer: '' @ options @ ''   ('' @ option_label (apr_on_timeout r)
                @ '' if nobody answers within '' @ show_u64 secs @ ''s)'']
           | None \<Rightarrow> [''answer: '' @ options])))"

datatype verdict =
    Allowed string
  | Denied string
  | Asks approval_request

definition is_allowed :: "verdict \<Rightarrow> bool" where [hx_defs]:
  "is_allowed v \<longleftrightarrow> (case v of Allowed _ \<Rightarrow> True | _ \<Rightarrow> False)"

definition is_denied :: "verdict \<Rightarrow> bool" where [hx_defs]:
  "is_denied v \<longleftrightarrow> (case v of Denied _ \<Rightarrow> True | _ \<Rightarrow> False)"

definition is_asking :: "verdict \<Rightarrow> bool" where [hx_defs]:
  "is_asking v \<longleftrightarrow> (case v of Asks _ \<Rightarrow> True | _ \<Rightarrow> False)"

fun verdict_why :: "verdict \<Rightarrow> string" where
  "verdict_why (Allowed why) = why"
| "verdict_why (Denied why) = why"
| "verdict_why (Asks r) = apr_reason r"

datatype remembered_decision = RememberAllow | RememberDeny

subsection \<open>The state and its operations\<close>

record approval_session =
  policy :: approval_policy
  remembered :: "string \<rightharpoonup> remembered_decision"
  consecutive_auto :: u64
  promotions :: "action_request list"
  outstanding :: "approval_request option"

definition new_session :: "approval_policy \<Rightarrow> approval_session" where [hx_defs]:
  "new_session p =
     \<lparr>policy = p, remembered = Map.empty, consecutive_auto = 0, promotions = [], outstanding = None\<rparr>"

definition set_level :: "autonomy_level \<Rightarrow> approval_session \<Rightarrow> approval_session" where [hx_defs]:
  "set_level l s = s\<lparr>policy := (policy s)\<lparr>pol_level := l\<rparr>, consecutive_auto := 0\<rparr>"

definition revoke :: "approval_session \<Rightarrow> approval_session" where [hx_defs]:
  "revoke s =
     s\<lparr>policy := (policy s)\<lparr>pol_level := Balanced, pol_expires_at := None\<rparr>,
       remembered := Map.empty, outstanding := None, consecutive_auto := 0\<rparr>"

definition is_expired :: "approval_session \<Rightarrow> datetime \<Rightarrow> bool" where [hx_defs]:
  "is_expired s now \<longleftrightarrow>
     (case pol_expires_at (policy s) of Some t \<Rightarrow> t \<le> now | None \<Rightarrow> False)"

definition take_promotions :: "approval_session \<Rightarrow> action_request list \<times> approval_session" where [hx_defs]:
  "take_promotions s = (promotions s, s\<lparr>promotions := []\<rparr>)"

definition saturating_sub :: "u64 \<Rightarrow> u64 \<Rightarrow> u64" where [hx_defs]:
  "saturating_sub a b = (if a < b then 0 else a - b)"

definition offered_options :: "action_request \<Rightarrow> approval_option list" where [hx_defs]:
  "offered_options req =
     [AllowOnce, AllowForChat]
     @ (if req_reversible req \<and> req_risk req \<le> Mutate then [AllowAlways] else [])
     @ [DenyIt]"

definition build_request ::
  "string \<Rightarrow> action_request \<Rightarrow> string \<Rightarrow> approval_session \<Rightarrow> approval_request \<times> approval_session" where [hx_defs]:
  "build_request aid req why s =
     (let request =
        \<lparr>apr_id = aid, apr_tool = req_tool req, apr_summary = req_summary req,
         apr_risk = req_risk req, apr_reason = why, apr_key = req_key req,
         apr_options = offered_options req, apr_targets = req_targets req,
         apr_reversible = req_reversible req, apr_undo = req_undo req,
         apr_unattended = map_option
           (\<lambda>b. \<lparr>ub_budget = b, ub_remaining = saturating_sub b (consecutive_auto s)\<rparr>)
           (pol_budget (policy s)),
         apr_session = None, apr_confined = req_confined req, apr_on_timeout = DenyIt,
         apr_timeout_secs = None\<rparr>
      in (request, s\<lparr>outstanding := Some request\<rparr>))"

definition ask :: "string \<Rightarrow> action_request \<Rightarrow> string \<Rightarrow> approval_session \<Rightarrow> verdict \<times> approval_session" where [hx_defs]:
  "ask aid req why s = (let (request, s) = build_request aid req why s in (Asks request, s))"

definition allow :: "string \<Rightarrow> approval_session \<Rightarrow> verdict \<times> approval_session" where [hx_defs]:
  "allow why s = (Allowed why, s\<lparr>consecutive_auto := consecutive_auto s + 1\<rparr>)"

text \<open>The expiry step at the head of \<open>decide\<close>.\<close>

definition lapse :: "datetime \<Rightarrow> approval_session \<Rightarrow> approval_session" where [hx_defs]:
  "lapse now s =
     (if is_expired s now
      then s\<lparr>policy := (policy s)\<lparr>pol_level := tighten (pol_level (policy s)), pol_expires_at := None\<rparr>,
             remembered := Map.empty\<rparr>
      else s)"

definition first_match :: "rule list \<Rightarrow> action_request \<Rightarrow> rule option" where [hx_defs]:
  "first_match rules req = find (\<lambda>r. rule_matches r req) rules"

definition note_or :: "rule \<Rightarrow> string \<Rightarrow> string" where [hx_defs]:
  "note_or r s = (case rule_note r of Some note \<Rightarrow> note | None \<Rightarrow> s)"

text \<open>The last three checks: the ceiling, the budget, the threshold of the level.\<close>

definition decide_threshold ::
  "string \<Rightarrow> action_request \<Rightarrow> approval_session \<Rightarrow> verdict \<times> approval_session" where [hx_defs]:
  "decide_threshold aid req s =
     (case threshold (pol_level (policy s)) of
        Some t \<Rightarrow>
          if t \<le> req_risk req then ask aid req (req_reason req) s
          else allow (risk_label (req_risk req) @ '' is below the ''
                 @ level_label (pol_level (policy s)) @ '' threshold ('' @ req_reason req @ '')'') s
      | None \<Rightarrow>
          allow (risk_label (req_risk req) @ '' is below the ''
            @ level_label (pol_level (policy s)) @ '' threshold ('' @ req_reason req @ '')'') s)"

definition over_ceiling :: "approval_session \<Rightarrow> action_request \<Rightarrow> bool" where [hx_defs]:
  "over_ceiling s req \<longleftrightarrow>
     (case pol_ceiling (policy s) of Some c \<Rightarrow> c < req_risk req | None \<Rightarrow> False)"

definition budget_spent :: "approval_session \<Rightarrow> bool" where [hx_defs]:
  "budget_spent s \<longleftrightarrow>
     (case pol_budget (policy s) of
        Some b \<Rightarrow> 0 < b \<and> b \<le> consecutive_auto s | None \<Rightarrow> False)"

definition decide_guarded ::
  "string \<Rightarrow> action_request \<Rightarrow> approval_session \<Rightarrow> verdict \<times> approval_session" where [hx_defs]:
  "decide_guarded aid req s =
     (if over_ceiling s req
      then ask aid req (risk_label (req_risk req)
             @ '' exceeds this deployment's auto-approval ceiling (''
             @ risk_label (the (pol_ceiling (policy s))) @ '') '' @ em_dash @ '' '' @ req_reason req) s
      else if budget_spent s
      then ask aid req (show_u64 (the (pol_budget (policy s)))
             @ '' consecutive actions ran without review '' @ em_dash
             @ '' checking in before continuing'') s
      else decide_threshold aid req s)"

definition refused_deletion :: "approval_session \<Rightarrow> action_request \<Rightarrow> string option" where [hx_defs]:
  "refused_deletion s req =
     (if pol_refuse_unenumerable (policy s)
      then Option.bind (req_command req) unenumerable_deletion else None)"

definition decide_live ::
  "string \<Rightarrow> action_request \<Rightarrow> approval_session \<Rightarrow> verdict \<times> approval_session" where [hx_defs]:
  "decide_live aid req s =
     (case first_match (pol_deny (policy s)) req of
        Some r \<Rightarrow> (Denied (note_or r (''denied by policy for tool '' @ req_tool req)), s)
      | None \<Rightarrow>
     (case refused_deletion s req of
        Some why \<Rightarrow> (Denied why, s)
      | None \<Rightarrow>
     (case first_match (pol_ask (policy s)) req of
        Some r \<Rightarrow> ask aid req
          (note_or r (''policy asks about '' @ risk_label (req_risk req) @ '' on tool '' @ req_tool req)) s
      | None \<Rightarrow>
     (case remembered s (req_key req) of
        Some RememberDeny \<Rightarrow>
          (Denied (''you denied this earlier in the chat: '' @ req_summary req), s)
      | Some RememberAllow \<Rightarrow> allow ''approved earlier in this chat'' s
      | None \<Rightarrow>
     (case first_match (pol_allow (policy s)) req of
        Some r \<Rightarrow> allow (note_or r (''allowed by policy for tool '' @ req_tool req)) s
      | None \<Rightarrow> decide_guarded aid req s)))))"

definition decide ::
  "string \<Rightarrow> datetime \<Rightarrow> action_request \<Rightarrow> approval_session \<Rightarrow> verdict \<times> approval_session" where [hx_defs]:
  "decide aid now req s = decide_live aid req (lapse now s)"

definition resolve ::
  "string \<Rightarrow> approval_option \<Rightarrow> action_request \<Rightarrow> approval_session \<Rightarrow> verdict \<times> approval_session" where [hx_defs]:
  "resolve aid option req s =
     (if map_option apr_id (outstanding s) \<noteq> Some aid
      then (Denied ''approval id does not match the outstanding request'', s)
      else
        (let s = s\<lparr>outstanding := None, consecutive_auto := 0\<rparr>;
             remember = (\<lambda>d s. s\<lparr>remembered := (remembered s)(req_key req \<mapsto> d)\<rparr>)
         in case option of
           AllowOnce \<Rightarrow> (Allowed ''approved once by the user'', s)
         | AllowForChat \<Rightarrow>
             (Allowed ''approved for the rest of this chat'', remember RememberAllow s)
         | AllowAlways \<Rightarrow>
             (Allowed ''approved permanently'',
              (remember RememberAllow s)\<lparr>promotions := promotions s @ [req]\<rparr>)
         | DenyIt \<Rightarrow> (Denied ''denied by the user'', remember RememberDeny s)))"

definition timeout :: "approval_session \<Rightarrow> verdict \<times> approval_session" where [hx_defs]:
  "timeout s =
     (case outstanding s of
        None \<Rightarrow> (Denied ''no outstanding approval request'', s)
      | Some r \<Rightarrow>
          ((case apr_on_timeout r of
              DenyIt \<Rightarrow>
                Denied (''no response within the timeout; defaulted to deny ('' @ apr_summary r @ '')'')
            | _ \<Rightarrow> Allowed ''no response within the timeout; defaulted to allow''),
           s\<lparr>outstanding := None\<rparr>))"

end
