(* ===== verification/Machine.thy ===== *)
theory Machine imports Main
begin

section \<open>State machines and their invariants\<close>

text \<open>
  Several components are objects with a handful of operations that callers invoke in any order.
  Each is presented as a type of calls and a function from a call and a state to the next state.
  What holds of every state such an object can be in is proved through the contract below, which
  each component interprets on its own calls.
\<close>

inductive reaches :: "('c \<Rightarrow> 's \<Rightarrow> 's) \<Rightarrow> 's \<Rightarrow> 's \<Rightarrow> bool" for step where
  reaches_start: "reaches step s s"
| reaches_call: "reaches step s t \<Longrightarrow> reaches step s (step c t)"

inductive_cases reachesE: "reaches step s t"

lemma reaches_trans: "reaches step t u \<Longrightarrow> reaches step s t \<Longrightarrow> reaches step s u"
  by (induction rule: reaches.induct) (auto intro: reaches_call)

lemma reaches_fold: "reaches step s (fold step cs s)"
proof (induction cs arbitrary: s)
  case (Cons c cs)
  show ?case
    using Cons.IH [of "step c s"] reaches_trans reaches_call [OF reaches_start] by fastforce
qed (simp add: reaches_start)

lemma reaches_iff_fold: "reaches step s t \<longleftrightarrow> (\<exists>cs. t = fold step cs s)"
proof
  assume "reaches step s t"
  then show "\<exists>cs. t = fold step cs s"
  proof (induction rule: reaches.induct)
    case (reaches_start s)
    show ?case by (intro exI [of _ "[]"]) simp
  next
    case (reaches_call s t c)
    then obtain cs where "t = fold step cs s" by blast
    then have "step c t = fold step (cs @ [c]) s" by simp
    then show ?case by blast
  qed
qed (auto intro: reaches_fold)

text \<open>The contract: every call keeps the invariant.\<close>

locale invariant =
  fixes step :: "'c \<Rightarrow> 's \<Rightarrow> 's"
    and inv :: "'s \<Rightarrow> bool"
  assumes keeps: "inv s \<Longrightarrow> inv (step c s)"
begin

lemma reachable: "reaches step s t \<Longrightarrow> inv s \<Longrightarrow> inv t"
  by (induction rule: reaches.induct) (auto intro: keeps)

lemma along_run: "inv s \<Longrightarrow> inv (fold step cs s)"
  by (rule reachable [OF reaches_fold])

end

text \<open>A machine one part of whose state no call changes.\<close>

locale frozen =
  fixes step :: "'c \<Rightarrow> 's \<Rightarrow> 's"
    and part :: "'s \<Rightarrow> 'p"
  assumes part_step: "part (step c s) = part s"
begin

lemma frozen_invariant: "invariant step (\<lambda>s. part s = x)"
  by (rule invariant.intro) (simp only: part_step)

lemma frozen_reachable: "reaches step s t \<Longrightarrow> part t = part s"
  using invariant.reachable [OF frozen_invariant] by metis

end

end
