(* ===== verification/Approval_Session_Facts.thy ===== *)
theory Approval_Session_Facts imports Approval_Session Approval_Rules_Facts Machine
begin

section \<open>What the approval session guarantees\<close>

text \<open>
  The order of the checks as a decision table, the guard rails that no level, answer or
  remembered decision removes, the bound the unattended budget sets on a run, and what holds of
  every state a session can be driven into.
\<close>

subsection \<open>Shared facts\<close>

lemma verdict_tests [simp]:
  "is_allowed (Allowed w)" "\<not> is_allowed (Denied w)" "\<not> is_allowed (Asks r)"
  "is_denied (Denied w)" "\<not> is_denied (Allowed w)" "\<not> is_denied (Asks r)"
  "is_asking (Asks r)" "\<not> is_asking (Allowed w)" "\<not> is_asking (Denied w)"
  by (simp_all add: is_allowed_def is_denied_def is_asking_def)

lemma verdict_exhaust: "is_allowed v \<or> is_denied v \<or> is_asking v"
  by (cases v) simp_all

lemma ask_tests [simp]:
  "\<not> is_allowed (fst (ask aid req why s))" "\<not> is_denied (fst (ask aid req why s))"
  "is_asking (fst (ask aid req why s))"
  by (simp_all add: ask_def build_request_def Let_def)

lemma allow_tests [simp]:
  "is_allowed (fst (allow why s))" "\<not> is_denied (fst (allow why s))"
  "\<not> is_asking (fst (allow why s))"
  by (simp_all add: allow_def)

lemma ask_state [simp]:
  "policy (snd (ask aid req why s)) = policy s"
  "remembered (snd (ask aid req why s)) = remembered s"
  "consecutive_auto (snd (ask aid req why s)) = consecutive_auto s"
  "promotions (snd (ask aid req why s)) = promotions s"
  by (simp_all add: ask_def build_request_def Let_def)

lemma allow_state [simp]:
  "policy (snd (allow why s)) = policy s"
  "remembered (snd (allow why s)) = remembered s"
  "consecutive_auto (snd (allow why s)) = consecutive_auto s + 1"
  "promotions (snd (allow why s)) = promotions s"
  "outstanding (snd (allow why s)) = outstanding s"
  by (simp_all add: allow_def)

lemma first_match_Some: "first_match rules req \<noteq> None \<longleftrightarrow> (\<exists>r \<in> set rules. rule_matches r req)"
  by (auto simp: first_match_def find_None_iff)

lemma first_match_None: "first_match rules req = None \<longleftrightarrow> (\<forall>r \<in> set rules. \<not> rule_matches r req)"
  using first_match_Some by blast

subsection \<open>The decision table\<close>

text \<open>The conditions, in the order the code tests them, on the session after the expiry step.\<close>

definition barred :: "approval_session \<Rightarrow> action_request \<Rightarrow> bool" where
  "barred s req \<longleftrightarrow>
     (\<exists>r \<in> set (pol_deny (policy s)). rule_matches r req)
     \<or> (pol_refuse_unenumerable (policy s)
        \<and> (\<exists>c. req_command req = Some c \<and> unenumerable_deletion c \<noteq> None))"

definition must_ask :: "approval_session \<Rightarrow> action_request \<Rightarrow> bool" where
  "must_ask s req \<longleftrightarrow> (\<exists>r \<in> set (pol_ask (policy s)). rule_matches r req)"

definition listed :: "approval_session \<Rightarrow> action_request \<Rightarrow> bool" where
  "listed s req \<longleftrightarrow> (\<exists>r \<in> set (pol_allow (policy s)). rule_matches r req)"

definition within_dial :: "approval_session \<Rightarrow> action_request \<Rightarrow> bool" where
  "within_dial s req \<longleftrightarrow>
     \<not> over_ceiling s req \<and> \<not> budget_spent s \<and> auto_allows (pol_level (policy s)) (req_risk req)"

lemma refused_iff: "refused_deletion s req = None
    \<longleftrightarrow> \<not> (pol_refuse_unenumerable (policy s)
        \<and> (\<exists>c. req_command req = Some c \<and> unenumerable_deletion c \<noteq> None))"
  by (cases "req_command req") (auto simp: refused_deletion_def)

lemma decide_guarded_allowed: "is_allowed (fst (decide_guarded aid req s)) \<longleftrightarrow> within_dial s req"
  by (auto simp: decide_guarded_def decide_threshold_def within_dial_def auto_allows_def not_le
      split: option.split)

lemma decide_guarded_denied [simp]: "\<not> is_denied (fst (decide_guarded aid req s))"
  by (auto simp: decide_guarded_def decide_threshold_def split: option.split)

lemma decide_live_cases:
  obtains (deny) why where "barred s req" "decide_live aid req s = (Denied why, s)"
  | (ask) why where "\<not> barred s req" "must_ask s req" "decide_live aid req s = ask aid req why s"
  | (no) why where "\<not> barred s req" "\<not> must_ask s req"
      "remembered s (req_key req) = Some RememberDeny" "decide_live aid req s = (Denied why, s)"
  | (yes) why where "\<not> barred s req" "\<not> must_ask s req"
      "remembered s (req_key req) = Some RememberAllow" "decide_live aid req s = allow why s"
  | (list) why where "\<not> barred s req" "\<not> must_ask s req"
      "remembered s (req_key req) = None" "listed s req" "decide_live aid req s = allow why s"
  | (dial) "\<not> barred s req" "\<not> must_ask s req"
      "remembered s (req_key req) = None" "\<not> listed s req"
      "decide_live aid req s = decide_guarded aid req s"
proof -
  have b: "\<not> barred s req \<longleftrightarrow> first_match (pol_deny (policy s)) req = None \<and> refused_deletion s req = None"
    unfolding refused_iff first_match_None barred_def by blast
  have m: "must_ask s req \<longleftrightarrow> first_match (pol_ask (policy s)) req \<noteq> None"
    unfolding must_ask_def first_match_Some ..
  have l: "listed s req \<longleftrightarrow> first_match (pol_allow (policy s)) req \<noteq> None"
    unfolding listed_def first_match_Some ..
  show ?thesis
  proof (cases "barred s req")
    case True
    then consider r where "first_match (pol_deny (policy s)) req = Some r"
      | why where "first_match (pol_deny (policy s)) req = None" "refused_deletion s req = Some why"
      using b by (metis not_None_eq)
    then have "\<exists>why. decide_live aid req s = (Denied why, s)"
    proof cases
      case 1
      then show ?thesis unfolding decide_live_def by (simp only: option.case) blast
    next
      case 2
      then show ?thesis unfolding decide_live_def by (simp only: option.case) blast
    qed
    with True show ?thesis using deny by blast
  next
    case nb: False
    then have *: "first_match (pol_deny (policy s)) req = None" "refused_deletion s req = None" using b by blast+
    show ?thesis
    proof (cases "must_ask s req")
      case True
      then obtain r where "first_match (pol_ask (policy s)) req = Some r" using m by blast
      with * have "\<exists>why. decide_live aid req s = ask aid req why s"
        unfolding decide_live_def by (simp only: option.case) blast
      with nb True show ?thesis using ask by blast
    next
      case na: False
      then have ma: "first_match (pol_ask (policy s)) req = None" using m by blast
      consider "remembered s (req_key req) = Some RememberDeny"
        | "remembered s (req_key req) = Some RememberAllow"
        | "remembered s (req_key req) = None" "first_match (pol_allow (policy s)) req = None"
        | r where "remembered s (req_key req) = None" "first_match (pol_allow (policy s)) req = Some r"
        by (metis not_None_eq remembered_decision.exhaust)
      then show ?thesis
      proof cases
        case 1
        with * ma have "\<exists>why. decide_live aid req s = (Denied why, s)"
          unfolding decide_live_def by (simp only: option.case remembered_decision.case) blast
        with nb na 1 show ?thesis using no by blast
      next
        case 2
        with * ma have "\<exists>why. decide_live aid req s = allow why s"
          unfolding decide_live_def by (simp only: option.case remembered_decision.case) blast
        with nb na 2 show ?thesis using yes by blast
      next
        case 3
        with * ma have "decide_live aid req s = decide_guarded aid req s"
          unfolding decide_live_def by (simp only: option.case)
        with nb na 3 l show ?thesis using dial by blast
      next
        case 4
        with * ma have "\<exists>why. decide_live aid req s = allow why s"
          unfolding decide_live_def by (simp only: option.case remembered_decision.case) blast
        with nb na 4 l show ?thesis using list by blast
      qed
    qed
  qed
qed

lemma decide_allowed:
  "is_allowed (fst (decide aid now req s)) \<longleftrightarrow>
     (let s' = lapse now s in
      \<not> barred s' req \<and> \<not> must_ask s' req
      \<and> (case remembered s' (req_key req) of
           Some d \<Rightarrow> d = RememberAllow
         | None \<Rightarrow> listed s' req \<or> within_dial s' req))"
  unfolding decide_def Let_def
  by (cases rule: decide_live_cases [of "lapse now s" req aid])
    (simp_all add: decide_guarded_allowed)


text \<open>An action is refused exactly if a deny rule or the refusal of unlistable deletions bars it, or
  if no ask rule matches it and the user denied its key; the dial alone never refuses anything.\<close>

theorem decide_denies_iff:
  "is_denied (fst (decide aid now req s)) \<longleftrightarrow>
     (let s' = lapse now s in
      barred s' req \<or> (\<not> must_ask s' req \<and> remembered s' (req_key req) = Some RememberDeny))"
  unfolding decide_def Let_def
  by (cases rule: decide_live_cases [of "lapse now s" req aid]) simp_all

lemma lapse_policy [simp]:
  "pol_deny (policy (lapse now s)) = pol_deny (policy s)"
  "pol_ask (policy (lapse now s)) = pol_ask (policy s)"
  "pol_allow (policy (lapse now s)) = pol_allow (policy s)"
  "pol_ceiling (policy (lapse now s)) = pol_ceiling (policy s)"
  "pol_budget (policy (lapse now s)) = pol_budget (policy s)"
  "pol_refuse_unenumerable (policy (lapse now s)) = pol_refuse_unenumerable (policy s)"
  "pol_inherit_denials (policy (lapse now s)) = pol_inherit_denials (policy s)"
  "consecutive_auto (lapse now s) = consecutive_auto s"
  "outstanding (lapse now s) = outstanding s"
  "promotions (lapse now s) = promotions s"
  by (simp_all add: lapse_def)

lemma lapse_tests [simp]:
  "barred (lapse now s) req = barred s req" "must_ask (lapse now s) req = must_ask s req"
  "listed (lapse now s) req = listed s req" "over_ceiling (lapse now s) req = over_ceiling s req"
  "budget_spent (lapse now s) = budget_spent s"
  by (simp_all add: barred_def must_ask_def listed_def over_ceiling_def budget_spent_def
      split: option.split)

text \<open>When a grant has lapsed, nothing it allowed survives it: an action is then allowed only by an
  allow rule, or if the next tighter level allows it; what the user approved during the grant is
  forgotten.\<close>

theorem expired_grant_tightens:
  assumes "is_expired s now" and "is_allowed (fst (decide aid now req s))"
  shows "listed s req \<or> auto_allows (tighten (pol_level (policy s))) (req_risk req)"
  using assms by (auto simp: decide_allowed Let_def lapse_def within_dial_def listed_def)

theorem expired_grant_tightens_witness:
  "listed (new_session (yolo_until 5)) (tool_request ''read_file'' ''f'' Read ''reads'')
    \<or> auto_allows (tighten (pol_level (policy (new_session (yolo_until 5)))))
        (req_risk (tool_request ''read_file'' ''f'' Read ''reads''))"
proof (rule expired_grant_tightens [where aid = "''q1''" and now = 7])
  show "is_expired (new_session (yolo_until 5)) 7" by code_simp
  show "is_allowed (fst (decide ''q1'' 7 (tool_request ''read_file'' ''f'' Read ''reads'')
      (new_session (yolo_until 5))))"
    by code_simp
qed

text \<open>The ceiling survives every level: an action above it that the user has not approved in this
  chat and that no allow rule lists is never allowed, at whatever level the chat runs.\<close>

theorem ceiling_survives_any_level:
  assumes "pol_ceiling (policy s) = Some c" "c < req_risk req"
    and "remembered s (req_key req) = None" "\<not> listed s req"
  shows "\<not> is_allowed (fst (decide aid now req (set_level level s)))"
proof -
  have l: "listed (set_level level s) req = listed s req"
    and c: "over_ceiling (set_level level s) req"
    using assms(1,2) by (simp_all add: listed_def over_ceiling_def set_level_def)
  have "remembered (lapse now (set_level level s)) (req_key req) = None"
    using assms(3) by (simp add: lapse_def set_level_def)
  then show ?thesis
    using assms(4) l c by (simp add: decide_allowed Let_def within_dial_def)
qed

definition push_request :: action_request where [hx_defs]:
  "push_request = shell_request ''git push origin main''"

definition ceiling_session :: approval_session where [hx_defs]:
  "ceiling_session = new_session (with_ceiling default_policy Mutate)"

theorem ceiling_survives_any_level_witness:
  "\<not> is_allowed (fst (decide ''q1'' 0 push_request (set_level Yolo ceiling_session)))"
proof (rule ceiling_survives_any_level)
  show "pol_ceiling (policy ceiling_session) = Some Mutate" by code_simp
  show "Mutate < req_risk push_request" by code_simp
  show "remembered ceiling_session (req_key push_request) = None" by code_simp
  show "\<not> listed ceiling_session push_request" by (simp add: listed_def) code_simp
qed

subsection \<open>Every state a session can be in\<close>

datatype session_call =
    Decide string datetime action_request
  | Resolve string approval_option action_request
  | Timeout
  | SetLevel autonomy_level
  | Revoke
  | TakePromotions

fun session_step :: "session_call \<Rightarrow> approval_session \<Rightarrow> approval_session" where
  "session_step (Decide aid now req) s = snd (decide aid now req s)"
| "session_step (Resolve aid option req) s = snd (resolve aid option req s)"
| "session_step Timeout s = snd (timeout s)"
| "session_step (SetLevel l) s = set_level l s"
| "session_step Revoke s = revoke s"
| "session_step TakePromotions s = snd (take_promotions s)"

lemma decide_guarded_state:
  "policy (snd (decide_guarded aid req s)) = policy s"
  "remembered (snd (decide_guarded aid req s)) = remembered s"
  "promotions (snd (decide_guarded aid req s)) = promotions s"
  by (auto simp: decide_guarded_def decide_threshold_def split: option.split)

lemma decide_live_state:
  "policy (snd (decide_live aid req s)) = policy s"
  "remembered (snd (decide_live aid req s)) = remembered s"
  "promotions (snd (decide_live aid req s)) = promotions s"
  by (cases rule: decide_live_cases [of s req aid]; simp add: decide_guarded_state)+

lemma decide_state [simp]:
  "policy (snd (decide aid now req s)) = policy (lapse now s)"
  "remembered (snd (decide aid now req s)) = remembered (lapse now s)"
  "promotions (snd (decide aid now req s)) = promotions s"
  by (simp_all add: decide_def decide_live_state)

lemma resolve_state:
  "policy (snd (resolve aid option req s)) = policy s"
  "remembered (snd (resolve aid option req s)) = remembered s
    \<or> (\<exists>d. remembered (snd (resolve aid option req s)) = (remembered s)(req_key req \<mapsto> d))"
  by (cases option; auto simp: resolve_def Let_def)+

lemma timeout_state:
  "policy (snd (timeout s)) = policy s" "remembered (snd (timeout s)) = remembered s"
  "outstanding (snd (timeout s)) = None"
  by (simp_all add: timeout_def split: option.split)

text \<open>What the operator configured, as opposed to the level and the end of a grant.\<close>

definition guard_rails :: "approval_session \<Rightarrow>
    rule list \<times> rule list \<times> rule list \<times> risk_class option \<times> u64 option \<times> bool" where
  "guard_rails s =
     (pol_deny (policy s), pol_ask (policy s), pol_allow (policy s), pol_ceiling (policy s),
      pol_budget (policy s), pol_refuse_unenumerable (policy s))"

interpretation rails: frozen session_step guard_rails
proof
  fix c s
  show "guard_rails (session_step c s) = guard_rails s"
    by (cases c) (simp_all add: guard_rails_def resolve_state timeout_state set_level_def
        revoke_def take_promotions_def)
qed

lemma rails_policy:
  assumes "reaches session_step s t"
  shows "pol_deny (policy t) = pol_deny (policy s)" "pol_ask (policy t) = pol_ask (policy s)"
    "pol_refuse_unenumerable (policy t) = pol_refuse_unenumerable (policy s)"
    "pol_allow (policy t) = pol_allow (policy s)" "pol_ceiling (policy t) = pol_ceiling (policy s)"
    "pol_budget (policy t) = pol_budget (policy s)"
  using rails.frozen_reachable [OF assms] by (simp_all add: guard_rails_def)

lemma deny_rule_denies:
  assumes "reaches session_step (new_session p) s"
    and "r \<in> set (pol_deny p)" "rule_matches r req"
  shows "is_denied (fst (decide aid now req s))"
  using assms rails_policy(1) [OF assms(1)]
  by (auto simp: decide_denies_iff Let_def barred_def new_session_def)

text \<open>C2. Deny beats everything, forever: an action that a deny rule of the configured policy matches is
  denied in every state the session can be driven into, by whatever answers, levels and earlier
  decisions.\<close>

theorem deny_rule_is_final:
  assumes "reaches session_step (new_session p) s"
    and "r \<in> set (pol_deny p)" "rule_matches r req"
  shows "is_denied (fst (decide aid now req s))"
  by (rule deny_rule_denies [OF assms])

definition no_shell_policy :: approval_policy where [hx_defs]:
  "no_shell_policy = (policy_at Yolo)\<lparr>pol_deny := [tool_rule ''sh*'']\<rparr>"

theorem deny_rule_is_final_witness:
  "is_denied (fst (decide ''q1'' 0 push_request (new_session no_shell_policy)))"
proof (rule deny_rule_is_final [OF reaches_start, where r = "tool_rule ''sh*''"])
  show "tool_rule ''sh*'' \<in> set (pol_deny no_shell_policy)" by (simp add: no_shell_policy_def)
  show "rule_matches (tool_rule ''sh*'') push_request" by code_simp
qed

text \<open>An ask rule is not decoration: an action it matches is never allowed without a question, in
  any reachable state, even if the user approved its key before or an allow rule lists it.\<close>

theorem ask_rule_is_final:
  assumes "reaches session_step (new_session p) s"
    and "r \<in> set (pol_ask p)" "rule_matches r req"
  shows "\<not> is_allowed (fst (decide aid now req s))"
  using assms rails_policy(2) [OF assms(1)]
  by (auto simp: decide_allowed Let_def must_ask_def new_session_def)

theorem ask_rule_is_final_witness:
  "\<not> is_allowed (fst (decide ''q1'' 0 push_request
      (new_session ((policy_at Yolo)\<lparr>pol_ask := [tool_rule ''*'']\<rparr>))))"
proof (rule ask_rule_is_final [OF reaches_start, where r = "tool_rule ''*''"])
  show "tool_rule ''*'' \<in> set (pol_ask ((policy_at Yolo)\<lparr>pol_ask := [tool_rule ''*'']\<rparr>))" by simp
  show "rule_matches (tool_rule ''*'') push_request" by code_simp
qed

text \<open>The shipped floor holds: a session opened on a policy that inherits the floor denies every
  action a shipped rule matches, whatever happened in it before.\<close>

theorem floor_is_final:
  assumes "pol_inherit_denials p = Some True"
    and "reaches session_step (new_session (with_floor p)) s"
    and "r \<in> set default_denials" "rule_matches r req"
  shows "is_denied (fst (decide aid now req s))"
  using assms rails_policy(1) [OF assms(2)] deny_with_floor [OF assms(1)]
  by (auto simp: decide_denies_iff Let_def barred_def new_session_def)

definition yolo_with_floor :: approval_policy where [hx_defs]:
  "yolo_with_floor = (policy_at Yolo)\<lparr>pol_inherit_denials := Some True\<rparr>"

theorem floor_is_final_witness:
  "is_denied (fst (decide ''q1'' 0 (shell_request ''rm -rf /etc/x'')
      (new_session (with_floor yolo_with_floor))))"
proof (rule floor_is_final [OF _ reaches_start, where r = "deny_tree ''/etc''"])
  show "pol_inherit_denials yolo_with_floor = Some True" by (simp add: yolo_with_floor_def)
  show "deny_tree ''/etc'' \<in> set default_denials" by (simp add: default_denials_def system_dirs_def)
  show "rule_matches (deny_tree ''/etc'') (shell_request ''rm -rf /etc/x'')" by code_simp
qed

subsection \<open>Questions\<close>

text \<open>What every question a session asks looks like.\<close>

definition fair_question :: "approval_request \<Rightarrow> bool" where
  "fair_question r \<longleftrightarrow>
     apr_on_timeout r = DenyIt
     \<and> (AllowAlways \<in> set (apr_options r) \<longrightarrow> apr_reversible r \<and> apr_risk r \<le> Mutate)
     \<and> DenyIt \<in> set (apr_options r)"

definition fair_session :: "approval_session \<Rightarrow> bool" where
  "fair_session s \<longleftrightarrow> (\<forall>r. outstanding s = Some r \<longrightarrow> fair_question r)"

lemma fair_ask: "outstanding (snd (ask aid req why s)) = Some r \<Longrightarrow> fair_question r"
  by (auto simp: ask_def build_request_def Let_def fair_question_def offered_options_def)

lemma fair_sessionI: "(\<And>r. outstanding s = Some r \<Longrightarrow> fair_question r) \<Longrightarrow> fair_session s"
  by (simp add: fair_session_def)

lemma fair_allow [simp]: "fair_session (snd (allow why s)) = fair_session s"
  by (simp add: fair_session_def)

lemma fair_ask_session [simp]: "fair_session (snd (ask aid req why s))"
  by (rule fair_sessionI) (rule fair_ask)

lemma fair_decide_guarded: "fair_session s \<Longrightarrow> fair_session (snd (decide_guarded aid req s))"
  by (auto simp: decide_guarded_def decide_threshold_def split: option.split)

lemma fair_decide_live: "fair_session s \<Longrightarrow> fair_session (snd (decide_live aid req s))"
  by (cases rule: decide_live_cases [of s req aid]) (simp_all add: fair_decide_guarded)

lemma resolve_outstanding:
  "outstanding (snd (resolve aid option req s)) = None \<or> snd (resolve aid option req s) = s"
  by (cases option) (auto simp: resolve_def Let_def)

interpretation fair: invariant session_step fair_session
proof
  fix s c assume s: "fair_session s"
  show "fair_session (session_step c s)"
  proof (cases c)
    case (Decide aid now req)
    have "fair_session (lapse now s)" using s by (simp add: fair_session_def)
    then show ?thesis by (simp add: Decide decide_def fair_decide_live)
  next
    case (Resolve aid option req)
    then show ?thesis using s resolve_outstanding [of aid option req s]
      by (auto simp: fair_session_def)
  qed (use s in \<open>simp_all add: fair_session_def timeout_state set_level_def revoke_def
        take_promotions_def\<close>)
qed

text \<open>Silence is never consent: in every reachable state an unanswered question, if there is one,
  ends in a denial.\<close>

theorem timeout_fails_closed:
  assumes "reaches session_step (new_session p) s"
  shows "is_denied (fst (timeout s))"
proof -
  have "fair_session s"
    using fair.reachable [OF assms] by (simp add: fair_session_def new_session_def)
  then show ?thesis
    by (auto simp: timeout_def fair_session_def fair_question_def split: option.split)
qed

theorem timeout_fails_closed_witness:
  "is_denied (fst (timeout (session_step (Decide ''q1'' 0 push_request) (new_session default_policy))))"
  by (rule timeout_fails_closed [OF reaches_call [OF reaches_start]])

text \<open>A permanent approval is offered only for what can be taken back and stays on the machine:
  a question that is open in a reachable state and offers it is about a reversible action
  whose risk is at most that of a local change.\<close>

theorem always_offered_only_when_local_and_reversible:
  assumes "reaches session_step (new_session p) s"
    and "outstanding s = Some q" "AllowAlways \<in> set (apr_options q)"
  shows "apr_reversible q \<and> apr_risk q \<le> Mutate"
proof -
  have "fair_session s"
    using fair.reachable [OF assms(1)] by (simp add: fair_session_def new_session_def)
  then show ?thesis using assms(2,3) by (simp add: fair_session_def fair_question_def)
qed

definition careful_session :: approval_session where [hx_defs]:
  "careful_session = session_step (Decide ''q1'' 0 (shell_request ''git add x''))
     (new_session (policy_at Cautious))"

definition careful_question :: approval_request where [hx_defs]:
  "careful_question = the (outstanding careful_session)"

theorem always_offered_only_when_local_and_reversible_witness:
  "apr_reversible careful_question \<and> apr_risk careful_question \<le> Mutate"
proof (rule always_offered_only_when_local_and_reversible)
  show "reaches session_step (new_session (policy_at Cautious)) careful_session"
    unfolding careful_session_def by (rule reaches_call [OF reaches_start])
  have "outstanding careful_session \<noteq> None" by code_simp
  then show "outstanding careful_session = Some careful_question" by (auto simp: careful_question_def)
  show "AllowAlways \<in> set (apr_options careful_question)" by code_simp
qed

lemma ask_outstanding: "ask aid req why s = (Asks q, t) \<Longrightarrow>
    outstanding t = Some q \<and> apr_id q = aid \<and> apr_key q = req_key req"
  by (auto simp: ask_def build_request_def Let_def)

lemma fst_ask: "\<exists>q t. ask aid req why s = (Asks q, t)"
  by (simp add: ask_def build_request_def Let_def)

text \<open>A question is recorded: whenever the session asks, the question it returns is the one that
  is outstanding, under the identifier drawn for it, and for the key of the action.\<close>

theorem asked_is_outstanding:
  assumes "decide aid now req s = (Asks q, t)"
  shows "outstanding t = Some q \<and> apr_id q = aid \<and> apr_key q = req_key req"
proof -
  have g: "decide_guarded aid req u = (Asks q, t) \<Longrightarrow> ?thesis" for u
    by (auto simp: decide_guarded_def decide_threshold_def allow_def split: option.splits if_splits
        dest: ask_outstanding)
  from assms show ?thesis unfolding decide_def
    by (cases rule: decide_live_cases [of "lapse now s" req aid])
      (auto simp: allow_def dest: ask_outstanding g)
qed

theorem asked_is_outstanding_witness:
  "outstanding (snd (decide ''q1'' 0 (shell_request ''git add x'') (new_session (policy_at Cautious))))
      = Some careful_question
    \<and> apr_id careful_question = ''q1'' \<and> apr_key careful_question = req_key (shell_request ''git add x'')"
proof (rule asked_is_outstanding)
  show "decide ''q1'' 0 (shell_request ''git add x'') (new_session (policy_at Cautious))
      = (Asks careful_question,
         snd (decide ''q1'' 0 (shell_request ''git add x'') (new_session (policy_at Cautious))))"
  proof (rule prod_eqI)
    show "fst (decide ''q1'' 0 (shell_request ''git add x'') (new_session (policy_at Cautious)))
      = fst (Asks careful_question,
         snd (decide ''q1'' 0 (shell_request ''git add x'') (new_session (policy_at Cautious))))"
      unfolding fst_conv by code_simp
  qed simp
qed

subsection \<open>Answers\<close>

text \<open>An answer to any other question than the one outstanding changes nothing and allows nothing.\<close>

theorem stale_answer_is_refused:
  assumes "\<forall>q. outstanding s = Some q \<longrightarrow> apr_id q \<noteq> aid"
  shows "\<exists>why. resolve aid option req s = (Denied why, s)"
proof -
  have "map_option apr_id (outstanding s) \<noteq> Some aid" using assms by auto
  then show ?thesis by (simp add: resolve_def)
qed

theorem stale_answer_is_refused_witness:
  "\<exists>why. resolve ''q2'' AllowAlways push_request (new_session default_policy)
    = (Denied why, new_session default_policy)"
  by (rule stale_answer_is_refused) (simp add: new_session_def)

text \<open>A question is answered once: after an answer to it, or its timeout, a second answer under its
  identifier is refused and leaves the session as it is.\<close>

theorem answered_once:
  assumes "outstanding s = Some q"
  shows "\<exists>why. resolve (apr_id q) option' req' (snd (resolve (apr_id q) option req s))
    = (Denied why, snd (resolve (apr_id q) option req s))"
proof -
  have "outstanding (snd (resolve (apr_id q) option req s)) = None"
    using assms by (cases option) (simp_all add: resolve_def Let_def)
  then show ?thesis by (simp add: resolve_def)
qed

theorem answered_once_witness:
  "\<exists>why. resolve (apr_id careful_question) AllowAlways push_request
      (snd (resolve (apr_id careful_question) DenyIt push_request careful_session))
    = (Denied why, snd (resolve (apr_id careful_question) DenyIt push_request careful_session))"
proof (rule answered_once)
  have "outstanding careful_session \<noteq> None" by code_simp
  then show "outstanding careful_session = Some careful_question" by (auto simp: careful_question_def)
qed

text \<open>The calls that leave a denial of the key \<open>k\<close> in force.\<close>

fun keeps_denial :: "string \<Rightarrow> session_call \<Rightarrow> bool" where
  "keeps_denial k (Resolve aid option req) \<longleftrightarrow> req_key req \<noteq> k"
| "keeps_denial k Revoke \<longleftrightarrow> False"
| "keeps_denial k c \<longleftrightarrow> True"

lemma denial_step:
  assumes "remembered s k = Some RememberDeny" "pol_expires_at (policy s) = None" "keeps_denial k c"
  shows "remembered (session_step c s) k = Some RememberDeny
    \<and> pol_expires_at (policy (session_step c s)) = None"
proof (cases c)
  case (Resolve aid option req)
  then show ?thesis
    using assms resolve_state(2) [of aid option req s] by (auto simp: resolve_state(1))
qed (use assms in \<open>auto simp: lapse_def is_expired_def timeout_state set_level_def
      take_promotions_def\<close>)

lemma denial_run:
  "remembered s k = Some RememberDeny \<Longrightarrow> pol_expires_at (policy s) = None \<Longrightarrow>
     list_all (keeps_denial k) cs \<Longrightarrow>
     remembered (fold session_step cs s) k = Some RememberDeny
       \<and> pol_expires_at (policy (fold session_step cs s)) = None"
  by (induction cs arbitrary: s) (simp_all add: denial_step del: session_step.simps)

text \<open>A denial sticks: once the user denied an action, the same key is never allowed again by any
  sequence of decisions, timeouts, changes of level and answers to questions about other keys, as
  long as no grant with an end runs out and the chat is not reset.\<close>

theorem denial_sticks:
  assumes "outstanding s = Some q" "pol_expires_at (policy s) = None"
    and "list_all (keeps_denial (req_key req)) cs" "req_key req' = req_key req"
  shows "\<not> is_allowed (fst (decide aid now req'
    (fold session_step cs (snd (resolve (apr_id q) DenyIt req s)))))"
proof -
  let ?s = "snd (resolve (apr_id q) DenyIt req s)"
  have "remembered ?s (req_key req) = Some RememberDeny" "pol_expires_at (policy ?s) = None"
    using assms(1,2) by (simp_all add: resolve_def Let_def)
  from denial_run [OF this assms(3)] show ?thesis
    using assms(4) by (auto simp: decide_allowed Let_def lapse_def is_expired_def)
qed

theorem denial_sticks_witness:
  "\<not> is_allowed (fst (decide ''q2'' 9 (shell_request ''git add y'')
    (fold session_step [SetLevel Yolo, Timeout]
      (snd (resolve (apr_id careful_question) DenyIt (shell_request ''git add y'') careful_session)))))"
proof (rule denial_sticks)
  have "outstanding careful_session \<noteq> None" by code_simp
  then show "outstanding careful_session = Some careful_question" by (auto simp: careful_question_def)
  show "pol_expires_at (policy careful_session) = None" by code_simp
qed simp_all

text \<open>Approval for the chat does what it says: once the user allowed an action for the chat, the next
  action under its key runs without a question unless a deny rule, the refusal of unlistable
  deletions or an ask rule stands in the way.\<close>

theorem chat_approval_applies:
  assumes "outstanding s = Some q" "\<not> is_expired s now"
    and "req_key req' = req_key req" "\<not> barred s req'" "\<not> must_ask s req'"
  shows "is_allowed (fst (decide aid now req' (snd (resolve (apr_id q) AllowForChat req s))))"
proof -
  let ?s = "snd (resolve (apr_id q) AllowForChat req s)"
  have p: "policy ?s = policy s" and r: "remembered ?s (req_key req) = Some RememberAllow"
    using assms(1) by (simp_all add: resolve_def Let_def)
  have "lapse now ?s = ?s" using assms(2) by (simp add: lapse_def is_expired_def p)
  then show ?thesis using assms(3-5) r
    by (simp add: decide_allowed Let_def barred_def must_ask_def p)
qed

theorem chat_approval_applies_witness:
  "is_allowed (fst (decide ''q2'' 9 (shell_request ''git add x'')
    (snd (resolve (apr_id careful_question) AllowForChat (shell_request ''git add x'') careful_session))))"
proof (rule chat_approval_applies)
  have "outstanding careful_session \<noteq> None" by code_simp
  then show "outstanding careful_session = Some careful_question" by (auto simp: careful_question_def)
  show "\<not> is_expired careful_session 9" by code_simp
  have p: "policy careful_session = policy_at Cautious"
    by (simp add: careful_session_def lapse_def is_expired_def new_session_def policy_at_def
        default_policy_def)
  show "\<not> barred careful_session (shell_request ''git add x'')"
    "\<not> must_ask careful_session (shell_request ''git add x'')"
    by (simp_all add: barred_def must_ask_def p policy_at_def default_policy_def)
qed simp

text \<open>Revoking a grant leaves nothing of it: right after it, an action is allowed only by an allow
  rule or because the balanced level allows it.\<close>

theorem revoke_leaves_nothing:
  assumes "is_allowed (fst (decide aid now req (revoke s)))"
  shows "listed s req \<or> auto_allows Balanced (req_risk req)"
  using assms
  by (auto simp: decide_allowed Let_def lapse_def is_expired_def revoke_def listed_def
      within_dial_def)

theorem revoke_leaves_nothing_witness:
  "listed careful_session (shell_request ''ls -l'')
    \<or> auto_allows Balanced (req_risk (shell_request ''ls -l''))"
proof (rule revoke_leaves_nothing [where aid = "''q1''" and now = 0])
  show "is_allowed (fst (decide ''q1'' 0 (shell_request ''ls -l'') (revoke careful_session)))"
    by code_simp
qed

subsection \<open>The unattended budget\<close>

text \<open>A run of decisions with no answer in between, and the verdicts it gets.\<close>

fun unattended :: "(string \<times> datetime \<times> action_request) list \<Rightarrow> approval_session \<Rightarrow> verdict list" where
  "unattended [] s = []"
| "unattended ((aid, now, req) # ds) s =
     (let (v, s') = decide aid now req s in v # unattended ds s')"

definition allowed_in :: "(string \<times> datetime \<times> action_request) list \<Rightarrow> approval_session \<Rightarrow> nat" where
  "allowed_in ds s = length (filter is_allowed (unattended ds s))"

lemma decide_guarded_counter:
  "consecutive_auto (snd (decide_guarded aid req s)) =
     (if is_allowed (fst (decide_guarded aid req s)) then consecutive_auto s + 1
      else consecutive_auto s)"
  by (auto simp: decide_guarded_def decide_threshold_def split: option.split)

lemma budgeted_decision:
  assumes "pol_budget (policy s) = Some b" "0 < b" "pol_allow (policy s) = []"
    and "remembered s = Map.empty"
  shows "consecutive_auto (snd (decide aid now req s)) =
      (if is_allowed (fst (decide aid now req s)) then consecutive_auto s + 1 else consecutive_auto s)"
    and "is_allowed (fst (decide aid now req s)) \<Longrightarrow> consecutive_auto s < b"
proof -
  let ?s = "lapse now s"
  have l: "\<not> listed ?s req" using assms(3) by (simp add: listed_def)
  have r: "remembered ?s = Map.empty" using assms(4) by (simp add: lapse_def)
  show "consecutive_auto (snd (decide aid now req s)) =
      (if is_allowed (fst (decide aid now req s)) then consecutive_auto s + 1 else consecutive_auto s)"
    unfolding decide_def
    by (cases rule: decide_live_cases [of ?s req aid])
      (use l r in \<open>simp_all add: decide_guarded_counter\<close>)
  assume "is_allowed (fst (decide aid now req s))"
  then have "\<not> budget_spent s"
    using l r by (auto simp: decide_allowed Let_def within_dial_def)
  then show "consecutive_auto s < b" using assms(1,2) by (simp add: budget_spent_def not_le)
qed

lemma lapse_keeps_empty: "remembered s = Map.empty \<Longrightarrow> remembered (lapse now s) = Map.empty"
  by (simp add: lapse_def)

lemma word_suc_diff: "a < b \<Longrightarrow> unat (b :: u64) - unat a = Suc (unat b - unat (a + 1))"
proof -
  assume "a < b"
  then have "unat a < unat b" by (simp add: word_less_nat_alt)
  moreover have "unat b < 2 ^ LENGTH(64)" by (rule unsigned_less)
  ultimately have "unat (a + 1) = Suc (unat a)" by (simp add: unat_word_ariths(1))
  with \<open>unat a < unat b\<close> show ?thesis by simp
qed

text \<open>C29. The unattended budget bounds a run: with no allow rules and nothing approved for the chat, of all
  the actions proposed since the user last looked at most as many run without a question as
  the budget has left, at any level, even \<open>yolo\<close>, and however the clock runs.\<close>

theorem budget_bounds_unattended_run:
  assumes "pol_budget (policy s) = Some b" "0 < b" "pol_allow (policy s) = []"
    and "remembered s = Map.empty"
  shows "allowed_in ds s \<le> unat b - unat (consecutive_auto s)"
  using assms
proof (induction ds arbitrary: s)
  case (Cons d ds)
  obtain aid now req where d: "d = (aid, now, req)" by (cases d)
  define t where "t = snd (decide aid now req s)"
  have "pol_budget (policy t) = Some b" "pol_allow (policy t) = []" "remembered t = Map.empty"
    using Cons.prems by (simp_all add: t_def lapse_keeps_empty)
  then have ih: "allowed_in ds t \<le> unat b - unat (consecutive_auto t)"
    using Cons.IH Cons.prems(2) by blast
  have rec: "allowed_in (d # ds) s
      = (if is_allowed (fst (decide aid now req s)) then 1 else 0) + allowed_in ds t"
    by (simp add: allowed_in_def d t_def split_def Let_def)
  show ?case
  proof (cases "is_allowed (fst (decide aid now req s))")
    case True
    then have "consecutive_auto s < b" "consecutive_auto t = consecutive_auto s + 1"
      using budgeted_decision [OF Cons.prems, where aid = aid and now = now and req = req]
      by (simp_all add: t_def)
    with ih show ?thesis using word_suc_diff [of "consecutive_auto s" b] by (simp add: rec True)
  next
    case False
    then have "consecutive_auto t = consecutive_auto s"
      using budgeted_decision(1) [OF Cons.prems, where aid = aid and now = now and req = req]
      by (simp add: t_def)
    with ih show ?thesis by (simp add: rec False)
  qed
qed (simp add: allowed_in_def)

theorem budget_bounds_unattended_run_witness:
  "allowed_in (replicate 5 (''q'', 0, shell_request ''ls -l''))
      (new_session (with_unattended_budget (policy_at Yolo) 2)) \<le> unat (2 :: u64) - unat (0 :: u64)"
  using budget_bounds_unattended_run [of "new_session (with_unattended_budget (policy_at Yolo) 2)" 2
      "replicate 5 (''q'', 0, shell_request ''ls -l'')"]
  by (simp add: new_session_def with_unattended_budget_def policy_at_def default_policy_def)

subsection \<open>Where the code and its documentation part\<close>

text \<open>A destructive action is offered for the whole chat, and remembered.\<close>

lemma destructive_is_offered_for_the_chat:
  "AllowForChat \<in> set (offered_options req)"
  by (simp add: offered_options_def)

text \<open>An allow rule allows what the ceiling forbids.\<close>

lemma allow_rule_beats_the_ceiling:
  "is_allowed (fst (decide ''q'' 0 (shell_request ''sudo id'')
     (new_session ((with_ceiling default_policy Mutate)\<lparr>pol_allow := [tool_rule ''shell'']\<rparr>))))"
  by code_simp

text \<open>An answer is not checked against the options of the question: a permanent approval that was never
  offered is taken and handed to the daemon for its configuration.\<close>

lemma unoffered_answer_is_accepted:
  "let s = snd (decide ''q'' 0 (shell_request ''rm -r x'') (new_session default_policy));
       t = snd (resolve ''q'' AllowAlways (shell_request ''rm -r x'') s)
   in AllowAlways \<notin> set (apr_options (the (outstanding s)))
      \<and> map req_key (promotions t) = [''shell|rm -r x'']"
  by code_simp

text \<open>Approving \<open>npm install\<close> for the chat also approves the two-line command that goes on to delete a
  home directory, without a question, although it is classified as destructive.\<close>

lemma newline_rides_on_an_approval:
  "let s = snd (decide ''q'' 0 (shell_request ''npm install'') (new_session (policy_at Cautious)));
       t = snd (resolve ''q'' AllowForChat (shell_request ''npm install'') s);
       req = shell_request (''npm install'' @ [CHR 0x0A] @ ''rm -rf /home/me'')
   in req_risk req = Destructive \<and> is_allowed (fst (decide ''q2'' 0 req t))"
  by code_simp

text \<open>The rule against deleting the root is anchored: behind \<open>sudo\<close> it does not apply.\<close>

lemma sudo_root_delete_is_not_denied:
  "is_allowed (fst (decide ''q'' 0 (shell_request ''sudo rm -rf /'')
     (set_level Yolo (new_session deployment_default))))"
  by code_simp

end
