(* ===== verification/Rate_Limits.thy ===== *)
theory Rate_Limits imports Rust_Float
begin

section \<open>Rate and budget limits\<close>

text \<open>
  \<open>crates/hx-provider/src/limits.rs\<close>, with the type \<open>Limits\<close> of \<open>crates/hx-core/src/config.rs\<close>:
  continuously refilling token buckets, and the limiter that reserves an estimate against four
  ceilings and a concurrency bound and settles it later.  Quantities of tokens and calls are
  natural numbers (they only ever enter through a conversion to \<open>f64\<close> or a comparison), the
  count of calls in flight is one too: it would need \<open>2 ^ 32\<close> concurrent calls to wrap.  Money
  and the contents of buckets are \<open>f64\<close> and round.
\<close>

definition of_count :: "nat \<Rightarrow> f64" where [hx_defs]:
  "of_count n = f64_round (of_nat n)"

subsection \<open>Ceilings\<close>

record limits =
  lim_rpm :: "nat option"
  lim_tpm :: "nat option"
  lim_rpd :: "nat option"
  lim_daily_usd :: "f64 option"
  lim_concurrent :: "nat option"

definition default_limits :: limits where [hx_defs]:
  "default_limits =
     \<lparr>lim_rpm = None, lim_tpm = None, lim_rpd = None, lim_daily_usd = None, lim_concurrent = None\<rparr>"

definition is_unbounded :: "limits \<Rightarrow> bool" where [hx_defs]:
  "is_unbounded l \<longleftrightarrow>
     lim_rpm l = None \<and> lim_tpm l = None \<and> lim_rpd l = None \<and> lim_daily_usd l = None
     \<and> lim_concurrent l = None"

fun min_opt :: "'a::linorder option \<Rightarrow> 'a option \<Rightarrow> 'a option" where
  "min_opt (Some x) (Some y) = Some (min x y)"
| "min_opt (Some x) None = Some x"
| "min_opt None (Some y) = Some y"
| "min_opt None None = None"

definition tighten_limits :: "limits \<Rightarrow> limits \<Rightarrow> limits" where [hx_defs]:
  "tighten_limits a b =
     \<lparr>lim_rpm = min_opt (lim_rpm a) (lim_rpm b), lim_tpm = min_opt (lim_tpm a) (lim_tpm b),
      lim_rpd = min_opt (lim_rpd a) (lim_rpd b),
      lim_daily_usd = min_opt (lim_daily_usd a) (lim_daily_usd b),
      lim_concurrent = min_opt (lim_concurrent a) (lim_concurrent b)\<rparr>"

subsection \<open>Token buckets\<close>

record token_bucket =
  tb_capacity :: f64
  tb_tokens :: f64
  tb_rate :: f64
  tb_last :: datetime

definition min_positive :: f64 where [hx_defs]:
  "min_positive = 1 / 2 ^ 1022"

definition new_bucket :: "nat \<Rightarrow> f64 \<Rightarrow> datetime \<Rightarrow> token_bucket" where [hx_defs]:
  "new_bucket capacity refill_per_sec now =
     \<lparr>tb_capacity = of_count capacity, tb_tokens = of_count capacity,
      tb_rate = max refill_per_sec min_positive, tb_last = now\<rparr>"

definition per_minute :: "nat \<Rightarrow> datetime \<Rightarrow> token_bucket" where [hx_defs]:
  "per_minute n now = new_bucket n (fdiv (of_count n) 60) now"

definition per_day :: "nat \<Rightarrow> datetime \<Rightarrow> token_bucket" where [hx_defs]:
  "per_day n now = new_bucket n (fdiv (of_count n) 86400) now"

text \<open>\<open>TimeDelta::num_milliseconds\<close> truncates towards zero.\<close>

definition num_milliseconds :: "int \<Rightarrow> int" where [hx_defs]:
  "num_milliseconds d = (if 0 \<le> d then d div 1000000 else - ((- d) div 1000000))"

definition elapsed_secs :: "token_bucket \<Rightarrow> datetime \<Rightarrow> f64" where [hx_defs]:
  "elapsed_secs b now = fdiv (f64_round (of_int (num_milliseconds (now - tb_last b)))) 1000"

definition refill :: "datetime \<Rightarrow> token_bucket \<Rightarrow> token_bucket" where [hx_defs]:
  "refill now b =
     (let elapsed = elapsed_secs b now in
      if 0 < elapsed
      then b\<lparr>tb_tokens := min (fadd (tb_tokens b) (fmul elapsed (tb_rate b))) (tb_capacity b),
             tb_last := now\<rparr>
      else b)"

text \<open>\<open>Inl\<close> is the wait in seconds.\<close>

definition peek :: "f64 \<Rightarrow> datetime \<Rightarrow> token_bucket \<Rightarrow> (f64 + unit) \<times> token_bucket" where [hx_defs]:
  "peek n now b =
     (let b = refill now b; want = min n (tb_capacity b) in
      (if want \<le> tb_tokens b then Inr ()
       else Inl (fdiv (fsub want (tb_tokens b)) (tb_rate b)), b))"

definition try_take :: "f64 \<Rightarrow> datetime \<Rightarrow> token_bucket \<Rightarrow> (f64 + unit) \<times> token_bucket" where [hx_defs]:
  "try_take n now b =
     (case peek n now b of
        (Inl w, b) \<Rightarrow> (Inl w, b)
      | (Inr _, b) \<Rightarrow> (Inr (), b\<lparr>tb_tokens := fsub (tb_tokens b) (min n (tb_capacity b))\<rparr>))"

definition refund :: "f64 \<Rightarrow> token_bucket \<Rightarrow> token_bucket" where [hx_defs]:
  "refund n b = b\<lparr>tb_tokens := min (fadd (tb_tokens b) n) (tb_capacity b)\<rparr>"

definition consume_extra :: "f64 \<Rightarrow> token_bucket \<Rightarrow> token_bucket" where [hx_defs]:
  "consume_extra n b = b\<lparr>tb_tokens := max (fsub (tb_tokens b) n) 0\<rparr>"

definition available :: "datetime \<Rightarrow> token_bucket \<Rightarrow> f64 \<times> token_bucket" where [hx_defs]:
  "available now b = (let b = refill now b in (tb_tokens b, b))"

definition available_fraction :: "datetime \<Rightarrow> token_bucket \<Rightarrow> f64 \<times> token_bucket" where [hx_defs]:
  "available_fraction now b =
     (if tb_capacity b \<le> 0 then (0, b)
      else (let (a, b) = available now b in (fdiv a (tb_capacity b), b)))"

subsection \<open>Refusals\<close>

datatype limit_error =
    RequestsPerMinute f64
  | TokensPerMinute f64
  | RequestsPerDay f64
  | DailyBudget f64 f64
  | Concurrency nat nat

fun retry_after_secs :: "limit_error \<Rightarrow> f64 option" where
  "retry_after_secs (RequestsPerMinute w) = Some w"
| "retry_after_secs (TokensPerMinute w) = Some w"
| "retry_after_secs (RequestsPerDay w) = Some w"
| "retry_after_secs (DailyBudget _ _) = None"
| "retry_after_secs (Concurrency _ _) = None"

fun is_transient :: "limit_error \<Rightarrow> bool" where
  "is_transient (DailyBudget _ _) = False"
| "is_transient _ = True"

fun limit_error_text :: "limit_error \<Rightarrow> string" where
  "limit_error_text (RequestsPerMinute w) =
     ''requests/min exhausted; retry in '' @ show_fixed 1 w @ ''s''"
| "limit_error_text (TokensPerMinute w) = ''tokens/min exhausted; retry in '' @ show_fixed 1 w @ ''s''"
| "limit_error_text (RequestsPerDay w) = ''requests/day exhausted; retry in '' @ show_fixed 0 w @ ''s''"
| "limit_error_text (DailyBudget spent limit) =
     ''daily budget exhausted ($'' @ show_fixed 2 spent @ '' of $'' @ show_fixed 2 limit @ '')''"
| "limit_error_text (Concurrency in_flight limit) =
     ''concurrency limit reached ('' @ show_nat in_flight @ ''/'' @ show_nat limit @ '' in flight)''"

subsection \<open>The limiter\<close>

record lease =
  reserved_tokens :: nat
  reserved_usd :: f64
  lease_issued_at :: datetime

record limiter =
  lm_limits :: limits
  lm_rpm :: "token_bucket option"
  lm_tpm :: "token_bucket option"
  lm_rpd :: "token_bucket option"
  lm_day :: int
  lm_spent_usd :: f64
  lm_in_flight :: nat

text \<open>\<open>DateTime::date_naive\<close> in UTC: the number of the day.\<close>

definition date_naive :: "datetime \<Rightarrow> int" where [hx_defs]:
  "date_naive now = now div 86400000000000"

definition new_limiter :: "limits \<Rightarrow> datetime \<Rightarrow> limiter" where [hx_defs]:
  "new_limiter l now =
     \<lparr>lm_limits = l,
      lm_rpm = map_option (\<lambda>n. per_minute n now) (lim_rpm l),
      lm_tpm = map_option (\<lambda>n. per_minute n now) (lim_tpm l),
      lm_rpd = map_option (\<lambda>n. per_day n now) (lim_rpd l),
      lm_day = date_naive now, lm_spent_usd = 0, lm_in_flight = 0\<rparr>"

definition roll_day :: "datetime \<Rightarrow> limiter \<Rightarrow> limiter" where [hx_defs]:
  "roll_day now m =
     (let today = date_naive now in
      if today \<noteq> lm_day m
      then m\<lparr>lm_day := today, lm_spent_usd := 0,
             lm_rpd := (case lm_rpd m of
                None \<Rightarrow> None
              | Some _ \<Rightarrow>
                  Some (per_day (case lim_rpd (lm_limits m) of Some n \<Rightarrow> n | None \<Rightarrow> 0) now))\<rparr>
      else m)"

text \<open>The three peeks of the first phase and the three takes of the second, each on a bucket that
  may be absent.\<close>

definition peek_opt ::
  "f64 \<Rightarrow> datetime \<Rightarrow> token_bucket option \<Rightarrow> (f64 + unit) \<times> token_bucket option" where [hx_defs]:
  "peek_opt n now ob = (case ob of
     None \<Rightarrow> (Inr (), None)
   | Some b \<Rightarrow> (let (r, b) = peek n now b in (r, Some b)))"

definition take_opt :: "f64 \<Rightarrow> datetime \<Rightarrow> token_bucket option \<Rightarrow> token_bucket option" where [hx_defs]:
  "take_opt n now ob = map_option (\<lambda>b. snd (try_take n now b)) ob"

definition concurrency_refusal :: "limiter \<Rightarrow> limit_error option" where [hx_defs]:
  "concurrency_refusal m = (case lim_concurrent (lm_limits m) of
     Some limit \<Rightarrow>
       if limit \<le> lm_in_flight m then Some (Concurrency (lm_in_flight m) limit) else None
   | None \<Rightarrow> None)"

definition budget_refusal :: "f64 \<Rightarrow> limiter \<Rightarrow> limit_error option" where [hx_defs]:
  "budget_refusal est_usd m = (case lim_daily_usd (lm_limits m) of
     Some limit \<Rightarrow>
       if limit < fadd (lm_spent_usd m) est_usd \<or> limit \<le> lm_spent_usd m
       then Some (DailyBudget (lm_spent_usd m) limit) else None
   | None \<Rightarrow> None)"

text \<open>Phase one: every ceiling is looked at, in the code's order, and nothing is taken.  Looking
  at a bucket refills it, so a refusal may leave the buckets looked at so far refilled.\<close>

definition admit ::
  "nat \<Rightarrow> f64 \<Rightarrow> datetime \<Rightarrow> limiter \<Rightarrow> (limit_error + unit) \<times> limiter" where [hx_defs]:
  "admit est_tokens est_usd now m =
     (case concurrency_refusal m of
        Some e \<Rightarrow> (Inl e, m)
      | None \<Rightarrow>
     (case peek_opt 1 now (lm_rpm m) of
        (Inl w, b) \<Rightarrow> (Inl (RequestsPerMinute w), m\<lparr>lm_rpm := b\<rparr>)
      | (Inr _, b) \<Rightarrow> let m = m\<lparr>lm_rpm := b\<rparr> in
     (case peek_opt (of_count est_tokens) now (lm_tpm m) of
        (Inl w, b) \<Rightarrow> (Inl (TokensPerMinute w), m\<lparr>lm_tpm := b\<rparr>)
      | (Inr _, b) \<Rightarrow> let m = m\<lparr>lm_tpm := b\<rparr> in
     (case peek_opt 1 now (lm_rpd m) of
        (Inl w, b) \<Rightarrow> (Inl (RequestsPerDay w), m\<lparr>lm_rpd := b\<rparr>)
      | (Inr _, b) \<Rightarrow> let m = m\<lparr>lm_rpd := b\<rparr> in
     (case budget_refusal est_usd m of
        Some e \<Rightarrow> (Inl e, m)
      | None \<Rightarrow> (Inr (), m))))))"

definition commit :: "nat \<Rightarrow> f64 \<Rightarrow> datetime \<Rightarrow> limiter \<Rightarrow> limiter" where [hx_defs]:
  "commit est_tokens est_usd now m =
     m\<lparr>lm_rpm := take_opt 1 now (lm_rpm m),
       lm_tpm := take_opt (of_count est_tokens) now (lm_tpm m),
       lm_rpd := take_opt 1 now (lm_rpd m),
       lm_spent_usd := fadd (lm_spent_usd m) est_usd,
       lm_in_flight := lm_in_flight m + 1\<rparr>"

definition acquire ::
  "nat \<Rightarrow> f64 \<Rightarrow> datetime \<Rightarrow> limiter \<Rightarrow> (limit_error + lease) \<times> limiter" where [hx_defs]:
  "acquire est_tokens est_usd now m =
     (case admit est_tokens est_usd now (roll_day now m) of
        (Inl e, m) \<Rightarrow> (Inl e, m)
      | (Inr _, m) \<Rightarrow>
          (Inr \<lparr>reserved_tokens = est_tokens, reserved_usd = est_usd, lease_issued_at = now\<rparr>,
           commit est_tokens est_usd now m))"

text \<open>\<open>if self.spent_usd < 0.0 { self.spent_usd = 0.0 }\<close>\<close>

definition set_spent :: "f64 \<Rightarrow> limiter \<Rightarrow> limiter" where [hx_defs]:
  "set_spent x m = m\<lparr>lm_spent_usd := (if x < 0 then 0 else x)\<rparr>"

definition settle_tokens :: "nat \<Rightarrow> nat \<Rightarrow> token_bucket \<Rightarrow> token_bucket" where [hx_defs]:
  "settle_tokens reserved actual b =
     (if actual < reserved then refund (of_count (reserved - actual)) b
      else if reserved < actual then consume_extra (of_count (actual - reserved)) b
      else b)"

definition reconcile :: "lease \<Rightarrow> nat \<Rightarrow> f64 \<Rightarrow> datetime \<Rightarrow> limiter \<Rightarrow> limiter" where [hx_defs]:
  "reconcile l actual_tokens actual_usd now m =
     (let m = roll_day now m;
          m = m\<lparr>lm_tpm := map_option (settle_tokens (reserved_tokens l) actual_tokens) (lm_tpm m)\<rparr>;
          m = set_spent (fadd (lm_spent_usd m) (fsub actual_usd (reserved_usd l))) m
      in m\<lparr>lm_in_flight := lm_in_flight m - 1\<rparr>)"

definition release :: "lease \<Rightarrow> datetime \<Rightarrow> limiter \<Rightarrow> limiter" where [hx_defs]:
  "release l now m =
     (let m = roll_day now m;
          m = m\<lparr>lm_tpm := map_option (refund (of_count (reserved_tokens l))) (lm_tpm m),
                lm_rpm := map_option (refund 1) (lm_rpm m),
                lm_rpd := map_option (refund 1) (lm_rpd m)\<rparr>;
          m = set_spent (fsub (lm_spent_usd m) (reserved_usd l)) m
      in m\<lparr>lm_in_flight := lm_in_flight m - 1\<rparr>)"

text \<open>The share of a bucket in the load, and the bucket after it was looked at.\<close>

definition bucket_load ::
  "datetime \<Rightarrow> token_bucket option \<Rightarrow> f64 \<Rightarrow> f64 \<times> token_bucket option" where [hx_defs]:
  "bucket_load now ob worst = (case ob of
     None \<Rightarrow> (worst, None)
   | Some b \<Rightarrow> (let (f, b) = available_fraction now b in (max worst (fsub 1 f), Some b)))"

definition load_score :: "datetime \<Rightarrow> limiter \<Rightarrow> f64 \<times> limiter" where [hx_defs]:
  "load_score now m =
     (let m = roll_day now m;
          (worst, tpm) = bucket_load now (lm_tpm m) 0;
          (worst, rpm) = bucket_load now (lm_rpm m) worst;
          m = m\<lparr>lm_tpm := tpm, lm_rpm := rpm\<rparr>;
          worst = (case lim_concurrent (lm_limits m) of
              Some limit \<Rightarrow>
                if 0 < limit then max worst (fdiv (of_count (lm_in_flight m)) (of_count limit))
                else worst
            | None \<Rightarrow> worst);
          worst = (case lim_daily_usd (lm_limits m) of
              Some limit \<Rightarrow> if 0 < limit then max worst (fdiv (lm_spent_usd m) limit) else worst
            | None \<Rightarrow> worst)
      in (min (max worst 0) 1, m))"

end
