(* ===== verification/Credential_Pool.thy ===== *)
theory Credential_Pool
  imports Rate_Limits "HOL-Library.Word" "HOL-Library.Product_Lexorder"
begin

section \<open>Credential pools\<close>

text \<open>
  \<open>crates/hx-provider/src/pool.rs\<close>: several credentials of one provider, each with its limiter and
  its health, a routing strategy that orders them, and an optional ceiling over all of them.  The
  round-robin cursor is the code's wrapping \<open>u64\<close>; the accumulators of the weighted strategy are
  integers (an \<open>i64\<close> that sums \<open>u32\<close> weights would need \<open>2 ^ 31\<close> credentials to overflow).
\<close>

datatype strategy = Weighted | RoundRobin | LeastLoaded | Priority | CheapestCapable

fun strategy_text :: "strategy \<Rightarrow> string" where
  "strategy_text Weighted = ''weighted''"
| "strategy_text RoundRobin = ''round_robin''"
| "strategy_text LeastLoaded = ''least_loaded''"
| "strategy_text Priority = ''priority''"
| "strategy_text CheapestCapable = ''cheapest_capable''"

datatype pool_error =
    Empty string
  | Exhausted string nat f64
  | AllUnhealthy string nat

fun pool_error_text :: "pool_error \<Rightarrow> string" where
  "pool_error_text (Empty provider) = ''pool '' @ provider @ '' has no credentials configured''"
| "pool_error_text (Exhausted provider count retry) =
     ''all '' @ show_nat count @ '' credentials for '' @ provider
     @ '' are at their limits; soonest recovery in '' @ show_fixed 0 retry @ ''s''"
| "pool_error_text (AllUnhealthy provider count) =
     ''all '' @ show_nat count @ '' credentials for '' @ provider @ '' are marked unhealthy''"

record slot =
  sl_id :: string
  sl_secret_ref :: string
  sl_weight :: nat
  sl_priority :: nat
  sl_cost :: "f64 option"
  sl_healthy :: bool
  sl_reason :: "string option"
  sl_limiter :: limiter
  sl_current_weight :: int

definition new_slot :: "string \<Rightarrow> string \<Rightarrow> limits \<Rightarrow> datetime \<Rightarrow> slot" where [hx_defs]:
  "new_slot sid secret_ref l now =
     \<lparr>sl_id = sid, sl_secret_ref = secret_ref, sl_weight = 1, sl_priority = 0, sl_cost = None,
      sl_healthy = True, sl_reason = None, sl_limiter = new_limiter l now, sl_current_weight = 0\<rparr>"

definition with_weight :: "slot \<Rightarrow> nat \<Rightarrow> slot" where [hx_defs]:
  "with_weight s w = s\<lparr>sl_weight := max w 1\<rparr>"

definition with_priority :: "slot \<Rightarrow> nat \<Rightarrow> slot" where [hx_defs]:
  "with_priority s p = s\<lparr>sl_priority := p\<rparr>"

definition with_cost :: "slot \<Rightarrow> f64 \<Rightarrow> slot" where [hx_defs]:
  "with_cost s c = s\<lparr>sl_cost := Some c\<rparr>"

record ticket =
  tk_provider :: string
  tk_credential :: string
  tk_secret_ref :: string
  tk_lease :: lease
  tk_pool_lease :: "lease option"

record slot_status =
  st_id :: string
  st_secret_ref :: string
  st_healthy :: bool
  st_reason :: "string option"
  st_in_flight :: nat
  st_spent_today_usd :: f64
  st_load :: f64

record credential_pool =
  cp_provider :: string
  cp_strategy :: strategy
  cp_slots :: "slot list"
  cp_limiter :: "limiter option"
  cp_cursor :: "64 word"

definition new_pool :: "string \<Rightarrow> strategy \<Rightarrow> slot list \<Rightarrow> credential_pool" where [hx_defs]:
  "new_pool provider strategy slots =
     \<lparr>cp_provider = provider, cp_strategy = strategy, cp_slots = slots, cp_limiter = None,
      cp_cursor = 0\<rparr>"

text \<open>\<open>if limits.is_unbounded() { None } else { Some(Limiter::new(..)) }\<close>, which the pool and the
  router both use.\<close>

definition ceiling_limiter :: "limits \<Rightarrow> datetime \<Rightarrow> limiter option" where [hx_defs]:
  "ceiling_limiter l now = (if is_unbounded l then None else Some (new_limiter l now))"

definition with_pool_limits :: "credential_pool \<Rightarrow> limits \<Rightarrow> datetime \<Rightarrow> credential_pool" where [hx_defs]:
  "with_pool_limits p l now = p\<lparr>cp_limiter := ceiling_limiter l now\<rparr>"

subsection \<open>The preferred order\<close>

definition f64_max :: f64 where
  "f64_max = (2 - 1 / 2 ^ 52) * 2 ^ 1023"

text \<open>Looking at the load of every slot refills its buckets.\<close>

fun score_slots :: "datetime \<Rightarrow> slot list \<Rightarrow> f64 list \<times> slot list" where
  "score_slots now [] = ([], [])"
| "score_slots now (s # ss) =
     (let (load, m) = load_score now (sl_limiter s); (loads, ss) = score_slots now ss in
      (load # loads, s\<lparr>sl_limiter := m\<rparr> # ss))"

text \<open>The loop of the smooth weighted round robin: every slot accrues its weight, and the first
  slot with the largest accumulator so far is remembered.\<close>

fun accrue :: "nat list \<Rightarrow> slot list \<Rightarrow> int \<Rightarrow> nat \<Rightarrow> nat \<times> slot list" where
  "accrue [] slots best head = (head, slots)"
| "accrue (i # is) slots best head =
     (let s = slots ! i;
          w = sl_current_weight s + int (sl_weight s);
          slots = slots[i := s\<lparr>sl_current_weight := w\<rparr>]
      in if best < w then accrue is slots w i else accrue is slots best head)"

definition pick_order :: "datetime \<Rightarrow> credential_pool \<Rightarrow> nat list \<times> credential_pool" where [hx_defs]:
  "pick_order now p =
     (let slots = cp_slots p; n = length slots in
      case cp_strategy p of
        Priority \<Rightarrow> (sort_key (\<lambda>i. sl_priority (slots ! i)) [0..<n], p)
      | RoundRobin \<Rightarrow>
          (let start = unat (cp_cursor p) mod n in (map (\<lambda>k. (start + k) mod n) [0..<n], p))
      | LeastLoaded \<Rightarrow>
          (let (loads, slots) = score_slots now slots in
           (map fst (sort_key snd (zip [0..<n] loads)), p\<lparr>cp_slots := slots\<rparr>))
      | CheapestCapable \<Rightarrow>
          (sort_key (\<lambda>i. (case sl_cost (slots ! i) of Some c \<Rightarrow> c | None \<Rightarrow> f64_max,
                          sl_priority (slots ! i))) [0..<n], p)
      | Weighted \<Rightarrow>
          (let total = sum_list (map (\<lambda>s. int (sl_weight s)) slots);
               (head, slots) = accrue [0..<n] slots (- (2 ^ 63)) 0;
               s = slots ! head;
               slots = slots[head := s\<lparr>sl_current_weight := sl_current_weight s - total\<rparr>];
               rest = sort_key (\<lambda>i. - int (sl_weight (slots ! i))) (filter (\<lambda>i. i \<noteq> head) [0..<n])
           in (head # rest, p\<lparr>cp_slots := slots\<rparr>)))"

subsection \<open>Acquiring and settling\<close>

text \<open>The loop over the order: the first healthy slot with headroom, or what was learned on the
  way, the shortest wait and whether any slot was healthy.\<close>

fun try_slots ::
  "nat list \<Rightarrow> nat \<Rightarrow> f64 \<Rightarrow> datetime \<Rightarrow> slot list \<Rightarrow> f64 option \<Rightarrow> bool
   \<Rightarrow> ((f64 option \<times> bool) + (nat \<times> lease)) \<times> slot list" where
  "try_slots [] tk usd now slots best_retry saw_healthy = (Inl (best_retry, saw_healthy), slots)"
| "try_slots (i # is) tk usd now slots best_retry saw_healthy =
     (let s = slots ! i in
      if \<not> sl_healthy s then try_slots is tk usd now slots best_retry saw_healthy
      else (let (r, m) = acquire tk usd now (sl_limiter s);
                slots = slots[i := s\<lparr>sl_limiter := m\<rparr>]
            in case r of
              Inr l \<Rightarrow> (Inr (i, l), slots)
            | Inl e \<Rightarrow>
                (let wait = (case retry_after_secs e of Some w \<Rightarrow> w | None \<Rightarrow> 0);
                     best_retry = Some (case best_retry of None \<Rightarrow> wait | Some b \<Rightarrow> min b wait)
                 in try_slots is tk usd now slots best_retry True)))"

definition acquire_ceiling ::
  "nat \<Rightarrow> f64 \<Rightarrow> datetime \<Rightarrow> limiter option \<Rightarrow> (limit_error + lease option) \<times> limiter option" where [hx_defs]:
  "acquire_ceiling tk usd now om = (case om of
     None \<Rightarrow> (Inr None, None)
   | Some m \<Rightarrow> (case acquire tk usd now m of
        (Inr l, m) \<Rightarrow> (Inr (Some l), Some m)
      | (Inl e, m) \<Rightarrow> (Inl e, Some m)))"

definition settle_ceiling :: "(lease \<Rightarrow> limiter \<Rightarrow> limiter) \<Rightarrow> lease option \<Rightarrow> limiter option \<Rightarrow> limiter option" where [hx_defs]:
  "settle_ceiling f ol om = (case (om, ol) of (Some m, Some l) \<Rightarrow> Some (f l m) | _ \<Rightarrow> om)"

definition rollback :: "lease option \<Rightarrow> datetime \<Rightarrow> credential_pool \<Rightarrow> credential_pool" where [hx_defs]:
  "rollback pool_lease now p =
     p\<lparr>cp_limiter := settle_ceiling (\<lambda>l. release l now) pool_lease (cp_limiter p)\<rparr>"

definition acquire_pool ::
  "nat \<Rightarrow> f64 \<Rightarrow> datetime \<Rightarrow> credential_pool \<Rightarrow> (pool_error + ticket) \<times> credential_pool" where [hx_defs]:
  "acquire_pool tk usd now p =
     (if cp_slots p = [] then (Inl (Empty (cp_provider p)), p)
      else
     (case acquire_ceiling tk usd now (cp_limiter p) of
        (Inl e, om) \<Rightarrow>
          (Inl (Exhausted (cp_provider p) (length (cp_slots p))
             (case retry_after_secs e of Some w \<Rightarrow> w | None \<Rightarrow> 60)), p\<lparr>cp_limiter := om\<rparr>)
      | (Inr pool_lease, om) \<Rightarrow>
          (let p = p\<lparr>cp_limiter := om\<rparr>;
               (order, p) = pick_order now p;
               (r, slots) = try_slots order tk usd now (cp_slots p) None False;
               p = p\<lparr>cp_slots := slots\<rparr>
           in case r of
             Inr (i, l) \<Rightarrow>
               (Inr \<lparr>tk_provider = cp_provider p, tk_credential = sl_id (slots ! i),
                     tk_secret_ref = sl_secret_ref (slots ! i), tk_lease = l,
                     tk_pool_lease = pool_lease\<rparr>,
                p\<lparr>cp_cursor := cp_cursor p + 1\<rparr>)
           | Inl (best_retry, saw_healthy) \<Rightarrow>
               (Inl (if saw_healthy
                     then Exhausted (cp_provider p) (length slots)
                       (case best_retry of Some w \<Rightarrow> w | None \<Rightarrow> 60)
                     else AllUnhealthy (cp_provider p) (length slots)),
                rollback pool_lease now p))))"

text \<open>\<open>slots.iter_mut().find(..)\<close>: the first slot with the identifier is updated.\<close>

fun update_slot :: "string \<Rightarrow> (slot \<Rightarrow> slot) \<Rightarrow> slot list \<Rightarrow> slot list" where
  "update_slot sid f [] = []"
| "update_slot sid f (s # ss) = (if sl_id s = sid then f s # ss else s # update_slot sid f ss)"

definition reconcile_pool ::
  "ticket \<Rightarrow> nat \<Rightarrow> f64 \<Rightarrow> datetime \<Rightarrow> credential_pool \<Rightarrow> credential_pool" where [hx_defs]:
  "reconcile_pool t tokens usd now p =
     p\<lparr>cp_slots := update_slot (tk_credential t)
         (\<lambda>s. s\<lparr>sl_limiter := reconcile (tk_lease t) tokens usd now (sl_limiter s)\<rparr>) (cp_slots p),
       cp_limiter := settle_ceiling (\<lambda>l. reconcile l tokens usd now) (tk_pool_lease t) (cp_limiter p)\<rparr>"

definition release_pool :: "ticket \<Rightarrow> datetime \<Rightarrow> credential_pool \<Rightarrow> credential_pool" where [hx_defs]:
  "release_pool t now p =
     rollback (tk_pool_lease t) now
       (p\<lparr>cp_slots := update_slot (tk_credential t)
           (\<lambda>s. s\<lparr>sl_limiter := release (tk_lease t) now (sl_limiter s)\<rparr>) (cp_slots p)\<rparr>)"

definition mark_unhealthy :: "string \<Rightarrow> string \<Rightarrow> credential_pool \<Rightarrow> bool \<times> credential_pool" where [hx_defs]:
  "mark_unhealthy sid why p =
     (sid \<in> set (map sl_id (cp_slots p)),
      p\<lparr>cp_slots := update_slot sid (\<lambda>s. s\<lparr>sl_healthy := False, sl_reason := Some why\<rparr>) (cp_slots p)\<rparr>)"

definition mark_healthy :: "string \<Rightarrow> credential_pool \<Rightarrow> bool \<times> credential_pool" where [hx_defs]:
  "mark_healthy sid p =
     (sid \<in> set (map sl_id (cp_slots p)),
      p\<lparr>cp_slots := update_slot sid (\<lambda>s. s\<lparr>sl_healthy := True, sl_reason := None\<rparr>) (cp_slots p)\<rparr>)"

definition healthy_count :: "credential_pool \<Rightarrow> nat" where [hx_defs]:
  "healthy_count p = length (filter sl_healthy (cp_slots p))"

definition pool_status :: "datetime \<Rightarrow> credential_pool \<Rightarrow> slot_status list \<times> credential_pool" where [hx_defs]:
  "pool_status now p =
     (let (loads, slots) = score_slots now (cp_slots p) in
      (map2 (\<lambda>s load. \<lparr>st_id = sl_id s, st_secret_ref = sl_secret_ref s, st_healthy = sl_healthy s,
           st_reason = sl_reason s, st_in_flight = lm_in_flight (sl_limiter s),
           st_spent_today_usd = lm_spent_usd (sl_limiter s), st_load = load\<rparr>)
         (cp_slots p) loads,
       p\<lparr>cp_slots := slots\<rparr>))"

end
