(* ===== verification/Model_Config.thy ===== *)
theory Model_Config imports Credential_Pool Approval_Rules "HOL-Library.AList"
begin

section \<open>The configuration of providers and pools\<close>

text \<open>
  The part of \<open>crates/hx-core/src/config.rs\<close> the router is built from: providers with their
  credentials, named pools, roles, and the \<open>provider/model\<close> references that pools list.  An \<open>IndexMap\<close>
  is an association list in insertion order.  The defaults of the deserialisation (an empty list, the
  strategy \<open>LeastLoaded\<close>, no limits) are those of the source; the deserialisation itself is serde's.
\<close>

datatype provider_kind = Openai | Anthropic | Google | Ollama | Custom

fun provider_kind_text :: "provider_kind \<Rightarrow> string" where
  "provider_kind_text Openai = ''openai''"
| "provider_kind_text Anthropic = ''anthropic''"
| "provider_kind_text Google = ''google''"
| "provider_kind_text Ollama = ''ollama''"
| "provider_kind_text Custom = ''custom''"

definition default_strategy :: strategy where [hx_defs]:
  "default_strategy = LeastLoaded"

record price =
  input_per_mtok :: f64
  output_per_mtok :: f64

record credential_config =
  cc_id :: string
  cc_secret :: string
  cc_limits :: limits
  cc_weight :: nat

definition default_weight :: nat where [hx_defs]:
  "default_weight = 1"

record provider_config =
  pc_kind :: provider_kind
  pc_base_url :: "string option"
  pc_credentials :: "credential_config list"
  pc_routing :: strategy
  pc_models :: "string list"
  pc_price :: "price option"
  pc_priority :: nat

record pool_config =
  pl_members :: "string list"
  pl_strategy :: strategy
  pl_limits :: limits
  pl_inherits :: "string option"

text \<open>The sections of the configuration that routing reads.\<close>

record routing_config =
  cfg_providers :: "(string \<times> provider_config) list"
  cfg_pools :: "(string \<times> pool_config) list"
  cfg_roles :: "(string \<times> string) list"

subsection \<open>Model references\<close>

record model_ref =
  mr_provider :: string
  mr_model :: string

text \<open>The two ways a reference is refused.  Here and in the router an error of the source is a constructor
  that carries the arguments of its message.\<close>

datatype model_ref_error = No_Slash string | Empty_Part string

definition parse_model_ref :: "string \<Rightarrow> model_ref_error + model_ref" where [hx_defs]:
  "parse_model_ref s = (case split_once (CHR ''/'') s of
     None \<Rightarrow> Inl (No_Slash s)
   | Some (provider, model) \<Rightarrow>
       if provider = [] \<or> model = [] then Inl (Empty_Part s)
       else Inr \<lparr>mr_provider = provider, mr_model = model\<rparr>)"

definition ref_matches :: "model_ref \<Rightarrow> string \<Rightarrow> string \<Rightarrow> bool" where [hx_defs]:
  "ref_matches r provider model \<longleftrightarrow> mr_provider r = provider \<and> glob_match (mr_model r) model"

definition model_ref_text :: "model_ref \<Rightarrow> string" where [hx_defs]:
  "model_ref_text r = mr_provider r @ ''/'' @ mr_model r"

end
