(* ===== verification/Router.thy ===== *)
theory Router imports Model_Config
begin

section \<open>The model router\<close>

text \<open>
  \<open>crates/hx-provider/src/router.rs\<close>: a role names a pool, a pool is a list of routes with a ceiling
  over them, and a route names a provider, whose credentials are shared by all pools.  An \<open>IndexMap\<close>
  is an association list: \<open>get\<close> is \<^const>\<open>map_of\<close>, \<open>insert\<close> is \<^const>\<open>AList.update\<close> and
  a change through \<open>get_mut\<close> is \<^const>\<open>AList.map_entry\<close>.
\<close>

record route =
  rt_provider :: string
  rt_model :: string

record resolved_pool =
  rp_name :: string
  rp_routes :: "route list"
  rp_limiter :: "limiter option"

record route_ticket =
  rk_pool :: string
  rk_route :: route
  rk_credential :: ticket
  rk_pool_lease :: "lease option"

record model_router =
  mr_providers :: "(string \<times> credential_pool) list"
  mr_pools :: "(string \<times> resolved_pool) list"
  mr_roles :: "(string \<times> string) list"
  mr_prices :: "(string \<times> price) list"

text \<open>What the router refuses with: the constructors of \<open>HxError\<close> it uses, one per message.\<close>

datatype router_error =
    Config_Cycle "string list"
  | Config_Unknown_Parent string string
  | Config_Bad_Member model_ref_error
  | Config_Unknown_Provider string string
  | Config_No_Match string string "string list"
  | Config_No_Members string
  | Config_Role_Unknown_Pool string string
  | Config_Unbound_Role string
  | Config_Unknown_Pool string
  | Rate_Limited string nat
  | NoRoute_Unconfigured string
  | NoRoute_At_Limit string f64
  | NoRoute_Missing string string

subsection \<open>Building the routing table\<close>

definition credential_slots :: "provider_config \<Rightarrow> datetime \<Rightarrow> slot list" where [hx_defs]:
  "credential_slots pc now =
     map (\<lambda>c.
       let slot = with_priority (with_weight (new_slot (cc_id c) (cc_secret c) (cc_limits c) now)
             (cc_weight c)) (pc_priority pc)
       in case pc_price pc of
            Some price \<Rightarrow> with_cost slot (input_per_mtok price)
          | None \<Rightarrow> slot) (pc_credentials pc)"

text \<open>The walk up the \<open>inherits\<close> chain.  It ends because a pool met twice ends it, and only the pools of
  the configuration can be walked through.\<close>

function walk_parents ::
  "(string \<times> pool_config) list \<Rightarrow> string \<Rightarrow> string \<Rightarrow> string list
   \<Rightarrow> string list option \<Rightarrow> limits option \<Rightarrow> router_error + string list \<times> limits" where
  "walk_parents pools name current chain members limits =
     (if current \<in> set chain then Inl (Config_Cycle (chain @ [current]))
      else
     (case map_of pools current of
        None \<Rightarrow> Inl (Config_Unknown_Parent name current)
      | Some pc \<Rightarrow>
          (let chain = chain @ [current];
               members = (if members = None \<and> pl_members pc \<noteq> [] then Some (pl_members pc) else members);
               limits = (if limits = None \<and> \<not> is_unbounded (pl_limits pc) then Some (pl_limits pc)
                         else limits)
           in case pl_inherits pc of
                Some parent \<Rightarrow> walk_parents pools name parent chain members limits
              | None \<Rightarrow> Inr (case members of Some ms \<Rightarrow> ms | None \<Rightarrow> [],
                              case limits of Some l \<Rightarrow> l | None \<Rightarrow> default_limits))))"
  by pat_completeness auto

termination
proof (relation "measure (\<lambda>(pools, _, _, chain, _, _). card (fst ` set pools - set chain))")
  fix pools :: "(string \<times> pool_config) list" and name current parent :: string
    and chain :: "string list" and members :: "string list option" and limits :: "limits option"
    and pc x xa xb
  assume new: "current \<notin> set chain" "map_of pools current = Some pc"
    and x: "x = chain @ [current]"
  have "fst ` set pools - set x = (fst ` set pools - set chain) - {current}" by (auto simp: x)
  moreover have "current \<in> fst ` set pools - set chain" using new by (force dest: map_of_SomeD)
  ultimately have "card (fst ` set pools - set x) < card (fst ` set pools - set chain)"
    by (simp only: card_Diff1_less finite_Diff finite_imageI finite_set)
  then show "((pools, name, parent, x, xa, xb), pools, name, current, chain, members, limits)
      \<in> measure (\<lambda>(pools, _, _, chain, _, _). card (fst ` set pools - set chain))"
    by simp
qed simp

declare walk_parents.simps [simp del]

definition effective_members :: "routing_config \<Rightarrow> string \<Rightarrow> router_error + string list \<times> limits" where [hx_defs]:
  "effective_members cfg name = walk_parents (cfg_pools cfg) name name [] None None"

definition member_routes ::
  "string \<Rightarrow> (string \<times> provider_config) list \<Rightarrow> router_error + route list" where [hx_defs]:
  "member_routes member providers = (case parse_model_ref member of
     Inl e \<Rightarrow> Inl (Config_Bad_Member e)
   | Inr parsed \<Rightarrow>
       (case map_of providers (mr_provider parsed) of
          None \<Rightarrow> Inl (Config_Unknown_Provider member (mr_provider parsed))
        | Some pc \<Rightarrow>
            if CHR ''*'' \<in> set (mr_model parsed) \<or> CHR ''?'' \<in> set (mr_model parsed)
            then (let matched = filter (glob_match (mr_model parsed)) (pc_models pc) in
                  if matched = [] then Inl (Config_No_Match member (mr_provider parsed) (pc_models pc))
                  else Inr (map (\<lambda>model. \<lparr>rt_provider = mr_provider parsed, rt_model = model\<rparr>) matched))
            else Inr [\<lparr>rt_provider = mr_provider parsed, rt_model = mr_model parsed\<rparr>]))"

fun all_member_routes ::
  "string list \<Rightarrow> (string \<times> provider_config) list \<Rightarrow> router_error + route list" where
  "all_member_routes [] providers = Inr []"
| "all_member_routes (m # ms) providers = (case member_routes m providers of
     Inl e \<Rightarrow> Inl e
   | Inr rs \<Rightarrow> (case all_member_routes ms providers of Inl e \<Rightarrow> Inl e | Inr rs' \<Rightarrow> Inr (rs @ rs')))"

text \<open>\<open>out.retain(|r| seen.insert(..))\<close>.\<close>

fun retain_new :: "'a set \<Rightarrow> 'a list \<Rightarrow> 'a list" where
  "retain_new seen [] = []"
| "retain_new seen (x # xs) = (if x \<in> seen then retain_new seen xs else x # retain_new (insert x seen) xs)"

definition expand_members ::
  "string list \<Rightarrow> (string \<times> provider_config) list \<Rightarrow> router_error + route list" where [hx_defs]:
  "expand_members members providers = (case all_member_routes members providers of
     Inl e \<Rightarrow> Inl e
   | Inr out \<Rightarrow> Inr (retain_new {} out))"

definition resolve_pool :: "routing_config \<Rightarrow> datetime \<Rightarrow> string \<Rightarrow> router_error + resolved_pool" where [hx_defs]:
  "resolve_pool cfg now name = (case effective_members cfg name of
     Inl e \<Rightarrow> Inl e
   | Inr (members, limits) \<Rightarrow>
       (case expand_members members (cfg_providers cfg) of
          Inl e \<Rightarrow> Inl e
        | Inr routes \<Rightarrow>
            if routes = [] then Inl (Config_No_Members name)
            else Inr \<lparr>rp_name = name, rp_routes = routes, rp_limiter = ceiling_limiter limits now\<rparr>))"

fun resolve_pools ::
  "routing_config \<Rightarrow> datetime \<Rightarrow> string list \<Rightarrow> (string \<times> resolved_pool) list
   \<Rightarrow> router_error + (string \<times> resolved_pool) list" where
  "resolve_pools cfg now [] pools = Inr pools"
| "resolve_pools cfg now (name # names) pools = (case resolve_pool cfg now name of
     Inl e \<Rightarrow> Inl e
   | Inr p \<Rightarrow> resolve_pools cfg now names (AList.update name p pools))"

definition from_config :: "routing_config \<Rightarrow> datetime \<Rightarrow> router_error + model_router" where [hx_defs]:
  "from_config cfg now =
     (let providers = fold (\<lambda>(name, pc). AList.update name
            (new_pool name (pc_routing pc) (credential_slots pc now))) (cfg_providers cfg) [];
          prices = fold (\<lambda>(name, pc) prices. case pc_price pc of
            Some price \<Rightarrow> AList.update name price prices | None \<Rightarrow> prices) (cfg_providers cfg) []
      in case resolve_pools cfg now (map fst (cfg_pools cfg)) [] of
        Inl e \<Rightarrow> Inl e
      | Inr pools \<Rightarrow>
          (case find (\<lambda>(role, pool). map_of pools pool = None) (cfg_roles cfg) of
             Some (role, pool) \<Rightarrow> Inl (Config_Role_Unknown_Pool role pool)
           | None \<Rightarrow> Inr \<lparr>mr_providers = providers, mr_pools = pools, mr_roles = cfg_roles cfg,
               mr_prices = prices\<rparr>))"

definition pool_for_role :: "string \<Rightarrow> model_router \<Rightarrow> router_error + string" where [hx_defs]:
  "pool_for_role role r = (case map_of (mr_roles r) role of
     None \<Rightarrow> Inl (Config_Unbound_Role role)
   | Some name \<Rightarrow>
       if map_of (mr_pools r) name = None then Inl (Config_Role_Unknown_Pool role name) else Inr name)"

subsection \<open>Acquiring and settling routes\<close>

text \<open>\<open>f64 as u64\<close>: towards zero, and saturating.\<close>

definition as_u64 :: "f64 \<Rightarrow> nat" where [hx_defs]:
  "as_u64 x = min (nat \<lfloor>x\<rfloor>) (2 ^ 64 - 1)"

fun try_routes ::
  "route list \<Rightarrow> nat \<Rightarrow> f64 \<Rightarrow> datetime \<Rightarrow> (string \<times> credential_pool) list \<Rightarrow> f64 option \<Rightarrow> bool
   \<Rightarrow> ((f64 option \<times> bool) + (route \<times> ticket)) \<times> (string \<times> credential_pool) list" where
  "try_routes [] tk usd now providers soonest had_route = (Inl (soonest, had_route), providers)"
| "try_routes (rt # rts) tk usd now providers soonest had_route =
     (case map_of providers (rt_provider rt) of
        None \<Rightarrow> try_routes rts tk usd now providers soonest had_route
      | Some credentials \<Rightarrow>
          (let (r, credentials') = acquire_pool tk usd now credentials;
               providers = AList.map_entry (rt_provider rt) (\<lambda>_. credentials') providers
           in case r of
                Inr credential \<Rightarrow> (Inr (rt, credential), providers)
              | Inl e \<Rightarrow>
                  try_routes rts tk usd now providers
                    (case e of
                       Exhausted _ _ retry \<Rightarrow>
                         Some (case soonest of None \<Rightarrow> retry | Some s \<Rightarrow> min s retry)
                     | _ \<Rightarrow> soonest) True))"

definition settle_named_ceiling ::
  "(lease \<Rightarrow> limiter \<Rightarrow> limiter) \<Rightarrow> string \<Rightarrow> lease option \<Rightarrow> model_router \<Rightarrow> model_router" where [hx_defs]:
  "settle_named_ceiling f name ol r =
     r\<lparr>mr_pools := AList.map_entry name
         (\<lambda>p. p\<lparr>rp_limiter := settle_ceiling f ol (rp_limiter p)\<rparr>) (mr_pools r)\<rparr>"

definition acquire_route ::
  "string \<Rightarrow> nat \<Rightarrow> f64 \<Rightarrow> datetime \<Rightarrow> model_router \<Rightarrow> (router_error + route_ticket) \<times> model_router" where [hx_defs]:
  "acquire_route pool_name tk usd now r = (case map_of (mr_pools r) pool_name of
     None \<Rightarrow> (Inl (Config_Unknown_Pool pool_name), r)
   | Some pool \<Rightarrow>
       (let (granted, om) = acquire_ceiling tk usd now (rp_limiter pool);
            r = r\<lparr>mr_pools := AList.map_entry pool_name (\<lambda>p. p\<lparr>rp_limiter := om\<rparr>) (mr_pools r)\<rparr>
        in case granted of
             Inl e \<Rightarrow>
               (Inl (Rate_Limited (''pool:'' @ pool_name)
                  (as_u64 (fmul (case retry_after_secs e of Some w \<Rightarrow> w | None \<Rightarrow> 60) 1000))), r)
           | Inr pool_lease \<Rightarrow>
               (let (tried, providers) =
                      try_routes (rp_routes pool) tk usd now (mr_providers r) None False;
                    r = r\<lparr>mr_providers := providers\<rparr>
                in case tried of
                     Inr (rt, credential) \<Rightarrow>
                       (Inr \<lparr>rk_pool = pool_name, rk_route = rt, rk_credential = credential,
                             rk_pool_lease = pool_lease\<rparr>, r)
                   | Inl (soonest, had_route) \<Rightarrow>
                       (Inl (if \<not> had_route then NoRoute_Unconfigured pool_name
                             else NoRoute_At_Limit pool_name
                               (case soonest of Some s \<Rightarrow> s | None \<Rightarrow> 60)),
                        settle_named_ceiling (\<lambda>l. release l now) pool_name pool_lease r))))"

definition acquire_for_role ::
  "string \<Rightarrow> nat \<Rightarrow> f64 \<Rightarrow> datetime \<Rightarrow> model_router \<Rightarrow> (router_error + route_ticket) \<times> model_router" where [hx_defs]:
  "acquire_for_role role tk usd now r = (case pool_for_role role r of
     Inl e \<Rightarrow> (Inl e, r)
   | Inr pool \<Rightarrow> acquire_route pool tk usd now r)"

definition reconcile_route ::
  "route_ticket \<Rightarrow> nat \<Rightarrow> f64 \<Rightarrow> datetime \<Rightarrow> model_router \<Rightarrow> model_router" where [hx_defs]:
  "reconcile_route t tokens usd now r =
     settle_named_ceiling (\<lambda>l. reconcile l tokens usd now) (rk_pool t) (rk_pool_lease t)
       (r\<lparr>mr_providers := AList.map_entry (rt_provider (rk_route t))
           (reconcile_pool (rk_credential t) tokens usd now) (mr_providers r)\<rparr>)"

definition release_route :: "route_ticket \<Rightarrow> datetime \<Rightarrow> model_router \<Rightarrow> model_router" where [hx_defs]:
  "release_route t now r =
     settle_named_ceiling (\<lambda>l. release l now) (rk_pool t) (rk_pool_lease t)
       (r\<lparr>mr_providers := AList.map_entry (rt_provider (rk_route t))
           (release_pool (rk_credential t) now) (mr_providers r)\<rparr>)"

definition mark_route_unhealthy ::
  "string \<Rightarrow> string \<Rightarrow> string \<Rightarrow> model_router \<Rightarrow> bool \<times> model_router" where [hx_defs]:
  "mark_route_unhealthy provider credential why r =
     (case map_of (mr_providers r) provider of
        None \<Rightarrow> False | Some p \<Rightarrow> fst (mark_unhealthy credential why p),
      r\<lparr>mr_providers := AList.map_entry provider (\<lambda>p. snd (mark_unhealthy credential why p)) (mr_providers r)\<rparr>)"

definition mark_route_healthy :: "string \<Rightarrow> string \<Rightarrow> model_router \<Rightarrow> bool \<times> model_router" where [hx_defs]:
  "mark_route_healthy provider credential r =
     (case map_of (mr_providers r) provider of
        None \<Rightarrow> False | Some p \<Rightarrow> fst (mark_healthy credential p),
      r\<lparr>mr_providers := AList.map_entry provider (\<lambda>p. snd (mark_healthy credential p)) (mr_providers r)\<rparr>)"

subsection \<open>Costs and estimates\<close>

record usage =
  input_tokens :: nat
  output_tokens :: nat
  cached_input_tokens :: nat
  reasoning_tokens :: nat

definition cache_hit_rate :: "usage \<Rightarrow> f64" where [hx_defs]:
  "cache_hit_rate u =
     (if input_tokens u = 0 then 0
      else fdiv (of_count (cached_input_tokens u)) (of_count (input_tokens u)))"

definition cache_discount :: f64 where [hx_defs]:
  "cache_discount = f64_round (1 / 10)"

definition cost_usd :: "price \<Rightarrow> usage \<Rightarrow> f64" where [hx_defs]:
  "cost_usd p u =
     (let cached = min (cached_input_tokens u) (input_tokens u);
          fresh_input = input_tokens u - cached;
          input = fdiv (fmul (of_count fresh_input) (input_per_mtok p)) 1000000;
          cached_cost = fdiv (fmul (fmul (of_count cached) (input_per_mtok p)) cache_discount) 1000000;
          output = fdiv (fmul (of_count (output_tokens u)) (output_per_mtok p)) 1000000
      in fadd (fadd input cached_cost) output)"

definition cost_for :: "string \<Rightarrow> usage \<Rightarrow> model_router \<Rightarrow> f64" where [hx_defs]:
  "cost_for provider u r =
     (case map_of (mr_prices r) provider of Some price \<Rightarrow> cost_usd price u | None \<Rightarrow> 0)"

definition estimate_cost :: "route \<Rightarrow> usage \<Rightarrow> model_router \<Rightarrow> f64" where [hx_defs]:
  "estimate_cost rt u r = cost_for (rt_provider rt) u r"

definition estimate_reservation_usd :: "route \<Rightarrow> nat \<Rightarrow> model_router \<Rightarrow> f64" where [hx_defs]:
  "estimate_reservation_usd rt tokens r =
     (case map_of (mr_prices r) (rt_provider rt) of
        Some p \<Rightarrow> fdiv (fmul (of_count tokens) (input_per_mtok p)) 1000000
      | None \<Rightarrow> 0)"

definition estimate_role_reservation_usd ::
  "string \<Rightarrow> nat \<Rightarrow> model_router \<Rightarrow> router_error + f64" where [hx_defs]:
  "estimate_role_reservation_usd role tokens r = (case pool_for_role role r of
     Inl e \<Rightarrow> Inl e
   | Inr name \<Rightarrow>
       (case map_of (mr_pools r) name of
          None \<Rightarrow> Inl (NoRoute_Missing name role)
        | Some pool \<Rightarrow>
            Inr (fold (\<lambda>rt m. max m (estimate_reservation_usd rt tokens r)) (rp_routes pool) 0)))"

subsection \<open>Status\<close>

record named_pool_status =
  ns_name :: string
  ns_routes :: "route list"
  ns_healthy :: nat
  ns_total :: nat

definition pool_summary :: "model_router \<Rightarrow> resolved_pool \<Rightarrow> named_pool_status" where [hx_defs]:
  "pool_summary r p =
     (let credential_pools = List.map_filter (map_of (mr_providers r))
            (retain_new {} (map rt_provider (rp_routes p))) in
      \<lparr>ns_name = rp_name p, ns_routes = rp_routes p,
       ns_healthy = sum_list (map healthy_count credential_pools),
       ns_total = sum_list (map (\<lambda>c. length (cp_slots c)) credential_pools)\<rparr>)"

definition router_status :: "model_router \<Rightarrow> named_pool_status list \<times> (string \<times> string) list" where [hx_defs]:
  "router_status r = (map (pool_summary r) (map snd (mr_pools r)), mr_roles r)"

end
