(* ===== verification/Reservations.thy ===== *)
theory Reservations imports Machine
begin

section \<open>Reservations and the clients that hold them\<close>

text \<open>
  The limiter, the credential pool and the router offer the same interface: an acquisition that
  grants a ticket or refuses, and a settlement that takes a ticket back.  The contract says what
  each call does to the number of reservations held at every place of the provider; a client
  that settles each ticket at most once then finds, at any time and in any order of calls, exactly its
  open tickets held, so that nothing leaks.

  A client is a list of requests: to acquire, to settle one of the tickets it holds, or to do
  something else to the provider (look at its load, bench a credential).
\<close>

datatype ('q, 'u, 'o) client_call = Acquire 'q | Settle 'u nat | Other 'o

fun client_step ::
  "('q \<Rightarrow> 's \<Rightarrow> ('e + 't) \<times> 's) \<Rightarrow> ('u \<Rightarrow> 't \<Rightarrow> 's \<Rightarrow> 's) \<Rightarrow> ('o \<Rightarrow> 's \<Rightarrow> 's)
   \<Rightarrow> ('q, 'u, 'o) client_call \<Rightarrow> 's \<times> 't list \<Rightarrow> 's \<times> 't list" where
  "client_step acq settle other (Acquire q) (s, ts) =
     (case acq q s of (Inl _, s') \<Rightarrow> (s', ts) | (Inr t, s') \<Rightarrow> (s', t # ts))"
| "client_step acq settle other (Settle u i) (s, ts) =
     (if i < length ts then (settle u (ts ! i) s, take i ts @ drop (Suc i) ts) else (s, ts))"
| "client_step acq settle other (Other x) (s, ts) = (other x s, ts)"

text \<open>The open tickets that reserve something at the place \<open>p\<close>.\<close>

definition open_at :: "('t \<Rightarrow> 'p option) \<Rightarrow> 't list \<Rightarrow> 'p \<Rightarrow> nat" where
  "open_at place ts p = length (filter (\<lambda>t. place t = Some p) ts)"

lemma open_at_simps [simp]:
  "open_at place [] p = 0"
  "open_at place (t # ts) p = (if place t = Some p then 1 else 0) + open_at place ts p"
  "open_at place (xs @ ys) p = open_at place xs p + open_at place ys p"
  by (simp_all add: open_at_def)

lemma open_at_remove:
  assumes "i < length ts"
  shows "open_at place ts p = (if place (ts ! i) = Some p then 1 else 0)
    + open_at place (take i ts @ drop (Suc i) ts) p"
  by (subst id_take_nth_drop [OF assms]) simp

text \<open>The contract.  \<open>ok\<close> is the provider's own invariant.\<close>

locale reservations =
  fixes acq :: "'q \<Rightarrow> 's \<Rightarrow> ('e + 't) \<times> 's"
    and settle :: "'u \<Rightarrow> 't \<Rightarrow> 's \<Rightarrow> 's"
    and other :: "'o \<Rightarrow> 's \<Rightarrow> 's"
    and place :: "'t \<Rightarrow> 'p option"
    and held :: "'s \<Rightarrow> 'p \<Rightarrow> nat"
    and ok :: "'s \<Rightarrow> bool"
  assumes refuse: "ok s \<Longrightarrow> acq q s = (Inl e, s') \<Longrightarrow> ok s' \<and> held s' p = held s p"
    and grant: "ok s \<Longrightarrow> acq q s = (Inr t, s') \<Longrightarrow>
      ok s' \<and> held s' p = held s p + (if place t = Some p then 1 else 0)"
    and give_back: "ok s \<Longrightarrow>
      ok (settle u t s) \<and> held (settle u t s) p = held s p - (if place t = Some p then 1 else 0)"
    and untouched: "ok s \<Longrightarrow> ok (other x s) \<and> held (other x s) p = held s p"
begin

lemma client_step_balance:
  assumes "ok s" "\<And>p. held s p = base p + open_at place ts p"
    and "client_step acq settle other c (s, ts) = (s', ts')"
  shows "ok s' \<and> (\<forall>p. held s' p = base p + open_at place ts' p)"
proof (cases c)
  case (Acquire q)
  show ?thesis
  proof (cases "fst (acq q s)")
    case (Inl e)
    then have "acq q s = (Inl e, snd (acq q s))" by (metis prod.collapse)
    with refuse [OF assms(1) this] assms Acquire Inl show ?thesis by (auto split: prod.splits)
  next
    case (Inr t)
    then have "acq q s = (Inr t, snd (acq q s))" by (metis prod.collapse)
    with grant [OF assms(1) this] assms Acquire Inr show ?thesis by (auto split: prod.splits)
  qed
next
  case (Settle u i)
  show ?thesis
  proof (cases "i < length ts")
    case True
    have "ok (settle u (ts ! i) s)" using give_back [OF assms(1)] by blast
    moreover have "held (settle u (ts ! i) s) p
        = base p + open_at place (take i ts @ drop (Suc i) ts) p" for p
      using give_back [OF assms(1), of u "ts ! i" p] assms(2) [of p]
        open_at_remove [OF True, of place p] by auto
    ultimately show ?thesis using assms(3) Settle True by auto
  qed (use assms Settle in auto)
next
  case (Other x)
  then show ?thesis using assms untouched [OF assms(1), of x] by auto
qed

text \<open>Along every run of such a client, what is held is what was held before plus its open tickets.\<close>

lemma balance:
  assumes "ok s" "\<And>p. held s p = base p + open_at place ts p"
    and "reaches (client_step acq settle other) (s, ts) (s', ts')"
  shows "ok s' \<and> held s' p = base p + open_at place ts' p"
proof -
  define I where "I = (\<lambda>st. ok (fst st) \<and> (\<forall>p. held (fst st) p = base p + open_at place (snd st) p))"
  have step: "I (client_step acq settle other c st)" if "I st" for c st
  proof -
    have "ok (fst st)" "\<And>p. held (fst st) p = base p + open_at place (snd st) p"
      using that by (simp_all add: I_def)
    from client_step_balance [OF this, of c "fst (client_step acq settle other c st)"
        "snd (client_step acq settle other c st)"]
    show ?thesis by (simp add: I_def)
  qed
  have "invariant (client_step acq settle other) I" by (rule invariant.intro) (rule step)
  then have "I (s', ts')"
    by (rule invariant.reachable [OF _ assms(3)]) (simp add: I_def assms(1,2))
  then show ?thesis by (simp add: I_def)
qed

text \<open>In particular, nothing is held once every ticket is settled.\<close>

lemma no_leak:
  assumes "ok s" "reaches (client_step acq settle other) (s, []) (s', [])"
  shows "held s' p = held s p"
  using balance [where base = "held s" and p = p, OF assms(1) _ assms(2)] by simp

end

end
