(* ===== verification/Rate_Limits_Facts.thy ===== *)
theory Rate_Limits_Facts imports Rate_Limits Reservations
begin

section \<open>What the limiter guarantees\<close>

text \<open>
  The invariant of buckets and limiters, the two phases of an acquisition, the bounds the ceilings
  set, and the accounting of reservations, which the limiter provides through the contract of
  the previous theory.  The arithmetic is the rounding one; the laws of rounding used are in
  \<open>Rust_Float\<close>.
\<close>

subsection \<open>Buckets\<close>

definition bucket_ok :: "token_bucket \<Rightarrow> bool" where
  "bucket_ok b \<longleftrightarrow>
     0 \<le> tb_tokens b \<and> tb_tokens b \<le> tb_capacity b \<and> 0 < tb_rate b
     \<and> machine (tb_tokens b) \<and> machine (tb_capacity b)"

lemma of_count_nonneg [simp]: "0 \<le> of_count n"
  by (simp add: of_count_def f64_round_nonneg)

lemma machine_of_count [simp]: "machine (of_count n)"
  by (simp add: of_count_def)

lemma of_count_exact: "n \<le> 2 ^ 53 \<Longrightarrow> of_count n = of_nat n"
  by (simp add: of_count_def f64_round_of_nat)

lemma bucket_ok_new: "bucket_ok (new_bucket n r now)"
  by (simp add: bucket_ok_def new_bucket_def min_positive_def less_max_iff_disj)

lemma refill_keeps [simp]:
  "tb_capacity (refill now b) = tb_capacity b" "tb_rate (refill now b) = tb_rate b"
  by (simp_all add: refill_def Let_def)

lemma bucket_ok_refill [simp]: "bucket_ok b \<Longrightarrow> bucket_ok (refill now b)"
  by (auto simp: bucket_ok_def refill_def Let_def fmul_nonneg fadd_nonneg)

text \<open>Refilling again at the same instant changes nothing.\<close>

lemma refill_refill [simp]: "refill now (refill now b) = refill now b"
  by (simp add: refill_def Let_def elapsed_secs_def num_milliseconds_def fdiv_def)

lemma refill_same_tokens: "refill now (refill now b\<lparr>tb_tokens := t\<rparr>) = refill now b\<lparr>tb_tokens := t\<rparr>"
  by (simp add: refill_def Let_def elapsed_secs_def num_milliseconds_def fdiv_def)

lemma refill_tokens: "bucket_ok b \<Longrightarrow> tb_tokens b \<le> tb_tokens (refill now b)"
  using f64_round_mono [of "tb_tokens b" "tb_tokens b + fmul (elapsed_secs b now) (tb_rate b)"]
  by (auto simp: refill_def Let_def bucket_ok_def fadd_def machine_def fmul_nonneg)

lemma snd_peek [simp]: "snd (peek n now b) = refill now b"
  by (simp add: peek_def Let_def)

lemma peek_Inr: "fst (peek n now b) = Inr u \<longleftrightarrow> min n (tb_capacity b) \<le> tb_tokens (refill now b)"
  by (simp add: peek_def Let_def)

text \<open>The comment in the code that a take is infallible after a successful peek.\<close>

lemma take_after_peek:
  assumes "peek n now b = (Inr u, b')"
  shows "try_take n now b'
    = (Inr (), b'\<lparr>tb_tokens := fsub (tb_tokens b') (min n (tb_capacity b'))\<rparr>)"
  using assms by (auto simp: try_take_def peek_def Let_def split: if_splits)

lemma bucket_ok_try_take:
  assumes "bucket_ok b" "0 \<le> n"
  shows "bucket_ok (snd (try_take n now b))"
proof -
  have r: "bucket_ok (refill now b)" using assms(1) by simp
  then show ?thesis
  proof (cases "min n (tb_capacity b) \<le> tb_tokens (refill now b)")
    case True
    have w: "0 \<le> min n (tb_capacity b)" using assms by (auto simp: bucket_ok_def)
    have "fsub (tb_tokens (refill now b)) (min n (tb_capacity b)) \<le> tb_tokens (refill now b)"
      by (rule fsub_le [OF w]) (use r in \<open>simp add: bucket_ok_def\<close>)
    then show ?thesis using r True
      by (simp add: try_take_def peek_def Let_def bucket_ok_def fsub_nonneg)
  qed (simp add: try_take_def peek_def Let_def)
qed

lemma bucket_ok_refund: "bucket_ok b \<Longrightarrow> 0 \<le> n \<Longrightarrow> bucket_ok (refund n b)"
  by (auto simp: bucket_ok_def refund_def fadd_nonneg)

lemma bucket_ok_consume: "bucket_ok b \<Longrightarrow> 0 \<le> n \<Longrightarrow> bucket_ok (consume_extra n b)"
  using fsub_le [of n "tb_tokens b"]
  by (auto simp: bucket_ok_def consume_extra_def max_def)

subsection \<open>Limiters\<close>

definition buckets_ok :: "limiter \<Rightarrow> bool" where
  "buckets_ok m \<longleftrightarrow>
     pred_option bucket_ok (lm_rpm m) \<and> pred_option bucket_ok (lm_tpm m)
     \<and> pred_option bucket_ok (lm_rpd m)"

lemma buckets_ok_new: "buckets_ok (new_limiter l now)"
  by (auto simp: buckets_ok_def new_limiter_def per_minute_def per_day_def bucket_ok_new
      pred_option_def)

lemma roll_day_keeps [simp]:
  "lm_limits (roll_day now m) = lm_limits m" "lm_in_flight (roll_day now m) = lm_in_flight m"
  "lm_rpm (roll_day now m) = lm_rpm m" "lm_tpm (roll_day now m) = lm_tpm m"
  "lm_day (roll_day now m) = date_naive now"
  by (auto simp: roll_day_def Let_def)

lemma roll_day_same: "lm_day m = date_naive now \<Longrightarrow> roll_day now m = m"
  by (simp add: roll_day_def)

lemma buckets_ok_roll_day [simp]: "buckets_ok m \<Longrightarrow> buckets_ok (roll_day now m)"
  by (auto simp: buckets_ok_def roll_day_def Let_def per_day_def bucket_ok_new split: option.split)

definition refilled :: "datetime \<Rightarrow> token_bucket option \<Rightarrow> token_bucket option" where
  "refilled now ob = map_option (refill now) ob"

lemma peek_opt_cases:
  obtains (ok) "peek_opt n now ob = (Inr (), refilled now ob)"
      "pred_option (\<lambda>b. min n (tb_capacity b) \<le> tb_tokens (refill now b)) ob"
  | (wait) w where "peek_opt n now ob = (Inl w, refilled now ob)"
      "\<not> pred_option (\<lambda>b. min n (tb_capacity b) \<le> tb_tokens (refill now b)) ob"
  by (cases ob) (auto simp: peek_opt_def peek_def Let_def refilled_def split: if_splits)

lemma refilled_ok [simp]: "pred_option bucket_ok ob \<Longrightarrow> pred_option bucket_ok (refilled now ob)"
  by (cases ob) (simp_all add: refilled_def)

lemma refilled_refilled [simp]: "refilled now (refilled now ob) = refilled now ob"
  by (cases ob) (simp_all add: refilled_def)

lemma take_opt_ok: "pred_option bucket_ok ob \<Longrightarrow> 0 \<le> n \<Longrightarrow> pred_option bucket_ok (take_opt n now ob)"
  by (cases ob) (simp_all add: take_opt_def bucket_ok_try_take)

text \<open>What the first phase leaves: the limiter with some of its buckets refilled.\<close>

lemma admit_cases:
  assumes "admit tk usd now m = (r, m')"
  shows "m' \<in> {m, m\<lparr>lm_rpm := refilled now (lm_rpm m)\<rparr>,
      m\<lparr>lm_rpm := refilled now (lm_rpm m), lm_tpm := refilled now (lm_tpm m)\<rparr>,
      m\<lparr>lm_rpm := refilled now (lm_rpm m), lm_tpm := refilled now (lm_tpm m),
        lm_rpd := refilled now (lm_rpd m)\<rparr>}"
    and "r = Inr u \<Longrightarrow>
      m' = m\<lparr>lm_rpm := refilled now (lm_rpm m), lm_tpm := refilled now (lm_tpm m),
             lm_rpd := refilled now (lm_rpd m)\<rparr>
      \<and> pred_option (\<lambda>b. min 1 (tb_capacity b) \<le> tb_tokens (refill now b)) (lm_rpm m)
      \<and> pred_option (\<lambda>b. min (of_count tk) (tb_capacity b) \<le> tb_tokens (refill now b)) (lm_tpm m)
      \<and> pred_option (\<lambda>b. min 1 (tb_capacity b) \<le> tb_tokens (refill now b)) (lm_rpd m)
      \<and> concurrency_refusal m = None \<and> budget_refusal usd m = None"
  using assms
  by (cases rule: peek_opt_cases [of 1 now "lm_rpm m"];
      cases rule: peek_opt_cases [of "of_count tk" now "lm_tpm m"];
      cases rule: peek_opt_cases [of 1 now "lm_rpd m"];
      auto simp: admit_def Let_def budget_refusal_def split: option.splits if_splits)+

lemma admit_keeps:
  assumes "admit tk usd now m = (r, m')"
  shows "lm_limits m' = lm_limits m" "lm_in_flight m' = lm_in_flight m"
    "lm_spent_usd m' = lm_spent_usd m" "lm_day m' = lm_day m" "buckets_ok m \<Longrightarrow> buckets_ok m'"
  using admit_cases(1) [OF assms] by (auto simp: buckets_ok_def)

text \<open>The two outcomes of an acquisition.\<close>

lemma acquire_Inl:
  "acquire tk usd now m = (Inl e, m') \<longleftrightarrow> admit tk usd now (roll_day now m) = (Inl e, m')"
  by (auto simp: acquire_def split: prod.splits sum.splits)

lemma acquire_Inr:
  assumes "acquire tk usd now m = (Inr l, m')"
  obtains m1 where "admit tk usd now (roll_day now m) = (Inr (), m1)"
    "m' = commit tk usd now m1"
    "l = \<lparr>reserved_tokens = tk, reserved_usd = usd, lease_issued_at = now\<rparr>"
  using assms by (auto simp: acquire_def split: prod.splits sum.splits)

lemma acquire_refused:
  assumes "acquire tk usd now m = (Inl e, m')"
  shows "lm_in_flight m' = lm_in_flight m" "lm_limits m' = lm_limits m"
    "lm_spent_usd m' = lm_spent_usd (roll_day now m)" "buckets_ok m \<Longrightarrow> buckets_ok m'"
  using admit_keeps [OF assms [unfolded acquire_Inl]] by simp_all

lemma commit_keeps [simp]:
  "lm_limits (commit tk usd now m) = lm_limits m" "lm_day (commit tk usd now m) = lm_day m"
  "lm_in_flight (commit tk usd now m) = lm_in_flight m + 1"
  "lm_spent_usd (commit tk usd now m) = fadd (lm_spent_usd m) usd"
  by (simp_all add: commit_def)

lemma acquire_granted:
  assumes "acquire tk usd now m = (Inr l, m')"
  shows "lm_in_flight m' = lm_in_flight m + 1" "lm_limits m' = lm_limits m"
    "lm_day m' = date_naive now" "lm_spent_usd m' = fadd (lm_spent_usd (roll_day now m)) usd"
    "buckets_ok m \<Longrightarrow> buckets_ok m'"
proof -
  obtain m1 where m1: "admit tk usd now (roll_day now m) = (Inr (), m1)" "m' = commit tk usd now m1"
    by (rule acquire_Inr [OF assms])
  from admit_keeps [OF m1(1)] show "lm_in_flight m' = lm_in_flight m + 1" "lm_limits m' = lm_limits m"
    "lm_day m' = date_naive now" "lm_spent_usd m' = fadd (lm_spent_usd (roll_day now m)) usd"
    by (simp_all add: m1(2))
  assume "buckets_ok m"
  then have "buckets_ok m1" using admit_keeps(5) [OF m1(1)] by simp
  then show "buckets_ok m'" by (simp add: m1(2) commit_def buckets_ok_def take_opt_ok)
qed

text \<open>A granted reservation is inside every ceiling: the spend it leaves is at most the daily budget,
  and with it no more calls are in flight than the concurrency bound.\<close>

theorem granted_within_ceilings:
  assumes "acquire tk usd now m = (Inr l, m')"
  shows "(case lim_daily_usd (lm_limits m) of Some limit \<Rightarrow> lm_spent_usd m' \<le> limit | None \<Rightarrow> True)
    \<and> (case lim_concurrent (lm_limits m) of Some limit \<Rightarrow> lm_in_flight m' \<le> limit | None \<Rightarrow> True)"
proof -
  obtain m1 where m1: "admit tk usd now (roll_day now m) = (Inr (), m1)" "m' = commit tk usd now m1"
    by (rule acquire_Inr [OF assms])
  from admit_cases(2) [OF m1(1)] admit_keeps [OF m1(1)] show ?thesis
    by (auto simp: m1(2) concurrency_refusal_def budget_refusal_def not_less
        split: option.splits if_splits)
qed

theorem granted_within_ceilings_witness:
  "let l = default_limits\<lparr>lim_daily_usd := Some 5, lim_concurrent := Some 1\<rparr>;
       (r, m) = acquire 100 2 0 (new_limiter l 0)
   in (case lim_daily_usd l of Some limit \<Rightarrow> lm_spent_usd m \<le> limit | None \<Rightarrow> True)
      \<and> (case lim_concurrent l of Some limit \<Rightarrow> lm_in_flight m \<le> limit | None \<Rightarrow> True)"
proof -
  let ?l = "default_limits\<lparr>lim_daily_usd := Some 5, lim_concurrent := Some 1\<rparr>"
  have two: "f64_round 2 = 2" using f64_round_of_nat [of 2] by simp
  have "\<exists>l m'. acquire 100 2 0 (new_limiter ?l 0) = (Inr l, m')"
    by (simp add: acquire_def admit_def new_limiter_def default_limits_def roll_day_def Let_def
        concurrency_refusal_def peek_opt_def budget_refusal_def fadd_def two)
  then obtain l m' where a: "acquire 100 2 0 (new_limiter ?l 0) = (Inr l, m')" by blast
  have "lm_limits (new_limiter ?l 0) = ?l" by (simp add: new_limiter_def)
  with granted_within_ceilings [OF a] a show ?thesis by (simp add: Let_def)
qed

text \<open>A budget that is spent denies everything until the day rolls over, whatever the estimate: no
  estimate, not even zero or a negative one, gets past it.\<close>

theorem spent_budget_denies:
  assumes "lim_daily_usd (lm_limits m) = Some limit" "limit \<le> lm_spent_usd m"
    and "lm_day m = date_naive now"
  shows "\<exists>e m'. acquire tk usd now m = (Inl e, m') \<and> lm_spent_usd m' = lm_spent_usd m"
proof (cases "acquire tk usd now m")
  case (Pair r m')
  show ?thesis
  proof (cases r)
    case (Inl e)
    with acquire_refused(3) [of tk usd now m e m'] Pair show ?thesis
      by (simp add: roll_day_same [OF assms(3)])
  next
    case (Inr l)
    with Pair have "acquire tk usd now m = (Inr l, m')" by simp
    then obtain m1 where "admit tk usd now (roll_day now m) = (Inr (), m1)" by (rule acquire_Inr)
    from admit_cases(2) [OF this] show ?thesis
      using assms by (simp add: roll_day_same budget_refusal_def split: if_splits)
  qed
qed

definition spent_limiter :: limiter where
  "spent_limiter = (new_limiter (default_limits\<lparr>lim_daily_usd := Some 5\<rparr>) 0)\<lparr>lm_spent_usd := 5\<rparr>"

theorem spent_budget_denies_witness:
  "\<exists>e m'. acquire 10 0 7 spent_limiter = (Inl e, m') \<and> lm_spent_usd m' = lm_spent_usd spent_limiter"
  by (rule spent_budget_denies [where limit = 5])
    (simp_all add: spent_limiter_def new_limiter_def date_naive_def)

subsection \<open>Reservations are accounted for\<close>

datatype settlement =
    Reconciled nat f64 datetime
  | Released datetime

fun settle_lease :: "settlement \<Rightarrow> lease \<Rightarrow> limiter \<Rightarrow> limiter" where
  "settle_lease (Reconciled tokens usd now) l m = reconcile l tokens usd now m"
| "settle_lease (Released now) l m = release l now m"

definition acquire_call :: "nat \<times> f64 \<times> datetime \<Rightarrow> limiter \<Rightarrow> (limit_error + lease) \<times> limiter" where
  "acquire_call q m = (case q of (tokens, usd, now) \<Rightarrow> acquire tokens usd now m)"

lemma settle_tokens_ok: "bucket_ok b \<Longrightarrow> bucket_ok (settle_tokens r a b)"
  by (simp add: settle_tokens_def bucket_ok_refund bucket_ok_consume)

lemma pred_option_map: "(\<And>b. P b \<Longrightarrow> P (f b)) \<Longrightarrow> pred_option P ob \<Longrightarrow> pred_option P (map_option f ob)"
  by (cases ob) simp_all

lemma settle_lease_keeps:
  "lm_in_flight (settle_lease u l m) = lm_in_flight m - 1"
  "lm_limits (settle_lease u l m) = lm_limits m"
  by (cases u; simp add: reconcile_def release_def Let_def set_spent_def)+

lemma settle_lease_ok: "buckets_ok m \<Longrightarrow> buckets_ok (settle_lease u l m)"
proof -
  assume "buckets_ok m"
  then have "buckets_ok (roll_day now m)" for now by simp
  then have "pred_option bucket_ok (lm_rpm (roll_day now m))"
    "pred_option bucket_ok (lm_tpm (roll_day now m))" "pred_option bucket_ok (lm_rpd (roll_day now m))"
    for now by (simp_all add: buckets_ok_def)
  then show ?thesis
    by (cases u) (auto simp: reconcile_def release_def Let_def set_spent_def buckets_ok_def
        intro!: pred_option_map settle_tokens_ok bucket_ok_refund)
qed

lemma bucket_load_snd: "snd (bucket_load now ob w) = ob \<or> snd (bucket_load now ob w) = refilled now ob"
  by (cases ob) (auto simp: bucket_load_def available_fraction_def available_def refilled_def Let_def)

lemma load_score_limiter:
  "\<exists>t r. (t = lm_tpm m \<or> t = refilled now (lm_tpm m)) \<and> (r = lm_rpm m \<or> r = refilled now (lm_rpm m))
    \<and> snd (load_score now m) = roll_day now m\<lparr>lm_tpm := t, lm_rpm := r\<rparr>"
  using bucket_load_snd [of now "lm_tpm m" 0]
    bucket_load_snd [of now "lm_rpm m" "fst (bucket_load now (lm_tpm m) 0)"]
  by (simp add: load_score_def Let_def split_def) blast

lemma load_score_keeps [simp]:
  "lm_in_flight (snd (load_score now m)) = lm_in_flight m"
  "buckets_ok m \<Longrightarrow> buckets_ok (snd (load_score now m))"
proof -
  obtain t r where *: "t = lm_tpm m \<or> t = refilled now (lm_tpm m)"
    "r = lm_rpm m \<or> r = refilled now (lm_rpm m)"
    "snd (load_score now m) = roll_day now m\<lparr>lm_tpm := t, lm_rpm := r\<rparr>"
    using load_score_limiter by blast
  show "lm_in_flight (snd (load_score now m)) = lm_in_flight m" by (simp add: *(3))
  assume "buckets_ok m"
  then have "buckets_ok (roll_day now m)" "buckets_ok m" by simp_all
  then show "buckets_ok (snd (load_score now m))" using *(1,2) by (auto simp: *(3) buckets_ok_def)
qed

text \<open>A limiter has one place, and every lease reserves there.  What else can happen to it is that its
  load is read.\<close>

definition read_load :: "datetime \<Rightarrow> limiter \<Rightarrow> limiter" where
  "read_load now m = snd (load_score now m)"


interpretation limiter: reservations acquire_call settle_lease read_load "\<lambda>_. Some ()"
  "\<lambda>m _. lm_in_flight m" buckets_ok
proof
  fix m q e m' and p :: unit
  assume "buckets_ok m" "acquire_call q m = (Inl e, m')"
  then show "buckets_ok m' \<and> lm_in_flight m' = lm_in_flight m"
    using acquire_refused by (auto simp: acquire_call_def split: prod.splits)
next
  fix m q l m' and p :: unit
  assume "buckets_ok m" "acquire_call q m = (Inr l, m')"
  then show "buckets_ok m' \<and>
      lm_in_flight m' = lm_in_flight m + (if Some () = Some p then 1 else 0)"
    using acquire_granted by (auto simp: acquire_call_def split: prod.splits)
next
  fix m u l and p :: unit
  assume "buckets_ok m"
  then show "buckets_ok (settle_lease u l m) \<and>
      lm_in_flight (settle_lease u l m) = lm_in_flight m - (if Some () = Some p then 1 else 0)"
    by (simp add: settle_lease_ok settle_lease_keeps)
next
  fix m now and p :: unit
  assume "buckets_ok m"
  then show "buckets_ok (read_load now m) \<and> lm_in_flight (read_load now m) = lm_in_flight m"
    by (simp add: read_load_def)
qed

text \<open>The calls in flight that a limiter counts are exactly the leases its client holds open, and its
  buckets stay within their capacity, after any sequence of acquisitions, refusals, releases,
  settlements and readings of its load, at whatever times and amounts.\<close>

theorem limiter_counts_open_leases:
  assumes "reaches (client_step acquire_call settle_lease read_load) (new_limiter l now, []) (m, leases)"
  shows "buckets_ok m \<and> lm_in_flight m = length leases"
proof -
  have "open_at (\<lambda>_. Some ()) leases () = length leases" by (simp add: open_at_def)
  then show ?thesis
    using limiter.balance [OF buckets_ok_new _ assms, where base = "\<lambda>_. 0"]
    by (simp add: new_limiter_def)
qed

theorem limiter_counts_open_leases_witness:
  "\<exists>m t. fst (acquire_call (1, 0, 5) (new_limiter default_limits 0)) = Inr t
    \<and> buckets_ok m \<and> lm_in_flight m = length [t]"
proof -
  let ?m0 = "new_limiter default_limits 0"
  have "\<exists>t. fst (acquire_call (1, 0, 5) ?m0) = Inr t"
    by (simp add: acquire_call_def acquire_def admit_def new_limiter_def default_limits_def roll_day_def
        Let_def concurrency_refusal_def peek_opt_def budget_refusal_def)
  then obtain t where t: "fst (acquire_call (1, 0, 5) ?m0) = Inr t" by blast
  have "reaches (client_step acquire_call settle_lease read_load) (?m0, [])
      (client_step acquire_call settle_lease read_load (Acquire (1, 0, 5)) (?m0, []))"
    by (rule reaches_call [OF reaches_start])
  also have "client_step acquire_call settle_lease read_load (Acquire (1, 0, 5)) (?m0, [])
      = (snd (acquire_call (1, 0, 5) ?m0), [t])"
    using t by (cases "acquire_call (1, 0, 5) ?m0") simp
  finally show ?thesis using limiter_counts_open_leases t by blast
qed

subsection \<open>Bursts\<close>

lemma load_score_rpm_capacity:
  assumes "lm_rpm m = Some b" "tb_capacity b = c"
  shows "\<exists>b. lm_rpm (snd (load_score now m)) = Some b \<and> tb_capacity b = c"
proof -
  obtain t r where "r = lm_rpm m \<or> r = refilled now (lm_rpm m)"
    "snd (load_score now m) = roll_day now m\<lparr>lm_tpm := t, lm_rpm := r\<rparr>"
    using load_score_limiter by blast
  then show ?thesis using assms by (auto simp: refilled_def)
qed

lemma bucket_limit:
  assumes "bucket_ok b" "tb_capacity b = of_nat n" "1 \<le> n" "n < 2 ^ 53"
    and "min 1 (tb_capacity b) \<le> tb_tokens (refill now b)"
  shows "snd (try_take 1 now (refill now b))
    = refill now b\<lparr>tb_tokens := tb_tokens (refill now b) - 1\<rparr>"
proof -
  have "(of_nat n :: rat) < of_nat (2 ^ 53)" using assms(4) by (simp only: of_nat_less_iff)
  also have "(of_nat (2 ^ 53) :: rat) = 2 ^ 53" by (simp only: of_nat_power of_nat_numeral)
  finally have c: "(1 :: rat) \<le> tb_capacity b" "tb_capacity b < 2 ^ 53"
    using assms(2,3) by simp_all
  have r: "bucket_ok (refill now b)" using assms(1) by simp
  then have "tb_tokens (refill now b) < 2 ^ 53" "machine (tb_tokens (refill now b))"
    using c by (auto simp: bucket_ok_def)
  then have "fsub (tb_tokens (refill now b)) (of_nat 1) = tb_tokens (refill now b) - of_nat 1"
    using assms(5) c by (intro fsub_of_nat) auto
  then show ?thesis
    using assms(5) c by (simp add: try_take_def peek_def Let_def)
qed

text \<open>How many of the acquisitions in a list, all at one instant, are granted.\<close>

fun grants_at :: "datetime \<Rightarrow> (nat \<times> f64) list \<Rightarrow> limiter \<Rightarrow> nat" where
  "grants_at now [] m = 0"
| "grants_at now ((tk, usd) # qs) m =
     (case acquire tk usd now m of
        (Inl _, m') \<Rightarrow> grants_at now qs m'
      | (Inr _, m') \<Rightarrow> Suc (grants_at now qs m'))"

definition rpm_ready :: "nat \<Rightarrow> datetime \<Rightarrow> limiter \<Rightarrow> rat \<Rightarrow> bool" where
  "rpm_ready n now m t \<longleftrightarrow>
     (\<exists>b. lm_rpm m = Some b \<and> bucket_ok b \<and> tb_capacity b = of_nat n \<and> tb_tokens (refill now b) \<le> t)"

lemma rpm_ready_acquire:
  assumes "rpm_ready n now m t" "1 \<le> n" "n < 2 ^ 53" "acquire tk usd now m = (r, m')"
  shows "case r of Inl _ \<Rightarrow> rpm_ready n now m' t | Inr _ \<Rightarrow> 1 \<le> t \<and> rpm_ready n now m' (t - 1)"
proof -
  obtain b where b: "lm_rpm m = Some b" "bucket_ok b" "tb_capacity b = of_nat n"
    "tb_tokens (refill now b) \<le> t"
    using assms(1) by (auto simp: rpm_ready_def)
  show ?thesis
  proof (cases r)
    case (Inl e)
    with assms(4) have "admit tk usd now (roll_day now m) = (Inl e, m')" by (simp add: acquire_Inl)
    from admit_cases(1) [OF this] have "lm_rpm m' = Some b \<or> lm_rpm m' = Some (refill now b)"
      using b(1) by (auto simp: refilled_def)
    then have "rpm_ready n now m' t" using b by (auto simp: rpm_ready_def)
    then show ?thesis by (simp add: Inl)
  next
    case (Inr l)
    with assms(4) have "acquire tk usd now m = (Inr l, m')" by simp
    then obtain m1 where m1: "admit tk usd now (roll_day now m) = (Inr (), m1)"
      "m' = commit tk usd now m1" by (rule acquire_Inr)
    have ready: "min 1 (tb_capacity b) \<le> tb_tokens (refill now b)"
      and rpm: "lm_rpm m1 = Some (refill now b)"
      using admit_cases(2) [OF m1(1)] b(1) by (auto simp: refilled_def)
    have "lm_rpm m' = Some (snd (try_take 1 now (refill now b)))"
      by (simp add: m1(2) commit_def take_opt_def rpm)
    then have rpm': "lm_rpm m' = Some (refill now b\<lparr>tb_tokens := tb_tokens (refill now b) - 1\<rparr>)"
      using bucket_limit [OF b(2,3) assms(2,3) ready] by simp
    have ok': "bucket_ok (refill now b\<lparr>tb_tokens := tb_tokens (refill now b) - 1\<rparr>)"
      using bucket_ok_try_take [of "refill now b" 1 now] bucket_limit [OF b(2,3) assms(2,3) ready] b(2)
      by simp
    have one: "1 \<le> tb_tokens (refill now b)"
      using ready b(3) assms(2) by simp
    have "rpm_ready n now m' (t - 1)"
      using rpm' ok' b(3,4) by (simp add: rpm_ready_def refill_same_tokens)
    with one b(4) show ?thesis by (simp add: Inr)
  qed
qed

lemma grants_at_le:
  assumes "1 \<le> n" "n < 2 ^ 53"
  shows "rpm_ready n now m t \<Longrightarrow> 0 \<le> t \<Longrightarrow> of_nat (grants_at now qs m) \<le> t"
proof (induction qs arbitrary: m t)
  case (Cons q qs)
  obtain tk usd where q: "q = (tk, usd)" by (cases q)
  obtain r m' where a: "acquire tk usd now m = (r, m')" by fastforce
  from rpm_ready_acquire [OF Cons.prems(1) assms a] Cons.IH [of m' t] Cons.IH [of m' "t - 1"]
    Cons.prems(2)
  show ?case by (cases r) (simp_all add: q a)
qed simp

text \<open>No burst exceeds the rate: of any number of calls made at one instant, a limiter that allows
  \<open>n\<close> requests per minute grants at most \<open>n\<close>, whatever it has granted before and in whatever state its
  other ceilings are.\<close>

theorem burst_within_rpm:
  assumes "reaches (client_step acquire_call settle_lease read_load) (new_limiter l start, []) (m, leases)"
    and "lim_rpm l = Some n" "1 \<le> n" "n < 2 ^ 53"
  shows "grants_at now qs m \<le> n"
proof -
  define P where "P = (\<lambda>m. buckets_ok m \<and> (\<exists>b. lm_rpm m = Some b \<and> tb_capacity b = of_nat n))"
  have keep: "P m \<Longrightarrow> P (fst (client_step acquire_call settle_lease read_load c (m, ts)))" for c m ts
  proof -
    assume P: "P m"
    have cap: "(\<exists>b. lm_rpm (snd (acquire tk usd now m)) = Some b \<and> tb_capacity b = of_nat n)"
      for tk usd now
    proof (cases "acquire tk usd now m")
      case (Pair r m')
      then have "buckets_ok m \<and> (\<exists>b. lm_rpm m = Some b \<and> tb_capacity b = of_nat n)" using P P_def by simp
      then obtain b where b: "lm_rpm m = Some b" "tb_capacity b = of_nat n" "bucket_ok b"
        by (auto simp: buckets_ok_def)
      then have "rpm_ready n now m (tb_tokens (refill now b))" by (simp add: rpm_ready_def)
      from rpm_ready_acquire [OF this assms(3,4) Pair] show ?thesis
        by (auto simp: Pair rpm_ready_def split: sum.splits)
    qed
    have settle: "(\<exists>b. lm_rpm (settle_lease u t m) = Some b \<and> tb_capacity b = of_nat n)" for u t
      using P by (cases u) (auto simp: P_def reconcile_def release_def Let_def set_spent_def refund_def)
    have ok: "buckets_ok (snd (acquire_call q m))" for q
      using P acquire_refused(4) acquire_granted(5)
      by (cases "acquire_call q m"; cases "fst (acquire_call q m)")
        (auto simp: P_def acquire_call_def split: prod.splits)
    show "P (fst (client_step acquire_call settle_lease read_load c (m, ts)))"
    proof (cases c)
      case (Acquire q)
      have "fst (client_step acquire_call settle_lease read_load c (m, ts)) = snd (acquire_call q m)"
        by (simp add: Acquire split: prod.split sum.split)
      then show ?thesis using ok [of q] cap by (cases q) (simp add: P_def acquire_call_def)
    next
      case (Settle u i)
      then show ?thesis using P settle settle_lease_ok by (auto simp: P_def)
    next
      case (Other now)
      then show ?thesis using P load_score_rpm_capacity [of m _ "of_nat n" now]
        by (auto simp: P_def read_load_def)
    qed
  qed
  have "invariant (client_step acquire_call settle_lease read_load) (\<lambda>st. P (fst st))"
    by (rule invariant.intro) (metis keep prod.collapse)
  moreover have "P (new_limiter l start)"
    unfolding P_def using assms(2,4)
    by (intro conjI buckets_ok_new)
      (simp add: new_limiter_def per_minute_def new_bucket_def of_count_exact)
  ultimately have "P m"
    using invariant.reachable [OF _ assms(1), where inv = "\<lambda>st. P (fst st)"] by simp
  then obtain b where b: "lm_rpm m = Some b" "tb_capacity b = of_nat n" "bucket_ok b"
    by (auto simp: P_def buckets_ok_def)
  have "of_nat (grants_at now qs m) \<le> (of_nat n :: rat)"
  proof (rule grants_at_le [OF assms(3,4)])
    have "bucket_ok (refill now b)" using b(3) by simp
    then have "tb_tokens (refill now b) \<le> tb_capacity b" by (simp add: bucket_ok_def)
    then show "rpm_ready n now m (of_nat n)" using b by (simp add: rpm_ready_def)
  qed simp
  then show ?thesis by simp
qed

theorem burst_within_rpm_witness:
  "grants_at 7 [(1, 0), (1, 0), (1, 0)] (new_limiter (default_limits\<lparr>lim_rpm := Some 2\<rparr>) 0) \<le> 2"
  by (rule burst_within_rpm [OF reaches_start]) simp_all

subsection \<open>A release undoes the acquisition\<close>

definition whole_capacity :: "token_bucket \<Rightarrow> bool" where
  "whole_capacity b \<longleftrightarrow> (\<exists>c. tb_capacity b = of_nat c \<and> c < 2 ^ 53)"

lemma refund_take:
  assumes "bucket_ok b" "whole_capacity b"
    and "min (of_count k) (tb_capacity b) \<le> tb_tokens (refill now b)"
  shows "refund (of_count k) (snd (try_take (of_count k) now (refill now b))) = refill now b"
proof -
  let ?b = "refill now b"
  obtain c where c: "tb_capacity b = of_nat c" "c < 2 ^ 53"
    using assms(2) by (auto simp: whole_capacity_def)
  have "(of_nat c :: rat) < of_nat (2 ^ 53)" using c(2) by (simp only: of_nat_less_iff)
  also have "(of_nat (2 ^ 53) :: rat) = 2 ^ 53" by (simp only: of_nat_power of_nat_numeral)
  finally have cap: "tb_capacity b < 2 ^ 53" by (simp add: c(1))
  have ok: "0 \<le> tb_tokens ?b" "tb_tokens ?b \<le> tb_capacity b" "machine (tb_tokens ?b)"
    using bucket_ok_refill [OF assms(1), of now] by (simp_all add: bucket_ok_def)
  have taken: "snd (try_take (of_count k) now ?b)
      = ?b\<lparr>tb_tokens := fsub (tb_tokens ?b) (min (of_count k) (tb_capacity b))\<rparr>"
    using assms(3) by (simp add: try_take_def peek_def Let_def)
  show ?thesis
  proof (cases "of_count k \<le> tb_capacity b")
    case True
    have "k < 2 ^ 53"
    proof (rule ccontr)
      assume "\<not> k < 2 ^ 53"
      then have "of_count (2 ^ 53) \<le> of_count k"
        unfolding of_count_def by (intro f64_round_mono) (simp only: of_nat_le_iff not_less)
      then show False using True cap by (simp add: of_count_exact)
    qed
    then have k: "of_count k = of_nat k" by (simp add: of_count_exact)
    have "fsub (tb_tokens ?b) (of_nat k) = tb_tokens ?b - of_nat k"
      using assms(3) True ok cap by (intro fsub_of_nat) (simp_all add: k)
    then show ?thesis
      unfolding taken using ok True by (simp add: refund_def k fadd_def machine_def min_absorb1)
  next
    case False
    then have "tb_tokens ?b = tb_capacity b" using assms(3) ok by simp
    moreover have "f64_round (of_count k) = of_count k" by (simp add: of_count_def)
    ultimately show ?thesis
      using False by (simp add: taken refund_def fsub_def fadd_def)
  qed
qed

lemma refund_take_opt:
  assumes "pred_option bucket_ok ob" "pred_option whole_capacity ob"
    and "pred_option (\<lambda>b. min (of_count k) (tb_capacity b) \<le> tb_tokens (refill now b)) ob"
  shows "map_option (refund (of_count k)) (take_opt (of_count k) now (refilled now ob)) = refilled now ob"
  using assms by (cases ob) (simp_all add: take_opt_def refilled_def refund_take)

lemma of_count_1 [simp]: "of_count 1 = 1" "of_count (Suc 0) = 1"
  using of_count_exact [of 1] by simp_all

text \<open>Releasing a lease at once gives everything back: the buckets are what they were, refilled to
  the instant, and the calls in flight and the ceilings are unchanged.  (The money comes back up
  to the rounding of one addition and one subtraction.)\<close>

theorem release_undoes_acquire:
  assumes "acquire tk usd now m = (Inr l, m')" "buckets_ok m"
    and "pred_option whole_capacity (lm_rpm m)" "pred_option whole_capacity (lm_tpm m)"
    and "pred_option whole_capacity (lm_rpd (roll_day now m))"
  shows "lm_rpm (release l now m') = refilled now (lm_rpm m)
    \<and> lm_tpm (release l now m') = refilled now (lm_tpm m)
    \<and> lm_rpd (release l now m') = refilled now (lm_rpd (roll_day now m))
    \<and> lm_in_flight (release l now m') = lm_in_flight m
    \<and> lm_limits (release l now m') = lm_limits m"
proof -
  obtain m1 where m1: "admit tk usd now (roll_day now m) = (Inr (), m1)" "m' = commit tk usd now m1"
    "l = \<lparr>reserved_tokens = tk, reserved_usd = usd, lease_issued_at = now\<rparr>"
    by (rule acquire_Inr [OF assms(1)])
  note ready = admit_cases(2) [OF m1(1)]
  have ok: "buckets_ok (roll_day now m)" using assms(2) by simp
  then have oks: "pred_option bucket_ok (lm_rpm m)" "pred_option bucket_ok (lm_tpm m)"
    "pred_option bucket_ok (lm_rpd (roll_day now m))"
    by (simp_all add: buckets_ok_def)
  have roll: "roll_day now m' = m'"
    by (rule roll_day_same) (use ready in \<open>auto simp: m1(2)\<close>)
  have m': "lm_rpm m' = take_opt 1 now (refilled now (lm_rpm m))"
    "lm_tpm m' = take_opt (of_count tk) now (refilled now (lm_tpm m))"
    "lm_rpd m' = take_opt 1 now (refilled now (lm_rpd (roll_day now m)))"
    "lm_in_flight m' = lm_in_flight m + 1" "lm_limits m' = lm_limits m"
    using ready by (auto simp: m1(2) commit_def)
  have "release l now m' = set_spent (fsub (lm_spent_usd m') (reserved_usd l))
      (m'\<lparr>lm_tpm := map_option (refund (of_count tk)) (lm_tpm m'),
         lm_rpm := map_option (refund 1) (lm_rpm m'),
         lm_rpd := map_option (refund 1) (lm_rpd m')\<rparr>)\<lparr>lm_in_flight := lm_in_flight m\<rparr>"
    unfolding release_def roll Let_def by (simp add: set_spent_def m1(3) m'(4))
  then show ?thesis
    using ready oks assms(3-5) refund_take_opt [where k = 1] refund_take_opt [where k = tk]
    by (simp add: set_spent_def m')
qed

lemma fresh_rpm_admits:
  "\<exists>l m'. acquire tk usd now (new_limiter (default_limits\<lparr>lim_rpm := Some 2\<rparr>) now) = (Inr l, m')"
proof -
  have "refill now (per_minute 2 now) = per_minute 2 now"
    by (simp add: refill_def per_minute_def new_bucket_def elapsed_secs_def num_milliseconds_def
        fdiv_def)
  moreover have "tb_capacity (per_minute 2 now) = 2" "tb_tokens (per_minute 2 now) = 2"
    by (simp_all add: per_minute_def new_bucket_def of_count_exact)
  ultimately show ?thesis
    by (simp add: acquire_def admit_def new_limiter_def default_limits_def roll_day_def Let_def
        concurrency_refusal_def peek_opt_def peek_def budget_refusal_def)
qed

theorem release_undoes_acquire_witness:
  "let m = new_limiter (default_limits\<lparr>lim_rpm := Some 2\<rparr>) 0; (r, m') = acquire 10 0 0 m
   in \<exists>l. r = Inr l \<and> lm_rpm (release l 0 m') = refilled 0 (lm_rpm m)
        \<and> lm_in_flight (release l 0 m') = 0"
proof -
  let ?m = "new_limiter (default_limits\<lparr>lim_rpm := Some 2\<rparr>) 0"
  obtain l m' where a: "acquire 10 0 0 ?m = (Inr l, m')" using fresh_rpm_admits by blast
  have "pred_option whole_capacity (lm_rpm ?m)"
    by (simp add: new_limiter_def per_minute_def new_bucket_def whole_capacity_def of_count_exact
        exI [of _ 2])
  moreover have "pred_option whole_capacity (lm_tpm ?m)"
    "pred_option whole_capacity (lm_rpd (roll_day 0 ?m))"
    by (simp_all add: new_limiter_def default_limits_def roll_day_def)
  moreover have "lm_in_flight ?m = 0" by (simp add: new_limiter_def)
  ultimately show ?thesis
    using release_undoes_acquire [OF a buckets_ok_new] by (simp add: a Let_def)
qed

subsection \<open>Where the code and its documentation part\<close>

text \<open>A ceiling of zero calls per minute is no ceiling: the clamp that admits a call larger than its
  bucket admits every call to an empty one.\<close>

lemma zero_rpm_admits:
  "\<exists>l m. acquire tk usd now (new_limiter (default_limits\<lparr>lim_rpm := Some 0\<rparr>) now) = (Inr l, m)"
proof -
  have "refill now (per_minute 0 now) = per_minute 0 now"
    by (simp add: refill_def per_minute_def new_bucket_def elapsed_secs_def num_milliseconds_def
        fdiv_def)
  moreover have "tb_capacity (per_minute 0 now) = 0" "tb_tokens (per_minute 0 now) = 0"
    by (simp_all add: per_minute_def new_bucket_def of_count_def)
  ultimately show ?thesis
    by (simp add: acquire_def admit_def new_limiter_def default_limits_def roll_day_def Let_def
        concurrency_refusal_def peek_opt_def peek_def budget_refusal_def)
qed

text \<open>Settling a lease of yesterday takes its reservation from today's spend: a call that reserved 5 before
  midnight and cost 1 erases what was spent since midnight.\<close>

lemma reconcile_over_midnight_erases_spend:
  "lm_spent_usd (reconcile \<lparr>reserved_tokens = 0, reserved_usd = 5, lease_issued_at = 0\<rparr> 0 1
      86400000000000 (m\<lparr>lm_day := 1, lm_spent_usd := 3\<rparr>)) = 0"
proof -
  have "f64_round (1 - 5) = - 4" "f64_round (3 - 4) = - 1"
    using f64_round_of_int [of "- 4"] f64_round_of_int [of "- 1"] by simp_all
  then show ?thesis
    by (simp add: reconcile_def roll_day_def date_naive_def set_spent_def fadd_def fsub_def Let_def)
qed

end
