(* ===== verification/Credential_Pool_Facts.thy ===== *)
theory Credential_Pool_Facts imports Credential_Pool Rate_Limits_Facts "HOL-Library.Multiset"
begin

section \<open>What a credential pool guarantees\<close>

text \<open>
  Every strategy tries every credential once; a pool serves whenever its ceiling and one healthy
  credential admit the call; a refusal leaves nothing reserved; and the reservations held at each
  credential and at the ceiling are exactly the open tickets.
\<close>

subsection \<open>The order\<close>

lemma score_slots_length [simp]:
  "length (fst (score_slots now ss)) = length ss" "length (snd (score_slots now ss)) = length ss"
  by (induction ss) (simp_all add: split_def Let_def)

lemma accrue_length [simp]: "length (snd (accrue is ss b h)) = length ss"
  by (induction "is" arbitrary: ss b h) (simp_all add: Let_def)

lemma accrue_head: "fst (accrue is ss b h) = h \<or> fst (accrue is ss b h) \<in> set is"
proof (induction "is" arbitrary: ss b h)
  case (Cons i "is")
  show ?case using Cons.IH by (simp add: Let_def) metis
qed simp

lemma mset_map_fst_sort: "length xs = length ys \<Longrightarrow> mset (map fst (sort_key snd (zip xs ys))) = mset xs"
  by (simp flip: mset_map add: mset_map map_fst_zip)

lemma mset_rotate [simp]: "mset (rotate k xs) = mset xs"
  by (simp add: rotate_drop_take flip: union_code)
    (metis append_take_drop_id mset_append union_commute)

lemma round_robin_rotate: "map (\<lambda>k. (a + k) mod n) [0..<n] = rotate a [0..<n]"
  by (rule nth_equalityI) (simp_all add: nth_rotate)

lemma mset_head_rest:
  assumes "h < n"
  shows "mset (h # sort_key f (filter (\<lambda>i. i \<noteq> h) [0..<n])) = mset [0..<n]"
proof -
  have "filter_mset (\<lambda>i. i = h) (mset [0..<n]) = {#h#}"
    using assms by (simp add: filter_eq_replicate_mset count_mset_set)
  then show ?thesis
    using multiset_partition [of "mset [0..<n]" "\<lambda>i. i = h"] by (simp add: mset_filter)
qed

lemma pick_order_permutes_aux:
  assumes "cp_slots p \<noteq> []"
  shows "mset (fst (pick_order now p)) = mset [0..<length (cp_slots p)]"
proof (cases "cp_strategy p")
  case Weighted
  let ?n = "length (cp_slots p)"
  have "fst (accrue [0..<?n] (cp_slots p) b 0) < ?n" for b
    using accrue_head [of "[0..<?n]" "cp_slots p" b 0] assms by auto
  then show ?thesis
    using mset_head_rest by (simp add: pick_order_def Weighted Let_def split_def)
next
  case RoundRobin
  then show ?thesis by (simp add: pick_order_def Let_def round_robin_rotate)
next
  case LeastLoaded
  then show ?thesis
    using mset_map_fst_sort [of "[0..<length (cp_slots p)]" "fst (score_slots now (cp_slots p))"]
    by (simp add: pick_order_def Let_def split_def)
next
  case Priority
  then show ?thesis by (simp add: pick_order_def Let_def)
next
  case CheapestCapable
  then show ?thesis by (simp add: pick_order_def Let_def)
qed

text \<open>Whatever the strategy, the pool tries every one of its credentials exactly once.\<close>

theorem pick_order_permutes:
  assumes "cp_slots p \<noteq> []"
  shows "mset (fst (pick_order now p)) = mset [0..<length (cp_slots p)]"
  by (rule pick_order_permutes_aux [OF assms])

theorem pick_order_permutes_witness:
  "mset (fst (pick_order 0 (new_pool ''p'' RoundRobin
     [new_slot ''a'' ''x'' default_limits 0, new_slot ''b'' ''y'' default_limits 0])))
    = mset [0..<length [''a'', ''b'']]"
  using pick_order_permutes [of "new_pool ''p'' RoundRobin
     [new_slot ''a'' ''x'' default_limits 0, new_slot ''b'' ''y'' default_limits 0]" 0]
  by (simp add: new_pool_def)

lemma pick_order_set:
  assumes "cp_slots p \<noteq> []"
  shows "set (fst (pick_order now p)) = {0..<length (cp_slots p)}" "distinct (fst (pick_order now p))"
proof -
  have m: "mset (fst (pick_order now p)) = mset [0..<length (cp_slots p)]"
    using pick_order_permutes_aux [OF assms] .
  then show "set (fst (pick_order now p)) = {0..<length (cp_slots p)}"
    by (metis set_mset_mset set_upt)
  show "distinct (fst (pick_order now p))" using m by (metis distinct_upt mset_eq_imp_distinct_iff)
qed

subsection \<open>Admission\<close>

text \<open>Whether a limiter grants a call at an instant.\<close>

definition grants :: "nat \<Rightarrow> f64 \<Rightarrow> datetime \<Rightarrow> limiter \<Rightarrow> bool" where
  "grants tk usd now m \<longleftrightarrow> (\<exists>l m'. acquire tk usd now m = (Inr l, m'))"

definition has_room :: "f64 \<Rightarrow> datetime \<Rightarrow> token_bucket option \<Rightarrow> bool" where
  "has_room n now ob \<longleftrightarrow> pred_option (\<lambda>b. min n (tb_capacity b) \<le> tb_tokens (refill now b)) ob"

lemma has_room_refilled [simp]: "has_room n now (refilled now ob) = has_room n now ob"
  by (cases ob) (simp_all add: has_room_def refilled_def)

lemma refusals_keep [simp]:
  "concurrency_refusal (m\<lparr>lm_rpm := x\<rparr>) = concurrency_refusal m"
  "concurrency_refusal (m\<lparr>lm_tpm := x\<rparr>) = concurrency_refusal m"
  "concurrency_refusal (m\<lparr>lm_rpd := x\<rparr>) = concurrency_refusal m"
  "budget_refusal usd (m\<lparr>lm_rpm := x\<rparr>) = budget_refusal usd m"
  "budget_refusal usd (m\<lparr>lm_tpm := x\<rparr>) = budget_refusal usd m"
  "budget_refusal usd (m\<lparr>lm_rpd := x\<rparr>) = budget_refusal usd m"
  by (simp_all add: concurrency_refusal_def budget_refusal_def split: option.split)

lemma admit_Inr_iff:
  "(\<exists>u m'. admit tk usd now m = (Inr u, m')) \<longleftrightarrow>
     concurrency_refusal m = None \<and> has_room 1 now (lm_rpm m)
     \<and> has_room (of_count tk) now (lm_tpm m) \<and> has_room 1 now (lm_rpd m)
     \<and> budget_refusal usd m = None"
  unfolding has_room_def
  by (cases rule: peek_opt_cases [of 1 now "lm_rpm m"];
      cases rule: peek_opt_cases [of "of_count tk" now "lm_tpm m"];
      cases rule: peek_opt_cases [of 1 now "lm_rpd m"];
      simp add: admit_def Let_def split: option.split)

lemma grants_iff:
  "grants tk usd now m \<longleftrightarrow>
     (let m = roll_day now m in
      concurrency_refusal m = None \<and> has_room 1 now (lm_rpm m)
      \<and> has_room (of_count tk) now (lm_tpm m) \<and> has_room 1 now (lm_rpd m)
      \<and> budget_refusal usd m = None)"
  unfolding Let_def admit_Inr_iff [symmetric]
  by (auto simp: grants_def acquire_def split: prod.splits sum.splits)

text \<open>Looking at the load does not change what is granted.\<close>

lemma grants_load_score [simp]: "grants tk usd now (snd (load_score now m)) = grants tk usd now m"
proof -
  obtain t r where t: "t = lm_tpm m \<or> t = refilled now (lm_tpm m)"
    and r: "r = lm_rpm m \<or> r = refilled now (lm_rpm m)"
    and s: "snd (load_score now m) = roll_day now m\<lparr>lm_tpm := t, lm_rpm := r\<rparr>"
    using load_score_limiter by blast
  have roll: "roll_day now (roll_day now m\<lparr>lm_tpm := t, lm_rpm := r\<rparr>)
      = roll_day now m\<lparr>lm_tpm := t, lm_rpm := r\<rparr>"
    by (rule roll_day_same) simp
  show ?thesis using t r by (auto simp: grants_iff s roll Let_def)
qed

subsection \<open>Walking over the credentials\<close>

definition same_slot :: "slot \<Rightarrow> slot \<Rightarrow> bool" where
  "same_slot s s' \<longleftrightarrow>
     sl_id s' = sl_id s \<and> sl_secret_ref s' = sl_secret_ref s \<and> sl_healthy s' = sl_healthy s
     \<and> (buckets_ok (sl_limiter s) \<longrightarrow> buckets_ok (sl_limiter s'))"

text \<open>The slots after an operation that reserved at the slot \<open>oi\<close>, or nowhere.\<close>

definition moved :: "nat option \<Rightarrow> slot list \<Rightarrow> slot list \<Rightarrow> bool" where
  "moved oi ss ss' \<longleftrightarrow>
     length ss' = length ss \<and> (\<forall>j < length ss. same_slot (ss ! j) (ss' ! j)
       \<and> lm_in_flight (sl_limiter (ss' ! j))
         = lm_in_flight (sl_limiter (ss ! j)) + (if oi = Some j then 1 else 0))"

lemma same_slot_refl [simp]: "same_slot s s"
  by (simp add: same_slot_def)

lemma moved_refl [simp]: "moved None ss ss"
  by (simp add: moved_def)

lemma moved_trans: "moved None ss ss1 \<Longrightarrow> moved oi ss1 ss2 \<Longrightarrow> moved oi ss ss2"
  by (simp add: moved_def same_slot_def)

lemma acquire_moved:
  assumes "acquire tk usd now (sl_limiter (ss ! i)) = (r, m)" "i < length ss"
  shows "moved (case r of Inl _ \<Rightarrow> None | Inr _ \<Rightarrow> Some i) ss (ss[i := (ss ! i)\<lparr>sl_limiter := m\<rparr>])"
  using assms acquire_refused [of tk usd now "sl_limiter (ss ! i)" _ m]
    acquire_granted [of tk usd now "sl_limiter (ss ! i)" _ m]
  by (cases r) (auto simp: moved_def same_slot_def nth_list_update)

abbreviation serves :: "nat \<Rightarrow> f64 \<Rightarrow> datetime \<Rightarrow> slot \<Rightarrow> bool" where
  "serves tk usd now s \<equiv> sl_healthy s \<and> grants tk usd now (sl_limiter s)"

lemma try_slots_outcome:
  assumes "distinct order" "set order \<subseteq> {..<length ss}"
    and "try_slots order tk usd now ss b h = (r, ss')"
  shows "case r of
      Inr (i, l) \<Rightarrow> i \<in> set order \<and> serves tk usd now (ss ! i) \<and> moved (Some i) ss ss'
    | Inl (b', h') \<Rightarrow> (\<forall>i \<in> set order. \<not> serves tk usd now (ss ! i)) \<and> moved None ss ss'
        \<and> (h' \<longleftrightarrow> h \<or> (\<exists>i \<in> set order. sl_healthy (ss ! i)))"
  using assms
proof (induction order arbitrary: ss b h)
  case (Cons i "is")
  let ?s = "ss ! i"
  show ?case
  proof (cases "sl_healthy ?s")
    case False
    then have "try_slots is tk usd now ss b h = (r, ss')" using Cons.prems by simp
    with Cons.IH [of ss b h] Cons.prems False show ?thesis by (auto split: sum.splits)
  next
    case True
    obtain q m where q: "acquire tk usd now (sl_limiter ?s) = (q, m)" by fastforce
    have i: "i < length ss" using Cons.prems by simp
    let ?ss = "ss[i := ?s\<lparr>sl_limiter := m\<rparr>]"
    note mv = acquire_moved [OF q i]
    show ?thesis
    proof (cases q)
      case (Inr l)
      then have "grants tk usd now (sl_limiter ?s)" using q by (auto simp: grants_def)
      moreover have "r = Inr (i, l)" "ss' = ?ss" using Cons.prems True q Inr by (auto simp: Let_def)
      ultimately show ?thesis using mv True Inr by simp
    next
      case (Inl e)
      then have no: "\<not> grants tk usd now (sl_limiter ?s)" using q by (auto simp: grants_def)
      obtain b' where "try_slots is tk usd now ?ss b' True = (r, ss')"
        using Cons.prems True q Inl by (auto simp: Let_def)
      then have ih: "case r of
          Inr (j, l) \<Rightarrow> j \<in> set is \<and> serves tk usd now (?ss ! j) \<and> moved (Some j) ?ss ss'
        | Inl (b', h') \<Rightarrow> (\<forall>j \<in> set is. \<not> serves tk usd now (?ss ! j)) \<and> moved None ?ss ss'
            \<and> (h' \<longleftrightarrow> True \<or> (\<exists>j \<in> set is. sl_healthy (?ss ! j)))"
        using Cons.IH [of ?ss b' True] Cons.prems by simp
      have same: "?ss ! j = ss ! j" if "j \<in> set is" for j
        by (rule nth_list_update_neq) (use that Cons.prems(1) in auto)
      have "moved None ss ?ss" using mv Inl by simp
      then have trans: "moved oi ?ss ss' \<Longrightarrow> moved oi ss ss'" for oi by (rule moved_trans)
      show ?thesis
      proof (cases r)
        case (Inl bh)
        with ih trans no True same show ?thesis by (cases bh) auto
      next
        case (Inr il)
        with ih trans same show ?thesis by (cases il) auto
      qed
    qed
  qed
qed auto

lemma score_slots_nth:
  "i < length ss \<Longrightarrow>
    snd (score_slots now ss) ! i = (ss ! i)\<lparr>sl_limiter := snd (load_score now (sl_limiter (ss ! i)))\<rparr>"
  by (induction ss arbitrary: i) (auto simp: Let_def split_def nth_Cons')

text \<open>Two lists of slots that differ in the accumulators and in refilled buckets only.\<close>

definition alike :: "datetime \<Rightarrow> slot list \<Rightarrow> slot list \<Rightarrow> bool" where
  "alike now ss ss' \<longleftrightarrow>
     moved None ss ss'
     \<and> (\<forall>j < length ss. \<forall>tk usd. grants tk usd now (sl_limiter (ss' ! j)) = grants tk usd now (sl_limiter (ss ! j)))"

lemma alike_weight:
  "alike now ss (ss[i := (ss ! i)\<lparr>sl_current_weight := w\<rparr>])"
  by (cases "i < length ss") (auto simp: alike_def moved_def same_slot_def nth_list_update)

lemma moved_length: "moved oi ss ss' \<Longrightarrow> length ss' = length ss"
  by (simp add: moved_def)

lemma alike_trans: "alike now ss ss1 \<Longrightarrow> alike now ss1 ss2 \<Longrightarrow> alike now ss ss2"
  using moved_length [of None ss ss1] by (auto simp: alike_def intro: moved_trans)

lemma alike_accrue: "alike now ss (snd (accrue is ss b h))"
proof (induction "is" arbitrary: ss b h)
  case Nil
  show ?case by (simp add: alike_def)
next
  case (Cons i "is")
  show ?case
    using alike_trans [OF alike_weight Cons.IH] by (simp add: Let_def)
qed

lemma alike_pick_order: "alike now (cp_slots p) (cp_slots (snd (pick_order now p)))"
proof (cases "cp_strategy p")
  case Weighted
  then show ?thesis
    using alike_trans [OF alike_accrue alike_weight] by (simp add: pick_order_def Let_def split_def)
next
  case LeastLoaded
  then show ?thesis
    by (simp add: pick_order_def Let_def split_def alike_def moved_def same_slot_def score_slots_nth)
qed (simp_all add: pick_order_def Let_def alike_def)

lemma pick_order_keeps [simp]:
  "cp_limiter (snd (pick_order now p)) = cp_limiter p"
  "cp_provider (snd (pick_order now p)) = cp_provider p"
  by (cases "cp_strategy p"; simp add: pick_order_def Let_def split_def)+

subsection \<open>The pool\<close>

definition ceiling_ok :: "limiter option \<Rightarrow> bool" where
  "ceiling_ok om \<longleftrightarrow> pred_option buckets_ok om"

definition ceiling_held :: "limiter option \<Rightarrow> nat" where
  "ceiling_held om = (case om of None \<Rightarrow> 0 | Some m \<Rightarrow> lm_in_flight m)"

definition ceiling_grants :: "nat \<Rightarrow> f64 \<Rightarrow> datetime \<Rightarrow> limiter option \<Rightarrow> bool" where
  "ceiling_grants tk usd now om \<longleftrightarrow> pred_option (grants tk usd now) om"

lemma acquire_ceiling_cases:
  obtains (granted) ol om' where "acquire_ceiling tk usd now om = (Inr ol, om')"
      "ceiling_grants tk usd now om" "ceiling_ok om \<Longrightarrow> ceiling_ok om'"
      "ceiling_held om' = ceiling_held om + (if ol = None then 0 else 1)"
      "ol = None \<longleftrightarrow> om' = None" "om = None \<longleftrightarrow> om' = None"
  | (refused) e om' where "acquire_ceiling tk usd now om = (Inl e, om')"
      "\<not> ceiling_grants tk usd now om" "ceiling_ok om \<Longrightarrow> ceiling_ok om'"
      "ceiling_held om' = ceiling_held om"
proof (cases om)
  case None
  then show ?thesis by (intro granted [of None None])
      (simp_all add: acquire_ceiling_def ceiling_grants_def ceiling_held_def)
next
  case (Some m)
  obtain r m' where a: "acquire tk usd now m = (r, m')" by fastforce
  show ?thesis
  proof (cases r)
    case (Inl e)
    with a acquire_refused [of tk usd now m e m'] Some show ?thesis
      by (intro refused [of e "Some m'"])
        (auto simp: acquire_ceiling_def ceiling_grants_def grants_def ceiling_ok_def ceiling_held_def)
  next
    case (Inr l)
    with a acquire_granted [of tk usd now m l m'] Some show ?thesis
      by (intro granted [of "Some l" "Some m'"])
        (auto simp: acquire_ceiling_def ceiling_grants_def grants_def ceiling_ok_def ceiling_held_def)
  qed
qed

lemma settle_ceiling_lease:
  "ceiling_held (settle_ceiling (settle_lease u) ol om)
    = ceiling_held om - (if ol = None then 0 else 1)"
  "ceiling_ok om \<Longrightarrow> ceiling_ok (settle_ceiling (settle_lease u) ol om)"
  by (cases om; cases ol; simp add: settle_ceiling_def ceiling_held_def ceiling_ok_def
      settle_lease_keeps settle_lease_ok)+

lemma rollback_settles:
  "rollback ol now p = p\<lparr>cp_limiter := settle_ceiling (settle_lease (Released now)) ol (cp_limiter p)\<rparr>"
proof -
  have "(\<lambda>l. release l now) = settle_lease (Released now)" by (rule ext)+ simp
  then show ?thesis by (simp add: rollback_def)
qed

definition slots_ok :: "slot list \<Rightarrow> bool" where
  "slots_ok ss \<longleftrightarrow> distinct (map sl_id ss) \<and> (\<forall>s \<in> set ss. buckets_ok (sl_limiter s))"

definition held_by :: "slot list \<Rightarrow> string \<Rightarrow> nat" where
  "held_by ss c = sum_list (map (\<lambda>s. if sl_id s = c then lm_in_flight (sl_limiter s) else 0) ss)"

definition pool_ok :: "credential_pool \<Rightarrow> bool" where
  "pool_ok p \<longleftrightarrow> slots_ok (cp_slots p) \<and> ceiling_ok (cp_limiter p)"

lemma held_by_nth:
  "distinct (map sl_id ss) \<Longrightarrow> i < length ss \<Longrightarrow>
    held_by ss (sl_id (ss ! i)) = lm_in_flight (sl_limiter (ss ! i))"
proof (induction ss arbitrary: i)
  case (Cons s ss)
  have none: "held_by ss (sl_id s) = 0"
    using Cons.prems(1) by (auto simp: held_by_def sum_list_eq_0_iff image_iff)
  show ?case
  proof (cases i)
    case 0
    then show ?thesis using none by (simp add: held_by_def)
  next
    case (Suc k)
    then have "sl_id s \<noteq> sl_id (ss ! k)" using Cons.prems by (auto simp: image_iff)
    then show ?thesis using Cons Suc by (simp add: held_by_def)
  qed
qed simp

lemma held_by_absent: "c \<notin> sl_id ` set ss \<Longrightarrow> held_by ss c = 0"
  by (auto simp: held_by_def sum_list_eq_0_iff image_iff)

lemma moved_slots:
  assumes "moved oi ss ss'" "slots_ok ss"
  shows "slots_ok ss'"
    and "held_by ss' c = held_by ss c
      + (case oi of Some i \<Rightarrow> if i < length ss \<and> sl_id (ss ! i) = c then 1 else 0 | None \<Rightarrow> 0)"
proof -
  have len: "length ss' = length ss" using assms(1) by (rule moved_length)
  have ids: "map sl_id ss' = map sl_id ss"
    using assms(1) by (intro nth_equalityI) (simp_all add: moved_def same_slot_def)
  have "\<forall>i < length ss. buckets_ok (sl_limiter (ss ! i))" using assms(2) by (simp add: slots_ok_def)
  then have "\<forall>i < length ss. buckets_ok (sl_limiter (ss' ! i))"
    using assms(1) by (simp add: moved_def same_slot_def)
  then show ok: "slots_ok ss'"
    using assms(2) ids len by (simp add: slots_ok_def all_set_conv_all_nth)
  show "held_by ss' c = held_by ss c
      + (case oi of Some i \<Rightarrow> if i < length ss \<and> sl_id (ss ! i) = c then 1 else 0 | None \<Rightarrow> 0)"
  proof (cases "c \<in> sl_id ` set ss")
    case True
    then obtain j where j: "j < length ss" "sl_id (ss ! j) = c" by (auto simp: in_set_conv_nth)
    have j': "sl_id (ss' ! j) = c" using j ids len by (metis nth_map)
    have uniq: "i < length ss \<Longrightarrow> sl_id (ss ! i) = c \<longleftrightarrow> i = j" for i
      using assms(2) j by (auto simp: slots_ok_def distinct_conv_nth)
    have "held_by ss' c = lm_in_flight (sl_limiter (ss' ! j))"
      "held_by ss c = lm_in_flight (sl_limiter (ss ! j))"
      using held_by_nth [of ss' j] held_by_nth [of ss j] ok assms(2) j j' len
      by (simp_all add: slots_ok_def)
    then show ?thesis using assms(1) j uniq
      by (auto simp: moved_def split: option.split)
  next
    case False
    moreover have "c \<notin> sl_id ` set ss'" using False ids by (metis image_set)
    ultimately show ?thesis by (auto simp: held_by_absent split: option.split)
  qed
qed

text \<open>The outcome of an acquisition, over the state before it.\<close>

lemma acquire_pool_outcome:
  assumes "acquire_pool tk usd now p = (r, p')"
  shows "case r of
      Inr t \<Rightarrow> (\<exists>i < length (cp_slots p). serves tk usd now (cp_slots p ! i)
          \<and> tk_credential t = sl_id (cp_slots p ! i) \<and> tk_secret_ref t = sl_secret_ref (cp_slots p ! i)
          \<and> moved (Some i) (cp_slots p) (cp_slots p'))
        \<and> ceiling_grants tk usd now (cp_limiter p)
        \<and> ceiling_held (cp_limiter p')
            = ceiling_held (cp_limiter p) + (if tk_pool_lease t = None then 0 else 1)
        \<and> (ceiling_ok (cp_limiter p) \<longrightarrow> ceiling_ok (cp_limiter p'))
    | Inl e \<Rightarrow> moved None (cp_slots p) (cp_slots p')
        \<and> (\<not> ceiling_grants tk usd now (cp_limiter p)
           \<or> (\<forall>s \<in> set (cp_slots p). \<not> serves tk usd now s))
        \<and> ceiling_held (cp_limiter p') = ceiling_held (cp_limiter p)
        \<and> (ceiling_ok (cp_limiter p) \<longrightarrow> ceiling_ok (cp_limiter p'))"
proof (cases "cp_slots p = []")
  case True
  then show ?thesis using assms by (auto simp: acquire_pool_def)
next
  case False
  show ?thesis
  proof (cases rule: acquire_ceiling_cases [of tk usd now "cp_limiter p"])
    case (refused e om')
    then show ?thesis using assms False by (auto simp: acquire_pool_def)
  next
    case (granted ol om')
    define q where "q = p\<lparr>cp_limiter := om'\<rparr>"
    obtain order q1 where o: "pick_order now q = (order, q1)" by fastforce
    obtain r1 ss where t: "try_slots order tk usd now (cp_slots q1) None False = (r1, ss)" by fastforce
    have qs: "cp_slots q = cp_slots p" by (simp add: q_def)
    have ord: "set order = {0..<length (cp_slots p)}" "distinct order"
      using pick_order_set [of q now] False o by (simp_all add: qs)
    have al: "alike now (cp_slots p) (cp_slots q1)"
      using alike_pick_order [of now q] o by (simp add: qs)
    then have mv: "moved None (cp_slots p) (cp_slots q1)" by (simp add: alike_def)
    have len: "length (cp_slots q1) = length (cp_slots p)" by (rule moved_length [OF mv])
    have q1: "cp_limiter q1 = om'" "cp_provider q1 = cp_provider p"
      proof -
      have e: "q1 = snd (pick_order now q)" using o by simp
      show "cp_limiter q1 = om'" "cp_provider q1 = cp_provider p"
        unfolding e by (simp_all add: q_def)
    qed
    have sv: "serves tk usd now (cp_slots q1 ! i) = serves tk usd now (cp_slots p ! i)"
      and idn: "sl_id (cp_slots q1 ! i) = sl_id (cp_slots p ! i)"
        "sl_secret_ref (cp_slots q1 ! i) = sl_secret_ref (cp_slots p ! i)"
      if "i < length (cp_slots p)" for i
      using al that by (simp_all add: alike_def moved_def same_slot_def)
    note out = try_slots_outcome [OF ord(2) _ t]
    have sub: "set order \<subseteq> {..<length (cp_slots q1)}" using ord len by auto
    show ?thesis
    proof (cases r1)
      case (Inr il)
      obtain i l where il: "il = (i, l)" by (cases il)
      from out [OF sub] have i: "i < length (cp_slots p)" "serves tk usd now (cp_slots p ! i)"
        "moved (Some i) (cp_slots q1) ss"
        using ord sv by (auto simp: Inr il)
      have ss: "sl_id (ss ! i) = sl_id (cp_slots p ! i)"
        "sl_secret_ref (ss ! i) = sl_secret_ref (cp_slots p ! i)"
        using i idn len by (auto simp: moved_def same_slot_def)
      show ?thesis
        using assms False granted o t Inr il i ss moved_trans [OF mv i(3)] q1
        by (auto simp: acquire_pool_def q_def Let_def)
    next
      case (Inl bh)
      obtain b h where bh: "bh = (b, h)" by (cases bh)
      from out [OF sub] have no: "\<forall>i < length (cp_slots p). \<not> serves tk usd now (cp_slots p ! i)"
        and m2: "moved None (cp_slots q1) ss"
        using ord sv by (auto simp: Inl bh)
      have "\<forall>s \<in> set (cp_slots p). \<not> serves tk usd now s" using no by (auto simp: in_set_conv_nth)
      then show ?thesis
        using assms False granted o t Inl bh moved_trans [OF mv m2] q1
        by (auto simp: acquire_pool_def q_def Let_def rollback_settles settle_ceiling_lease)
    qed
  qed
qed

lemma pool_serves_iff_aux:
  "(\<exists>t p'. acquire_pool tk usd now p = (Inr t, p')) \<longleftrightarrow>
     ceiling_grants tk usd now (cp_limiter p)
     \<and> (\<exists>s. s \<in> set (cp_slots p) \<and> sl_healthy s \<and> grants tk usd now (sl_limiter s))"
proof -
  obtain r p' where a: "acquire_pool tk usd now p = (r, p')" by fastforce
  show ?thesis
  proof (cases r)
    case (Inl e)
    with acquire_pool_outcome [OF a] a show ?thesis by auto
  next
    case (Inr t)
    with acquire_pool_outcome [OF a] a show ?thesis by (auto intro: nth_mem)
  qed
qed

text \<open>Failover works: a pool serves a call exactly if its ceiling admits it and at least one healthy
  credential's limiter does, whatever the strategy and whatever the other credentials are at.\<close>

theorem pool_serves_iff:
  "(\<exists>t p'. acquire_pool tk usd now p = (Inr t, p')) \<longleftrightarrow>
     ceiling_grants tk usd now (cp_limiter p)
     \<and> (\<exists>s. s \<in> set (cp_slots p) \<and> sl_healthy s \<and> grants tk usd now (sl_limiter s))"
  by (rule pool_serves_iff_aux)

text \<open>The key and the reservation come from one decision: the ticket names a credential that was healthy
  and had headroom, with that credential's own secret reference.\<close>

theorem ticket_names_a_serving_credential:
  assumes "acquire_pool tk usd now p = (Inr t, p')"
  shows "\<exists>s. s \<in> set (cp_slots p) \<and> sl_healthy s \<and> grants tk usd now (sl_limiter s)
    \<and> tk_credential t = sl_id s \<and> tk_secret_ref t = sl_secret_ref s"
  using acquire_pool_outcome [OF assms] nth_mem by fastforce

definition one_key_pool :: credential_pool where
  "one_key_pool = new_pool ''p'' Priority [new_slot ''a'' ''vault:x'' default_limits 0]"

lemma default_limits_grant: "grants tk usd now (new_limiter default_limits start)"
  by (simp add: grants_iff new_limiter_def default_limits_def roll_day_def Let_def
      concurrency_refusal_def budget_refusal_def has_room_def)

lemma one_key_pool_serves: "\<exists>t p'. acquire_pool tk usd now one_key_pool = (Inr t, p')"
  unfolding pool_serves_iff_aux
  by (auto simp: one_key_pool_def new_pool_def ceiling_grants_def new_slot_def default_limits_grant)

theorem ticket_names_a_serving_credential_witness:
  "\<exists>t p'. acquire_pool 10 0 0 one_key_pool = (Inr t, p') \<and> tk_credential t = ''a''
    \<and> tk_secret_ref t = ''vault:x''"
proof -
  obtain t p' where a: "acquire_pool 10 0 0 one_key_pool = (Inr t, p')"
    using one_key_pool_serves by blast
  from ticket_names_a_serving_credential [OF a] a show ?thesis
    by (auto simp: one_key_pool_def new_pool_def new_slot_def)
qed

subsection \<open>Nothing leaks\<close>

fun settle_ticket :: "settlement \<Rightarrow> ticket \<Rightarrow> credential_pool \<Rightarrow> credential_pool" where
  "settle_ticket (Reconciled tokens usd now) t p = reconcile_pool t tokens usd now p"
| "settle_ticket (Released now) t p = release_pool t now p"

definition acquire_pool_call :: "nat \<times> f64 \<times> datetime \<Rightarrow> credential_pool \<Rightarrow> (pool_error + ticket) \<times> credential_pool" where
  "acquire_pool_call q p = (case q of (tokens, usd, now) \<Rightarrow> acquire_pool tokens usd now p)"

lemma settle_ticket_eq:
  "settle_ticket u t p =
     p\<lparr>cp_slots := update_slot (tk_credential t)
         (\<lambda>s. s\<lparr>sl_limiter := settle_lease u (tk_lease t) (sl_limiter s)\<rparr>) (cp_slots p),
       cp_limiter := settle_ceiling (settle_lease u) (tk_pool_lease t) (cp_limiter p)\<rparr>"
proof (cases u)
  case (Reconciled tokens usd now)
  have "(\<lambda>l. reconcile l tokens usd now) = settle_lease u" by (rule ext)+ (simp add: Reconciled)
  then show ?thesis by (simp add: Reconciled reconcile_pool_def)
next
  case (Released now)
  then show ?thesis by (simp add: release_pool_def rollback_settles)
qed

lemma update_slot_ids [simp]:
  "(\<And>s. sl_id (f s) = sl_id s) \<Longrightarrow> map sl_id (update_slot c f ss) = map sl_id ss"
  by (induction ss) simp_all

lemma update_slot_set: "set (update_slot c f ss) \<subseteq> set ss \<union> f ` set ss"
  by (induction ss) auto

lemma update_slot_held:
  assumes "\<And>s. sl_id (f s) = sl_id s" "\<And>s. lm_in_flight (sl_limiter (f s)) = lm_in_flight (sl_limiter s) - 1"
    and "distinct (map sl_id ss)"
  shows "held_by (update_slot c f ss) d = held_by ss d - (if c = d then 1 else 0)"
  using assms(3)
proof (induction ss)
  case (Cons s ss)
  have cons: "held_by (s # xs) d = (if sl_id s = d then lm_in_flight (sl_limiter s) else 0) + held_by xs d"
    for s xs by (simp add: held_by_def)
  show ?case
  proof (cases "sl_id s = c")
    case True
    then have "held_by ss c = 0" using Cons.prems by (intro held_by_absent) auto
    then show ?thesis using True by (cases "c = d") (simp_all add: cons assms(1,2))
  next
    case False
    then show ?thesis using Cons held_by_absent [of d ss] by (cases "c = d") (auto simp: cons)
  qed
qed (simp add: held_by_def)

lemma settle_ticket_slots:
  assumes "slots_ok (cp_slots p)"
  shows "slots_ok (cp_slots (settle_ticket u t p))"
    and "held_by (cp_slots (settle_ticket u t p)) c
      = held_by (cp_slots p) c - (if Some (tk_credential t) = Some c then 1 else 0)"
proof -
  let ?f = "\<lambda>s. s\<lparr>sl_limiter := settle_lease u (tk_lease t) (sl_limiter s)\<rparr>"
  have "map sl_id (update_slot (tk_credential t) ?f (cp_slots p)) = map sl_id (cp_slots p)" by simp
  then show "slots_ok (cp_slots (settle_ticket u t p))"
    using assms update_slot_set [of "tk_credential t" ?f "cp_slots p"]
    by (auto simp: slots_ok_def settle_ticket_eq settle_lease_ok)
  show "held_by (cp_slots (settle_ticket u t p)) c
      = held_by (cp_slots p) c - (if Some (tk_credential t) = Some c then 1 else 0)"
    using assms by (simp add: settle_ticket_eq update_slot_held settle_lease_keeps slots_ok_def)
qed

lemma acquire_pool_contract:
  assumes "pool_ok p" "acquire_pool_call q p = (r, p')"
  shows "pool_ok p'"
    and "held_by (cp_slots p') c = held_by (cp_slots p) c
      + (case r of Inr t \<Rightarrow> if tk_credential t = c then 1 else 0 | Inl _ \<Rightarrow> 0)"
    and "ceiling_held (cp_limiter p') = ceiling_held (cp_limiter p)
      + (case r of Inr t \<Rightarrow> if tk_pool_lease t = None then 0 else 1 | Inl _ \<Rightarrow> 0)"
proof -
  obtain tk usd now where q: "q = (tk, usd, now)" by (cases q)
  have a: "acquire_pool tk usd now p = (r, p')" using assms(2) by (simp add: acquire_pool_call_def q)
  have ok: "slots_ok (cp_slots p)" "ceiling_ok (cp_limiter p)" using assms(1) by (simp_all add: pool_ok_def)
  note out = acquire_pool_outcome [OF a]
  obtain oi where mv: "moved oi (cp_slots p) (cp_slots p')"
    and oi: "(case oi of Some i \<Rightarrow> if i < length (cp_slots p) \<and> sl_id (cp_slots p ! i) = c then 1 else 0 | None \<Rightarrow> 0)
      = (case r of Inr t \<Rightarrow> if tk_credential t = c then 1 else 0 | Inl _ \<Rightarrow> (0::nat))"
  proof (cases r)
    case (Inl e)
    with out show ?thesis by (intro that [of None]) simp_all
  next
    case (Inr t)
    with out obtain i where "i < length (cp_slots p)" "tk_credential t = sl_id (cp_slots p ! i)"
      "moved (Some i) (cp_slots p) (cp_slots p')" by auto
    with Inr show ?thesis by (intro that [of "Some i"]) simp_all
  qed
  show "pool_ok p'" using moved_slots(1) [OF mv ok(1)] out ok(2)
    by (auto simp: pool_ok_def split: sum.splits)
  show "held_by (cp_slots p') c = held_by (cp_slots p) c
      + (case r of Inr t \<Rightarrow> if tk_credential t = c then 1 else 0 | Inl _ \<Rightarrow> 0)"
    using moved_slots(2) [OF mv ok(1)] oi by simp
  show "ceiling_held (cp_limiter p') = ceiling_held (cp_limiter p)
      + (case r of Inr t \<Rightarrow> if tk_pool_lease t = None then 0 else 1 | Inl _ \<Rightarrow> 0)"
    using out by (cases r) simp_all
qed

lemma settle_ticket_ok: "pool_ok p \<Longrightarrow> pool_ok (settle_ticket u t p)"
  using settle_ticket_slots(1) [of p u t]
  by (simp add: pool_ok_def) (simp add: settle_ticket_eq settle_ceiling_lease)

lemma settle_ticket_ceiling:
  "ceiling_ok (cp_limiter p) \<Longrightarrow> ceiling_held (cp_limiter (settle_ticket u t p))
     = ceiling_held (cp_limiter p) - (if tk_pool_lease t = None then 0 else 1)"
  by (simp add: settle_ticket_eq settle_ceiling_lease)

text \<open>What else can happen to a pool: a credential is benched or put back, or the status is read.\<close>

datatype pool_change = Bench string string | Unbench string | Read_Status datetime

fun change_pool :: "pool_change \<Rightarrow> credential_pool \<Rightarrow> credential_pool" where
  "change_pool (Bench c why) p = snd (mark_unhealthy c why p)"
| "change_pool (Unbench c) p = snd (mark_healthy c p)"
| "change_pool (Read_Status now) p = snd (pool_status now p)"

lemma update_slot_same:
  assumes "\<And>s. sl_id (f s) = sl_id s" "\<And>s. sl_limiter (f s) = sl_limiter s"
  shows "held_by (update_slot c f ss) d = held_by ss d"
    and "slots_ok (update_slot c f ss) = slots_ok ss"
proof -
  have *: "map (\<lambda>s. (sl_id s, sl_limiter s)) (update_slot c f ss) = map (\<lambda>s. (sl_id s, sl_limiter s)) ss" for ss
    by (induction ss) (simp_all add: assms)
  have held: "held_by ss d = sum_list (map (\<lambda>(i, m). if i = d then lm_in_flight m else 0)
      (map (\<lambda>s. (sl_id s, sl_limiter s)) ss))" for ss
    by (simp add: held_by_def comp_def)
  have ok: "slots_ok ss \<longleftrightarrow> distinct (map fst (map (\<lambda>s. (sl_id s, sl_limiter s)) ss))
      \<and> list_all buckets_ok (map snd (map (\<lambda>s. (sl_id s, sl_limiter s)) ss))" for ss
    by (simp add: slots_ok_def comp_def list_all_iff)
  show "held_by (update_slot c f ss) d = held_by ss d" by (simp only: held *)
  show "slots_ok (update_slot c f ss) = slots_ok ss" by (simp only: ok *)
qed

lemma alike_score_slots: "alike now ss (snd (score_slots now ss))"
  by (simp add: alike_def moved_def same_slot_def score_slots_nth)

lemma change_pool_keeps:
  assumes "pool_ok p"
  shows "pool_ok (change_pool x p)"
    and "held_by (cp_slots (change_pool x p)) c = held_by (cp_slots p) c"
    and "cp_limiter (change_pool x p) = cp_limiter p"
proof -
  have m: "moved None (cp_slots p) (snd (score_slots now (cp_slots p)))" for now
    using alike_score_slots by (simp add: alike_def)
  have ok: "slots_ok (cp_slots p)" using assms by (simp add: pool_ok_def)
  show "cp_limiter (change_pool x p) = cp_limiter p"
    by (cases x) (simp_all add: mark_unhealthy_def mark_healthy_def pool_status_def split_def Let_def)
  then show "pool_ok (change_pool x p)"
    using assms moved_slots(1) [OF m ok]
    by (cases x) (simp_all add: pool_ok_def mark_unhealthy_def mark_healthy_def pool_status_def
        split_def Let_def update_slot_same)
  show "held_by (cp_slots (change_pool x p)) c = held_by (cp_slots p) c"
    using moved_slots(2) [OF m ok]
    by (cases x) (simp_all add: mark_unhealthy_def mark_healthy_def pool_status_def
        split_def Let_def update_slot_same)
qed

text \<open>The pool keeps the contract at every credential, and at its ceiling.\<close>

interpretation credentials: reservations acquire_pool_call settle_ticket change_pool "\<lambda>t. Some (tk_credential t)"
  "\<lambda>p. held_by (cp_slots p)" pool_ok
proof
  fix p q e p' c
  assume "pool_ok p" "acquire_pool_call q p = (Inl e, p')"
  from acquire_pool_contract(1,2) [OF this]
  show "pool_ok p' \<and> held_by (cp_slots p') c = held_by (cp_slots p) c" by simp
next
  fix p q t p' c
  assume "pool_ok p" "acquire_pool_call q p = (Inr t, p')"
  from acquire_pool_contract(1,2) [OF this]
  show "pool_ok p' \<and> held_by (cp_slots p') c
      = held_by (cp_slots p) c + (if Some (tk_credential t) = Some c then 1 else 0)" by simp
next
  fix p u t c
  assume "pool_ok p"
  then show "pool_ok (settle_ticket u t p) \<and> held_by (cp_slots (settle_ticket u t p)) c
      = held_by (cp_slots p) c - (if Some (tk_credential t) = Some c then 1 else 0)"
    using settle_ticket_slots(2) settle_ticket_ok by (simp add: pool_ok_def)
qed (simp add: change_pool_keeps)

interpretation pool_ceiling: reservations acquire_pool_call settle_ticket change_pool
  "\<lambda>t. map_option (\<lambda>_. ()) (tk_pool_lease t)" "\<lambda>p _. ceiling_held (cp_limiter p)" pool_ok
proof
  fix p q e p' and c :: unit
  assume "pool_ok p" "acquire_pool_call q p = (Inl e, p')"
  from acquire_pool_contract(1,3) [OF this]
  show "pool_ok p' \<and> ceiling_held (cp_limiter p') = ceiling_held (cp_limiter p)" by simp
next
  fix p q t p' and c :: unit
  assume "pool_ok p" "acquire_pool_call q p = (Inr t, p')"
  from acquire_pool_contract(1,3) [OF this]
  show "pool_ok p' \<and> ceiling_held (cp_limiter p') = ceiling_held (cp_limiter p)
      + (if map_option (\<lambda>_. ()) (tk_pool_lease t) = Some c then 1 else 0)"
    by (cases "tk_pool_lease t") simp_all
next
  fix p u t and c :: unit
  assume "pool_ok p"
  then show "pool_ok (settle_ticket u t p) \<and> ceiling_held (cp_limiter (settle_ticket u t p))
      = ceiling_held (cp_limiter p) - (if map_option (\<lambda>_. ()) (tk_pool_lease t) = Some c then 1 else 0)"
    using settle_ticket_ceiling [of p] settle_ticket_ok [of p u t]
    by (cases "tk_pool_lease t") (simp_all add: pool_ok_def)
qed (simp add: change_pool_keeps)

text \<open>A pool as the configuration builds it.\<close>

definition fresh_slots :: "slot list \<Rightarrow> bool" where
  "fresh_slots ss \<longleftrightarrow>
     distinct (map sl_id ss) \<and> (\<forall>s \<in> set ss. \<exists>l now. sl_limiter s = new_limiter l now)"

lemma fresh_slots_ok:
  assumes "fresh_slots ss"
  shows "slots_ok ss" "held_by ss c = 0"
proof -
  have "lm_in_flight (sl_limiter s) = 0 \<and> buckets_ok (sl_limiter s)" if "s \<in> set ss" for s
    using that assms buckets_ok_new by (auto simp: fresh_slots_def new_limiter_def)
  then show "slots_ok ss" "held_by ss c = 0"
    using assms by (auto simp: slots_ok_def fresh_slots_def held_by_def sum_list_eq_0_iff)
qed

lemma ceiling_limiter_fresh: "ceiling_ok (ceiling_limiter l now)" "ceiling_held (ceiling_limiter l now) = 0"
  using buckets_ok_new [of l now]
  by (auto simp: ceiling_limiter_def ceiling_ok_def ceiling_held_def new_limiter_def)

text \<open>Nothing leaks from a credential pool: after any sequence of acquisitions (granted, or refused at
  the ceiling, at a credential or everywhere), settlements, releases, benchings and status reads, the
  calls in flight counted at each credential are exactly the open tickets that name it, and those counted at the
  pool's own ceiling exactly the open tickets that hold a reservation there.\<close>

theorem pool_counts_open_tickets:
  assumes "fresh_slots slots"
    and "reaches (client_step acquire_pool_call settle_ticket change_pool)
      (with_pool_limits (new_pool provider strategy slots) l now, []) (p, tickets)"
  shows "held_by (cp_slots p) c = length (filter (\<lambda>t. tk_credential t = c) tickets)
    \<and> ceiling_held (cp_limiter p) = length (filter (\<lambda>t. tk_pool_lease t \<noteq> None) tickets)"
proof
  let ?p = "with_pool_limits (new_pool provider strategy slots) l now"
  have ok: "pool_ok ?p" and zero: "\<And>c. held_by (cp_slots ?p) c = 0" "ceiling_held (cp_limiter ?p) = 0"
    using fresh_slots_ok [OF assms(1)] ceiling_limiter_fresh [of l now]
    by (simp_all add: pool_ok_def with_pool_limits_def new_pool_def)
  show "held_by (cp_slots p) c = length (filter (\<lambda>t. tk_credential t = c) tickets)"
    using credentials.balance [where base = "\<lambda>_. 0" and p = c, OF ok _ assms(2)] zero(1)
    by (simp add: open_at_def)
  have "map_option (\<lambda>_. ()) (tk_pool_lease t) = Some () \<longleftrightarrow> tk_pool_lease t \<noteq> None" for t :: ticket
    by (cases "tk_pool_lease t") simp_all
  then show "ceiling_held (cp_limiter p) = length (filter (\<lambda>t. tk_pool_lease t \<noteq> None) tickets)"
    using pool_ceiling.balance [where base = "\<lambda>_. 0" and p = "()", OF ok _ assms(2)] zero(2)
    by (simp add: open_at_def)
qed

theorem pool_counts_open_tickets_witness:
  "\<exists>(p :: credential_pool) (t :: ticket). held_by (cp_slots p) ''a'' = length [t] \<and> tk_credential t = ''a''"
proof -
  let ?p = "with_pool_limits (new_pool ''p'' Priority [new_slot ''a'' ''vault:x'' default_limits 0])
    default_limits 0"
  have "?p = one_key_pool"
    by (simp add: one_key_pool_def with_pool_limits_def ceiling_limiter_def is_unbounded_def
        default_limits_def new_pool_def)
  then obtain t p' where a: "acquire_pool 10 0 0 ?p = (Inr t, p')"
    using one_key_pool_serves by metis
  have "reaches (client_step acquire_pool_call settle_ticket change_pool) (?p, [])
      (client_step acquire_pool_call settle_ticket change_pool (Acquire (10, 0, 0)) (?p, []))"
    by (rule reaches_call [OF reaches_start])
  then have "reaches (client_step acquire_pool_call settle_ticket change_pool) (?p, []) (p', [t])"
    by (simp add: acquire_pool_call_def a)
  moreover have "fresh_slots [new_slot ''a'' ''vault:x'' default_limits 0]"
    by (auto simp: fresh_slots_def new_slot_def)
  ultimately have "held_by (cp_slots p') ''a'' = length (filter (\<lambda>t. tk_credential t = ''a'') [t])"
    using pool_counts_open_tickets by blast
  moreover have "tk_credential t = ''a''"
    using acquire_pool_outcome [OF a] by (auto simp: new_pool_def with_pool_limits_def new_slot_def)
  ultimately have "held_by (cp_slots p') ''a'' = length [t] \<and> tk_credential t = ''a''" by simp
  then show ?thesis by blast
qed

subsection \<open>The weighted strategy is fair\<close>

abbreviation acc :: "slot list \<Rightarrow> nat \<Rightarrow> int" where
  "acc ss i \<equiv> sl_current_weight (ss ! i)"

abbreviation wt :: "slot list \<Rightarrow> nat \<Rightarrow> int" where
  "wt ss i \<equiv> int (sl_weight (ss ! i))"

lemma accrue_slots:
  assumes "distinct is" "set is \<subseteq> {..<length ss}" "j < length ss"
  shows "wt (snd (accrue is ss b h)) j = wt ss j"
    and "acc (snd (accrue is ss b h)) j = acc ss j + (if j \<in> set is then wt ss j else 0)"
  using assms
proof (induction "is" arbitrary: ss b h)
  case (Cons i "is")
  {
    case 1
    then show ?case using Cons.IH(1) by (auto simp: Let_def nth_list_update)
  next
    case 2
    then show ?case using Cons.IH(2) by (auto simp: Let_def nth_list_update)
  }
qed simp_all

lemma accrue_best:
  assumes "distinct is" "set is \<subseteq> {..<length ss}" "fst (accrue is ss b h) = x"
  shows "(x = h \<and> (\<forall>j \<in> set is. acc ss j + wt ss j \<le> b))
    \<or> (x \<in> set is \<and> b < acc ss x + wt ss x \<and> (\<forall>j \<in> set is. acc ss j + wt ss j \<le> acc ss x + wt ss x))"
  using assms
proof (induction "is" arbitrary: ss b h)
  case (Cons i "is")
  let ?w = "acc ss i + wt ss i"
  let ?ss = "ss[i := (ss ! i)\<lparr>sl_current_weight := ?w\<rparr>]"
  have same: "acc ?ss j + wt ?ss j = acc ss j + wt ss j" if "j \<in> set is" for j
  proof -
    have "i \<noteq> j" using that Cons.prems(1) by auto
    then show ?thesis by simp
  qed
  have IH: "(x = h \<and> (\<forall>j \<in> set is. acc ss j + wt ss j \<le> b))
      \<or> (x \<in> set is \<and> b < acc ss x + wt ss x \<and> (\<forall>j \<in> set is. acc ss j + wt ss j \<le> acc ss x + wt ss x))"
    if "fst (accrue is ?ss b h) = x" for b h
  proof -
    have "distinct is" "set is \<subseteq> {..<length ?ss}" using Cons.prems by simp_all
    from Cons.IH [OF this that] show ?thesis using same by auto
  qed
  show ?case
  proof (cases "b < ?w")
    case True
    then have "fst (accrue is ?ss ?w i) = x" using Cons.prems(3) by (simp add: Let_def)
    from IH [OF this] True show ?thesis by auto
  next
    case False
    then have "fst (accrue is ?ss b h) = x" using Cons.prems(3) by (simp add: Let_def)
    from IH [OF this] False show ?thesis by auto
  qed
qed simp

text \<open>One pick: everyone accrues, and the largest accumulator pays the total.\<close>

definition total_weight :: "slot list \<Rightarrow> int" where
  "total_weight ss = (\<Sum>i < length ss. wt ss i)"

lemma weighted_pick:
  assumes "cp_strategy p = Weighted" "cp_slots p \<noteq> []"
    and low: "\<And>i. i < length (cp_slots p) \<Longrightarrow> - (2 ^ 63) < acc (cp_slots p) i + wt (cp_slots p) i"
    and pick: "pick_order now p = (order, p')"
  shows "hd order < length (cp_slots p)"
    and "i < length (cp_slots p) \<Longrightarrow> wt (cp_slots p') i = wt (cp_slots p) i"
    and "i < length (cp_slots p) \<Longrightarrow> acc (cp_slots p') i = acc (cp_slots p) i + wt (cp_slots p) i
      - (if hd order = i then total_weight (cp_slots p) else 0)"
    and "i < length (cp_slots p) \<Longrightarrow> acc (cp_slots p) i + wt (cp_slots p) i
      \<le> acc (cp_slots p) (hd order) + wt (cp_slots p) (hd order)"
    and "length (cp_slots p') = length (cp_slots p)" "cp_strategy p' = Weighted"
proof -
  let ?ss = "cp_slots p" and ?is = "[0..<length (cp_slots p)]"
  obtain h ss where a: "accrue ?is ?ss (- (2 ^ 63)) 0 = (h, ss)" by fastforce
  have all: "distinct ?is" "set ?is \<subseteq> {..<length ?ss}" by auto
  have t: "sum_list (map (\<lambda>s. int (sl_weight s)) ?ss) = total_weight ?ss"
    by (simp add: total_weight_def sum_list_sum_nth atLeast0LessThan)
  have hd: "hd order = h" and slots: "cp_slots p'
      = ss[h := (ss ! h)\<lparr>sl_current_weight := sl_current_weight (ss ! h) - total_weight ?ss\<rparr>]"
    using pick assms(1) by (auto simp: pick_order_def Let_def a [simplified] t)
  have len: "length ss = length ?ss" using accrue_length [of ?is ?ss "- (2 ^ 63)" 0] unfolding a by simp
  have best: "h < length ?ss \<and> (\<forall>j < length ?ss. acc ?ss j + wt ?ss j \<le> acc ?ss h + wt ?ss h)"
  proof -
    have "fst (accrue ?is ?ss (- (2 ^ 63)) 0) = h" unfolding a by simp
    moreover have "0 \<in> set ?is" "\<not> acc ?ss 0 + wt ?ss 0 \<le> - (2 ^ 63)"
      using low [of 0] assms(2) by (simp_all add: not_le)
    ultimately have "h \<in> set ?is \<and> (\<forall>j \<in> set ?is. acc ?ss j + wt ?ss j \<le> acc ?ss h + wt ?ss h)"
      using accrue_best [OF all, of "- (2 ^ 63)" 0 h] by blast
    then show ?thesis by simp
  qed
  have acc: "wt ss i = wt ?ss i" "acc ss i = acc ?ss i + wt ?ss i" if "i < length ?ss" for i
    using accrue_slots [OF all that, of "- (2 ^ 63)" 0] that unfolding a by simp_all
  show "hd order < length ?ss" using best by (simp add: hd)
  show "i < length ?ss \<Longrightarrow> wt (cp_slots p') i = wt ?ss i"
    using best acc(1) [of i] by (simp add: slots len nth_list_update)
  show "i < length ?ss \<Longrightarrow> acc (cp_slots p') i = acc ?ss i + wt ?ss i
      - (if hd order = i then total_weight ?ss else 0)"
    using best by (simp add: slots len nth_list_update acc hd)
  show "i < length ?ss \<Longrightarrow> acc ?ss i + wt ?ss i \<le> acc ?ss (hd order) + wt ?ss (hd order)"
    using best by (simp add: hd)
  show "length (cp_slots p') = length ?ss" by (simp add: slots len)
  show "cp_strategy p' = Weighted"
    using pick assms(1) by (auto simp: pick_order_def Let_def split_def)
qed

text \<open>The state between picks: the accumulators sum to zero, and none is as low as the total.\<close>

definition balanced :: "slot list \<Rightarrow> bool" where
  "balanced ss \<longleftrightarrow> (\<Sum>i < length ss. acc ss i) = 0
     \<and> (\<forall>i < length ss. - total_weight ss < acc ss i \<and> 1 \<le> wt ss i) \<and> total_weight ss < 2 ^ 63"

lemma balanced_pick:
  assumes "cp_strategy p = Weighted" "cp_slots p \<noteq> []" "balanced (cp_slots p)"
    and "pick_order now p = (order, p')"
  shows "balanced (cp_slots p')" "total_weight (cp_slots p') = total_weight (cp_slots p)"
    and "i < length (cp_slots p) \<Longrightarrow> wt (cp_slots p') i = wt (cp_slots p) i"
    and "i < length (cp_slots p) \<Longrightarrow> acc (cp_slots p') i = acc (cp_slots p) i + wt (cp_slots p) i
      - (if hd order = i then total_weight (cp_slots p) else 0)"
    and "length (cp_slots p') = length (cp_slots p)" "cp_strategy p' = Weighted"
proof -
  let ?ss = "cp_slots p" and ?n = "length (cp_slots p)" and ?T = "total_weight (cp_slots p)"
  have bal: "(\<Sum>i < ?n. acc ?ss i) = 0" "?T < 2 ^ 63"
    "\<And>i. i < ?n \<Longrightarrow> - ?T < acc ?ss i \<and> 1 \<le> wt ?ss i"
    using assms(3) by (simp_all add: balanced_def)
  have low: "- (2 ^ 63) < acc ?ss i + wt ?ss i" if "i < ?n" for i
    using bal(2) bal(3) [OF that] by linarith
  note pick = weighted_pick [OF assms(1,2) low assms(4)]
  let ?h = "hd order"
  show wt: "i < ?n \<Longrightarrow> wt (cp_slots p') i = wt ?ss i" for i by (rule pick(2))
  show len: "length (cp_slots p') = ?n" by (rule pick(5))
  show T: "total_weight (cp_slots p') = ?T" by (simp add: total_weight_def len wt)
  show acc: "i < ?n \<Longrightarrow> acc (cp_slots p') i = acc ?ss i + wt ?ss i - (if ?h = i then ?T else 0)" for i
    by (rule pick(3))
  show "cp_strategy p' = Weighted" by (rule pick(6))
  have "(\<Sum>i < ?n. acc ?ss i + wt ?ss i) \<le> (\<Sum>i < ?n. acc ?ss ?h + wt ?ss ?h)"
    by (rule sum_mono) (simp add: pick(4))
  then have "?T \<le> int ?n * (acc ?ss ?h + wt ?ss ?h)" by (simp add: total_weight_def sum.distrib bal(1))
  moreover have "(\<Sum>i < ?n. 1) \<le> ?T" unfolding total_weight_def by (rule sum_mono) (use bal(3) in fastforce)
  then have "0 < ?T" using assms(2) by (cases ?ss) simp_all
  ultimately have "0 < int ?n * (acc ?ss ?h + wt ?ss ?h)" by linarith
  then have h: "0 < acc ?ss ?h + wt ?ss ?h" by (simp add: zero_less_mult_iff)
  have "(\<Sum>i < ?n. acc (cp_slots p') i) = (\<Sum>i < ?n. acc ?ss i + wt ?ss i) - (\<Sum>i < ?n. if ?h = i then ?T else 0)"
    by (simp add: acc sum_subtractf)
  also have "\<dots> = 0" using pick(1) by (simp add: sum.distrib bal(1) total_weight_def)
  finally have "(\<Sum>i < ?n. acc (cp_slots p') i) = 0" .
  moreover have "- ?T < acc (cp_slots p') i \<and> 1 \<le> wt (cp_slots p') i" if "i < ?n" for i
    using bal(3) [OF that] h by (cases "?h = i") (simp_all add: acc [OF that] wt [OF that])
  ultimately show "balanced (cp_slots p')"  using bal(2) by (simp add: balanced_def T len wt)
qed

text \<open>The credentials preferred by a sequence of picks.\<close>

fun preferred :: "datetime list \<Rightarrow> credential_pool \<Rightarrow> nat list \<times> credential_pool" where
  "preferred [] p = ([], p)"
| "preferred (now # nows) p =
     (let (order, p) = pick_order now p; (hs, p) = preferred nows p in (hd order # hs, p))"

lemma preferred_balanced:
  assumes "cp_strategy p = Weighted" "cp_slots p \<noteq> []" "balanced (cp_slots p)" "i < length (cp_slots p)"
    and "preferred nows p = (hs, p')"
  shows "balanced (cp_slots p') \<and> length (cp_slots p') = length (cp_slots p)
    \<and> total_weight (cp_slots p') = total_weight (cp_slots p)
    \<and> acc (cp_slots p') i = acc (cp_slots p) i + int (length nows) * wt (cp_slots p) i
        - int (count_list hs i) * total_weight (cp_slots p)"
  using assms
proof (induction nows arbitrary: p hs)
  case (Cons now nows)
  obtain order p1 where o: "pick_order now p = (order, p1)" by fastforce
  obtain hs1 where hs: "preferred nows p1 = (hs1, p')" "hs = hd order # hs1"
    using Cons.prems(5) by (auto simp: o split: prod.splits)
  note pick = balanced_pick [OF Cons.prems(1,2,3) o]
  have "cp_slots p1 \<noteq> []" using pick(5) Cons.prems(2) by (metis length_0_conv)
  moreover have "i < length (cp_slots p1)" using pick(5) Cons.prems(4) by simp
  ultimately show ?case
    using Cons.IH [OF pick(6) _ pick(1) _ hs(1)]
    unfolding hs(2) pick(2) pick(3,4) [OF Cons.prems(4)]
    by (auto simp: pick(5) algebra_simps)
qed simp

text \<open>C40. The weighted strategy is fair at every moment, not only in the limit: starting with clear accumulators, of
  \<open>k\<close> picks a credential of weight \<open>w\<close> out of a total \<open>T\<close> is preferred fewer than
  \<open>k w / T + 1\<close> times, and more than \<open>k w / T - n\<close> times for \<open>n\<close> credentials.\<close>

theorem weighted_is_fair:
  assumes "cp_strategy p = Weighted" "i < length (cp_slots p)"
    and "\<forall>s \<in> set (cp_slots p). sl_current_weight s = 0 \<and> 1 \<le> sl_weight s"
    and "T = sum_list (map sl_weight (cp_slots p))" "T < 2 ^ 63"
  shows "T * count_list (fst (preferred nows p)) i < length nows * sl_weight (cp_slots p ! i) + T
    \<and> length nows * sl_weight (cp_slots p ! i)
        < T * count_list (fst (preferred nows p)) i + T * length (cp_slots p)"
proof -
  let ?ss = "cp_slots p" and ?n = "length (cp_slots p)" and ?c = "count_list (fst (preferred nows p)) i"
  have T: "total_weight ?ss = int T"
    by (simp add: total_weight_def assms(4) sum_list_sum_nth atLeast0LessThan)
  have zero: "\<And>j. j < ?n \<Longrightarrow> acc ?ss j = 0 \<and> 1 \<le> sl_weight (?ss ! j)" using assms(3) by simp
  have "sl_weight (?ss ! i) \<le> T"
    unfolding assms(4) using assms(2) by (intro member_le_sum_list) simp_all
  then have pos: "0 < int T" using zero [OF assms(2)] by linarith
  obtain hs p' where hs: "preferred nows p = (hs, p')" by fastforce
  have "int T < 2 ^ 63" using assms(5) by simp
  then have "balanced ?ss" unfolding balanced_def T using pos zero by simp
  moreover have "?ss \<noteq> []" using assms(2) by auto
  ultimately have fin: "balanced (cp_slots p')" "length (cp_slots p') = ?n" "total_weight (cp_slots p') = int T"
    "acc (cp_slots p') i = int (length nows) * wt ?ss i - int (count_list hs i) * int T"
    using preferred_balanced [OF assms(1) _ _ assms(2) hs] zero [OF assms(2)] by (simp_all add: T)
  have low: "- int T < acc (cp_slots p') j" if "j < ?n" for j
    using fin(1) that unfolding balanced_def fin(2,3) by blast
  have "(\<Sum>j \<in> {..<?n} - {i}. - int T) \<le> (\<Sum>j \<in> {..<?n} - {i}. acc (cp_slots p') j)"
    by (rule sum_mono) (use low in fastforce)
  moreover have "(\<Sum>j < ?n. acc (cp_slots p') j) = 0" using fin(1) unfolding balanced_def fin(2) by blast
  then have "acc (cp_slots p') i + (\<Sum>j \<in> {..<?n} - {i}. acc (cp_slots p') j) = 0"
    using assms(2) by (subst (asm) sum.remove [of _ i]) simp_all
  moreover have "card ({..<?n} - {i}) = ?n - 1" using assms(2) by simp
  ultimately have "acc (cp_slots p') i \<le> int (?n - 1) * int T" by simp
  also have "\<dots> < int ?n * int T" using pos assms(2) by (intro mult_strict_right_mono) simp_all
  finally have up: "int (length nows) * wt ?ss i < int (count_list hs i) * int T + int ?n * int T"
    by (simp add: fin(4))
  have dn: "int (count_list hs i) * int T < int (length nows) * wt ?ss i + int T"
    using low [OF assms(2)] by (simp add: fin(4))
  have "int (T * count_list hs i) < int (length nows * sl_weight (?ss ! i) + T)"
    using dn by (simp add: mult.commute)
  moreover have "int (length nows * sl_weight (?ss ! i)) < int (T * count_list hs i + T * ?n)"
    using up by (simp add: mult.commute)
  ultimately show ?thesis unfolding hs by (simp only: of_nat_less_iff fst_conv)
qed

definition two_to_one :: credential_pool where
  "two_to_one = new_pool ''p'' Weighted
     [with_weight (new_slot ''a'' ''x'' default_limits 0) 2, new_slot ''b'' ''y'' default_limits 0]"

theorem weighted_is_fair_witness:
  "3 * count_list (fst (preferred [1, 2, 3, 4, 5, 6] two_to_one)) 0 < 6 * 2 + 3
   \<and> 6 * 2 < 3 * count_list (fst (preferred [1, 2, 3, 4, 5, 6] two_to_one)) 0 + 3 * 2"
  using weighted_is_fair [of two_to_one 0 3 "[1, 2, 3, 4, 5, 6]"]
  by (simp add: two_to_one_def new_pool_def with_weight_def new_slot_def)

subsection \<open>A spent budget is reported as an immediate recovery\<close>

text \<open>A refusal that no waiting cures, by the budget or by the concurrency bound, has no retry time, and
  the pool takes that for zero: a pool whose only credential has spent its budget for the day announces
  its soonest recovery in 0 seconds.\<close>

lemma spent_pool_promises_recovery:
  assumes "cp_slots p = [s]" "cp_strategy p = Priority" "cp_limiter p = None" "sl_healthy s"
    and "acquire tk usd now (sl_limiter s) = (Inl e, m)" "retry_after_secs e = None"
  shows "fst (acquire_pool tk usd now p) = Inl (Exhausted (cp_provider p) 1 0)"
  using assms by (simp add: acquire_pool_def acquire_ceiling_def pick_order_def Let_def)

end
