(* ===== verification/Router_Facts.thy ===== *)
theory Router_Facts imports Router Credential_Pool_Facts Approval_Rules_Facts
begin

section \<open>The router resolves, serves and accounts\<close>

text \<open>
  Facts about \<open>crates/hx-provider/src/router.rs\<close>: the meaning of inheritance and of member globs, what a
  configuration that loads guarantees at run time, and the accounting of reservations at every
  credential and at every named pool.
\<close>

subsection \<open>Inheritance\<close>

text \<open>A lineage is a pool followed by its ancestors, up to one that inherits from nothing.\<close>

fun lineage :: "(string \<times> pool_config) list \<Rightarrow> string list \<Rightarrow> bool" where
  "lineage pools [] = False"
| "lineage pools [c] = (\<exists>pc. map_of pools c = Some pc \<and> pl_inherits pc = None)"
| "lineage pools (c # d # cs) =
     ((\<exists>pc. map_of pools c = Some pc \<and> pl_inherits pc = Some d) \<and> lineage pools (d # cs))"

lemma lineage_Cons:
  "lineage pools (c # cs) \<longleftrightarrow> (\<exists>pc. map_of pools c = Some pc
     \<and> (case pl_inherits pc of None \<Rightarrow> cs = [] | Some d \<Rightarrow> \<exists>cs'. cs = d # cs' \<and> lineage pools (d # cs')))"
  by (cases cs) (auto split: option.splits)

lemma lineage_unique: "lineage pools (c # xs) \<Longrightarrow> lineage pools (c # ys) \<Longrightarrow> xs = ys"
proof (induction xs arbitrary: c ys)
  case (Cons x xs)
  then show ?case by (cases ys) auto
next
  case Nil
  then show ?case by (cases ys) auto
qed

lemma lineage_suffix: "lineage pools (xs @ c # ys) \<Longrightarrow> lineage pools (c # ys)"
proof (induction xs)
  case (Cons x xs)
  then show ?case by (cases xs) auto
qed simp

lemma lineage_distinct: "lineage pools cs \<Longrightarrow> distinct cs"
proof (induction cs)
  case (Cons c cs)
  have "c \<notin> set cs"
  proof
    assume "c \<in> set cs"
    then obtain xs ys where cs: "cs = xs @ c # ys" by (meson split_list)
    then have "lineage pools (c # ys)" using lineage_suffix [of pools "c # xs" c ys] Cons.prems by simp
    then have "ys = cs" using lineage_unique [OF _ Cons.prems] by blast
    then show False using cs by simp
  qed
  moreover have "cs = [] \<or> lineage pools cs" using Cons.prems by (cases cs) auto
  ultimately show ?case using Cons.IH by auto
qed simp

fun nearest :: "('a \<Rightarrow> 'b option) \<Rightarrow> 'a list \<Rightarrow> 'b option" where
  "nearest f [] = None"
| "nearest f (x # xs) = (case f x of Some y \<Rightarrow> Some y | None \<Rightarrow> nearest f xs)"

definition own_members :: "(string \<times> pool_config) list \<Rightarrow> string \<Rightarrow> string list option" where
  "own_members pools c = (case map_of pools c of
     Some pc \<Rightarrow> if pl_members pc = [] then None else Some (pl_members pc) | None \<Rightarrow> None)"

definition own_limits :: "(string \<times> pool_config) list \<Rightarrow> string \<Rightarrow> limits option" where
  "own_limits pools c = (case map_of pools c of
     Some pc \<Rightarrow> if is_unbounded (pl_limits pc) then None else Some (pl_limits pc) | None \<Rightarrow> None)"

definition first_of :: "'a option \<Rightarrow> 'a option \<Rightarrow> 'a \<Rightarrow> 'a" where
  "first_of a b d = (case a of Some x \<Rightarrow> x | None \<Rightarrow> case b of Some x \<Rightarrow> x | None \<Rightarrow> d)"

lemma first_of_None: "(case x of None \<Rightarrow> d | Some y \<Rightarrow> y) = first_of x None d"
  by (cases x) (simp_all add: first_of_def)

lemma walk_parents_lineage:
  "walk_parents pools name c chain ms ls = Inr (members, l) \<longleftrightarrow>
     (\<exists>cs. lineage pools (c # cs) \<and> set (c # cs) \<inter> set chain = {}
        \<and> members = first_of ms (nearest (own_members pools) (c # cs)) []
        \<and> l = first_of ls (nearest (own_limits pools) (c # cs)) default_limits)"
proof (induction pools name c chain ms ls rule: walk_parents.induct)
  case (1 pools name c chain ms ls)
  show ?case
  proof (cases "c \<in> set chain \<or> map_of pools c = None")
    case True
    then show ?thesis by (subst walk_parents.simps) (auto simp: lineage_Cons)
  next
    case False
    then obtain pc where pc: "map_of pools c = Some pc" and new: "c \<notin> set chain" by auto
    let ?ms = "if ms = None \<and> pl_members pc \<noteq> [] then Some (pl_members pc) else ms"
    let ?ls = "if ls = None \<and> \<not> is_unbounded (pl_limits pc) then Some (pl_limits pc) else ls"
    have m: "first_of ?ms x [] = first_of ms (case own_members pools c of Some y \<Rightarrow> Some y | None \<Rightarrow> x) []" for x
      by (cases ms) (simp_all add: first_of_def own_members_def pc)
    have l: "first_of ?ls x default_limits
        = first_of ls (case own_limits pools c of Some y \<Rightarrow> Some y | None \<Rightarrow> x) default_limits" for x
      by (cases ls) (simp_all add: first_of_def own_limits_def pc)
    show ?thesis
    proof (cases "pl_inherits pc")
      case None
      have "walk_parents pools name c chain ms ls = Inr (first_of ?ms None [], first_of ?ls None default_limits)"
        by (subst walk_parents.simps) (simp add: pc new None Let_def first_of_None)
      then show ?thesis using new by (auto simp: lineage_Cons [of _ c] pc None m l cong: option.case_cong)
    next
      case (Some d)
      have "walk_parents pools name c chain ms ls = walk_parents pools name d (chain @ [c]) ?ms ?ls"
        by (subst walk_parents.simps) (simp add: pc new Some Let_def)
      also have "\<dots> = Inr (members, l) \<longleftrightarrow>
          (\<exists>cs. lineage pools (d # cs) \<and> set (d # cs) \<inter> set (chain @ [c]) = {}
            \<and> members = first_of ?ms (nearest (own_members pools) (d # cs)) []
            \<and> l = first_of ?ls (nearest (own_limits pools) (d # cs)) default_limits)"
        by (rule "1.IH" [OF _ pc refl refl refl Some]) (use new in simp)
      also have "\<dots> \<longleftrightarrow> (\<exists>cs. lineage pools (c # cs) \<and> set (c # cs) \<inter> set chain = {}
          \<and> members = first_of ms (nearest (own_members pools) (c # cs)) []
          \<and> l = first_of ls (nearest (own_limits pools) (c # cs)) default_limits)"
      proof -
        have step: "lineage pools (c # cs) \<longleftrightarrow> (\<exists>cs'. cs = d # cs' \<and> lineage pools (d # cs') \<and> c \<notin> set (d # cs'))" for cs
          using lineage_distinct [of pools "c # cs"] by (auto simp: lineage_Cons [of _ c] pc Some)
        have ex: "(\<exists>cs. lineage pools (c # cs) \<and> Q cs)
            \<longleftrightarrow> (\<exists>cs. lineage pools (d # cs) \<and> c \<notin> set (d # cs) \<and> Q (d # cs))" for Q
          unfolding step by blast
        show ?thesis unfolding ex m l using new by auto
      qed
      finally show ?thesis .
    qed
  qed
qed

text \<open>Inheritance means what the configuration says: the effective members of a pool are the first
  non-empty list among its own and its ancestors', its ceiling the first one that bounds anything, and
  they exist exactly when the chain of ancestors ends; a cycle or an unknown parent is an error, and
  the walk always terminates.\<close>

theorem effective_members_nearest:
  "effective_members cfg name = Inr (members, l) \<longleftrightarrow>
     (\<exists>cs. lineage (cfg_pools cfg) (name # cs)
        \<and> members = first_of None (nearest (own_members (cfg_pools cfg)) (name # cs)) []
        \<and> l = first_of None (nearest (own_limits (cfg_pools cfg)) (name # cs)) default_limits)"
  unfolding effective_members_def walk_parents_lineage by simp

subsection \<open>Members\<close>

lemma set_retain_new [simp]: "set (retain_new seen xs) = set xs - seen"
  by (induction seen xs rule: retain_new.induct) auto

lemma distinct_retain_new [simp]: "distinct (retain_new seen xs)"
  by (induction seen xs rule: retain_new.induct) auto

text \<open>What a member of a pool names: one model, or every listed model that its glob matches.\<close>

definition names_route :: "string \<Rightarrow> (string \<times> provider_config) list \<Rightarrow> route \<Rightarrow> bool" where
  "names_route m providers r \<longleftrightarrow>
     (\<exists>ref pc. parse_model_ref m = Inr ref \<and> map_of providers (mr_provider ref) = Some pc
        \<and> rt_provider r = mr_provider ref
        \<and> (if CHR ''*'' \<in> set (mr_model ref) \<or> CHR ''?'' \<in> set (mr_model ref)
           then rt_model r \<in> set (pc_models pc) \<and> glob_match (mr_model ref) (rt_model r)
           else rt_model r = mr_model ref))"

lemma route_eq: "r = \<lparr>rt_provider = a, rt_model = b\<rparr> \<longleftrightarrow> rt_provider r = a \<and> rt_model r = b"
  by (cases r) auto

lemma member_routes_names:
  assumes "member_routes m providers = Inr rs"
  shows "rs \<noteq> []" "r \<in> set rs \<longleftrightarrow> names_route m providers r"
proof -
  obtain ref pc where ref: "parse_model_ref m = Inr ref" "map_of providers (mr_provider ref) = Some pc"
    using assms by (auto simp: member_routes_def split: sum.splits option.splits)
  let ?glob = "CHR ''*'' \<in> set (mr_model ref) \<or> CHR ''?'' \<in> set (mr_model ref)"
  have names: "names_route m providers r \<longleftrightarrow> rt_provider r = mr_provider ref
      \<and> (if ?glob then rt_model r \<in> set (pc_models pc) \<and> glob_match (mr_model ref) (rt_model r)
         else rt_model r = mr_model ref)"
    unfolding names_route_def using ref by simp
  show "rs \<noteq> []" "r \<in> set rs \<longleftrightarrow> names_route m providers r"
    using assms unfolding names by (cases ?glob;
      auto simp: member_routes_def ref Let_def image_iff route_eq split: if_split_asm)+
qed

lemma all_member_routes_names:
  "all_member_routes ms providers = Inr rs \<Longrightarrow>
     (\<forall>r. r \<in> set rs \<longleftrightarrow> (\<exists>m \<in> set ms. names_route m providers r))
     \<and> (\<forall>m \<in> set ms. \<exists>r \<in> set rs. names_route m providers r)"
proof (induction ms arbitrary: rs)
  case (Cons m ms)
  then obtain rs1 rs2 where rs: "member_routes m providers = Inr rs1"
    "all_member_routes ms providers = Inr rs2" "rs = rs1 @ rs2"
    by (auto split: sum.splits)
  from member_routes_names [OF rs(1)] Cons.IH [OF rs(2)] show ?case
    by (cases rs1) (auto simp: rs(3))
qed simp

text \<open>The routes of a pool are exactly the models its members name, each once; and a configuration in
  which some member names nothing does not load.\<close>

theorem expand_members_exact:
  assumes "expand_members ms providers = Inr rs"
  shows "distinct rs \<and> (\<forall>r. r \<in> set rs \<longleftrightarrow> (\<exists>m \<in> set ms. names_route m providers r))
    \<and> (\<forall>m \<in> set ms. \<exists>r \<in> set rs. names_route m providers r)"
  using assms all_member_routes_names [of ms providers]
  by (auto simp: expand_members_def split: sum.splits)

definition one_provider :: "(string \<times> provider_config) list" where
  "one_provider = [(''p'', \<lparr>pc_kind = Openai, pc_base_url = None,
     pc_credentials = [\<lparr>cc_id = ''k'', cc_secret = ''vault:k'', cc_limits = default_limits, cc_weight = 1\<rparr>],
     pc_routing = Priority, pc_models = [''gpt-a'', ''gpt-b'', ''x''], pc_price = None, pc_priority = 0\<rparr>)]"

theorem expand_members_exact_witness:
  "set [\<lparr>rt_provider = ''p'', rt_model = ''gpt-a''\<rparr>, \<lparr>rt_provider = ''p'', rt_model = ''gpt-b''\<rparr>]
    = {r. \<exists>m \<in> set [''p/gpt-*'', ''p/gpt-b'']. names_route m one_provider r}"
proof -
  have "expand_members [''p/gpt-*'', ''p/gpt-b''] one_provider
      = Inr [\<lparr>rt_provider = ''p'', rt_model = ''gpt-a''\<rparr>, \<lparr>rt_provider = ''p'', rt_model = ''gpt-b''\<rparr>]"
    by code_simp
  from expand_members_exact [OF this] show ?thesis by blast
qed

subsection \<open>The routing table\<close>

lemma resolve_pools_table:
  "resolve_pools cfg now names ps = Inr ps' \<Longrightarrow>
     dom (map_of ps') = dom (map_of ps) \<union> set names
     \<and> (\<forall>n p. map_of ps' n = Some p \<longrightarrow> map_of ps n = Some p \<or> resolve_pool cfg now n = Inr p)"
proof (induction names arbitrary: ps)
  case (Cons name names)
  then obtain p where p: "resolve_pool cfg now name = Inr p"
    and rest: "resolve_pools cfg now names (AList.update name p ps) = Inr ps'"
    by (auto split: sum.splits)
  note IH = Cons.IH [OF rest]
  have "dom (map_of (AList.update name p ps)) = insert name (dom (map_of ps))"
    by (auto simp: update_conv')
  moreover have "map_of ps n = Some q \<or> resolve_pool cfg now n = Inr q" if "map_of ps' n = Some q" for n q
  proof -
    have "map_of (AList.update name p ps) n = Some q \<or> resolve_pool cfg now n = Inr q" using IH that by blast
    then show ?thesis using p by (cases "n = name") (auto simp: update_conv')
  qed
  ultimately show ?case using IH by auto
qed simp

lemma fold_update_map_of:
  "map_of (fold (\<lambda>(k, v). AList.update k (f k v)) xs ps) =
     map_of ps ++ (\<lambda>k. map_option (f k) (map_of (rev xs) k))"
proof (induction xs arbitrary: ps)
  case (Cons x xs)
  obtain k v where x: "x = (k, v)" by fastforce
  show ?case
    by (rule ext) (simp add: x Cons.IH update_conv' map_add_def map_of_append split: option.split)
qed (simp add: map_add_def)

lemma from_config_table:
  assumes "from_config cfg now = Inr r"
  shows "dom (map_of (mr_providers r)) = fst ` set (cfg_providers cfg)"
    and "map_of (mr_providers r) n = Some p \<Longrightarrow>
      \<exists>pc. (n, pc) \<in> set (cfg_providers cfg) \<and> p = new_pool n (pc_routing pc) (credential_slots pc now)"
    and "map_of (mr_pools r) n = Some q \<Longrightarrow> resolve_pool cfg now n = Inr q"
    and "mr_roles r = cfg_roles cfg"
    and "(role, n) \<in> set (cfg_roles cfg) \<Longrightarrow> map_of (mr_pools r) n \<noteq> None"
proof -
  let ?f = "\<lambda>name pc. new_pool name (pc_routing pc) (credential_slots pc now)"
  from assms obtain pools where
    pools: "resolve_pools cfg now (map fst (cfg_pools cfg)) [] = Inr pools" "mr_pools r = pools"
    and roles: "find (\<lambda>(role, pool). map_of pools pool = None) (cfg_roles cfg) = None"
    and r: "mr_roles r = cfg_roles cfg"
    "mr_providers r = fold (\<lambda>(name, pc). AList.update name (?f name pc)) (cfg_providers cfg) []"
    by (auto simp: from_config_def Let_def split: sum.splits option.splits)
  have provs: "map_of (mr_providers r) = (\<lambda>k. map_option (?f k) (map_of (rev (cfg_providers cfg)) k))"
    unfolding r(2) fold_update_map_of by (simp add: map_add_def)
  have "dom (map_of (mr_providers r)) = dom (map_of (rev (cfg_providers cfg)))"
    unfolding provs by (auto simp: dom_def)
  also have "\<dots> = fst ` set (cfg_providers cfg)" by (simp add: dom_map_of_conv_image_fst)
  finally show "dom (map_of (mr_providers r)) = fst ` set (cfg_providers cfg)" .
  show "map_of (mr_providers r) n = Some p \<Longrightarrow>
      \<exists>pc. (n, pc) \<in> set (cfg_providers cfg) \<and> p = new_pool n (pc_routing pc) (credential_slots pc now)"
    unfolding provs by (force dest: map_of_SomeD)
  show "map_of (mr_pools r) n = Some q \<Longrightarrow> resolve_pool cfg now n = Inr q"
    using resolve_pools_table [OF pools(1)] pools(2) by auto
  show "mr_roles r = cfg_roles cfg" by (rule r(1))
  show "(role, n) \<in> set (cfg_roles cfg) \<Longrightarrow> map_of (mr_pools r) n \<noteq> None"
    using roles pools(2) by (auto simp: find_None_iff)
qed

lemma resolve_pool_routes:
  assumes "resolve_pool cfg now n = Inr q"
  shows "rp_routes q \<noteq> []" "rp_name q = n" "rt \<in> set (rp_routes q) \<Longrightarrow> rt_provider rt \<in> fst ` set (cfg_providers cfg)"
    and "\<exists>l. rp_limiter q = ceiling_limiter l now"
proof -
  from assms obtain members l routes where
    e: "expand_members members (cfg_providers cfg) = Inr routes" "routes \<noteq> []"
    and q: "q = \<lparr>rp_name = n, rp_routes = routes, rp_limiter = ceiling_limiter l now\<rparr>"
    by (auto simp: resolve_pool_def split: sum.splits prod.splits if_splits)
  show "rp_routes q \<noteq> []" "rp_name q = n" "\<exists>l. rp_limiter q = ceiling_limiter l now"
    using e(2) by (auto simp: q)
  obtain out where out: "all_member_routes members (cfg_providers cfg) = Inr out" "set routes = set out"
    using e(1) by (auto simp: expand_members_def split: sum.splits)
  show "rt_provider rt \<in> fst ` set (cfg_providers cfg)" if rt: "rt \<in> set (rp_routes q)"
  proof -
    have "rt \<in> set out" using rt by (simp add: q out(2))
    then obtain m where "names_route m (cfg_providers cfg) rt" using all_member_routes_names [OF out(1)] by blast
    then obtain pc where "map_of (cfg_providers cfg) (rt_provider rt) = Some pc"
      by (auto simp: names_route_def)
    then show ?thesis by (force dest: map_of_SomeD)
  qed
qed

subsection \<open>Trying the routes\<close>

definition providers_ok :: "(string \<times> credential_pool) list \<Rightarrow> bool" where
  "providers_ok ps \<longleftrightarrow> (\<forall>n p. map_of ps n = Some p \<longrightarrow> pool_ok p)"

definition held_at :: "(string \<times> credential_pool) list \<Rightarrow> string \<times> string \<Rightarrow> nat" where
  "held_at ps x = (case map_of ps (fst x) of None \<Rightarrow> 0 | Some p \<Rightarrow> held_by (cp_slots p) (snd x))"

lemma map_fst_map_entry [simp]: "map fst (AList.map_entry k f xs) = map fst xs"
  by (induction xs) auto

lemma map_map_entry: "(\<And>v. g (k, f v) = g (k, v)) \<Longrightarrow> map g (AList.map_entry k f xs) = map g xs"
  by (induction xs) auto

lemma providers_ok_entry:
  "providers_ok ps \<Longrightarrow> (\<And>p. map_of ps n = Some p \<Longrightarrow> pool_ok (f p)) \<Longrightarrow> providers_ok (AList.map_entry n f ps)"
  by (auto simp: providers_ok_def map_of_map_entry split: option.splits if_splits)

lemma held_at_entry:
  "held_at (AList.map_entry n f ps) x =
     (if fst x = n then (case map_of ps n of None \<Rightarrow> 0 | Some p \<Rightarrow> held_by (cp_slots (f p)) (snd x))
      else held_at ps x)"
  by (simp add: held_at_def map_of_map_entry split: option.split)

definition place_of :: "route_ticket \<Rightarrow> string \<times> string" where
  "place_of t = (rt_provider (rk_route t), tk_credential (rk_credential t))"

lemma acquire_pool_entry:
  assumes "providers_ok ps" "map_of ps n = Some p" "acquire_pool tk usd now p = (out, p')"
  shows "providers_ok (AList.map_entry n (\<lambda>_. p') ps)"
    and "held_at (AList.map_entry n (\<lambda>_. p') ps) x = held_at ps x
      + (case out of Inr t \<Rightarrow> if (n, tk_credential t) = x then 1 else 0 | Inl _ \<Rightarrow> 0)"
proof -
  have p: "pool_ok p" "acquire_pool_call (tk, usd, now) p = (out, p')"
    using assms by (auto simp: providers_ok_def acquire_pool_call_def)
  note c = acquire_pool_contract [OF p]
  show "providers_ok (AList.map_entry n (\<lambda>_. p') ps)"
    using assms(1) c(1) by (intro providers_ok_entry)
  show "held_at (AList.map_entry n (\<lambda>_. p') ps) x = held_at ps x
      + (case out of Inr t \<Rightarrow> if (n, tk_credential t) = x then 1 else 0 | Inl _ \<Rightarrow> 0)"
    using c(2) [of "snd x"] assms(2)
    by (cases x; cases out) (auto simp: held_at_def map_of_map_entry)
qed

lemma try_routes_contract:
  assumes "try_routes rts tk usd now ps s h = (out, ps')" "providers_ok ps"
  shows "providers_ok ps'" (is ?ok)
    and "map fst ps' = map fst ps" (is ?keys)
    and "held_at ps' x = held_at ps x
      + (case out of Inr (rt, t) \<Rightarrow> if (rt_provider rt, tk_credential t) = x then 1 else 0 | Inl _ \<Rightarrow> 0)" (is ?held)
    and "case out of Inr (rt, t) \<Rightarrow> rt \<in> set rts
      | Inl (s', h') \<Rightarrow> h' = (h \<or> (\<exists>rt \<in> set rts. rt_provider rt \<in> fst ` set ps))" (is ?out)
proof -
  have "?ok \<and> ?keys \<and> ?held \<and> ?out" using assms
  proof (induction rts arbitrary: ps s h)
    case (Cons rt rts)
    show ?case
    proof (cases "map_of ps (rt_provider rt)")
      case None
      then have "rt_provider rt \<notin> fst ` set ps" by (simp add: map_of_eq_None_iff)
      with Cons.IH [of ps s h] Cons.prems None show ?thesis by (auto split: sum.splits)
    next
      case (Some p)
      obtain r p' where a: "acquire_pool tk usd now p = (r, p')" by fastforce
      let ?ps = "AList.map_entry (rt_provider rt) (\<lambda>_. p') ps"
      note e = acquire_pool_entry [OF Cons.prems(2) Some a]
      show ?thesis
      proof (cases r)
        case (Inr t)
        with Cons.prems(1) have "out = Inr (rt, t)" "ps' = ?ps" by (simp_all add: Some a)
        then show ?thesis using e Inr by simp
      next
        case (Inl err)
        let ?s = "case err of
            Exhausted _ _ retry \<Rightarrow> Some (case s of None \<Rightarrow> retry | Some s \<Rightarrow> min s retry) | _ \<Rightarrow> s"
        have t: "try_routes rts tk usd now ?ps ?s True = (out, ps')"
          using Cons.prems(1) by (simp add: Some a Inl)
        have keys: "map fst ?ps = map fst ps" by simp
        then have "fst ` set ?ps = fst ` set ps" by (metis list.set_map)
        moreover have "rt_provider rt \<in> fst ` set ps" using Some by (force dest: map_of_SomeD)
        ultimately show ?thesis using Cons.IH [OF t e(1)] e(2) [of x] Inl keys by (auto split: sum.splits)
      qed
    qed
  qed (auto split: sum.split)
  then show ?ok ?keys ?held ?out by blast+
qed

lemma try_routes_member:
  "try_routes rts tk usd now ps s h = (Inr (rt, t), ps') \<Longrightarrow> rt \<in> set rts"
proof (induction rts arbitrary: ps s h)
  case (Cons x xs)
  then show ?case by (auto simp: Let_def split: option.splits sum.splits prod.splits)
qed simp

subsection \<open>The contract of the router\<close>

definition table :: "model_router \<Rightarrow>
    (string \<times> string) list \<times> (string \<times> price) list \<times> (string \<times> string \<times> route list) list \<times> string list" where
  "table r = (mr_roles r, mr_prices r,
     map (\<lambda>(n, p). (n, rp_name p, rp_routes p)) (mr_pools r), map fst (mr_providers r))"

definition ceilings_ok :: "(string \<times> resolved_pool) list \<Rightarrow> bool" where
  "ceilings_ok ps \<longleftrightarrow> (\<forall>n p. map_of ps n = Some p \<longrightarrow> ceiling_ok (rp_limiter p))"

definition held_in :: "(string \<times> resolved_pool) list \<Rightarrow> string \<Rightarrow> nat" where
  "held_in ps n = (case map_of ps n of None \<Rightarrow> 0 | Some p \<Rightarrow> ceiling_held (rp_limiter p))"

definition router_ok :: "model_router \<Rightarrow> bool" where
  "router_ok r \<longleftrightarrow> providers_ok (mr_providers r) \<and> ceilings_ok (mr_pools r)"

lemma ceilings_entry:
  assumes "ceilings_ok ps" "\<And>p. map_of ps n = Some p \<Longrightarrow> ceiling_ok (f p)"
  shows "ceilings_ok (AList.map_entry n (\<lambda>p. p\<lparr>rp_limiter := f p\<rparr>) ps)"
    and "held_in (AList.map_entry n (\<lambda>p. p\<lparr>rp_limiter := f p\<rparr>) ps) m =
      (if m = n then (case map_of ps n of None \<Rightarrow> 0 | Some p \<Rightarrow> ceiling_held (f p)) else held_in ps m)"
  using assms by (auto simp: ceilings_ok_def held_in_def map_of_map_entry split: option.splits if_splits)

lemma table_entry [simp]:
  "map (\<lambda>(n, p). (n, rp_name p, rp_routes p)) (AList.map_entry k (\<lambda>p. p\<lparr>rp_limiter := f p\<rparr>) ps)
    = map (\<lambda>(n, p). (n, rp_name p, rp_routes p)) ps"
  by (rule map_map_entry) simp

lemma settle_named_ceiling_contract:
  fixes u name ol r
  defines "r' \<equiv> settle_named_ceiling (settle_lease u) name ol r"
  shows "ceilings_ok (mr_pools r) \<Longrightarrow> ceilings_ok (mr_pools r')"
    and "ceilings_ok (mr_pools r) \<Longrightarrow> held_in (mr_pools r') n
      = held_in (mr_pools r) n - (if n = name \<and> ol \<noteq> None then 1 else 0)"
    and "mr_providers r' = mr_providers r" "table r' = table r"
proof -
  let ?f = "\<lambda>p. settle_ceiling (settle_lease u) ol (rp_limiter p)"
  have eq: "mr_pools r' = AList.map_entry name (\<lambda>p. p\<lparr>rp_limiter := ?f p\<rparr>) (mr_pools r)"
    by (simp add: r'_def settle_named_ceiling_def)
  have ok: "ceilings_ok (mr_pools r) \<Longrightarrow> map_of (mr_pools r) name = Some p \<Longrightarrow> ceiling_ok (?f p)" for p
    by (rule settle_ceiling_lease(2)) (simp add: ceilings_ok_def)
  note e = ceilings_entry [of "mr_pools r" name ?f, OF _ ok]
  show "ceilings_ok (mr_pools r) \<Longrightarrow> ceilings_ok (mr_pools r')"
    using e(1) by (simp add: eq)
  show "ceilings_ok (mr_pools r) \<Longrightarrow> held_in (mr_pools r') n
      = held_in (mr_pools r) n - (if n = name \<and> ol \<noteq> None then 1 else 0)"
    using e(2) [of n] by (auto simp: eq held_in_def settle_ceiling_lease split: option.split)
  show "mr_providers r' = mr_providers r" by (simp add: r'_def settle_named_ceiling_def)
  show "table r' = table r" by (simp add: r'_def settle_named_ceiling_def table_def)
qed

lemma acquire_route_contract:
  assumes "router_ok r" "acquire_route name tk usd now r = (out, r')"
  shows "router_ok r'" (is ?ok)
    and "table r' = table r" (is ?table)
    and "held_at (mr_providers r') x = held_at (mr_providers r) x
      + (case out of Inr t \<Rightarrow> if place_of t = x then 1 else 0 | Inl _ \<Rightarrow> 0)" (is ?held)
    and "held_in (mr_pools r') n = held_in (mr_pools r) n
      + (case out of Inr t \<Rightarrow> if rk_pool t = n \<and> rk_pool_lease t \<noteq> None then 1 else 0 | Inl _ \<Rightarrow> 0)" (is ?ceil)
proof -
  have ok: "providers_ok (mr_providers r)" "ceilings_ok (mr_pools r)"
    using assms(1) by (simp_all add: router_ok_def)
  have "?ok \<and> ?table \<and> ?held \<and> ?ceil"
  proof (cases "map_of (mr_pools r) name")
    case None
    then show ?thesis using assms by (auto simp: acquire_route_def)
  next
    case (Some pool)
    have pool: "ceiling_ok (rp_limiter pool)" using ok(2) Some by (simp add: ceilings_ok_def)
    obtain granted om where g: "acquire_ceiling tk usd now (rp_limiter pool) = (granted, om)" by fastforce
    define r1 where "r1 = r\<lparr>mr_pools := AList.map_entry name (\<lambda>p. p\<lparr>rp_limiter := om\<rparr>) (mr_pools r)\<rparr>"
    have t1: "table r1 = table r" "mr_providers r1 = mr_providers r"
      by (simp_all add: r1_def table_def)
    have om: "ceiling_ok om \<and> ceiling_held om = ceiling_held (rp_limiter pool)
        + (case granted of Inr (Some _) \<Rightarrow> 1 | _ \<Rightarrow> 0)"
      using g pool by (rule_tac acquire_ceiling_cases [of tk usd now "rp_limiter pool"]) (auto split: option.splits)
    then have c1: "ceilings_ok (mr_pools r1)" "held_in (mr_pools r1) n = held_in (mr_pools r) n
        + (if n = name then (case granted of Inr (Some _) \<Rightarrow> 1 | _ \<Rightarrow> 0) else 0)" for n
      using ceilings_entry [OF ok(2), of name "\<lambda>_. om"] Some
      by (auto simp: r1_def held_in_def)
    show ?thesis
    proof (cases granted)
      case (Inl e)
      then obtain e' where "out = Inl e'" "r' = r1"
        using assms(2) by (auto simp: acquire_route_def Some g r1_def Let_def)
      then show ?thesis using c1 t1 ok Inl by (simp add: router_ok_def)
    next
      case (Inr ol)
      obtain tried ps where tr: "try_routes (rp_routes pool) tk usd now (mr_providers r) None False = (tried, ps)"
        by fastforce
      note t = try_routes_contract [OF tr ok(1)]
      have t2: "table (r1\<lparr>mr_providers := ps\<rparr>) = table r" using t(2) t1(1) by (simp add: table_def r1_def)
      show ?thesis
      proof (cases tried)
        case (Inr served)
        then obtain rt cred where s: "tried = Inr (rt, cred)" by (cases served) simp
        have out: "out = Inr \<lparr>rk_pool = name, rk_route = rt, rk_credential = cred, rk_pool_lease = ol\<rparr>"
          "r' = r1\<lparr>mr_providers := ps\<rparr>"
          using assms(2) \<open>granted = Inr ol\<close> by (auto simp: acquire_route_def Some g r1_def Let_def tr s)
        show ?thesis using t(1,3) t2 c1 \<open>granted = Inr ol\<close>
          by (auto simp: out router_ok_def s place_of_def split: option.split)
      next
        case (Inl failed)
        obtain e where out: "out = Inl e"
          "r' = settle_named_ceiling (settle_lease (Released now)) name ol (r1\<lparr>mr_providers := ps\<rparr>)"
        proof -
          have "(\<lambda>l. release l now) = settle_lease (Released now)" by (rule ext)+ simp
          then show ?thesis using that assms(2) \<open>granted = Inr ol\<close>
            by (auto simp: acquire_route_def Some g r1_def Let_def tr Inl split: prod.splits)
        qed
        note sc = settle_named_ceiling_contract [where u = "Released now" and name = name and ol = ol
            and r = "r1\<lparr>mr_providers := ps\<rparr>"]
        have "ceilings_ok (mr_pools (r1\<lparr>mr_providers := ps\<rparr>))" using c1(1) by simp
        from sc(1,2) [OF this] sc(3,4) show ?thesis
          using t(1,3) t2 c1(2) \<open>granted = Inr ol\<close> Inl
          by (auto simp: out router_ok_def split: option.splits)
      qed
    qed
  qed
  then show ?ok ?table ?held ?ceil by blast+
qed

text \<open>Requests name a pool or a role; the other calls bench and restore credentials.\<close>

datatype route_request = By_Pool string nat f64 datetime | By_Role string nat f64 datetime

fun acquire_request :: "route_request \<Rightarrow> model_router \<Rightarrow> (router_error + route_ticket) \<times> model_router" where
  "acquire_request (By_Pool name tk usd now) r = acquire_route name tk usd now r"
| "acquire_request (By_Role role tk usd now) r = acquire_for_role role tk usd now r"

fun settle_route :: "settlement \<Rightarrow> route_ticket \<Rightarrow> model_router \<Rightarrow> model_router" where
  "settle_route (Reconciled tokens usd now) t r = reconcile_route t tokens usd now r"
| "settle_route (Released now) t r = release_route t now r"

datatype router_change = Bench_Route string string string | Restore_Route string string

fun change_router :: "router_change \<Rightarrow> model_router \<Rightarrow> model_router" where
  "change_router (Bench_Route provider c why) r = snd (mark_route_unhealthy provider c why r)"
| "change_router (Restore_Route provider c) r = snd (mark_route_healthy provider c r)"

lemma acquire_request_contract:
  assumes "router_ok r" "acquire_request q r = (out, r')"
  shows "router_ok r'" and "table r' = table r"
    and "held_at (mr_providers r') x = held_at (mr_providers r) x
      + (case out of Inr t \<Rightarrow> if place_of t = x then 1 else 0 | Inl _ \<Rightarrow> 0)"
    and "held_in (mr_pools r') n = held_in (mr_pools r) n
      + (case out of Inr t \<Rightarrow> if rk_pool t = n \<and> rk_pool_lease t \<noteq> None then 1 else 0 | Inl _ \<Rightarrow> 0)"
proof -
  consider (route) name tk usd now where "acquire_route name tk usd now r = (out, r')"
    | (refused) e where "r' = r" "out = Inl e"
    using assms(2) by (cases q) (auto simp: acquire_for_role_def split: sum.splits)
  then have "router_ok r' \<and> table r' = table r
    \<and> held_at (mr_providers r') x = held_at (mr_providers r) x
      + (case out of Inr t \<Rightarrow> if place_of t = x then 1 else 0 | Inl _ \<Rightarrow> 0)
    \<and> held_in (mr_pools r') n = held_in (mr_pools r) n
      + (case out of Inr t \<Rightarrow> if rk_pool t = n \<and> rk_pool_lease t \<noteq> None then 1 else 0 | Inl _ \<Rightarrow> 0)"
  proof cases
    case route
    from acquire_route_contract [OF assms(1) this] show ?thesis by blast
  qed (use assms(1) in simp)
  then show "router_ok r'" and "table r' = table r"
    and "held_at (mr_providers r') x = held_at (mr_providers r) x
      + (case out of Inr t \<Rightarrow> if place_of t = x then 1 else 0 | Inl _ \<Rightarrow> 0)"
    and "held_in (mr_pools r') n = held_in (mr_pools r) n
      + (case out of Inr t \<Rightarrow> if rk_pool t = n \<and> rk_pool_lease t \<noteq> None then 1 else 0 | Inl _ \<Rightarrow> 0)"
    by blast+
qed

lemma settle_route_eq:
  "settle_route u t r = settle_named_ceiling (settle_lease u) (rk_pool t) (rk_pool_lease t)
     (r\<lparr>mr_providers := AList.map_entry (rt_provider (rk_route t)) (settle_ticket u (rk_credential t)) (mr_providers r)\<rparr>)"
proof (cases u)
  case (Reconciled tokens usd now)
  have "(\<lambda>l. reconcile l tokens usd now) = settle_lease u"
    "reconcile_pool (rk_credential t) tokens usd now = settle_ticket u (rk_credential t)"
    by (rule ext; simp add: Reconciled)+
  then show ?thesis by (simp add: Reconciled reconcile_route_def)
next
  case (Released now)
  have "(\<lambda>l. release l now) = settle_lease u"
    "release_pool (rk_credential t) now = settle_ticket u (rk_credential t)"
    by (rule ext; simp add: Released)+
  then show ?thesis by (simp add: Released release_route_def)
qed

lemma providers_update:
  fixes n r f and d :: "string \<Rightarrow> nat"
  assumes "router_ok r" "\<And>p. pool_ok p \<Longrightarrow> pool_ok (f p)"
    and "\<And>p c. pool_ok p \<Longrightarrow> held_by (cp_slots (f p)) c = held_by (cp_slots p) c - d c"
  defines "r' \<equiv> r\<lparr>mr_providers := AList.map_entry n f (mr_providers r)\<rparr>"
  shows "router_ok r'" "table r' = table r" "mr_pools r' = mr_pools r"
    and "held_at (mr_providers r') x = held_at (mr_providers r) x - (if fst x = n then d (snd x) else 0)"
proof -
  have ok: "providers_ok (mr_providers r)" using assms(1) by (simp add: router_ok_def)
  then have "providers_ok (mr_providers r')"
    using providers_ok_entry [OF ok, of n f] assms(2) by (auto simp: r'_def providers_ok_def)
  then show "router_ok r'" using assms(1) by (simp add: router_ok_def r'_def)
  show "table r' = table r" "mr_pools r' = mr_pools r" by (simp_all add: r'_def table_def)
  show "held_at (mr_providers r') x = held_at (mr_providers r) x - (if fst x = n then d (snd x) else 0)"
    using ok assms(3) by (auto simp: r'_def held_at_def map_of_map_entry providers_ok_def split: option.splits)
qed

lemma settle_route_contract:
  assumes "router_ok r"
  shows "router_ok (settle_route u t r)" "table (settle_route u t r) = table r"
    and "held_at (mr_providers (settle_route u t r)) x
      = held_at (mr_providers r) x - (if Some (place_of t) = Some x then 1 else 0)"
    and "held_in (mr_pools (settle_route u t r)) n
      = held_in (mr_pools r) n - (if rk_pool t = n \<and> rk_pool_lease t \<noteq> None then 1 else 0)"
proof -
  let ?f = "settle_ticket u (rk_credential t)" and ?d = "\<lambda>c. if tk_credential (rk_credential t) = c then 1 else 0"
  let ?r = "r\<lparr>mr_providers := AList.map_entry (rt_provider (rk_route t)) ?f (mr_providers r)\<rparr>"
  have "held_by (cp_slots (?f p)) c = held_by (cp_slots p) c - ?d c" if "pool_ok p" for p c
    using settle_ticket_slots(2) [of p u "rk_credential t" c] that by (simp add: pool_ok_def)
  note p = providers_update [of r ?f ?d "rt_provider (rk_route t)", OF assms settle_ticket_ok this]
  have ok: "ceilings_ok (mr_pools ?r)" using p(1) by (simp add: router_ok_def)
  note s = settle_named_ceiling_contract [where u = u and name = "rk_pool t" and ol = "rk_pool_lease t" and r = ?r]
  show "router_ok (settle_route u t r)" using p(1) s(1) [OF ok] by (simp add: settle_route_eq router_ok_def s(3))
  show "table (settle_route u t r) = table r" using p(2) s(4) by (simp add: settle_route_eq)
  show "held_at (mr_providers (settle_route u t r)) x
      = held_at (mr_providers r) x - (if Some (place_of t) = Some x then 1 else 0)"
    using p(4) [of x] by (cases x) (auto simp: settle_route_eq s(3) place_of_def)
  show "held_in (mr_pools (settle_route u t r)) n
      = held_in (mr_pools r) n - (if rk_pool t = n \<and> rk_pool_lease t \<noteq> None then 1 else 0)"
    using s(2) [OF ok, of n] p(3) by (auto simp: settle_route_eq)
qed

lemma change_router_contract:
  assumes "router_ok r"
  shows "router_ok (change_router c r)" "table (change_router c r) = table r"
    and "held_at (mr_providers (change_router c r)) x = held_at (mr_providers r) x"
    and "mr_pools (change_router c r) = mr_pools r"
proof -
  have "\<exists>n ch. change_router c r = r\<lparr>mr_providers := AList.map_entry n (change_pool ch) (mr_providers r)\<rparr>"
  proof (cases c)
    case (Bench_Route n k why)
    have "(\<lambda>p. snd (mark_unhealthy k why p)) = change_pool (Bench k why)" by (rule ext) simp
    then show ?thesis by (auto simp: Bench_Route mark_route_unhealthy_def)
  next
    case (Restore_Route n k)
    have "(\<lambda>p. snd (mark_healthy k p)) = change_pool (Unbench k)" by (rule ext) simp
    then show ?thesis by (auto simp: Restore_Route mark_route_healthy_def)
  qed
  then obtain n ch where e: "change_router c r = r\<lparr>mr_providers := AList.map_entry n (change_pool ch) (mr_providers r)\<rparr>"
    by blast
  have "held_by (cp_slots (change_pool ch p)) k = held_by (cp_slots p) k - 0" if "pool_ok p" for p k
    using change_pool_keeps(2) [OF that] by simp
  from providers_update [of r "change_pool ch" "\<lambda>_. 0" n, OF assms change_pool_keeps(1) this]
  show "router_ok (change_router c r)" "table (change_router c r) = table r"
    "held_at (mr_providers (change_router c r)) x = held_at (mr_providers r) x"
    "mr_pools (change_router c r) = mr_pools r"
    by (simp_all add: e)
qed

abbreviation router_step ::
  "(route_request, settlement, router_change) client_call \<Rightarrow> model_router \<times> route_ticket list
   \<Rightarrow> model_router \<times> route_ticket list" where
  "router_step \<equiv> client_step acquire_request settle_route change_router"



text \<open>The routing table never changes.\<close>

interpretation routing_table: invariant router_step "\<lambda>st. router_ok (fst st) \<and> table (fst st) = T" for T
proof
  fix st :: "model_router \<times> route_ticket list" and c
  assume "router_ok (fst st) \<and> table (fst st) = T"
  then have ok: "router_ok (fst st)" "table (fst st) = T" by simp_all
  obtain r ts where st: "st = (r, ts)" by fastforce
  show "router_ok (fst (router_step c st)) \<and> table (fst (router_step c st)) = T"
  proof (cases c)
    case (Acquire q)
    obtain out r' where a: "acquire_request q r = (out, r')" by fastforce
    from acquire_request_contract(1,2) [OF _ a] ok show ?thesis
      by (auto simp: st Acquire a split: sum.split)
  qed (use ok in \<open>auto simp: st settle_route_contract change_router_contract\<close>)
qed

text \<open>A configuration whose credentials have distinct identifiers within each provider.\<close>

definition distinct_credentials :: "routing_config \<Rightarrow> bool" where
  "distinct_credentials cfg \<longleftrightarrow>
     (\<forall>(n, pc) \<in> set (cfg_providers cfg). distinct (map cc_id (pc_credentials pc)))"

lemma credential_slots_fresh:
  assumes "distinct (map cc_id (pc_credentials pc))"
  shows "fresh_slots (credential_slots pc now)"
proof -
  have "map sl_id (credential_slots pc now) = map cc_id (pc_credentials pc)"
    by (cases "pc_price pc") (simp_all add: credential_slots_def Let_def with_priority_def with_weight_def
        with_cost_def new_slot_def)
  moreover have "\<exists>l. sl_limiter s = new_limiter l now" if "s \<in> set (credential_slots pc now)" for s
    using that by (cases "pc_price pc") (auto simp: credential_slots_def Let_def with_priority_def
        with_weight_def with_cost_def new_slot_def)
  ultimately show ?thesis using assms unfolding fresh_slots_def by metis
qed

lemma from_config_fresh:
  assumes "from_config cfg now = Inr r" "distinct_credentials cfg"
  shows "router_ok r" "held_at (mr_providers r) x = 0" "held_in (mr_pools r) n = 0"
proof -
  note t = from_config_table [OF assms(1)]
  have p: "pool_ok p \<and> held_by (cp_slots p) c = 0" if "map_of (mr_providers r) n = Some p" for n p c
  proof -
    from t(2) [OF that] obtain pc where pc: "(n, pc) \<in> set (cfg_providers cfg)"
      "p = new_pool n (pc_routing pc) (credential_slots pc now)" by blast
    then have "fresh_slots (credential_slots pc now)"
      using assms(2) by (intro credential_slots_fresh) (auto simp: distinct_credentials_def)
    from fresh_slots_ok [OF this] show ?thesis
      by (simp add: pc(2) pool_ok_def new_pool_def ceiling_ok_def)
  qed
  have q: "ceiling_ok (rp_limiter q) \<and> ceiling_held (rp_limiter q) = 0" if "map_of (mr_pools r) n = Some q" for n q
    using resolve_pool_routes(4) [OF t(3) [OF that]] ceiling_limiter_fresh by auto
  show "router_ok r" using p q by (simp add: router_ok_def providers_ok_def ceilings_ok_def)
  show "held_at (mr_providers r) x = 0" using p by (auto simp: held_at_def split: option.split)
  show "held_in (mr_pools r) n = 0" using q by (auto simp: held_in_def split: option.split)
qed


text \<open>A configuration that loads routes every role for good: from then on, whatever calls have been made,
  a request for a role the configuration binds is either granted or refused by a limit; it never fails for a
  missing pool, an empty pool or an unconfigured provider.\<close>

theorem bound_roles_always_route:
  assumes "from_config cfg now = Inr r0" "distinct_credentials cfg"
    and "reaches router_step (r0, []) (r, tickets)"
    and "map_of (cfg_roles cfg) role = Some name"
    and "acquire_for_role role tk usd at_time r = (Inl e, r')"
  shows "(\<exists>ms. e = Rate_Limited (''pool:'' @ name) ms) \<or> (\<exists>wait. e = NoRoute_At_Limit name wait)"
proof -
  note t0 = from_config_table [OF assms(1)]
  have "router_ok r \<and> table r = table r0"
    using routing_table.reachable [OF assms(3), of "table r0"] from_config_fresh(1) [OF assms(1,2)] by simp
  then have ok: "router_ok r" and t: "table r = table r0" by simp_all
  have roles: "mr_roles r = cfg_roles cfg" using t t0(4) by (simp add: table_def)
  have routes: "map (\<lambda>(n, p). (n, rp_name p, rp_routes p)) (mr_pools r)
      = map (\<lambda>(n, p). (n, rp_name p, rp_routes p)) (mr_pools r0)" using t by (simp add: table_def)
  have look: "map_option (\<lambda>p. (rp_name p, rp_routes p)) (map_of (mr_pools r) n)
      = map_option (\<lambda>p. (rp_name p, rp_routes p)) (map_of (mr_pools r0) n)" for n
    using arg_cong [OF routes, of "\<lambda>xs. map_of xs n"]
    by (simp add: fun_cong [OF map_of_map [of "\<lambda>p. (rp_name p, rp_routes p)", unfolded comp_def]])
  have "(role, name) \<in> set (cfg_roles cfg)" using assms(4) by (rule map_of_SomeD)
  then obtain q0 where q0: "map_of (mr_pools r0) name = Some q0" using t0(5) by blast
  then obtain q where q: "map_of (mr_pools r) name = Some q" "rp_routes q = rp_routes q0"
    using look [of name] by auto
  note res = resolve_pool_routes [OF t0(3) [OF q0]]
  have a: "acquire_route name tk usd at_time r = (Inl e, r')"
    using assms(5) by (simp add: acquire_for_role_def pool_for_role_def roles assms(4) q(1))
  obtain granted om where g: "acquire_ceiling tk usd at_time (rp_limiter q) = (granted, om)" by fastforce
  obtain tried ps where tr: "try_routes (rp_routes q) tk usd at_time (mr_providers r) None False = (tried, ps)"
    by fastforce
  have had: "h" if "tried = Inl (s, h)" for s h
  proof -
    have "fst ` set (mr_providers r) = fst ` set (mr_providers r0)"
      using arg_cong [OF t, of "\<lambda>t. set (snd (snd (snd t)))"] by (simp add: table_def)
    also have "\<dots> = fst ` set (cfg_providers cfg)" using t0(1) by (simp add: dom_map_of_conv_image_fst)
    finally have "\<exists>rt \<in> set (rp_routes q). rt_provider rt \<in> fst ` set (mr_providers r)"
      using res(1,3) q(2) by (cases "rp_routes q0") auto
    then show ?thesis using try_routes_contract(4) [OF tr] ok that by (simp add: router_ok_def)
  qed
  show ?thesis using a had
    by (auto simp: acquire_route_def q(1) g tr Let_def split: sum.splits prod.splits if_splits)
qed

text \<open>The estimate for a role never under-reserves: whatever route of the role's pool a request is then given, its
  own estimate is at most the one for the role.\<close>

theorem role_estimate_covers_routes:
  assumes "estimate_role_reservation_usd role tokens r = Inr usd"
    and "acquire_for_role role tokens usd now r = (Inr t, r')"
  shows "estimate_reservation_usd (rk_route t) tokens r \<le> usd \<and> 0 \<le> usd"
proof -
  from assms(1) obtain name pool where p: "pool_for_role role r = Inr name" "map_of (mr_pools r) name = Some pool"
    "usd = fold (\<lambda>rt m. max m (estimate_reservation_usd rt tokens r)) (rp_routes pool) 0"
    by (auto simp: estimate_role_reservation_usd_def split: sum.splits option.splits)
  have fold: "m \<le> fold (\<lambda>rt m. max m (f rt)) rts m \<and> (\<forall>rt \<in> set rts. f rt \<le> fold (\<lambda>rt m. max m (f rt)) rts m)"
    for f :: "route \<Rightarrow> rat" and rts m
  proof (induction rts arbitrary: m)
    case (Cons rt rts)
    from Cons.IH [of "max m (f rt)"] show ?case by auto
  qed simp
  obtain granted om where g: "acquire_ceiling tokens usd now (rp_limiter pool) = (granted, om)" by fastforce
  have "rk_route t \<in> set (rp_routes pool)"
    using assms(2) try_routes_member
    by (fastforce simp: acquire_for_role_def p(1) acquire_route_def p(2) g Let_def split: sum.splits prod.splits)
  then show ?thesis using fold [of 0 "\<lambda>rt. estimate_reservation_usd rt tokens r" "rp_routes pool"]
    by (simp add: p(3))
qed

subsection \<open>Witnesses, and what duplicate identifiers do\<close>

definition small_config :: routing_config where
  "small_config = \<lparr>cfg_providers = one_provider,
     cfg_pools = [(''main'', \<lparr>pl_members = [''p/gpt-*''], pl_strategy = Priority, pl_limits = default_limits,
                              pl_inherits = None\<rparr>),
                  (''cron'', \<lparr>pl_members = [], pl_strategy = Priority,
                              pl_limits = default_limits\<lparr>lim_concurrent := Some 0\<rparr>, pl_inherits = Some ''main''\<rparr>)],
     cfg_roles = [(''builder'', ''main''), (''background'', ''cron'')]\<rparr>"

definition gpt_routes :: "route list" where
  "gpt_routes = [\<lparr>rt_provider = ''p'', rt_model = ''gpt-a''\<rparr>, \<lparr>rt_provider = ''p'', rt_model = ''gpt-b''\<rparr>]"

definition small_router :: model_router where
  "small_router = \<lparr>mr_providers = [(''p'', new_pool ''p'' Priority [new_slot ''k'' ''vault:k'' default_limits 0])],
     mr_pools = [(''main'', \<lparr>rp_name = ''main'', rp_routes = gpt_routes, rp_limiter = None\<rparr>),
                 (''cron'', \<lparr>rp_name = ''cron'', rp_routes = gpt_routes,
                    rp_limiter = Some (new_limiter (default_limits\<lparr>lim_concurrent := Some 0\<rparr>) 0)\<rparr>)],
     mr_roles = [(''builder'', ''main''), (''background'', ''cron'')], mr_prices = []\<rparr>"

lemma small_members:
  "effective_members small_config ''main'' = Inr ([''p/gpt-*''], default_limits)"
  "effective_members small_config ''cron'' = Inr ([''p/gpt-*''], default_limits\<lparr>lim_concurrent := Some 0\<rparr>)"
  by (simp_all add: effective_members_def walk_parents.simps small_config_def is_unbounded_def default_limits_def)

lemma small_routes: "expand_members [''p/gpt-*''] one_provider = Inr gpt_routes"
  by code_simp

lemma small_config_loads: "from_config small_config 0 = Inr small_router"
proof -
  have cfg: "cfg_providers small_config = one_provider" "map fst (cfg_pools small_config) = [''main'', ''cron'']"
    "cfg_roles small_config = [(''builder'', ''main''), (''background'', ''cron'')]"
    by (simp_all add: small_config_def)
  have pools: "resolve_pools small_config 0 [''main'', ''cron''] [] = Inr (mr_pools small_router)"
    by (simp add: resolve_pool_def small_members cfg small_routes small_router_def gpt_routes_def
        ceiling_limiter_def is_unbounded_def default_limits_def)
  show ?thesis
    unfolding from_config_def Let_def cfg pools
    by (simp add: small_router_def one_provider_def credential_slots_def new_slot_def with_weight_def
        with_priority_def new_pool_def)
qed

lemma small_config_distinct: "distinct_credentials small_config"
  by (simp add: distinct_credentials_def small_config_def one_provider_def)

lemma small_router_serves:
  "\<exists>t r. acquire_for_role ''builder'' 10 0 0 small_router = (Inr t, r) \<and> rk_pool t = ''main''
    \<and> rk_route t = \<lparr>rt_provider = ''p'', rt_model = ''gpt-a''\<rparr> \<and> tk_credential (rk_credential t) = ''k''"
proof -
  let ?p = "new_pool ''p'' Priority [new_slot ''k'' ''vault:k'' default_limits 0]"
  have "\<exists>t p'. acquire_pool 10 0 0 ?p = (Inr t, p')"
    unfolding pool_serves_iff_aux
    by (auto simp: new_pool_def ceiling_grants_def new_slot_def default_limits_grant)
  then obtain t p' where a: "acquire_pool 10 0 0 ?p = (Inr t, p')" by blast
  have "tk_credential t = ''k''"
    using acquire_pool_outcome [OF a] by (auto simp: new_pool_def new_slot_def)
  then show ?thesis
    by (simp add: acquire_for_role_def pool_for_role_def acquire_route_def small_router_def gpt_routes_def
        acquire_ceiling_def a Let_def)
qed


theorem bound_roles_always_route_witness:
  "\<exists>e r. acquire_for_role ''background'' 10 0 0 small_router = (Inl e, r)
    \<and> ((\<exists>ms. e = Rate_Limited ''pool:cron'' ms) \<or> (\<exists>wait. e = NoRoute_At_Limit ''cron'' wait))"
proof -
  have "\<exists>e r. acquire_for_role ''background'' 10 0 0 small_router = (Inl e, r)"
    by (simp add: acquire_for_role_def pool_for_role_def acquire_route_def small_router_def
        acquire_ceiling_def acquire_def admit_def new_limiter_def default_limits_def roll_day_def
        concurrency_refusal_def Let_def)
  then obtain e r where e: "acquire_for_role ''background'' 10 0 0 small_router = (Inl e, r)" by blast
  have "map_of (cfg_roles small_config) ''background'' = Some ''cron''" by (simp add: small_config_def)
  from bound_roles_always_route [OF small_config_loads small_config_distinct reaches_start this e]
  show ?thesis using e by auto
qed

theorem role_estimate_covers_routes_witness:
  "\<exists>t r. acquire_for_role ''builder'' 10 0 0 small_router = (Inr t, r)
    \<and> estimate_reservation_usd (rk_route t) 10 small_router \<le> 0"
proof -
  obtain t r where a: "acquire_for_role ''builder'' 10 0 0 small_router = (Inr t, r)"
    using small_router_serves by blast
  have "estimate_role_reservation_usd ''builder'' 10 small_router = Inr 0"
    by (simp add: estimate_role_reservation_usd_def pool_for_role_def small_router_def gpt_routes_def
        estimate_reservation_usd_def)
  from role_estimate_covers_routes [OF this a] a show ?thesis by blast
qed

text \<open>Nothing checks that the credentials of a provider have distinct identifiers, and settlement finds a
  credential by its identifier.  With two of the same name, the first benched, a request is served by
  the second and its release goes to the first: the reservation of the second is never given back.\<close>

definition twin :: "bool \<Rightarrow> slot" where
  "twin healthy = (new_slot ''k'' ''vault:k'' default_limits 0)\<lparr>sl_healthy := healthy\<rparr>"

lemma duplicate_identifiers_leak:
  assumes "acquire_pool tk usd now (new_pool ''p'' Priority [twin False, twin True]) = (Inr t, p)"
  shows "lm_in_flight (sl_limiter (cp_slots (release_pool t at_time p) ! 1)) = 1"
proof -
  let ?p = "new_pool ''p'' Priority [twin False, twin True]"
  from acquire_pool_outcome [OF assms] obtain i where i': "i < length (cp_slots ?p)" "sl_healthy (cp_slots ?p ! i)"
    "tk_credential t = sl_id (cp_slots ?p ! i)" "moved (Some i) (cp_slots ?p) (cp_slots p)"
    by auto
  have "i < 2" using i'(1) by (simp add: new_pool_def)
  note i = this i'(2-4)
  have "cp_slots ?p ! 0 = twin False" "cp_slots ?p ! 1 = twin True" by (simp_all add: new_pool_def)
  then have "i = 1" using i(1,2) by (cases i) (auto simp: twin_def new_slot_def less_Suc_eq)
  have len: "length (cp_slots p) = 2" using i(4) by (simp add: moved_def new_pool_def)
  have k: "tk_credential t = ''k''" "sl_id (cp_slots p ! 0) = ''k''"
    "lm_in_flight (sl_limiter (cp_slots p ! 1)) = 1"
    using i(3,4) \<open>i = 1\<close> len
    by (auto simp: moved_def same_slot_def new_pool_def twin_def new_slot_def new_limiter_def All_less_Suc2)
  obtain s0 s1 where s: "cp_slots p = [s0, s1]" using len by (auto simp: length_Suc_conv numeral_2_eq_2)
  show ?thesis using k by (simp add: s release_pool_def rollback_def)
qed

end
