(* ===== verification/Agent_Gate.thy ===== *)
theory Agent_Gate imports Capability Approval_Session
begin

section \<open>The gate in front of every tool call\<close>

text \<open>
  \<open>handle_call\<close> of \<open>crates/hx-agent/src/agent.rs\<close>, with the types of \<open>crates/hx-tools/src/tool.rs\<close> and
  \<open>crates/hx-tools/src/registry.rs\<close> and the answer of \<open>crates/hx-agent/src/approver.rs\<close>: a call is
  prepared, checked against the capability token, checked again on the path the host resolves, put to
  the approval session and, if that asks, to the approver; then it runs, and what it reports is checked
  once more.

  What the code gets from outside during a call is the record \<open>call_env\<close>: the tool (a trait object), the host, the
  approver and the clock.  A panic inside the token check is \<^const>\<open>None\<close>.
\<close>

record requirement =
  rq_resource :: resource
  rq_action :: action
  rq_describes :: string
  rq_third_party :: bool
  rq_bytes :: "nat option"

definition new_requirement :: "resource \<Rightarrow> action \<Rightarrow> string \<Rightarrow> requirement" where [hx_defs]:
  "new_requirement r a describes =
     \<lparr>rq_resource = r, rq_action = a, rq_describes = describes, rq_third_party = False, rq_bytes = None\<rparr>"

definition requirement_command :: "requirement \<Rightarrow> string option" where [hx_defs]:
  "requirement_command rq = (case rq_resource rq of Process \<Rightarrow> Some (rq_describes rq) | _ \<Rightarrow> None)"

datatype tool_error = Arguments string | Unavailable string

record tool_outcome =
  to_content :: string
  to_ok :: bool
  to_truncated :: bool
  to_bytes_moved :: "nat option"

text \<open>A prepared call, of whose arguments the gate sees only the entry \<open>path\<close>.\<close>

record prepared_call =
  pc_name :: string
  pc_path :: "string option"
  pc_requirement :: "requirement option"

definition set_path :: "string \<Rightarrow> prepared_call \<Rightarrow> prepared_call" where [hx_defs]:
  "set_path canonical p = (case pc_path p of None \<Rightarrow> p | Some _ \<Rightarrow> p\<lparr>pc_path := Some canonical\<rparr>)"

record approval_decision =
  ad_option :: approval_option
  ad_by :: string

definition deny_decision :: "string \<Rightarrow> approval_decision" where [hx_defs]:
  "deny_decision by_whom = \<lparr>ad_option = DenyIt, ad_by = by_whom\<rparr>"

text \<open>What the surroundings answer during one call, in the order in which they are asked.\<close>

record call_env =
  ce_prepare :: "tool_error + prepared_call"
  ce_check_time :: datetime
  ce_canonical :: "string \<Rightarrow> string option"
  ce_targets :: "target list"
  ce_undo :: "string option"
  ce_confinement :: confinement
  ce_approval_id :: string
  ce_decide_time :: datetime
  ce_answer :: "approval_request \<Rightarrow> action_request \<Rightarrow> approval_decision"
  ce_run :: "prepared_call \<Rightarrow> tool_error + tool_outcome"
  ce_canonical_after :: "string \<Rightarrow> string option"
  ce_after_time :: datetime
  ce_bytes_time :: datetime

text \<open>The refusals, one constructor per message.\<close>

datatype call_refusal =
    Not_Prepared tool_error
  | Not_Covered deny_reason
  | Symlink_Escape string string
  | By_Policy string
  | By_Answer string string
  | Moved_Outside string string bool
  | Over_Bound nat nat bool
  | Bad_Arguments string
  | Tool_Unavailable string

datatype call_outcome = Ran bool string | Refused call_refusal

definition risk_of :: "requirement \<Rightarrow> risk_class \<times> string" where [hx_defs]:
  "risk_of rq = (case rq_resource rq of
     Process \<Rightarrow>
       if rq_third_party rq then (ThirdParty, ''runs a program the operator did not write'')
       else (Mutate, ''runs a process'')
   | FsPath path \<Rightarrow>
       (if rq_action rq = action.Read then (risk_class.Read, ''reads '' @ path)
        else if rq_action rq = Delete then (Destructive, ''deletes '' @ path)
        else (Mutate, ''changes '' @ path))
   | NetworkHost host \<Rightarrow> (External, ''reaches '' @ host @ '' over the network'')
   | Provider _ \<Rightarrow> (External, ''spends model budget'')
   | Secret _ \<Rightarrow> (Privileged, ''touches a secret'')
   | Host _ \<Rightarrow>
       (if rq_action rq = action.Read then (risk_class.Read, ''reads the host'')
        else (Mutate, ''acts on the host''))
   | Sandbox _ \<Rightarrow>
       (if rq_action rq = action.Read then (risk_class.Read, ''reads the host'')
        else (Mutate, ''acts on the host'')))"

definition action_request_of :: "prepared_call \<Rightarrow> requirement \<Rightarrow> action_request" where [hx_defs]:
  "action_request_of p rq = (case requirement_command rq of
     Some command \<Rightarrow>
       if pc_name p = ''shell'' then shell_request command
       else tool_request (pc_name p) (rq_describes rq) (fst (risk_of rq)) (snd (risk_of rq))
   | None \<Rightarrow> tool_request (pc_name p) (rq_describes rq) (fst (risk_of rq)) (snd (risk_of rq)))"

definition call_request :: "call_env \<Rightarrow> prepared_call \<Rightarrow> requirement \<Rightarrow> action_request" where [hx_defs]:
  "call_request env p rq =
     confined_to (with_undo_opt (with_targets (action_request_of p rq) (ce_targets env)) (ce_undo env))
       (ce_confinement env)"

subsection \<open>Phase 2: the capability\<close>

definition usage_of :: "nat option \<Rightarrow> request_usage" where [hx_defs]:
  "usage_of ob = (case ob of None \<Rightarrow> no_usage | Some b \<Rightarrow> bytes_usage b)"

text \<open>What the phase leaves for the later ones: the call, the resource its bytes are measured against,
  and the path to resolve again after the run.\<close>

record cleared =
  cl_call :: prepared_call
  cl_enforced :: "(resource \<times> action) option"
  cl_pre_open :: "(string \<times> action \<times> request_usage) option"

definition check_capability ::
  "capability_token \<Rightarrow> call_env \<Rightarrow> prepared_call \<Rightarrow> (call_refusal + cleared) option" where [hx_defs]:
  "check_capability tok env p = (case pc_requirement p of
     None \<Rightarrow> Some (Inr \<lparr>cl_call = p, cl_enforced = None, cl_pre_open = None\<rparr>)
   | Some rq \<Rightarrow>
       (let now = ce_check_time env; usage = usage_of (rq_bytes rq) in
        case check_with_usage tok (rq_resource rq) (rq_action rq) now usage of
          None \<Rightarrow> None
        | Some (Deny why) \<Rightarrow> Some (Inl (Not_Covered why))
        | Some Allow \<Rightarrow>
            (case rq_resource rq of
               FsPath path \<Rightarrow>
                 (let pre_open = Some (path, rq_action rq, usage);
                      same = \<lparr>cl_call = p, cl_enforced = Some (rq_resource rq, rq_action rq),
                              cl_pre_open = pre_open\<rparr>
                  in case ce_canonical env path of
                       None \<Rightarrow> Some (Inr same)
                     | Some canonical \<Rightarrow>
                         (case check_with_usage tok (FsPath canonical) (rq_action rq) now usage of
                            None \<Rightarrow> None
                          | Some Allow \<Rightarrow>
                              Some (Inr (if canonical \<noteq> path
                                then \<lparr>cl_call = set_path canonical p,
                                      cl_enforced = Some (FsPath canonical, rq_action rq),
                                      cl_pre_open = pre_open\<rparr>
                                else same))
                          | Some (Deny _) \<Rightarrow> Some (Inl (Symlink_Escape path canonical))))
             | _ \<Rightarrow> Some (Inr \<lparr>cl_call = p, cl_enforced = Some (rq_resource rq, rq_action rq),
                               cl_pre_open = None\<rparr>))))"

subsection \<open>Phase 3: the approval\<close>

definition check_approval ::
  "call_env \<Rightarrow> prepared_call \<Rightarrow> approval_session \<Rightarrow> call_refusal option \<times> approval_session" where [hx_defs]:
  "check_approval env p s = (case pc_requirement p of
     None \<Rightarrow> (None, s)
   | Some rq \<Rightarrow>
       (let act = call_request env p rq in
        case decide (ce_approval_id env) (ce_decide_time env) act s of
          (Allowed _, s) \<Rightarrow> (None, s)
        | (Denied why, s) \<Rightarrow> (Some (By_Policy why), s)
        | (Asks request, s) \<Rightarrow>
            (let answer = ce_answer env request act in
             case resolve (apr_id request) (ad_option answer) act s of
               (Allowed _, s) \<Rightarrow> (None, s)
             | (resolved, s) \<Rightarrow> (Some (By_Answer (ad_by answer) (verdict_why resolved)), s))))"

subsection \<open>Phase 4: the run and what it reports\<close>

definition truncation_note :: string where [hx_defs]:
  "truncation_note = CHR 0x0A # ''[output truncated]''"

definition check_after_open ::
  "capability_token \<Rightarrow> call_env \<Rightarrow> cleared \<Rightarrow> call_refusal option option" where [hx_defs]:
  "check_after_open tok env cl = (case cl_pre_open cl of
     None \<Rightarrow> Some None
   | Some (lexical, act, usage) \<Rightarrow>
       (case ce_canonical_after env lexical of
          None \<Rightarrow> Some None
        | Some canonical \<Rightarrow>
            map_option (\<lambda>d. if d = Allow then None
                            else Some (Moved_Outside lexical canonical (is_mutating act)))
              (check_with_usage tok (FsPath canonical) act (ce_after_time env) usage)))"

definition check_bytes ::
  "capability_token \<Rightarrow> call_env \<Rightarrow> cleared \<Rightarrow> nat option \<Rightarrow> call_refusal option option" where [hx_defs]:
  "check_bytes tok env cl moved =
     (let stated = Option.bind (pc_requirement (cl_call cl)) rq_bytes in
      case (if stated = None then cl_enforced cl else None, moved) of
        (Some (r, act), Some n) \<Rightarrow>
          map_option (\<lambda>cap. case cap of
              Some c \<Rightarrow> if c < n then Some (Over_Bound n c (is_mutating act)) else None
            | None \<Rightarrow> None) (max_bytes_for tok r act (ce_bytes_time env))
      | _ \<Rightarrow> Some None)"

definition run_cleared :: "capability_token \<Rightarrow> call_env \<Rightarrow> cleared \<Rightarrow> call_outcome option" where [hx_defs]:
  "run_cleared tok env cl = (case ce_run env (cl_call cl) of
     Inl (Arguments message) \<Rightarrow> Some (Refused (Bad_Arguments message))
   | Inl (Unavailable message) \<Rightarrow> Some (Refused (Tool_Unavailable message))
   | Inr out \<Rightarrow>
       (let ran = Ran (to_ok out) (if to_truncated out then to_content out @ truncation_note else to_content out)
        in if \<not> to_ok out then Some ran
           else (case check_after_open tok env cl of
             None \<Rightarrow> None
           | Some (Some why) \<Rightarrow> Some (Refused why)
           | Some None \<Rightarrow>
               map_option (\<lambda>b. case b of Some why \<Rightarrow> Refused why | None \<Rightarrow> ran)
                 (check_bytes tok env cl (to_bytes_moved out)))))"

text \<open>The whole handler.  Beside the outcome and the session it returns the call that was run, if one was.\<close>

definition handle_call ::
  "capability_token \<Rightarrow> call_env \<Rightarrow> approval_session
   \<Rightarrow> (call_outcome \<times> approval_session \<times> prepared_call option) option" where [hx_defs]:
  "handle_call tok env s = (case ce_prepare env of
     Inl e \<Rightarrow> Some (Refused (Not_Prepared e), s, None)
   | Inr p \<Rightarrow>
       (case check_capability tok env p of
          None \<Rightarrow> None
        | Some (Inl why) \<Rightarrow> Some (Refused why, s, None)
        | Some (Inr cl) \<Rightarrow>
            (case check_approval env (cl_call cl) s of
               (Some why, s) \<Rightarrow> Some (Refused why, s, None)
             | (None, s) \<Rightarrow>
                 map_option (\<lambda>outcome. (outcome, s, Some (cl_call cl))) (run_cleared tok env cl))))"

end
