(* ===== verification/Agent_Gate_Facts.thy ===== *)
theory Agent_Gate_Facts imports Agent_Gate Approval_Session_Facts
begin

section \<open>No tool runs ungated\<close>

text \<open>
  What the handler of a tool call guarantees, over the token check of \<open>Capability\<close> and the session of
  \<open>Approval_Session\<close>: a tool that ran was cleared by both, and a result that is shown was within them.
\<close>

lemma set_path_keeps [simp]:
  "pc_name (set_path c p) = pc_name p" "pc_requirement (set_path c p) = pc_requirement p"
  by (simp_all add: set_path_def split: option.split)

lemma call_request_cong: "pc_name q = pc_name p \<Longrightarrow> call_request env q rq = call_request env p rq"
  by (cases "requirement_command rq") (simp_all add: call_request_def action_request_of_def)

text \<open>What passing the second phase means.\<close>

lemma check_capability_cleared:
  assumes "check_capability tok env p = Some (Inr cl)" "pc_requirement p = Some rq"
  shows "check_with_usage tok (rq_resource rq) (rq_action rq) (ce_check_time env) (usage_of (rq_bytes rq)) = Some Allow"
    and "rq_resource rq = FsPath path \<Longrightarrow> ce_canonical env path = Some c \<Longrightarrow>
      check_with_usage tok (FsPath c) (rq_action rq) (ce_check_time env) (usage_of (rq_bytes rq)) = Some Allow
      \<and> cl_call cl = (if c = path then p else set_path c p) \<and> cl_enforced cl = Some (FsPath c, rq_action rq)"
    and "(\<And>path. rq_resource rq = FsPath path \<Longrightarrow> ce_canonical env path = None) \<Longrightarrow>
      cl_call cl = p \<and> cl_enforced cl = Some (rq_resource rq, rq_action rq)"
    and "cl_pre_open cl = (case rq_resource rq of
      FsPath path \<Rightarrow> Some (path, rq_action rq, usage_of (rq_bytes rq)) | _ \<Rightarrow> None)"
  using assms
  by (auto simp: check_capability_def Let_def split: option.splits decision.splits resource.splits if_splits)

lemma cleared_requirement:
  assumes "check_capability tok env p = Some (Inr cl)"
  shows "pc_requirement (cl_call cl) = pc_requirement p" "pc_name (cl_call cl) = pc_name p"
  using assms
  by (auto simp: check_capability_def Let_def split: option.splits decision.splits resource.splits if_splits)

lemma handle_call_ran:
  assumes "handle_call tok env s = Some (out, s', Some q)"
  obtains p cl where "ce_prepare env = Inr p" "check_capability tok env p = Some (Inr cl)" "q = cl_call cl"
    "check_approval env (cl_call cl) s = (None, s')" "run_cleared tok env cl = Some out"
  using assms by (auto simp: handle_call_def split: sum.splits option.splits prod.splits)

text \<open>A session is only moved by its own operations.\<close>

lemma check_approval_reaches: "reaches session_step s (snd (check_approval env p s))"
proof (cases "pc_requirement p")
  case (Some rq)
  let ?act = "call_request env p rq"
  obtain v s1 where d: "decide (ce_approval_id env) (ce_decide_time env) ?act s = (v, s1)" by fastforce
  have s1: "reaches session_step s s1"
    using reaches_call [OF reaches_start, where step = session_step
        and c = "Decide (ce_approval_id env) (ce_decide_time env) ?act" and s = s]
    by (simp add: d)
  show ?thesis
  proof (cases v)
    case (Asks r)
    obtain v2 s2 where r: "resolve (apr_id r) (ad_option (ce_answer env r ?act)) ?act s1 = (v2, s2)" by fastforce
    have "reaches session_step s s2"
      using reaches_call [OF s1, where c = "Resolve (apr_id r) (ad_option (ce_answer env r ?act)) ?act"] by (simp add: r)
    then show ?thesis by (cases v2) (simp_all add: check_approval_def Some Let_def d Asks r)
  qed (use s1 in \<open>simp_all add: check_approval_def Some Let_def d\<close>)
qed (simp add: check_approval_def reaches_start)

lemma handle_call_reaches:
  assumes "handle_call tok env s = Some (out, s', run)"
  shows "reaches session_step s s'"
proof -
  have "s' = s \<or> (\<exists>p. s' = snd (check_approval env p s))"
    using assms by (auto simp: handle_call_def split: sum.splits option.splits prod.splits) (metis snd_conv)+
  then show ?thesis using check_approval_reaches reaches_start by metis
qed

text \<open>What passing the third phase means.\<close>

lemma check_approval_passed:
  assumes "check_approval env p s = (None, s')" "pc_requirement p = Some rq"
  shows "is_allowed (fst (decide (ce_approval_id env) (ce_decide_time env) (call_request env p rq) s))
    \<or> (\<exists>r. fst (decide (ce_approval_id env) (ce_decide_time env) (call_request env p rq) s) = Asks r
         \<and> ad_option (ce_answer env r (call_request env p rq)) \<noteq> DenyIt)"
  using assms
  by (auto simp: check_approval_def Let_def is_allowed_def resolve_def split: verdict.splits prod.splits
      if_splits approval_option.splits)

lemma cleared_by_token:
  assumes "handle_call tok env s = Some (out, s', Some q)" "ce_prepare env = Inr p" "pc_requirement p = Some rq"
  shows "check_with_usage tok (rq_resource rq) (rq_action rq) (ce_check_time env) (usage_of (rq_bytes rq)) = Some Allow"
proof -
  obtain cl where "check_capability tok env p = Some (Inr cl)"
    using handle_call_ran [OF assms(1)] assms(2) by (metis Inr_inject)
  then show ?thesis by (rule check_capability_cleared(1) [OF _ assms(3)])
qed


lemma denied_call_is_refused:
  assumes "reaches session_step (new_session pol) s" "r \<in> set (pol_deny pol)"
    and "ce_prepare env = Inr p" "pc_requirement p = Some rq" "rule_matches r (call_request env p rq)"
    and "handle_call tok env s = Some (out, s', run)"
  shows "run = None \<and> (\<exists>why. out = Refused why) \<and> reaches session_step (new_session pol) s'"
proof -
  have s': "reaches session_step (new_session pol) s'"
    by (rule reaches_trans [OF handle_call_reaches [OF assms(6)] assms(1)])
  have denied: "is_denied (fst (decide (ce_approval_id env) (ce_decide_time env) (call_request env p rq) s))"
    by (rule deny_rule_denies [OF assms(1,2,5)])
  have "run = None"
  proof (rule ccontr)
    assume "run \<noteq> None"
    then obtain q where "handle_call tok env s = Some (out, s', Some q)" using assms(6) by auto
    from handle_call_ran [OF this] assms(3) obtain cl where
      cl: "check_capability tok env p = Some (Inr cl)" "check_approval env (cl_call cl) s = (None, s')"
      by (metis Inr_inject)
    note k = cleared_requirement [OF cl(1)]
    have "pc_requirement (cl_call cl) = Some rq" using k(1) assms(4) by simp
    from check_approval_passed [OF cl(2) this] denied show False
      by (auto simp: call_request_cong [OF k(2)] is_denied_def is_allowed_def split: verdict.splits)
  qed
  then show ?thesis using s' assms(6)
    by (auto simp: handle_call_def split: sum.splits option.splits prod.splits)
qed

text \<open>What the operator denies no call does: in every state the session of a run can be in, after whatever calls,
  answers and changes of level, a call whose action a deny rule of the configured policy matches is refused without
  running its tool, and the session stays in a state of which the same holds.\<close>

theorem denied_call_never_runs:
  assumes "reaches session_step (new_session pol) s" "r \<in> set (pol_deny pol)"
    and "ce_prepare env = Inr p" "pc_requirement p = Some rq" "rule_matches r (call_request env p rq)"
    and "handle_call tok env s = Some (out, s', run)"
  shows "run = None \<and> (\<exists>why. out = Refused why) \<and> reaches session_step (new_session pol) s'"
  by (rule denied_call_is_refused [OF assms])

text \<open>What a successful call reports was within the grants when it was shown: where the host still resolves the
  path after the run, the token allows what it now resolves to; and a call that could not state its
  size, but moved \<open>n\<close> bytes, would have been allowed had it stated them (unless the token no longer
  allows the action at all).\<close>

theorem shown_result_within_grants:
  assumes "handle_call tok env s = Some (Ran True content, s', Some q)"
    and "ce_prepare env = Inr p" "pc_requirement p = Some rq" "ce_run env q = Inr result"
  shows "(\<forall>path c. rq_resource rq = FsPath path \<and> ce_canonical_after env path = Some c \<longrightarrow>
      check_with_usage tok (FsPath c) (rq_action rq) (ce_after_time env) (usage_of (rq_bytes rq)) = Some Allow)
    \<and> (\<forall>n res. rq_bytes rq = None \<and> to_bytes_moved result = Some n
        \<and> res = (case rq_resource rq of
            FsPath path \<Rightarrow> (case ce_canonical env path of Some c \<Rightarrow> FsPath c | None \<Rightarrow> FsPath path) | x \<Rightarrow> x)
        \<and> check tok res (rq_action rq) (ce_bytes_time env) = Some Allow \<longrightarrow>
      check_with_usage tok res (rq_action rq) (ce_bytes_time env) (bytes_usage n) = Some Allow)"
proof -
  obtain cl where cl: "check_capability tok env p = Some (Inr cl)" "q = cl_call cl"
    "run_cleared tok env cl = Some (Ran True content)"
    using handle_call_ran [OF assms(1)] assms(2) by (metis Inr_inject)
  note c = check_capability_cleared [OF cl(1) assms(3)]
  have ok: "check_after_open tok env cl = Some None" "check_bytes tok env cl (to_bytes_moved result) = Some None"
    using cl(3) assms(4) unfolding cl(2)
    by (auto simp: run_cleared_def Let_def split: if_splits option.splits)
  have after: "check_with_usage tok (FsPath c) (rq_action rq) (ce_after_time env) (usage_of (rq_bytes rq)) = Some Allow"
    if "rq_resource rq = FsPath path" "ce_canonical_after env path = Some c" for path c
    using ok(1) that by (auto simp: check_after_open_def check_capability_cleared(4) [OF cl(1) assms(3)]
        split: if_splits)
  have bytes: "check_with_usage tok res (rq_action rq) (ce_bytes_time env) (bytes_usage n) = Some Allow"
    if "rq_bytes rq = None" "to_bytes_moved result = Some n"
      and res: "res = (case rq_resource rq of
            FsPath path \<Rightarrow> (case ce_canonical env path of Some c \<Rightarrow> FsPath c | None \<Rightarrow> FsPath path) | x \<Rightarrow> x)"
      and "check tok res (rq_action rq) (ce_bytes_time env) = Some Allow" for n res
  proof -
    have e: "cl_enforced cl = Some (res, rq_action rq)"
    proof (cases "\<exists>path c. rq_resource rq = FsPath path \<and> ce_canonical env path = Some c")
      case True
      then obtain path c' where "rq_resource rq = FsPath path" "ce_canonical env path = Some c'" by blast
      with c(2) [OF this] show ?thesis by (simp add: res)
    next
      case False
      then have "res = rq_resource rq" unfolding res by (cases "rq_resource rq") (auto split: option.split)
      then show ?thesis using c(3) False by auto
    qed
    have "pc_requirement (cl_call cl) = Some rq" using cleared_requirement(1) [OF cl(1)] assms(3) by simp
    then have "case max_bytes_for tok res (rq_action rq) (ce_bytes_time env) of Some (Some cap) \<Rightarrow> n \<le> cap | _ \<Rightarrow> True"
      using ok(2) that(1,2) by (auto simp: check_bytes_def e split: option.splits if_splits)
    then show ?thesis using that(4) bytes_bound_exact by simp
  qed
  show ?thesis using after bytes by blast
qed

subsection \<open>Witnesses\<close>

definition workspace_token :: capability_token where [hx_defs]:
  "workspace_token = issue ''a'' [workspace ''c'' ''/w''] 0 3600"

definition read_call :: prepared_call where [hx_defs]:
  "read_call = \<lparr>pc_name = ''read_file'', pc_path = Some ''/w/link'',
     pc_requirement = Some (new_requirement (FsPath ''/w/link'') action.Read ''read /w/link'')\<rparr>"

definition read_env :: call_env where [hx_defs]:
  "read_env = \<lparr>ce_prepare = Inr read_call, ce_check_time = 1, ce_canonical = (\<lambda>_. Some ''/w/file''),
     ce_targets = [], ce_undo = None, ce_confinement = OnHost, ce_approval_id = ''q'', ce_decide_time = 2,
     ce_answer = (\<lambda>_ _. deny_decision ''nobody''),
     ce_run = (\<lambda>_. Inr \<lparr>to_content = ''hi'', to_ok = True, to_truncated = False, to_bytes_moved = Some 2\<rparr>),
     ce_canonical_after = (\<lambda>_. Some ''/w/file''), ce_after_time = 3, ce_bytes_time = 4\<rparr>"

lemma read_call_runs:
  "\<exists>s'. handle_call workspace_token read_env (new_session default_policy)
     = Some (Ran True ''hi'', s', Some (set_path ''/w/file'' read_call))"
proof -
  have "map_option (\<lambda>(out, _, q). (out, q)) (handle_call workspace_token read_env (new_session default_policy))
      = Some (Ran True ''hi'', Some (set_path ''/w/file'' read_call))"
    by code_simp
  then show ?thesis by (auto split: prod.splits)
qed


theorem denied_call_never_runs_witness:
  "\<exists>why s'. handle_call workspace_token read_env (new_session (default_policy\<lparr>pol_deny := [tool_rule ''read*'']\<rparr>))
     = Some (Refused why, s', None)"
proof -
  let ?pol = "default_policy\<lparr>pol_deny := [tool_rule ''read*'']\<rparr>"
  have "handle_call workspace_token read_env (new_session ?pol) \<noteq> None" by code_simp
  then obtain out s' q where h: "handle_call workspace_token read_env (new_session ?pol) = Some (out, s', q)"
    by (cases "handle_call workspace_token read_env (new_session ?pol)") auto
  have p: "ce_prepare read_env = Inr read_call" "tool_rule ''read*'' \<in> set (pol_deny ?pol)"
    "pc_requirement read_call = Some (new_requirement (FsPath ''/w/link'') action.Read ''read /w/link'')"
    by (simp_all add: read_env_def read_call_def)
  have "rule_matches (tool_rule ''read*'') (call_request read_env read_call
      (new_requirement (FsPath ''/w/link'') action.Read ''read /w/link''))"
    by code_simp
  from denied_call_never_runs [OF reaches_start p(2,1,3) this h] h show ?thesis by auto
qed

theorem shown_result_within_grants_witness:
  "check_with_usage workspace_token (FsPath ''/w/file'') action.Read 4 (bytes_usage 2) = Some Allow"
proof -
  obtain s' where h: "handle_call workspace_token read_env (new_session default_policy)
      = Some (Ran True ''hi'', s', Some (set_path ''/w/file'' read_call))"
    using read_call_runs by blast
  have c: "check workspace_token (FsPath ''/w/file'') action.Read 4 = Some Allow" by code_simp
  have f: "ce_prepare read_env = Inr read_call"
    "pc_requirement read_call = Some (new_requirement (FsPath ''/w/link'') action.Read ''read /w/link'')"
    "ce_run read_env (set_path ''/w/file'' read_call)
      = Inr \<lparr>to_content = ''hi'', to_ok = True, to_truncated = False, to_bytes_moved = Some 2\<rparr>"
    by (simp_all add: read_env_def read_call_def)
  from shown_result_within_grants [OF h f] c show ?thesis
    by (simp add: new_requirement_def read_env_def)
qed

subsection \<open>A bound that a slow call outlives\<close>

text \<open>\<open>max_bytes_for\<close> answers \<^const>\<open>None\<close> both for no bound and for a token that has expired, and the handler
  takes either for no bound: a call whose token expires while it runs is shown in full, however much it moved.\<close>

lemma expired_token_lifts_the_bound:
  assumes "tok_expires_at tok \<le> ce_bytes_time env"
  shows "check_bytes tok env cl moved = Some None"
  using assms by (auto simp: check_bytes_def max_bytes_for_def split: option.split)

end
