(* ===== verification/Model_Pool.thy ===== *)
theory Model_Pool imports Rust_Float "HOL-Library.Word" "HOL-Library.Multiset"
begin

section \<open>Errors and the pool a spawner draws from\<close>

text \<open>
  \<open>crates/hx-core/src/error.rs\<close> and \<open>crates/hx-core/src/pool.rs\<close>: the workspace's error type with its
  messages, and the round-robin draw over the healthy members of a model pool, with the clamping of
  requested parameters to what a member accepts.  The cursor is a \<open>usize\<close> that wraps.
\<close>

subsection \<open>Errors\<close>

datatype hx_error =
    ConfigError string
  | SecretError string
  | ProviderError string
  | ProviderRejected string string
  | ProviderAuth string string
  | RateLimited string nat
  | CapabilityDenied string
  | RemoteError string
  | SandboxError string
  | ToolError string
  | SearchError string string
  | ConnectorError string string
  | NoRoute string
  | NotFound string
  | TooLargeError string nat nat
  | StoreError string
  | DecisionError string
  | IoError string
  | SerdeError string
  | YamlError string

fun error_text :: "hx_error \<Rightarrow> string" where
  "error_text (ConfigError e) = ''configuration error: '' @ e"
| "error_text (SecretError e) = ''secret error: '' @ e"
| "error_text (ProviderError e) = ''provider error: '' @ e"
| "error_text (ProviderRejected p why) = ''provider '' @ p @ '' rejected the request: '' @ why"
| "error_text (ProviderAuth p why) = ''provider '' @ p @ '' rejected the credential: '' @ why"
| "error_text (RateLimited scope ms) =
     ''rate limited on '' @ scope @ ''; retry after '' @ show_nat ms @ ''ms''"
| "error_text (CapabilityDenied e) = ''capability denied: '' @ e"
| "error_text (RemoteError e) = ''remote host error: '' @ e"
| "error_text (SandboxError e) = ''sandbox error: '' @ e"
| "error_text (ToolError e) = ''tool error: '' @ e"
| "error_text (SearchError b why) = ''search backend '' @ b @ '' failed: '' @ why"
| "error_text (ConnectorError c why) = ''connector '' @ c @ '' failed: '' @ why"
| "error_text (NoRoute e) = ''no route to a model: '' @ e"
| "error_text (NotFound e) = ''not found: '' @ e"
| "error_text (TooLargeError what amount limit) =
     what @ '' is '' @ show_nat amount @ '' bytes, over the '' @ show_nat limit @ ''-byte limit''"
| "error_text (StoreError e) = ''store error: '' @ e"
| "error_text (DecisionError e) = ''laya sidecar error: '' @ e"
| "error_text (IoError e) = ''io error: '' @ e"
| "error_text (SerdeError e) = ''serialization error: '' @ e"
| "error_text (YamlError e) = ''yaml error: '' @ e"

fun is_retryable :: "hx_error \<Rightarrow> bool" where
  "is_retryable (RateLimited _ _) = True"
| "is_retryable (IoError _) = True"
| "is_retryable (ProviderError _) = True"
| "is_retryable _ = False"

fun is_auth_failure :: "hx_error \<Rightarrow> bool" where
  "is_auth_failure (SecretError _) = True"
| "is_auth_failure (ProviderAuth _ _) = True"
| "is_auth_failure _ = False"

fun member_death :: "hx_error \<Rightarrow> bool" where
  "member_death (ProviderError _) = True"
| "member_death (RateLimited _ _) = True"
| "member_death (ProviderAuth _ _) = True"
| "member_death _ = False"

subsection \<open>Parameters and clamping\<close>

datatype reasoning_effort = LowEffort | MediumEffort | HighEffort

datatype param = ReasoningEffort reasoning_effort

datatype param_kind = ReasoningEffortKind

fun param_kind_of :: "param \<Rightarrow> param_kind" where
  "param_kind_of (ReasoningEffort _) = ReasoningEffortKind"

fun ordinal :: "param \<Rightarrow> int" where
  "ordinal (ReasoningEffort LowEffort) = 0"
| "ordinal (ReasoningEffort MediumEffort) = 1"
| "ordinal (ReasoningEffort HighEffort) = 2"

record param_clamp =
  pc_requested :: param
  pc_sent :: "param option"

record effective_params =
  ep_params :: "param list"
  ep_clamps :: "param_clamp list"

datatype member_health = Healthy | Down string datetime

record pool_member =
  pm_id :: string
  pm_provider :: string
  pm_model :: string
  pm_base_url :: string
  pm_credential :: string
  pm_accepts :: "param list"
  pm_health :: member_health

text \<open>\<open>min_by_key\<close> keeps the first of equal minima, as \<^const>\<open>arg_min_list\<close> does.\<close>

fun clamp :: "pool_member \<Rightarrow> param list \<Rightarrow> effective_params" where
  "clamp m [] = \<lparr>ep_params = [], ep_clamps = []\<rparr>"
| "clamp m (p # ps) =
     (let rest = clamp m ps;
          same_kind = filter (\<lambda>a. param_kind_of a = param_kind_of p) (pm_accepts m)
      in if p \<in> set (pm_accepts m) then rest\<lparr>ep_params := p # ep_params rest\<rparr>
         else if same_kind = [] then
           rest\<lparr>ep_clamps := \<lparr>pc_requested = p, pc_sent = None\<rparr> # ep_clamps rest\<rparr>
         else
           (let nearest = arg_min_list (\<lambda>a. \<bar>ordinal a - ordinal p\<bar>) same_kind
            in rest\<lparr>ep_params := nearest # ep_params rest,
                    ep_clamps := \<lparr>pc_requested = p, pc_sent = Some nearest\<rparr> # ep_clamps rest\<rparr>))"

subsection \<open>Drawing\<close>

datatype draw_error = EmptyPool | AllDown "(string \<times> string) list"

record model_pool =
  mp_members :: "pool_member list"
  mp_cursor :: "64 word"

definition new_model_pool :: "pool_member list \<Rightarrow> model_pool" where [hx_defs]:
  "new_model_pool ms = \<lparr>mp_members = ms, mp_cursor = 0\<rparr>"

definition healthy_indices :: "pool_member list \<Rightarrow> nat list" where [hx_defs]:
  "healthy_indices ms = map fst (filter (\<lambda>(i, m). pm_health m = Healthy) (enumerate 0 ms))"

definition health_reason :: "pool_member \<Rightarrow> string \<times> string" where [hx_defs]:
  "health_reason m = (pm_id m, case pm_health m of Healthy \<Rightarrow> ''healthy'' | Down why _ \<Rightarrow> why)"

definition draw :: "model_pool \<Rightarrow> (draw_error + pool_member) \<times> model_pool" where [hx_defs]:
  "draw p =
     (let healthy = healthy_indices (mp_members p)
      in if healthy = [] then
           (if mp_members p = [] then (Inl EmptyPool, p)
            else (Inl (AllDown (map health_reason (mp_members p))), p))
         else
           (let idx = healthy ! (unat (mp_cursor p) mod length healthy)
            in (Inr (mp_members p ! idx), p\<lparr>mp_cursor := mp_cursor p + 1\<rparr>)))"

fun update_first :: "string \<Rightarrow> (pool_member \<Rightarrow> pool_member) \<Rightarrow> pool_member list \<Rightarrow> pool_member list" where
  "update_first i f [] = []"
| "update_first i f (m # ms) = (if pm_id m = i then f m # ms else m # update_first i f ms)"

definition mark_down :: "string \<Rightarrow> string \<Rightarrow> datetime \<Rightarrow> model_pool \<Rightarrow> bool \<times> model_pool" where [hx_defs]:
  "mark_down i why now p =
     (i \<in> set (map pm_id (mp_members p)),
      p\<lparr>mp_members := update_first i (\<lambda>m. m\<lparr>pm_health := Down why now\<rparr>) (mp_members p)\<rparr>)"

definition mark_up :: "string \<Rightarrow> model_pool \<Rightarrow> bool \<times> model_pool" where [hx_defs]:
  "mark_up i p =
     (i \<in> set (map pm_id (mp_members p)),
      p\<lparr>mp_members := update_first i (\<lambda>m. m\<lparr>pm_health := Healthy\<rparr>) (mp_members p)\<rparr>)"

record pool_member_config =
  mc_id :: string
  mc_provider :: string
  mc_model :: string
  mc_base_url :: string
  mc_credential :: string
  mc_accepts :: "param list"

definition member_from_config :: "pool_member_config \<Rightarrow> pool_member" where [hx_defs]:
  "member_from_config c =
     \<lparr>pm_id = mc_id c, pm_provider = mc_provider c, pm_model = mc_model c, pm_base_url = mc_base_url c,
      pm_credential = mc_credential c, pm_accepts = mc_accepts c, pm_health = Healthy\<rparr>"

definition pool_from_config :: "pool_member_config list \<Rightarrow> model_pool" where [hx_defs]:
  "pool_from_config cs = new_model_pool (map member_from_config cs)"

end
