(* ===== verification/Messages.thy ===== *)
theory Messages imports Router Model_Pool
begin

section \<open>Messages and requests\<close>

text \<open>
  \<open>crates/hx-core/src/message.rs\<close> and the request of \<open>crates/hx-provider/src/provider.rs\<close>.  The JSON
  of a tool call's arguments and of a tool's schema is its text; the temperature, which nothing modelled sets, is left out.
\<close>

datatype role = System | User | Assistant | Tool

datatype part =
    Text string
  | Image string string
  | ToolCall string string string
  | ToolResult string bool string

fun as_text :: "part \<Rightarrow> string option" where
  "as_text (Text t) = Some t"
| "as_text _ = None"

fun is_tool_call :: "part \<Rightarrow> bool" where
  "is_tool_call (ToolCall _ _ _) = True"
| "is_tool_call _ = False"

record message =
  msg_role :: role
  msg_parts :: "part list"

definition new_message :: "role \<Rightarrow> part list \<Rightarrow> message" where [hx_defs]:
  "new_message r ps = \<lparr>msg_role = r, msg_parts = ps\<rparr>"

definition system_message :: "string \<Rightarrow> message" where [hx_defs]:
  "system_message t = new_message System [Text t]"

definition user_message :: "string \<Rightarrow> message" where [hx_defs]:
  "user_message t = new_message User [Text t]"

definition assistant_message :: "string \<Rightarrow> message" where [hx_defs]:
  "assistant_message t = new_message Assistant [Text t]"

definition tool_result :: "string \<Rightarrow> bool \<Rightarrow> string \<Rightarrow> message" where [hx_defs]:
  "tool_result i ok content = new_message Tool [ToolResult i ok content]"

fun part_text :: "part \<Rightarrow> string" where
  "part_text (Text t) = t"
| "part_text (ToolResult _ _ content) = content"
| "part_text _ = []"

definition message_text :: "message \<Rightarrow> string" where [hx_defs]:
  "message_text m = concat (map part_text (msg_parts m))"

definition tool_calls :: "message \<Rightarrow> part list" where [hx_defs]:
  "tool_calls m = filter is_tool_call (msg_parts m)"

definition has_tool_call :: "message \<Rightarrow> bool" where [hx_defs]:
  "has_tool_call m = list_ex is_tool_call (msg_parts m)"

definition char_count :: "string \<Rightarrow> nat" where [hx_defs]:
  "char_count s = length (chars s)"

fun part_chars :: "part \<Rightarrow> nat" where
  "part_chars (Text t) = char_count t"
| "part_chars (Image mime data) = length data div 4"
| "part_chars (ToolCall i name arguments) = char_count name + char_count arguments"
| "part_chars (ToolResult i ok content) = char_count content"

definition div_ceil :: "nat \<Rightarrow> nat \<Rightarrow> nat" where [hx_defs]:
  "div_ceil a b = (a + b - 1) div b"

definition message_tokens :: "message \<Rightarrow> nat" where [hx_defs]:
  "message_tokens m = div_ceil (sum_list (map part_chars (msg_parts m))) 4 + 4"

definition approximate_tokens :: "message list \<Rightarrow> nat" where [hx_defs]:
  "approximate_tokens ms = sum_list (map message_tokens ms)"

subsection \<open>Requests\<close>

record tool_spec =
  ts_name :: string
  ts_description :: string
  ts_schema :: string

record chat_request =
  cr_model :: string
  cr_system :: "string option"
  cr_messages :: "message list"
  cr_tools :: "tool_spec list"
  cr_max_tokens :: nat
  cr_reasoning_effort :: "reasoning_effort option"

definition new_chat_request :: "string \<Rightarrow> message list \<Rightarrow> chat_request" where [hx_defs]:
  "new_chat_request model ms =
     \<lparr>cr_model = model, cr_system = None, cr_messages = ms, cr_tools = [], cr_max_tokens = 4096,
      cr_reasoning_effort = None\<rparr>"

definition with_reasoning_effort :: "reasoning_effort \<Rightarrow> chat_request \<Rightarrow> chat_request" where [hx_defs]:
  "with_reasoning_effort effort r = r\<lparr>cr_reasoning_effort := Some effort\<rparr>"

definition reservation_tokens :: "chat_request \<Rightarrow> nat" where [hx_defs]:
  "reservation_tokens r =
     approximate_tokens (cr_messages r) + length (cr_messages r) * 4
     + (case cr_system r of None \<Rightarrow> 0 | Some s \<Rightarrow> char_count s div 4 + 4)
     + sum_list (map (\<lambda>t. (length (ts_name t) + length (ts_description t) + length (ts_schema t)) div 4 + 8)
         (cr_tools r))
     + cr_max_tokens r"

text \<open>A model's reply; the finish reason and the raw payload are not read by what is modelled.\<close>

record chat_response =
  rs_message :: message
  rs_usage :: usage
  rs_model :: string

end
