(* ===== verification/Compaction.thy ===== *)
theory Compaction imports Messages
begin

section \<open>What of a transcript is sent\<close>

text \<open>
  \<open>crates/hx-agent/src/compact.rs\<close> and \<open>crates/hx-agent/src/context.rs\<close>: past a threshold of estimated
  tokens the middle of the transcript is replaced by a marker, cut so that no tool call is parted from
  its result; and the facts of which theorems speak: what is sent is complete if the transcript is.
\<close>

fun call_ids :: "part list \<Rightarrow> string list" where
  "call_ids [] = []"
| "call_ids (ToolCall i _ _ # ps) = i # call_ids ps"
| "call_ids (_ # ps) = call_ids ps"

fun result_ids :: "part list \<Rightarrow> string list" where
  "result_ids [] = []"
| "result_ids (ToolResult i _ _ # ps) = i # result_ids ps"
| "result_ids (_ # ps) = result_ids ps"

definition called :: "message list \<Rightarrow> string set" where [hx_defs]:
  "called ms = set (concat (map (\<lambda>m. call_ids (msg_parts m)) ms))"

definition answered :: "message list \<Rightarrow> string set" where [hx_defs]:
  "answered ms = set (concat (map (\<lambda>m. result_ids (msg_parts m)) ms))"

definition is_pair_safe :: "message list \<Rightarrow> bool" where [hx_defs]:
  "is_pair_safe ms \<longleftrightarrow> called ms = answered ms"

definition keep_head :: nat where [hx_defs]: "keep_head = 2"

definition keep_tail :: nat where [hx_defs]: "keep_tail = 12"

fun walk_head :: "message list \<Rightarrow> nat \<Rightarrow> nat" where
  "walk_head ms 0 = 0"
| "walk_head ms (Suc n) = (if is_pair_safe (take (Suc n) ms) then Suc n else walk_head ms n)"

definition safe_head_end :: "message list \<Rightarrow> nat \<Rightarrow> nat" where [hx_defs]:
  "safe_head_end ms want = walk_head ms (min want (length ms))"

function walk_tail :: "message list \<Rightarrow> nat \<Rightarrow> nat" where
  "walk_tail ms start =
     (if start < length ms \<and> \<not> is_pair_safe (drop start ms) then walk_tail ms (Suc start) else start)"
  by pat_completeness auto
termination by (relation "measure (\<lambda>(ms, start). length ms - start)") auto

declare walk_tail.simps [simp del]

definition safe_tail_start :: "message list \<Rightarrow> nat \<Rightarrow> nat" where [hx_defs]:
  "safe_tail_start ms want = walk_tail ms (length ms - want)"

definition elision_marker :: "nat \<Rightarrow> message" where [hx_defs]:
  "elision_marker elided = new_message Assistant
     [Text (''[The middle of this conversation '' @ em_dash @ '' '' @ show_nat elided
       @ '' message(s) '' @ em_dash @ '' was elided to fit the context window. ''
       @ ''The full transcript is retained in the session store. Continue ''
       @ ''from the current state below, and re-derive anything you need from the tools ''
       @ ''rather than assuming you remember what was trimmed.]'')]"

record compacted =
  cm_messages :: "message list"
  cm_head :: nat
  cm_tail :: nat
  cm_elided :: nat

definition compact_at :: "message list \<Rightarrow> nat \<Rightarrow> compacted" where [hx_defs]:
  "compact_at ms limit =
     (let whole = \<lparr>cm_messages = ms, cm_head = length ms, cm_tail = 0, cm_elided = 0\<rparr>;
          h = safe_head_end ms keep_head;
          t = safe_tail_start ms keep_tail
      in if limit = 0 \<or> approximate_tokens ms \<le> limit then whole
         else if t \<le> h then whole
         else \<lparr>cm_messages = take h ms @ [elision_marker (t - h)] @ drop t ms,
               cm_head = h, cm_tail = length (drop t ms), cm_elided = t - h\<rparr>)"

record context_facts =
  cf_system :: "string option"
  cf_tools :: "tool_spec list"
  cf_max_tokens :: nat
  cf_compact_at_tokens :: nat

definition messages_for :: "context_facts \<Rightarrow> message list \<Rightarrow> message list" where [hx_defs]:
  "messages_for facts ms =
     (if cf_compact_at_tokens facts = 0 then ms
      else cm_messages (compact_at ms (cf_compact_at_tokens facts)))"

definition context_request :: "context_facts \<Rightarrow> string \<Rightarrow> message list \<Rightarrow> chat_request" where [hx_defs]:
  "context_request facts model ms =
     (let r = (new_chat_request model (messages_for facts ms))\<lparr>cr_max_tokens := cf_max_tokens facts\<rparr>;
          r = (case cf_system facts of Some s \<Rightarrow> r\<lparr>cr_system := Some s\<rparr> | None \<Rightarrow> r)
      in if cf_tools facts = [] then r else r\<lparr>cr_tools := cf_tools facts\<rparr>)"

subsection \<open>Nothing sent is half an exchange\<close>

lemma called_append [simp]: "called (xs @ ys) = called xs \<union> called ys"
  by (simp add: called_def)

lemma answered_append [simp]: "answered (xs @ ys) = answered xs \<union> answered ys"
  by (simp add: answered_def)

lemma called_Nil [simp]: "called [] = {}" "answered [] = {}"
  by (simp_all add: called_def answered_def)

lemma called_Cons [simp]:
  "called (m # ms) = set (call_ids (msg_parts m)) \<union> called ms"
  "answered (m # ms) = set (result_ids (msg_parts m)) \<union> answered ms"
  by (simp_all add: called_def answered_def)

lemma marker_neutral [simp]:
  "call_ids (msg_parts (elision_marker n)) = []" "result_ids (msg_parts (elision_marker n)) = []"
  by (simp_all add: elision_marker_def new_message_def)

lemma walk_head_safe: "is_pair_safe (take (walk_head ms n) ms) \<and> walk_head ms n \<le> n"
  by (induction n) (auto simp: is_pair_safe_def)

lemma walk_tail_safe: "start \<le> length ms \<Longrightarrow>
    is_pair_safe (drop (walk_tail ms start) ms) \<and> start \<le> walk_tail ms start \<and> walk_tail ms start \<le> length ms"
proof (induction ms start rule: walk_tail.induct)
  case (1 ms start)
  show ?case
  proof (cases "start < length ms \<and> \<not> is_pair_safe (drop start ms)")
    case True
    with 1 show ?thesis by (subst (1 2 3) walk_tail.simps) simp
  next
    case False
    then have "is_pair_safe (drop start ms)" using "1.prems" by (cases "start < length ms") (auto simp: is_pair_safe_def)
    then show ?thesis using False "1.prems" by (subst (1 2 3) walk_tail.simps) auto
  qed
qed

lemma compact_at_cases:
  obtains (whole) "cm_messages (compact_at ms k) = ms" "cm_elided (compact_at ms k) = 0"
  | (cut) h t where "cm_messages (compact_at ms k) = take h ms @ [elision_marker (t - h)] @ drop t ms"
      "cm_elided (compact_at ms k) = t - h" "h \<le> keep_head" "length ms - keep_tail \<le> t" "h < t" "t \<le> length ms"
      "is_pair_safe (take h ms)" "is_pair_safe (drop t ms)"
proof -
  let ?h = "safe_head_end ms keep_head" and ?t = "safe_tail_start ms keep_tail"
  have h: "is_pair_safe (take ?h ms) \<and> ?h \<le> keep_head"
    using walk_head_safe [of ms "min keep_head (length ms)"] by (simp add: safe_head_end_def)
  have t: "is_pair_safe (drop ?t ms) \<and> length ms - keep_tail \<le> ?t \<and> ?t \<le> length ms"
    using walk_tail_safe [of "length ms - keep_tail" ms] by (simp add: safe_tail_start_def)
  show thesis
  proof (cases "k = 0 \<or> approximate_tokens ms \<le> k \<or> ?t \<le> ?h")
    case True
    then show ?thesis by (intro whole) (auto simp: compact_at_def Let_def)
  next
    case False
    then show ?thesis using h t by (intro cut [of ?h ?t]) (auto simp: compact_at_def Let_def)
  qed
qed

lemma compact_keeps_pairs: "is_pair_safe ms \<Longrightarrow> is_pair_safe (messages_for facts ms)"
proof (cases rule: compact_at_cases [of ms "cf_compact_at_tokens facts"])
  case whole
  assume "is_pair_safe ms"
  then show ?thesis by (simp add: messages_for_def whole)
next
  case (cut h t)
  assume "is_pair_safe ms"
  moreover have "is_pair_safe (take h ms @ [elision_marker (t - h)] @ drop t ms)"
    using cut(7,8) by (simp add: is_pair_safe_def)
  ultimately show ?thesis by (simp add: messages_for_def cut(1))
qed

text \<open>What is sent for a transcript in which every tool call has its result is a transcript of which the
  same holds: either all of it, or at most its first two and its last twelve messages, each part
  complete, around a marker that states how many messages were left out.\<close>

theorem compaction_is_sendable:
  assumes "is_pair_safe ms"
  shows "is_pair_safe (cm_messages (compact_at ms k))
    \<and> (cm_messages (compact_at ms k) = ms
       \<or> (\<exists>h t. cm_messages (compact_at ms k) = take h ms @ [elision_marker (t - h)] @ drop t ms
            \<and> h < t \<and> t \<le> length ms \<and> h \<le> 2 \<and> length ms \<le> t + 12
            \<and> is_pair_safe (take h ms) \<and> is_pair_safe (drop t ms)
            \<and> cm_elided (compact_at ms k) = t - h))"
proof (cases rule: compact_at_cases [of ms k])
  case whole
  then show ?thesis using assms by simp
next
  case (cut h t)
  then have "h < t \<and> t \<le> length ms \<and> h \<le> 2 \<and> length ms \<le> t + 12" by (simp add: keep_head_def keep_tail_def)
  moreover have "is_pair_safe (cm_messages (compact_at ms k))" using cut by (simp add: is_pair_safe_def)
  ultimately show ?thesis using cut by blast
qed

definition long_talk :: "message list" where
  "long_talk = replicate 20 (user_message ''hello'')"

theorem compaction_is_sendable_witness:
  "is_pair_safe (cm_messages (compact_at long_talk 10)) \<and> cm_elided (compact_at long_talk 10) = 6"
proof -
  have "is_pair_safe long_talk" by code_simp
  moreover have "cm_elided (compact_at long_talk 10) = 6" by code_simp
  ultimately show ?thesis using compaction_is_sendable by blast
qed

text \<open>The threshold is where shrinking starts, not a bound on what is sent: up to fourteen messages whose
  first two are complete are sent whole, whatever their size.\<close>

lemma short_transcript_is_never_cut:
  assumes "length ms \<le> 14" "is_pair_safe (take 2 ms)" "is_pair_safe (drop (length ms - 12) ms)" "2 \<le> length ms"
  shows "cm_messages (compact_at ms k) = ms"
proof -
  have "safe_head_end ms keep_head = 2"
    using assms(2,4) by (simp add: safe_head_end_def keep_head_def min_def numeral_2_eq_2)
  moreover have "safe_tail_start ms keep_tail \<le> 2"
    using assms(1,3) by (simp add: safe_tail_start_def keep_tail_def) (subst walk_tail.simps, simp)
  ultimately show ?thesis by (simp add: compact_at_def Let_def)
qed

text \<open>The test of completeness compares sets of identifiers.  Where a provider uses one identifier twice, a
  tail that begins with a result whose call was elided passes for complete.\<close>

lemma repeated_identifier_hides_an_orphan:
  "is_pair_safe [tool_result ''c'' True ''old'', new_message Assistant [ToolCall ''c'' ''f'' ''{}''], tool_result ''c'' True ''new'']"
  by (simp add: is_pair_safe_def tool_result_def new_message_def)

end
