(* ===== verification/Agent_Loop.thy ===== *)
theory Agent_Loop imports Agent_Gate_Facts Compaction
begin

section \<open>The agent loop\<close>

text \<open>
  \<open>run\<close> of \<open>crates/hx-agent/src/agent.rs\<close>: up to a number of turns, each asks the model with what of
  the transcript is sent, appends its answer, and takes every tool call of it through the gate
  of \<open>Agent_Gate\<close>, whose outcome it appends as the result.

  What comes from outside is the record \<open>agent_env\<close>, by turn (counted from 1) and call (from 0).  A
  panic inside the token check is \<^const>\<open>None\<close>; an \<open>Err\<close> is \<open>Inl\<close>.  The transcript is the caller's, so
  it is returned with either.  Of the events those of the loop are modelled, without the
  agent's name and the durations; the gate's two events about a question are not.  \<open>say\<close> is the
  \<open>Display\<close> text of a refusal by the token.
\<close>

record agent_limits =
  lim_max_turns :: nat
  lim_deadline :: "datetime option"
  lim_max_tokens :: nat
  lim_compact_at_tokens :: nat

definition default_agent_limits :: agent_limits where [hx_defs]:
  "default_agent_limits = \<lparr>lim_max_turns = 24, lim_deadline = Some (600 * 1000000000), lim_max_tokens = 4096,
     lim_compact_at_tokens = 120000\<rparr>"

datatype stop_reason = Completed | MaxTurns | BudgetExhausted | Cancelled | StopError

record run_outcome =
  out_stop :: stop_reason
  out_turns :: nat
  out_usage :: usage
  out_final_text :: string
  out_tool_calls :: nat
  out_refusals :: nat
  out_dropped_events :: nat

datatype agent_event =
    SessionStarted string datetime
  | TurnStarted nat
  | TextDelta string
  | MessageReceived "string option" string
  | ReasoningDelta string
  | ToolCallStarted string string string
  | ToolCallFinished string bool string
  | ApprovalRequested string string string "target list"
  | ApprovalResolved string bool string
  | UsageReported string string string nat nat f64
  | TurnFinished nat stop_reason
  | ErrorEvent string

record agent_env =
  ae_elapsed :: "nat \<Rightarrow> datetime"
  ae_spent :: "nat \<Rightarrow> f64"
  ae_model :: "nat \<Rightarrow> string"
  ae_provider :: "nat \<Rightarrow> string"
  ae_credential :: "nat \<Rightarrow> string"
  ae_complete :: "nat \<Rightarrow> chat_request \<Rightarrow> hx_error + chat_response"
  ae_late :: "nat \<Rightarrow> bool"
  ae_call :: "nat \<Rightarrow> nat \<Rightarrow> string \<Rightarrow> string \<Rightarrow> call_env"
  ae_sink :: "message \<Rightarrow> hx_error option"

record agent_loop =
  al_capability :: capability_token
  al_limits :: agent_limits
  al_system :: "string option"
  al_tools :: "tool_spec list"
  al_say :: "deny_reason \<Rightarrow> string"

text \<open>The state of a run: what it changes, and beside it what was asked of the model and which calls were run.\<close>

record run_state =
  st_transcript :: "message list"
  st_session :: approval_session
  st_usage :: usage
  st_tool_calls :: nat
  st_refusals :: nat
  st_events :: "agent_event list"
  st_asked :: "(nat \<times> chat_request) list"
  st_ran :: "(call_env \<times> prepared_call) list"

definition start_run :: "message list \<Rightarrow> approval_session \<Rightarrow> run_state" where [hx_defs]:
  "start_run ms s = \<lparr>st_transcript = ms, st_session = s,
     st_usage = \<lparr>input_tokens = 0, output_tokens = 0, cached_input_tokens = 0, reasoning_tokens = 0\<rparr>,
     st_tool_calls = 0, st_refusals = 0, st_events = [], st_asked = [], st_ran = []\<rparr>"

definition emit :: "agent_event \<Rightarrow> run_state \<Rightarrow> run_state" where [hx_defs]:
  "emit e s = s\<lparr>st_events := st_events s @ [e]\<rparr>"

definition last_assistant_text :: "message list \<Rightarrow> string" where [hx_defs]:
  "last_assistant_text ms =
     (case List.find (\<lambda>m. msg_role m = Assistant) (rev ms) of Some m \<Rightarrow> message_text m | None \<Rightarrow> [])"

definition context_facts_of :: "agent_loop \<Rightarrow> context_facts" where [hx_defs]:
  "context_facts_of a = \<lparr>cf_system = al_system a, cf_tools = al_tools a,
     cf_max_tokens = lim_max_tokens (al_limits a), cf_compact_at_tokens = lim_compact_at_tokens (al_limits a)\<rparr>"

definition append_message :: "agent_env \<Rightarrow> message \<Rightarrow> run_state \<Rightarrow> hx_error option \<times> run_state" where [hx_defs]:
  "append_message env m s = (case ae_sink env m of
     Some err \<Rightarrow> (Some err, s)
   | None \<Rightarrow> (None, s\<lparr>st_transcript := st_transcript s @ [m]\<rparr>))"

subsection \<open>What a refusal says\<close>

fun tool_error_text :: "tool_error \<Rightarrow> string" where
  "tool_error_text (Arguments m) = ''argument error: '' @ m"
| "tool_error_text (Unavailable m) = m"

definition not_retryable :: string where [hx_defs]:
  "not_retryable = ''This is not something you can retry '' @ em_dash @ '' ask the operator to widen the grant.''"

fun refusal_text :: "(deny_reason \<Rightarrow> string) \<Rightarrow> string \<Rightarrow> call_refusal \<Rightarrow> string" where
  "refusal_text say name (Not_Prepared e) = ''could not run '' @ name @ '': '' @ tool_error_text e"
| "refusal_text say name (Not_Covered why) =
     ''refused: the agent's capability does not cover this ('' @ say why @ ''). '' @ not_retryable"
| "refusal_text say name (Symlink_Escape path canonical) =
     ''refused: '' @ path @ '' resolves to '' @ canonical
     @ '', outside the agent's filesystem grants (symlink escape). '' @ not_retryable"
| "refusal_text say name (By_Policy why) = ''refused by policy: '' @ why"
| "refusal_text say name (By_Answer who why) = ''refused by '' @ who @ '': '' @ why"
| "refusal_text say name (Moved_Outside path canonical mutating) =
     ''refused: '' @ path @ '' now resolves to '' @ canonical
     @ '', outside the agent's filesystem grants (the path changed between check and open).''
     @ (if mutating then '' The effect may already have landed outside the grant; ''
          @ ''treat the target as untrusted and have the operator inspect it.'' else [])
     @ '' '' @ not_retryable"
| "refusal_text say name (Over_Bound moved cap mutating) =
     ''refused: the call moved '' @ show_nat moved @ '' bytes, over the '' @ show_nat cap @ ''-byte grant bound.''
     @ (if mutating then '' The write already landed; nothing about it is shown.'' else [])
     @ '' '' @ not_retryable"
| "refusal_text say name (Bad_Arguments m) = ''the arguments were not usable: '' @ m"
| "refusal_text say name (Tool_Unavailable m) = m"

subsection \<open>A turn\<close>

text \<open>The calls of one answer, in order.  The result of a call is appended before the next one is looked at.\<close>

fun calls_of :: "part list \<Rightarrow> (string \<times> string \<times> string) list" where
  "calls_of [] = []"
| "calls_of (ToolCall i name arguments # ps) = (i, name, arguments) # calls_of ps"
| "calls_of (_ # ps) = calls_of ps"

definition run_one_call ::
  "agent_loop \<Rightarrow> agent_env \<Rightarrow> nat \<Rightarrow> nat \<Rightarrow> string \<times> string \<times> string \<Rightarrow> run_state
   \<Rightarrow> (hx_error option \<times> run_state) option" where [hx_defs]:
  "run_one_call a env turn k call s = (case call of (i, name, arguments) \<Rightarrow>
     (let s = emit (ToolCallStarted i name arguments) s;
          cenv = ae_call env turn k name arguments
      in case handle_call (al_capability a) cenv (st_session s) of
        None \<Rightarrow> None
      | Some (outcome, session, performed) \<Rightarrow>
          (let s = s\<lparr>st_session := session, st_ran := st_ran s @ (case performed of Some p \<Rightarrow> [(cenv, p)] | None \<Rightarrow> [])\<rparr>;
               (ok, summary, s) = (case outcome of
                   Ran ok content \<Rightarrow> (ok, content, s\<lparr>st_tool_calls := st_tool_calls s + 1\<rparr>)
                 | Refused why \<Rightarrow>
                     (False, refusal_text (al_say a) name why, s\<lparr>st_refusals := st_refusals s + 1\<rparr>))
           in case append_message env (tool_result i ok summary) s of
             (Some err, s) \<Rightarrow> Some (Some err, s)
           | (None, s) \<Rightarrow> Some (None, emit (ToolCallFinished i ok summary) s))))"

fun run_calls ::
  "agent_loop \<Rightarrow> agent_env \<Rightarrow> nat \<Rightarrow> nat \<Rightarrow> (string \<times> string \<times> string) list \<Rightarrow> run_state
   \<Rightarrow> (hx_error option \<times> run_state) option" where
  "run_calls a env turn k [] s = Some (None, s)"
| "run_calls a env turn k (call # calls) s = (case run_one_call a env turn k call s of
     None \<Rightarrow> None
   | Some (Some err, s) \<Rightarrow> Some (Some err, s)
   | Some (None, s) \<Rightarrow> run_calls a env turn (Suc k) calls s)"

definition outcome_of :: "stop_reason \<Rightarrow> nat \<Rightarrow> string \<Rightarrow> run_state \<Rightarrow> run_outcome" where [hx_defs]:
  "outcome_of stop turns final s = \<lparr>out_stop = stop, out_turns = turns, out_usage = st_usage s,
     out_final_text = final, out_tool_calls = st_tool_calls s, out_refusals = st_refusals s, out_dropped_events = 0\<rparr>"

definition budget_stop :: "nat \<Rightarrow> run_state \<Rightarrow> run_outcome \<times> run_state" where [hx_defs]:
  "budget_stop turn s =
     (outcome_of BudgetExhausted (turn - 1) (last_assistant_text (st_transcript s)) s,
      emit (TurnFinished turn BudgetExhausted) s)"

definition past_deadline :: "agent_loop \<Rightarrow> agent_env \<Rightarrow> nat \<Rightarrow> bool" where [hx_defs]:
  "past_deadline a env turn =
     (case lim_deadline (al_limits a) of Some d \<Rightarrow> d \<le> ae_elapsed env turn | None \<Rightarrow> False)"

definition overspent :: "agent_loop \<Rightarrow> agent_env \<Rightarrow> nat \<Rightarrow> bool" where [hx_defs]:
  "overspent a env turn =
     (case provider_budget_usd (al_capability a) of Some limit \<Rightarrow> limit < ae_spent env turn | None \<Rightarrow> False)"

definition add_usage :: "usage \<Rightarrow> usage \<Rightarrow> usage" where [hx_defs]:
  "add_usage u v = \<lparr>input_tokens = input_tokens u + input_tokens v, output_tokens = output_tokens u + output_tokens v,
     cached_input_tokens = cached_input_tokens u + cached_input_tokens v,
     reasoning_tokens = reasoning_tokens u + reasoning_tokens v\<rparr>"

definition ask_model :: "agent_loop \<Rightarrow> agent_env \<Rightarrow> nat \<Rightarrow> run_state \<Rightarrow> (hx_error + chat_response) option \<times> run_state"
  where [hx_defs]:
  "ask_model a env turn s =
     (let request = context_request (context_facts_of a) (ae_model env turn) (st_transcript s);
          s = s\<lparr>st_asked := st_asked s @ [(turn, request)]\<rparr>
      in (if lim_deadline (al_limits a) \<noteq> None \<and> ae_late env turn then None
          else Some (ae_complete env turn request), s))"

text \<open>What a turn does with the answer, up to the calls: the usage, the text, and the message itself.\<close>

definition take_answer :: "agent_env \<Rightarrow> nat \<Rightarrow> chat_response \<Rightarrow> run_state \<Rightarrow> hx_error option \<times> run_state" where [hx_defs]:
  "take_answer env turn response s =
     (let s = s\<lparr>st_usage := add_usage (st_usage s) (rs_usage response)\<rparr>;
          s = emit (UsageReported (ae_provider env turn) (ae_credential env turn) (rs_model response)
                (input_tokens (rs_usage response)) (output_tokens (rs_usage response)) 0) s;
          content = message_text (rs_message response);
          s = (if content = [] then s else emit (TextDelta content) s)
      in append_message env (rs_message response) s)"

text \<open>The loop over the turns that are left.\<close>

fun run_turns ::
  "agent_loop \<Rightarrow> agent_env \<Rightarrow> nat list \<Rightarrow> run_state \<Rightarrow> ((hx_error + run_outcome) \<times> run_state) option" where
  "run_turns a env [] s =
     (let turns = lim_max_turns (al_limits a);
          s = emit (TurnFinished turns MaxTurns) s
      in Some (Inr (outcome_of MaxTurns turns (last_assistant_text (st_transcript s)) s), s))"
| "run_turns a env (turn # rest) s =
     (if past_deadline a env turn \<or> overspent a env turn then
        (case budget_stop turn s of (out, s) \<Rightarrow> Some (Inr out, s))
      else
        (case ask_model a env turn (emit (TurnStarted turn) s) of
           (None, s) \<Rightarrow> (case budget_stop turn s of (out, s) \<Rightarrow> Some (Inr out, s))
         | (Some (Inl err), s) \<Rightarrow> Some (Inl err, emit (ErrorEvent (error_text err)) s)
         | (Some (Inr response), s) \<Rightarrow>
             (let calls = calls_of (msg_parts (rs_message response))
              in case take_answer env turn response s of
                (Some err, s) \<Rightarrow> Some (Inl err, s)
              | (None, s) \<Rightarrow>
                  if calls = [] then
                    Some (Inr (outcome_of Completed turn (message_text (rs_message response)) s),
                          emit (TurnFinished turn Completed) s)
                  else
                    (case run_calls a env turn 0 calls s of
                       None \<Rightarrow> None
                     | Some (Some err, s) \<Rightarrow> Some (Inl err, s)
                     | Some (None, s) \<Rightarrow> run_turns a env rest s))))"

definition run_agent ::
  "agent_loop \<Rightarrow> agent_env \<Rightarrow> message list \<Rightarrow> approval_session
   \<Rightarrow> ((hx_error + run_outcome) \<times> run_state) option" where [hx_defs]:
  "run_agent a env ms s = run_turns a env [1..<Suc (lim_max_turns (al_limits a))] (start_run ms s)"

end
