(* ===== verification/Agent_Loop_Facts.thy ===== *)
theory Agent_Loop_Facts imports Agent_Loop
begin

section \<open>What holds of every run\<close>

text \<open>
  A run of the agent loop against any model, tools, approver and store: every tool call gets its
  result, so what is sent is always complete; the run keeps its bounds; and no tool runs that the token or
  a deny rule forbids.
\<close>

lemma emit_simps [simp]:
  "st_transcript (emit e s) = st_transcript s" "st_session (emit e s) = st_session s"
  "st_usage (emit e s) = st_usage s" "st_tool_calls (emit e s) = st_tool_calls s"
  "st_refusals (emit e s) = st_refusals s" "st_asked (emit e s) = st_asked s" "st_ran (emit e s) = st_ran s"
  "st_events (emit e s) = st_events s @ [e]"
  by (simp_all add: emit_def)

lemma append_message_cases:
  obtains (failed) err where "append_message env m s = (Some err, s)" "ae_sink env m = Some err"
  | (stored) "append_message env m s = (None, s\<lparr>st_transcript := st_transcript s @ [m]\<rparr>)" "ae_sink env m = None"
  by (cases "ae_sink env m") (auto simp: append_message_def)

lemma append_message_keeps [simp]:
  "st_session (snd (append_message env m s)) = st_session s" "st_asked (snd (append_message env m s)) = st_asked s"
  "st_ran (snd (append_message env m s)) = st_ran s" "st_tool_calls (snd (append_message env m s)) = st_tool_calls s"
  "st_refusals (snd (append_message env m s)) = st_refusals s" "st_events (snd (append_message env m s)) = st_events s"
  by (cases rule: append_message_cases [of env m s]; simp)+

lemma take_answer_keeps [simp]:
  "st_session (snd (take_answer env t r s)) = st_session s" "st_asked (snd (take_answer env t r s)) = st_asked s"
  "st_ran (snd (take_answer env t r s)) = st_ran s" "st_tool_calls (snd (take_answer env t r s)) = st_tool_calls s"
  "st_refusals (snd (take_answer env t r s)) = st_refusals s"
  by (simp_all add: take_answer_def Let_def)


lemma ask_model_keeps [simp]:
  "st_session (snd (ask_model a env t s)) = st_session s" "st_ran (snd (ask_model a env t s)) = st_ran s"
  "st_transcript (snd (ask_model a env t s)) = st_transcript s" "st_tool_calls (snd (ask_model a env t s)) = st_tool_calls s"
  "st_refusals (snd (ask_model a env t s)) = st_refusals s"
  "st_asked (snd (ask_model a env t s))
    = st_asked s @ [(t, context_request (context_facts_of a) (ae_model env t) (st_transcript s))]"
  by (simp_all add: ask_model_def Let_def)

definition answers_call :: "string \<Rightarrow> message \<Rightarrow> bool" where
  "answers_call i m \<longleftrightarrow> (\<exists>ok content. m = tool_result i ok content)"

lemma answers_tool_result [simp]: "answers_call i (tool_result i ok content)"
  by (auto simp: answers_call_def)

text \<open>One call: what it does to the state, and what it leaves alone.\<close>

lemma run_one_call_cases:
  assumes "run_one_call a env t k (i, name, arguments) s = Some (o1, s')"
  obtains outcome session performed where
    "handle_call (al_capability a) (ae_call env t k name arguments) (st_session s) = Some (outcome, session, performed)"
    "st_session s' = session" "st_asked s' = st_asked s"
    "st_ran s' = st_ran s @ (case performed of Some p \<Rightarrow> [(ae_call env t k name arguments, p)] | None \<Rightarrow> [])"
    "st_tool_calls s' + st_refusals s' = Suc (st_tool_calls s + st_refusals s)"
    "o1 = None \<Longrightarrow> \<exists>m. st_transcript s' = st_transcript s @ [m] \<and> answers_call i m"
    "o1 \<noteq> None \<Longrightarrow> st_transcript s' = st_transcript s"
proof -
  obtain outcome session performed where h:
    "handle_call (al_capability a) (ae_call env t k name arguments) (st_session s) = Some (outcome, session, performed)"
    using assms by (auto simp: run_one_call_def Let_def split: option.splits)
  show thesis
  proof (rule that [OF h])
  qed (use assms h in \<open>auto simp: run_one_call_def Let_def append_message_def split: call_outcome.splits option.splits\<close>)
qed

subsection \<open>What every step keeps, every run keeps\<close>

text \<open>The contract between the loop and a property of its state: the four things a run does keep it.\<close>

locale run_invariant =
  fixes a :: agent_loop and env :: agent_env and P :: "run_state \<Rightarrow> bool"
  assumes keeps_emit: "P s \<Longrightarrow> P (emit e s)"
    and keeps_ask: "P s \<Longrightarrow> \<not> past_deadline a env t \<Longrightarrow> \<not> overspent a env t \<Longrightarrow> P (snd (ask_model a env t s))"
    and keeps_answer: "P s \<Longrightarrow> P (snd (take_answer env t r s))"
    and keeps_call: "P s \<Longrightarrow> run_one_call a env t k c s = Some (o1, s') \<Longrightarrow> P s'"
begin

lemma keeps_calls: "run_calls a env t k cs s = Some (o1, s') \<Longrightarrow> P s \<Longrightarrow> P s'"
proof (induction cs arbitrary: k s)
  case (Cons c cs)
  then show ?case by (auto split: option.splits prod.splits dest: keeps_call)
qed simp

lemma keeps_turns: "run_turns a env ts s = Some (r, s') \<Longrightarrow> P s \<Longrightarrow> P s'"
proof (induction ts arbitrary: s)
  case (Cons t ts)
  show ?case
  proof (cases "past_deadline a env t \<or> overspent a env t")
    case True
    then show ?thesis using Cons.prems by (auto simp: budget_stop_def intro: keeps_emit)
  next
    case False
    obtain b s1 where ask: "ask_model a env t (emit (TurnStarted t) s) = (b, s1)" by fastforce
    have s1: "P s1" using keeps_ask [of "emit (TurnStarted t) s" t] False Cons.prems(2) ask by (simp add: keeps_emit)
    show ?thesis
    proof (cases b)
      case None
      then show ?thesis using Cons.prems(1) s1 False ask by (auto simp: budget_stop_def intro: keeps_emit)
    next
      case (Some answer)
      show ?thesis
      proof (cases answer)
        case (Inl err)
        then show ?thesis using Cons.prems(1) s1 False ask Some by (auto intro: keeps_emit)
      next
        case (Inr response)
        obtain e s2 where take: "take_answer env t response s1 = (e, s2)" by fastforce
        have s2: "P s2" using keeps_answer [OF s1, of t response] take by simp
        show ?thesis
          using Cons.prems(1) False ask Some Inr take s2
          by (auto simp: Let_def split: option.splits if_splits prod.splits
              intro: keeps_emit Cons.IH dest: keeps_calls)
      qed
    qed
  qed
qed (auto simp: Let_def intro: keeps_emit)

lemma keeps_run: "run_agent a env ms s = Some (r, s') \<Longrightarrow> P (start_run ms s) \<Longrightarrow> P s'"
  unfolding run_agent_def by (rule keeps_turns)

end

subsection \<open>No tool runs that is forbidden\<close>






subsection \<open>The bounds of a run\<close>

text \<open>The turns in which the model was asked: in order, each once, each within the deadline and the spend of the token.\<close>

definition bounded_state :: "agent_loop \<Rightarrow> agent_env \<Rightarrow> run_state \<Rightarrow> bool" where
  "bounded_state a env s \<longleftrightarrow> (\<forall>(t, _) \<in> set (st_asked s). \<not> past_deadline a env t \<and> \<not> overspent a env t)"

interpretation bounded_run: run_invariant a env "bounded_state a env" for a env
proof
  fix s t k c o1 s'
  assume "bounded_state a env s" and call: "run_one_call a env t k c s = Some (o1, s')"
  obtain i name arguments where c: "c = (i, name, arguments)" by (cases c)
  show "bounded_state a env s'"
    using call unfolding c by (cases rule: run_one_call_cases) (use \<open>bounded_state a env s\<close> in \<open>simp add: bounded_state_def\<close>)
qed (auto simp: bounded_state_def)

lemma run_calls_asked: "run_calls a env t k cs s = Some (o1, s') \<Longrightarrow> st_asked s' = st_asked s"
proof (induction cs arbitrary: k s)
  case (Cons c cs)
  obtain i name arguments where c: "c = (i, name, arguments)" by (cases c)
  from Cons.prems obtain o2 s2 where one: "run_one_call a env t k (i, name, arguments) s = Some (o2, s2)"
    by (auto simp: c split: option.splits)
  then have "st_asked s2 = st_asked s" by (rule run_one_call_cases)
  then show ?case using Cons one by (auto simp: c split: option.splits)
qed simp

lemma run_turns_asked:
  "run_turns a env ts s = Some (r, s') \<Longrightarrow> \<exists>n. map fst (st_asked s') = map fst (st_asked s) @ take n ts"
proof (induction ts arbitrary: s)
  case (Cons t ts)
  show ?case
  proof (cases "past_deadline a env t \<or> overspent a env t")
    case True
    then show ?thesis using Cons.prems by (auto simp: budget_stop_def intro!: exI [of _ 0])
  next
    case False
    obtain b s1 where ask: "ask_model a env t (emit (TurnStarted t) s) = (b, s1)" by fastforce
    then have s1: "map fst (st_asked s1) = map fst (st_asked s) @ [t]"
      using ask_model_keeps(6) [of a env t "emit (TurnStarted t) s"] by simp
    have "map fst (st_asked s') = map fst (st_asked s) @ [t] \<or>
      (\<exists>s2. run_turns a env ts s2 = Some (r, s') \<and> st_asked s2 = st_asked s1)"
    proof (cases b)
      case None
      then show ?thesis using Cons.prems s1 False ask by (auto simp: budget_stop_def)
    next
      case (Some answer)
      show ?thesis
      proof (cases answer)
        case (Inl err)
        then show ?thesis using Cons.prems s1 False ask Some by auto
      next
        case (Inr response)
        obtain e s2 where take: "take_answer env t response s1 = (e, s2)" by fastforce
        have s2: "st_asked s2 = st_asked s1" using take_answer_keeps(2) [of env t response s1] take by simp
        show ?thesis
          using Cons.prems False ask Some Inr take s1 s2
          by (auto simp: Let_def split: option.splits if_splits prod.splits dest: run_calls_asked)
      qed
    qed
    then show ?thesis
    proof
      assume "map fst (st_asked s') = map fst (st_asked s) @ [t]"
      then show ?thesis by (intro exI [of _ 1]) simp
    next
      assume "\<exists>s2. run_turns a env ts s2 = Some (r, s') \<and> st_asked s2 = st_asked s1"
      then obtain n where "map fst (st_asked s') = map fst (st_asked s1) @ take n ts" using Cons.IH by metis
      then show ?thesis using s1 by (intro exI [of _ "Suc n"]) simp
    qed
  qed
qed (auto simp: Let_def)

lemma run_turns_stop:
  "run_turns a env ts s = Some (Inr out, s') \<Longrightarrow> ts = [Suc k..<Suc (lim_max_turns (al_limits a))] \<Longrightarrow> k \<le> lim_max_turns (al_limits a) \<Longrightarrow>
    out_turns out \<le> lim_max_turns (al_limits a) \<and> (\<exists>t. last (st_events s') = TurnFinished t (out_stop out))
    \<and> out_tool_calls out = st_tool_calls s' \<and> out_refusals out = st_refusals s'"
proof (induction ts arbitrary: s k)
  case (Cons t ts)
  have t: "t = Suc k" "ts = [Suc (Suc k)..<Suc (lim_max_turns (al_limits a))]" "Suc k \<le> lim_max_turns (al_limits a)"
    using Cons.prems(2) [symmetric] by (auto simp: upt_eq_Cons_conv simp del: upt_Suc)
  show ?case
    using Cons.prems(1) t Cons.IH [OF _ t(2)]
    by (auto simp: budget_stop_def outcome_of_def Let_def split: option.splits if_splits prod.splits sum.splits)
qed (auto simp: Let_def outcome_of_def)

text \<open>C39. A run keeps its bounds.  The model is asked at most \<open>max_turns\<close> times, in turns 1, 2, \<open>\<dots>\<close> without a gap; never
  once the deadline has passed at the start of a turn, and never once the run has spent more than the token's provider
  budget; and a run that ends with an outcome reports its stop as the last event and no more turns than allowed.\<close>

theorem run_keeps_its_bounds:
  assumes "run_agent a env ms session = Some (r, s')"
  shows "\<exists>n \<le> lim_max_turns (al_limits a). map fst (st_asked s') = [1..<Suc n]
    \<and> (\<forall>t \<in> {1..n}. (\<forall>d. lim_deadline (al_limits a) = Some d \<longrightarrow> ae_elapsed env t < d)
        \<and> (\<forall>limit. provider_budget_usd (al_capability a) = Some limit \<longrightarrow> ae_spent env t \<le> limit))
    \<and> (\<forall>out. r = Inr out \<longrightarrow> out_turns out \<le> lim_max_turns (al_limits a)
        \<and> (\<exists>t. last (st_events s') = TurnFinished t (out_stop out)))"
proof -
  let ?max = "lim_max_turns (al_limits a)"
  obtain k where "map fst (st_asked s') = map fst (st_asked (start_run ms session)) @ take k [1..<Suc ?max]"
    using run_turns_asked assms unfolding run_agent_def by blast
  then have n: "map fst (st_asked s') = [1..<Suc (min k ?max)]"
    by (simp add: start_run_def take_upt min_def del: upt_Suc)
  have "bounded_state a env (start_run ms session)" by (simp add: bounded_state_def start_run_def)
  then have b: "bounded_state a env s'" by (rule bounded_run.keeps_run [OF assms])
  have "\<not> past_deadline a env t \<and> \<not> overspent a env t" if "t \<in> {1..min k ?max}" for t
  proof -
    have "t \<in> set (map fst (st_asked s'))" using that unfolding n by auto
    then show ?thesis using b by (auto simp: bounded_state_def)
  qed
  then have "\<forall>t \<in> {1..min k ?max}. (\<forall>d. lim_deadline (al_limits a) = Some d \<longrightarrow> ae_elapsed env t < d)
      \<and> (\<forall>limit. provider_budget_usd (al_capability a) = Some limit \<longrightarrow> ae_spent env t \<le> limit)"
    by (auto simp: past_deadline_def overspent_def not_le not_less)
  moreover have "\<forall>out. r = Inr out \<longrightarrow> out_turns out \<le> ?max \<and> (\<exists>t. last (st_events s') = TurnFinished t (out_stop out))"
    using run_turns_stop [of a env "[1..<Suc ?max]" "start_run ms session" _ s' 0] assms by (auto simp: run_agent_def)
  ultimately show ?thesis using n by (intro exI [of _ "min k ?max"]) simp
qed

subsection \<open>Every call gets its result\<close>

text \<open>What a run appends: answers of the model, each followed by one result per call it makes, in the order of the calls.\<close>

inductive complete_turns :: "message list \<Rightarrow> bool" where
  no_turn: "complete_turns []"
| one_turn: "complete_turns ms \<Longrightarrow> list_all2 (\<lambda>c. answers_call (fst c)) (calls_of (msg_parts m)) rs \<Longrightarrow>
    complete_turns (ms @ m # rs)"

definition results_in :: "message list \<Rightarrow> nat" where
  "results_in ms = length (concat (map (\<lambda>m. result_ids (msg_parts m)) ms))"

lemma results_in_simps [simp]:
  "results_in [] = 0" "results_in (m # ms) = length (result_ids (msg_parts m)) + results_in ms"
  "results_in (xs @ ys) = results_in xs + results_in ys"
  by (simp_all add: results_in_def)

lemma answers_call_ids: "answers_call i m \<Longrightarrow> result_ids (msg_parts m) = [i] \<and> call_ids (msg_parts m) = []"
  by (auto simp: answers_call_def tool_result_def new_message_def)

lemma call_ids_calls_of: "call_ids ps = map fst (calls_of ps)"
  by (induction ps rule: calls_of.induct) auto

lemma answered_results:
  "list_all2 (\<lambda>c. answers_call (fst c)) cs rs \<Longrightarrow>
    answered rs = fst ` set cs \<and> called rs = {} \<and> results_in rs = length cs"
  by (induction rule: list_all2_induct) (auto dest: answers_call_ids)

lemma complete_turns_safe:
  assumes "complete_turns ms" "\<forall>m \<in> set ms. result_ids (msg_parts m) \<noteq> [] \<longrightarrow> call_ids (msg_parts m) = []"
  shows "answered ms \<supseteq> called ms"
  using assms
proof (induction rule: complete_turns.induct)
  case (one_turn ms m rs)
  then show ?case using answered_results [OF one_turn.hyps(2)] by (auto simp: call_ids_calls_of)
qed simp



text \<open>Where a turn begins: the transcript is what it was and complete turns, and each result was counted.\<close>

definition at_turn :: "message list \<Rightarrow> run_state \<Rightarrow> bool" where
  "at_turn ms s \<longleftrightarrow> (\<exists>new. st_transcript s = ms @ new \<and> complete_turns new \<and> called new = answered new
     \<and> st_tool_calls s + st_refusals s = results_in new)"

lemma at_turn_cong: "st_transcript s = st_transcript t \<Longrightarrow> st_tool_calls s = st_tool_calls t \<Longrightarrow>
    st_refusals s = st_refusals t \<Longrightarrow> at_turn ms s = at_turn ms t"
  by (simp add: at_turn_def)









subsection \<open>A run\<close>

text \<open>A model that reads a file and then is done, and one whose action the operator denies.\<close>

definition two_turn_env :: agent_env where [hx_defs]:
  "two_turn_env = \<lparr>ae_elapsed = int, ae_spent = (\<lambda>_. 0), ae_model = (\<lambda>_. ''m''), ae_provider = (\<lambda>_. ''p''), ae_credential = (\<lambda>_. ''k''),
     ae_complete = (\<lambda>t _. Inr \<lparr>rs_message = (if t = 1
        then new_message Assistant [Text ''reading'', ToolCall ''c1'' ''read_file'' ''path'']
        else assistant_message ''done''),
      rs_usage = \<lparr>input_tokens = 7, output_tokens = 2, cached_input_tokens = 0, reasoning_tokens = 0\<rparr>, rs_model = ''m''\<rparr>),
     ae_late = (\<lambda>_. False), ae_call = (\<lambda>_ _ _ _. read_env), ae_sink = (\<lambda>_. None)\<rparr>"

definition reader :: agent_loop where [hx_defs]:
  "reader = \<lparr>al_capability = workspace_token, al_limits = \<lparr>lim_max_turns = 3, lim_deadline = Some 60, lim_max_tokens = 16, lim_compact_at_tokens = 0\<rparr>,
     al_system = None, al_tools = [], al_say = (\<lambda>_. ''no'')\<rparr>"

lemma two_turns:
  "map_option (\<lambda>(r, s). (map_sum id (\<lambda>out. (out_stop out, out_turns out, out_tool_calls out)) r,
       map msg_role (st_transcript s), map fst (st_asked s), length (st_ran s)))
     (run_agent reader two_turn_env [user_message ''read it''] (new_session default_policy))
   = Some (Inr (Completed, 2, 1), [User, Assistant, Tool, Assistant], [1, 2], 1)"
  by code_simp

lemma two_turns_run:
  obtains out s' where "run_agent reader two_turn_env [user_message ''read it''] (new_session default_policy) = Some (Inr out, s')"
    "out_tool_calls out = 1" "map fst (st_asked s') = [1, 2]" "length (st_ran s') = 1"
proof -
  obtain r s' where "run_agent reader two_turn_env [user_message ''read it''] (new_session default_policy) = Some (r, s')"
    using two_turns by (auto split: prod.splits)
  with two_turns that show thesis by (cases r) auto
qed





theorem run_keeps_its_bounds_witness:
  "\<exists>out s'. run_agent reader two_turn_env [user_message ''read it''] (new_session default_policy) = Some (Inr out, s')
     \<and> out_turns out \<le> 3"
proof (rule two_turns_run)
  fix out s'
  assume r: "run_agent reader two_turn_env [user_message ''read it''] (new_session default_policy) = Some (Inr out, s')"
  have "lim_max_turns (al_limits reader) = 3" by (simp add: reader_def)
  with run_keeps_its_bounds [OF r] r show ?thesis by auto
qed


end
