(* ===== verification/Model_Pool_Facts.thy ===== *)
theory Model_Pool_Facts imports Model_Pool
begin

section \<open>Draws, health and clamps\<close>

text \<open>
  What the pool of a spawner promises: whom a draw returns, when it fails, that successive draws
  go round, and that a clamped parameter is one the member accepts.
\<close>

definition healthy :: "model_pool \<Rightarrow> pool_member list" where [hx_defs]:
  "healthy p = filter (\<lambda>m. pm_health m = Healthy) (mp_members p)"

lemma healthy_indices_eq: "healthy_indices ms = filter (\<lambda>i. pm_health (ms ! i) = Healthy) [0..<length ms]"
proof -
  have "enumerate 0 ms = map (\<lambda>i. (i, ms ! i)) [0..<length ms]"
    by (rule nth_equalityI) (simp_all add: nth_enumerate_eq)
  then show ?thesis by (simp add: healthy_indices_def filter_map comp_def)
qed

lemma healthy_at_indices: "map ((!) (mp_members p)) (healthy_indices (mp_members p)) = healthy p"
proof -
  have "healthy p = filter (\<lambda>m. pm_health m = Healthy) (map ((!) (mp_members p)) [0..<length (mp_members p)])"
    by (simp add: healthy_def map_nth)
  then show ?thesis by (simp add: healthy_indices_eq filter_map comp_def)
qed

lemma length_healthy_indices [simp]: "length (healthy_indices (mp_members p)) = length (healthy p)"
  using arg_cong [OF healthy_at_indices, of length] by simp

lemma healthy_indices_Nil [simp]: "healthy_indices (mp_members p) = [] \<longleftrightarrow> healthy p = []"
  using length_healthy_indices [of p] by (metis length_0_conv)

lemma draw_healthy:
  assumes "healthy p \<noteq> []"
  shows "draw p = (Inr (healthy p ! (unat (mp_cursor p) mod length (healthy p))), p\<lparr>mp_cursor := mp_cursor p + 1\<rparr>)"
proof -
  have "unat (mp_cursor p) mod length (healthy p) < length (healthy p)" using assms by simp
  then have "mp_members p ! (healthy_indices (mp_members p) ! (unat (mp_cursor p) mod length (healthy p)))
      = healthy p ! (unat (mp_cursor p) mod length (healthy p))"
    by (metis healthy_at_indices length_healthy_indices nth_map)
  then show ?thesis using assms by (simp add: draw_def Let_def)
qed

lemma draw_none:
  assumes "healthy p = []"
  shows "draw p = (Inl (if mp_members p = [] then EmptyPool else AllDown (map health_reason (mp_members p))), p)"
  using assms by (simp add: draw_def Let_def)

lemma mark_down_members [simp]: "mp_cursor (snd (mark_down i why now p)) = mp_cursor p"
  by (simp add: mark_down_def)

text \<open>A draw returns a healthy member exactly if there is one; it never fails while a member is healthy and
  never returns one that is down.  When it fails it says whether the pool is empty or gives every member's reason.\<close>

theorem draw_exact:
  "(case fst (draw p) of
      Inr m \<Rightarrow> m \<in> set (mp_members p) \<and> pm_health m = Healthy
    | Inl EmptyPool \<Rightarrow> mp_members p = []
    | Inl (AllDown why) \<Rightarrow> mp_members p \<noteq> [] \<and> (\<forall>m \<in> set (mp_members p). pm_health m \<noteq> Healthy)
        \<and> list_all2 (\<lambda>m (i, r). i = pm_id m \<and> (\<exists>t. pm_health m = Down r t)) (mp_members p) why)
   \<and> mp_members (snd (draw p)) = mp_members p"
proof (cases "healthy p = []")
  case True
  then have none: "\<forall>m \<in> set (mp_members p). pm_health m \<noteq> Healthy" by (simp add: healthy_def filter_empty_conv)
  then have "\<exists>t. pm_health m = Down (snd (health_reason m)) t \<and> fst (health_reason m) = pm_id m"
    if "m \<in> set (mp_members p)" for m
    using that by (cases "pm_health m") (auto simp: health_reason_def)
  then show ?thesis using none True
    by (auto simp: draw_none list_all2_map2 case_prod_unfold intro!: list.rel_refl_strong)
next
  case False
  then have "healthy p ! (unat (mp_cursor p) mod length (healthy p)) \<in> set (healthy p)" by simp
  then obtain m where "fst (draw p) = Inr m" "m \<in> set (healthy p)" "mp_members (snd (draw p)) = mp_members p"
    using False by (simp add: draw_healthy)
  then show ?thesis by (simp add: healthy_def)
qed

fun draws :: "nat \<Rightarrow> model_pool \<Rightarrow> (draw_error + pool_member) list \<times> model_pool" where
  "draws 0 p = ([], p)"
| "draws (Suc n) p = (case draw p of (r, p) \<Rightarrow> case draws n p of (rs, p) \<Rightarrow> (r # rs, p))"

lemma draws_round:
  assumes "healthy p \<noteq> []" "unat (mp_cursor p) + n \<le> 2 ^ 64"
  shows "fst (draws n p) = map (\<lambda>j. Inr (healthy p ! ((unat (mp_cursor p) + j) mod length (healthy p)))) [0..<n]"
  using assms
proof (induction n arbitrary: p)
  case (Suc n)
  let ?p = "p\<lparr>mp_cursor := mp_cursor p + 1\<rparr>"
  have h: "healthy ?p = healthy p" by (simp add: healthy_def)
  show ?case
  proof (cases "n = 0")
    case False
    then have "unat (mp_cursor p + 1) = unat (mp_cursor p) + 1"
      using Suc.prems(2) unat_add_lem [of "mp_cursor p" 1] by simp
    then have "fst (draws n ?p)
        = map (\<lambda>j. Inr (healthy p ! ((unat (mp_cursor p) + Suc j) mod length (healthy p)))) [0..<n]"
      using Suc.IH [of ?p] Suc.prems h by simp
    then show ?thesis
      by (simp add: draw_healthy [OF Suc.prems(1)] case_prod_unfold upt_conv_Cons map_Suc_upt [symmetric] comp_def
          del: upt_Suc)
  qed (simp add: draw_healthy [OF Suc.prems(1)] case_prod_unfold)
qed simp

lemma rotate_nth: "xs \<noteq> [] \<Longrightarrow> map (\<lambda>j. xs ! ((c + j) mod length xs)) [0..<length xs] = rotate c xs"
  by (rule nth_equalityI) (simp_all add: nth_rotate add.commute)

lemma mset_rotate_any [simp]: "mset (rotate c xs) = mset xs"
  by (simp add: rotate_drop_take) (metis append_take_drop_id mset_append union_commute)

lemma draws_are_a_round:
  assumes "n = length (healthy p)" "unat (mp_cursor p) + n \<le> 2 ^ 64"
  shows "mset (fst (draws n p)) = image_mset Inr (mset (healthy p))"
proof (cases "healthy p = []")
  case False
  have "fst (draws n p) = map Inr (rotate (unat (mp_cursor p)) (healthy p))"
    using draws_round [OF False assms(2)] rotate_nth [OF False, of "unat (mp_cursor p)"] assms(1)
    by (metis (no_types, lifting) comp_apply list.map_comp map_cong)
  then show ?thesis by simp
qed (simp add: assms(1))

text \<open>Successive draws go round: while the cursor does not wrap, the next \<open>n\<close> draws from a pool with \<open>n\<close>
  healthy members return each of them exactly once, wherever the cursor stands.\<close>

theorem draws_reach_every_member:
  assumes "n = length (healthy p)" "unat (mp_cursor p) + n \<le> 2 ^ 64"
  shows "mset (fst (draws n p)) = image_mset Inr (mset (healthy p))"
  by (rule draws_are_a_round [OF assms])

definition two_members :: model_pool where
  "two_members = pool_from_config
     [\<lparr>mc_id = ''a'', mc_provider = ''p'', mc_model = ''m'', mc_base_url = ''u'', mc_credential = ''vault:a'',
       mc_accepts = [ReasoningEffort LowEffort, ReasoningEffort MediumEffort]\<rparr>,
      \<lparr>mc_id = ''b'', mc_provider = ''q'', mc_model = ''n'', mc_base_url = ''v'', mc_credential = ''vault:b'',
       mc_accepts = []\<rparr>]"

theorem draws_reach_every_member_witness:
  "size (mset (fst (draws 2 two_members))) = 2"
proof -
  have "length (healthy two_members) = 2" "unat (mp_cursor two_members) = 0"
    by (simp_all add: two_members_def pool_from_config_def new_model_pool_def healthy_def member_from_config_def)
  then show ?thesis using draws_reach_every_member [of 2 two_members] by simp
qed

text \<open>Where the cursor wraps the round is broken unless the number of members is a power of two.\<close>

lemma round_breaks_at_the_wrap:
  assumes "length (healthy p) = 3" "mp_cursor p = - 1"
  shows "fst (draws 2 p) = [Inr (healthy p ! 0), Inr (healthy p ! 0)]"
proof -
  have "healthy p \<noteq> []" "healthy (p\<lparr>mp_cursor := 0\<rparr>) = healthy p" using assms(1) by (auto simp: healthy_def)
  moreover have "unat (- 1 :: 64 word) mod 3 = 0" by (simp add: unsigned_minus_1_eq_mask mask_eq_exp_minus_1)
  moreover have "draws 2 p = draws (Suc (Suc 0)) p" by (simp only: numeral_2_eq_2)
  ultimately show ?thesis using assms by (simp add: draw_healthy case_prod_unfold)
qed

text \<open>A benched member is not drawn, and a member brought back can be.\<close>

lemma ids_update_first [simp]:
  "(\<And>m. pm_id (f m) = pm_id m) \<Longrightarrow> map pm_id (update_first i f ms) = map pm_id ms"
  by (induction ms) auto

lemma update_first_distinct:
  "distinct (map pm_id ms) \<Longrightarrow> update_first i f ms = map (\<lambda>m. if pm_id m = i then f m else m) ms"
proof (induction ms)
  case (Cons m ms)
  have "pm_id m \<notin> pm_id ` set ms \<Longrightarrow> map (\<lambda>k. if pm_id k = pm_id m then f k else k) ms = ms"
    by (induction ms) auto
  then show ?case using Cons by auto
qed simp

lemma filter_benched:
  "(\<And>m. pm_health (f m) \<noteq> Healthy) \<Longrightarrow>
    filter (\<lambda>m. pm_health m = Healthy) (map (\<lambda>m. if pm_id m = i then f m else m) ms)
      = filter (\<lambda>m. pm_id m \<noteq> i) (filter (\<lambda>m. pm_health m = Healthy) ms)"
  by (induction ms) auto

lemma healthy_mark_down:
  assumes "distinct (map pm_id (mp_members p))"
  shows "healthy (snd (mark_down i why now p)) = filter (\<lambda>m. pm_id m \<noteq> i) (healthy p)"
  using filter_benched [of "\<lambda>m. m\<lparr>pm_health := Down why now\<rparr>"]
  by (simp add: healthy_def mark_down_def update_first_distinct [OF assms])

text \<open>What may be sent for a request \<open>p\<close>: an accepted value of its kind with no accepted one nearer, or
  nothing, if the member accepts nothing of that kind.\<close>

definition fits :: "pool_member \<Rightarrow> param \<Rightarrow> param option \<Rightarrow> bool" where
  "fits m p s \<longleftrightarrow> (case s of
     None \<Rightarrow> \<forall>a \<in> set (pm_accepts m). param_kind_of a \<noteq> param_kind_of p
   | Some q \<Rightarrow> q \<in> set (pm_accepts m) \<and> param_kind_of q = param_kind_of p
       \<and> (\<forall>a \<in> set (pm_accepts m). param_kind_of a = param_kind_of p \<longrightarrow>
            \<bar>ordinal q - ordinal p\<bar> \<le> \<bar>ordinal a - ordinal p\<bar>))"

lemma arg_min_list_least:
  "xs \<noteq> [] \<Longrightarrow> arg_min_list (f :: 'a \<Rightarrow> int) xs \<in> set xs \<and> (\<forall>x \<in> set xs. f (arg_min_list f xs) \<le> f x)"
  by (metis arg_min_list_in f_arg_min_list_f finite_imageI finite_set image_eqI Min_le)

lemma clamp_one:
  obtains s where "fits m p s" "p \<in> set (pm_accepts m) \<longrightarrow> s = Some p"
    "clamp m (p # ps) = \<lparr>ep_params = (case s of None \<Rightarrow> [] | Some q \<Rightarrow> [q]) @ ep_params (clamp m ps),
       ep_clamps = (if s = Some p then [] else [\<lparr>pc_requested = p, pc_sent = s\<rparr>]) @ ep_clamps (clamp m ps)\<rparr>"
proof -
  let ?kind = "filter (\<lambda>a. param_kind_of a = param_kind_of p) (pm_accepts m)"
  let ?q = "arg_min_list (\<lambda>a. \<bar>ordinal a - ordinal p\<bar>) ?kind"
  consider "p \<in> set (pm_accepts m)" | "p \<notin> set (pm_accepts m)" "?kind = []" | "p \<notin> set (pm_accepts m)" "?kind \<noteq> []"
    by blast
  then show thesis
  proof cases
    case 1
    then show ?thesis by (intro that [of "Some p"]) (simp_all add: fits_def Let_def)
  next
    case 2
    then show ?thesis by (intro that [of None]) (simp_all add: fits_def Let_def filter_empty_conv)
  next
    case 3
    then have "?q \<in> set ?kind \<and> (\<forall>a \<in> set ?kind. \<bar>ordinal ?q - ordinal p\<bar> \<le> \<bar>ordinal a - ordinal p\<bar>)"
      by (intro arg_min_list_least)
    moreover from this have "?q \<noteq> p" using 3(1) by auto
    ultimately show ?thesis using 3 by (intro that [of "Some ?q"]) (simp_all add: fits_def Let_def)
  qed
qed

text \<open>What is sent to a member is what it accepts: for each requested parameter, the parameter itself if the member
  accepts it, an accepted value of its kind at the least distance otherwise, nothing if the member accepts none of
  that kind; and the clamps recorded are exactly the requests that were changed, in their order.\<close>

theorem clamp_sends_accepted:
  "\<exists>sent. list_all2 (fits m) ps sent \<and> list_all2 (\<lambda>p s. p \<in> set (pm_accepts m) \<longrightarrow> s = Some p) ps sent
     \<and> ep_params (clamp m ps) = concat (map (\<lambda>s. case s of None \<Rightarrow> [] | Some q \<Rightarrow> [q]) sent)
     \<and> ep_clamps (clamp m ps) = map (\<lambda>(p, s). \<lparr>pc_requested = p, pc_sent = s\<rparr>)
         (filter (\<lambda>(p, s). s \<noteq> Some p) (zip ps sent))"
proof (induction ps)
  case (Cons p ps)
  then obtain sent where sent: "list_all2 (fits m) ps sent"
    "list_all2 (\<lambda>p s. p \<in> set (pm_accepts m) \<longrightarrow> s = Some p) ps sent"
    "ep_params (clamp m ps) = concat (map (\<lambda>s. case s of None \<Rightarrow> [] | Some q \<Rightarrow> [q]) sent)"
    "ep_clamps (clamp m ps) = map (\<lambda>(p, s). \<lparr>pc_requested = p, pc_sent = s\<rparr>)
         (filter (\<lambda>(p, s). s \<noteq> Some p) (zip ps sent))"
    by blast
  obtain s where "fits m p s" "p \<in> set (pm_accepts m) \<longrightarrow> s = Some p"
    "clamp m (p # ps) = \<lparr>ep_params = (case s of None \<Rightarrow> [] | Some q \<Rightarrow> [q]) @ ep_params (clamp m ps),
       ep_clamps = (if s = Some p then [] else [\<lparr>pc_requested = p, pc_sent = s\<rparr>]) @ ep_clamps (clamp m ps)\<rparr>"
    by (rule clamp_one)
  with sent show ?case by (intro exI [of _ "s # sent"]) (simp del: clamp.simps)
qed simp

theorem clamp_sends_accepted_witness:
  "ep_params (clamp (mp_members two_members ! 0) [ReasoningEffort HighEffort]) = [ReasoningEffort MediumEffort]
   \<and> (\<exists>sent. list_all2 (fits (mp_members two_members ! 0)) [ReasoningEffort HighEffort] sent)"
proof -
  have "ep_params (clamp (mp_members two_members ! 0) [ReasoningEffort HighEffort]) = [ReasoningEffort MediumEffort]"
    by code_simp
  then show ?thesis using clamp_sends_accepted by blast
qed

end
