(* ===== verification/Redaction.thy ===== *)
theory Redaction imports Rust_Prelude "HOL-Library.Sublist"
begin

section \<open>Redaction of outgoing text\<close>

text \<open>
  \<open>crates/hx-secrets/src/redact.rs\<close>: registered secrets are masked literally, the longest first, then
  ten patterns for well-known credential formats.  The engine that matches a pattern is the \<open>regex\<close>
  library; the model takes it as the argument \<open>rx\<close>, a function of the pattern, the replacement and
  the text: \<^const>\<open>None\<close> if nothing matches, the text with every match replaced otherwise.  Of it the
  theorems use that it replaces pieces of the text and leaves the rest (\<open>splicing\<close>).
\<close>

datatype redaction_kind =
    KnownSecret
  | ProviderKey
  | CloudKey
  | GitHubToken
  | SlackToken
  | TelegramBotToken
  | Jwt
  | PrivateKeyBlock
  | BearerHeader
  | ConnectionString

fun kind_rank :: "redaction_kind \<Rightarrow> nat" where
  "kind_rank KnownSecret = 0"
| "kind_rank ProviderKey = 1"
| "kind_rank CloudKey = 2"
| "kind_rank GitHubToken = 3"
| "kind_rank SlackToken = 4"
| "kind_rank TelegramBotToken = 5"
| "kind_rank Jwt = 6"
| "kind_rank PrivateKeyBlock = 7"
| "kind_rank BearerHeader = 8"
| "kind_rank ConnectionString = 9"

lemma kind_rank_inject [simp]: "kind_rank k = kind_rank l \<longleftrightarrow> k = l"
  by (cases k; cases l) simp_all

instantiation redaction_kind :: linorder
begin

definition less_eq_redaction_kind :: "redaction_kind \<Rightarrow> redaction_kind \<Rightarrow> bool" where
  "less_eq_redaction_kind k l \<longleftrightarrow> kind_rank k \<le> kind_rank l"

definition less_redaction_kind :: "redaction_kind \<Rightarrow> redaction_kind \<Rightarrow> bool" where
  "less_redaction_kind k l \<longleftrightarrow> kind_rank k < kind_rank l"

instance
  by standard (auto simp: less_eq_redaction_kind_def less_redaction_kind_def)

end

fun label :: "redaction_kind \<Rightarrow> string" where
  "label KnownSecret = ''known-secret''"
| "label ProviderKey = ''provider-key''"
| "label CloudKey = ''cloud-key''"
| "label GitHubToken = ''github-token''"
| "label SlackToken = ''slack-token''"
| "label TelegramBotToken = ''telegram-bot-token''"
| "label Jwt = ''jwt''"
| "label PrivateKeyBlock = ''private-key''"
| "label BearerHeader = ''bearer''"
| "label ConnectionString = ''connection-string''"

definition redaction_mask :: "redaction_kind \<Rightarrow> string" where [hx_defs]:
  "redaction_mask k = ''[REDACTED:'' @ label k @ '']''"

abbreviation bs :: char where "bs \<equiv> CHR 0x5C"

text \<open>The patterns, in the order in which they are tried; \<open>bs\<close> is a backslash.\<close>

definition patterns :: "(redaction_kind \<times> string) list" where [hx_defs]:
  "patterns =
    [(PrivateKeyBlock, ''(?s)-----BEGIN [A-Z0-9 ]*PRIVATE KEY-----.*?-----END [A-Z0-9 ]*PRIVATE KEY-----''),
     (ProviderKey, bs # ''b(?:sk|rk)-[A-Za-z0-9_-]{16,}''),
     (CloudKey, bs # ''bAIza[0-9A-Za-z_-]{35}'' @ bs # ''b''),
     (CloudKey, bs # ''b(?:AKIA|ASIA)[0-9A-Z]{16}'' @ bs # ''b''),
     (GitHubToken, bs # ''bgh[pousr]_[A-Za-z0-9]{20,}'' @ bs # ''b''),
     (SlackToken, bs # ''bxox[abprs]-[A-Za-z0-9-]{10,}'' @ bs # ''b''),
     (TelegramBotToken, bs # ''d{8,12}:[A-Za-z0-9_-]{30,}''),
     (Jwt, bs # ''beyJ[A-Za-z0-9_-]{8,}'' @ bs # ''.[A-Za-z0-9_-]{8,}'' @ bs # ''.[A-Za-z0-9_-]{4,}'' @ bs # ''b''),
     (BearerHeader, ''(?i)'' @ bs # ''b(?:bearer|token)'' @ bs # ''s+[A-Za-z0-9._'' @ bs # ''-]{16,}''),
     (ConnectionString, ''://[^/'' @ bs # ''s:@]+:[^/'' @ bs # ''s:@]{6,}@'')]"

record redaction =
  rd_text :: string
  rd_hits :: "redaction_kind list"

definition changed :: "redaction \<Rightarrow> bool" where [hx_defs]:
  "changed r \<longleftrightarrow> rd_hits r \<noteq> []"

record redactor =
  literals :: "string list"
  enabled :: bool

definition disabled_redactor :: redactor where [hx_defs]:
  "disabled_redactor = \<lparr>literals = [], enabled = False\<rparr>"

definition new_redactor :: redactor where [hx_defs]:
  "new_redactor = \<lparr>literals = [], enabled = True\<rparr>"

definition register :: "string \<Rightarrow> redactor \<Rightarrow> redactor" where [hx_defs]:
  "register secret r =
     (if length secret < 8 then r
      else if secret \<in> set (literals r) then r
      else r\<lparr>literals := sort_key (\<lambda>s. - int (length s)) (literals r @ [secret])\<rparr>)"

definition register_all :: "string list \<Rightarrow> redactor \<Rightarrow> redactor" where [hx_defs]:
  "register_all secrets r = fold register secrets r"

text \<open>\<open>str::replace\<close> of a non-empty pattern: left to right, without overlap.\<close>

function replace_str :: "string \<Rightarrow> string \<Rightarrow> string \<Rightarrow> string" where
  "replace_str lit m [] = []"
| "replace_str lit m (c # s) =
     (if starts_with (c # s) lit then m @ replace_str lit m (drop (length lit - 1) s)
      else c # replace_str lit m s)"
  by pat_completeness auto
termination by (relation "measure (\<lambda>(_, _, s). length s)") auto

text \<open>The hits are a \<open>BTreeSet\<close>: a sorted list without repetition.\<close>

fun literal_pass :: "string list \<Rightarrow> string \<times> redaction_kind list \<Rightarrow> string \<times> redaction_kind list" where
  "literal_pass [] acc = acc"
| "literal_pass (lit # lits) (body, hits) =
     literal_pass lits (if contains_str body lit
       then (replace_str lit (redaction_mask KnownSecret) body, insort_insert KnownSecret hits) else (body, hits))"

fun pattern_pass ::
  "(string \<Rightarrow> string \<Rightarrow> string \<Rightarrow> string option) \<Rightarrow> (redaction_kind \<times> string) list
   \<Rightarrow> string \<times> redaction_kind list \<Rightarrow> string \<times> redaction_kind list" where
  "pattern_pass rx [] acc = acc"
| "pattern_pass rx ((k, p) # ps) (body, hits) =
     pattern_pass rx ps (case rx p (redaction_mask k) body of
       Some out \<Rightarrow> (out, insort_insert k hits) | None \<Rightarrow> (body, hits))"

definition redact ::
  "(string \<Rightarrow> string \<Rightarrow> string \<Rightarrow> string option) \<Rightarrow> string \<Rightarrow> redactor \<Rightarrow> redaction" where [hx_defs]:
  "redact rx input r =
     (if \<not> enabled r then \<lparr>rd_text = input, rd_hits = []\<rparr>
      else case pattern_pass rx patterns (literal_pass (literals r) (input, [])) of
        (body, hits) \<Rightarrow> \<lparr>rd_text = body, rd_hits = hits\<rparr>)"

subsection \<open>Replacing pieces\<close>

text \<open>\<open>spliced m s t\<close>: the text \<open>t\<close> is \<open>s\<close> with some disjoint pieces replaced by \<open>m\<close>.\<close>

inductive spliced :: "string \<Rightarrow> string \<Rightarrow> string \<Rightarrow> bool" for m where
  spliced_Nil: "spliced m [] []"
| spliced_keep: "spliced m s t \<Longrightarrow> spliced m (c # s) (c # t)"
| spliced_cut: "spliced m s t \<Longrightarrow> spliced m (x @ s) (m @ t)"

definition splicing :: "(string \<Rightarrow> string \<Rightarrow> string \<Rightarrow> string option) \<Rightarrow> bool" where
  "splicing rx \<longleftrightarrow> (\<forall>p m s t. rx p m s = Some t \<longrightarrow> spliced m s t)"

text \<open>A secret that no mask can spell: it has no bracket, and is no part of a mask.\<close>

definition unspellable :: "string \<Rightarrow> bool" where
  "unspellable a \<longleftrightarrow> CHR ''['' \<notin> set a \<and> CHR '']'' \<notin> set a \<and> (\<forall>k. \<not> contains_str (redaction_mask k) a)"

lemma contains_str_sublist: "contains_str s p \<longleftrightarrow> sublist p s"
  by (auto simp: contains_str_iff sublist_def)

lemma spliced_refl: "spliced m s s"
  by (induction s) (auto intro: spliced.intros)

lemma spliced_prefix:
  assumes "spliced (CHR ''['' # m) s t" "prefix a t" "CHR ''['' \<notin> set a"
  shows "prefix a s"
  using assms by (induction arbitrary: a rule: spliced.induct) (auto simp: prefix_Cons)

lemma spliced_sublist:
  assumes "spliced (CHR ''['' # m @ [CHR '']'']) s t" "sublist a t"
    and "CHR ''['' \<notin> set a" "CHR '']'' \<notin> set a" "\<not> sublist a (CHR ''['' # m @ [CHR '']''])"
  shows "sublist a s"
  using assms
proof (induction rule: spliced.induct)
  case (spliced_keep s t c)
  from spliced_keep.prems(1) consider "prefix a (c # t)" | "sublist a t" by (auto simp: sublist_Cons_right)
  then show ?case
  proof cases
    case 1
    have "spliced (CHR ''['' # m @ [CHR '']'']) (c # s) (c # t)"
      using spliced_keep.hyps by (rule spliced.spliced_keep)
    from spliced_prefix [OF this 1 spliced_keep.prems(2)] show ?thesis by (rule prefix_imp_sublist)
  next
    case 2
    then show ?thesis using spliced_keep.IH spliced_keep.prems by (simp add: sublist_Cons_right)
  qed
next
  case (spliced_cut s t x)
  have "sublist a t"
  proof -
    have "\<not> (\<exists>u v. a = u @ v \<and> u \<noteq> [] \<and> suffix u (CHR ''['' # m @ [CHR '']'']) \<and> prefix v t)"
      using spliced_cut.prems(3) by (auto simp: suffix_def) (metis append_butlast_last_id last.simps last_append last_in_set
        append_Cons snoc_eq_iff_butlast in_set_conv_decomp)
    then show ?thesis using spliced_cut.prems(1,4)
      by (metis append_Nil prefix_imp_sublist sublist_append)
  qed
  then have "sublist a s" using spliced_cut.IH spliced_cut.prems(2-4) by simp
  then show ?case by (simp add: sublist_append)
qed simp

lemma replace_spliced: "lit \<noteq> [] \<Longrightarrow> spliced m s (replace_str lit m s)"
proof (induction lit m s rule: replace_str.induct)
  case (2 lit m c s)
  show ?case
  proof (cases "starts_with (c # s) lit")
    case True
    then obtain u where "c # s = lit @ u" by (auto simp: starts_with_iff)
    then have "c # s = lit @ drop (length lit - 1) s" using \<open>lit \<noteq> []\<close> by (cases lit) auto
    then obtain r where r: "c # s = lit @ r" "r = drop (length lit - 1) s" by blast
    have "spliced m (lit @ r) (m @ replace_str lit m r)"
      using 2 True r(2) by (intro spliced_cut) simp
    moreover have "replace_str lit m (c # s) = m @ replace_str lit m r" using True r(2) by simp
    ultimately show ?thesis unfolding r(1) by metis
  qed (use 2 in \<open>auto intro: spliced_keep\<close>)
qed (simp add: spliced_Nil)

subsection \<open>No registered secret comes through\<close>

lemma mask_brackets: "redaction_mask k = CHR ''['' # (''REDACTED:'' @ label k) @ [CHR '']'']"
  by (simp add: redaction_mask_def)

lemma unspellable_spliced:
  "spliced (redaction_mask k) s t \<Longrightarrow> unspellable a \<Longrightarrow> \<not> contains_str s a \<Longrightarrow> \<not> contains_str t a"
  unfolding unspellable_def contains_str_sublist mask_brackets using spliced_sublist by blast

lemma replace_removes:
  assumes "unspellable a" "a \<noteq> []"
  shows "\<not> contains_str (replace_str a (redaction_mask k) s) a"
  using assms
proof (induction a "redaction_mask k" s rule: replace_str.induct)
  case (2 a c s)
  note un = 2(3)[unfolded unspellable_def contains_str_sublist mask_brackets]
  show ?case
  proof (cases "starts_with (c # s) a")
    case True
    let ?r = "replace_str a (redaction_mask k) (drop (length a - 1) s)"
    have "\<not> sublist a ?r" using 2 True by (simp add: contains_str_sublist)
    moreover have "\<not> (\<exists>u v. a = u @ v \<and> u \<noteq> [] \<and> suffix u (redaction_mask k) \<and> prefix v ?r)"
      using un by (auto simp: mask_brackets suffix_def) (metis append_butlast_last_id last.simps last_append
        last_in_set append_Cons snoc_eq_iff_butlast in_set_conv_decomp)
    ultimately have "\<not> sublist a (redaction_mask k @ ?r)"
      using un by (metis append_Nil prefix_imp_sublist sublist_append mask_brackets)
    then show ?thesis using True by (simp add: contains_str_sublist)
  next
    case False
    have "\<not> prefix a (c # replace_str a (redaction_mask k) s)"
    proof
      assume "prefix a (c # replace_str a (redaction_mask k) s)"
      moreover have "spliced (redaction_mask k) (c # s) (c # replace_str a (redaction_mask k) s)"
        using 2(4) by (intro spliced_keep replace_spliced)
      ultimately have "prefix a (c # s)" using un spliced_prefix unfolding mask_brackets by blast
      then show False using False by (simp add: starts_with_iff prefix_def)
    qed
    then show ?thesis using 2 False by (simp add: contains_str_sublist sublist_Cons_right)
  qed
qed (simp add: contains_str_sublist)

lemma literal_pass_keeps_out:
  "unspellable a \<Longrightarrow> \<forall>l \<in> set lits. l \<noteq> [] \<Longrightarrow> \<not> contains_str (fst acc) a \<Longrightarrow>
    \<not> contains_str (fst (literal_pass lits acc)) a"
proof (induction lits acc rule: literal_pass.induct)
  case (2 lit lits body hits)
  have "\<not> contains_str (replace_str lit (redaction_mask KnownSecret) body) a"
    using 2(2-4) unspellable_spliced [OF replace_spliced] by simp
  then show ?case using 2 by simp
qed simp

lemma literal_pass_removes:
  "unspellable a \<Longrightarrow> \<forall>l \<in> set lits. l \<noteq> [] \<Longrightarrow> a \<in> set lits \<Longrightarrow>
    \<not> contains_str (fst (literal_pass lits acc)) a"
proof (induction lits acc rule: literal_pass.induct)
  case (2 lit lits body hits)
  show ?case
  proof (cases "a = lit")
    case True
    then have "\<not> contains_str (fst (if contains_str body lit
        then (replace_str lit (redaction_mask KnownSecret) body, insort_insert KnownSecret hits) else (body, hits))) a"
      using 2(2,3) replace_removes by simp
    then show ?thesis using 2(2,3) literal_pass_keeps_out by simp
  qed (use 2 in \<open>simp\<close>)
qed simp

lemma pattern_pass_keeps_out:
  "splicing rx \<Longrightarrow> unspellable a \<Longrightarrow> \<not> contains_str (fst acc) a \<Longrightarrow> \<not> contains_str (fst (pattern_pass rx ps acc)) a"
proof (induction rx ps acc rule: pattern_pass.induct)
  case (2 rx k p ps body hits)
  have "\<not> contains_str out a" if "rx p (redaction_mask k) body = Some out" for out
    using 2(2-4) that unspellable_spliced [of k body out a] by (auto simp: splicing_def)
  then show ?case using 2 by (auto split: option.split)
qed simp

definition registered :: "redactor \<Rightarrow> bool" where
  "registered r \<longleftrightarrow> enabled r \<and> (\<forall>l \<in> set (literals r). 8 \<le> length l) \<and> distinct (literals r)
     \<and> sorted (map (\<lambda>s. - int (length s)) (literals r))"

lemma registered_new [simp]: "registered new_redactor"
  by (simp add: registered_def new_redactor_def)

lemma registered_register [simp]: "registered r \<Longrightarrow> registered (register s r)"
  by (auto simp: registered_def register_def)

lemma register_all_registered:
  "registered r \<Longrightarrow> registered (register_all ss r)
    \<and> set (literals (register_all ss r)) = set (literals r) \<union> {s \<in> set ss. 8 \<le> length s}"
proof (induction ss arbitrary: r)
  case (Cons s ss)
  have "set (literals (register s r)) = set (literals r) \<union> (if 8 \<le> length s then {s} else {})"
    by (auto simp: register_def)
  then show ?case using Cons.IH [of "register s r"] Cons.prems by (auto simp: register_all_def)
qed (simp add: register_all_def)

lemma redact_removes:
  assumes "splicing rx" "registered r" "a \<in> set (literals r)" "unspellable a"
  shows "\<not> contains_str (rd_text (redact rx input r)) a"
proof -
  have "\<forall>l \<in> set (literals r). l \<noteq> []" using assms(2) by (auto simp: registered_def)
  then have "\<not> contains_str (fst (literal_pass (literals r) (input, []))) a"
    using assms(3,4) literal_pass_removes by blast
  then have "\<not> contains_str (fst (pattern_pass rx patterns (literal_pass (literals r) (input, [])))) a"
    by (rule pattern_pass_keeps_out [OF assms(1,4)])
  then show ?thesis using assms(2) by (auto simp: redact_def registered_def case_prod_unfold)
qed

text \<open>C34. A secret of at least eight bytes that is registered never comes through: whatever the text and
  whatever else is registered, and whatever the patterns match, the redacted text does not contain it
  (unless a mask could spell it: the secret has a bracket or is itself a part of a mask).\<close>

theorem registered_secret_never_leaks:
  assumes "splicing rx" "secret \<in> set secrets" "8 \<le> length secret" "unspellable secret"
  shows "\<not> contains_str (rd_text (redact rx input (register_all secrets new_redactor))) secret"
  using register_all_registered [OF registered_new, of secrets] assms
  by (intro redact_removes) auto

text \<open>An engine for the instances: it knows one pattern, the digits of an AWS key identifier spelled out.\<close>

definition one_pattern :: "string \<Rightarrow> string \<Rightarrow> string \<Rightarrow> string option" where
  "one_pattern p m s =
     (if contains_str s ''AKIA0123456789ABCDEF'' \<and> contains_str p ''AKIA''
      then Some (replace_str ''AKIA0123456789ABCDEF'' m s) else None)"

lemma splicing_one_pattern: "splicing one_pattern"
  by (auto simp: splicing_def one_pattern_def intro: replace_spliced)

lemma unspellable_hunter: "unspellable ''hunter2-long''"
proof -
  have "\<not> contains_str (redaction_mask k) ''hunter2-long''" for k
    by (cases k; hypsubst; code_simp)
  then show ?thesis by (simp add: unspellable_def)
qed

theorem registered_secret_never_leaks_witness:
  "\<not> contains_str (rd_text (redact one_pattern ''key=hunter2-long AKIA0123456789ABCDEF''
      (register_all [''hunter2-long''] new_redactor))) ''hunter2-long''
   \<and> rd_hits (redact one_pattern ''key=hunter2-long AKIA0123456789ABCDEF''
      (register_all [''hunter2-long''] new_redactor)) = [KnownSecret, CloudKey]"
proof -
  have "rd_hits (redact one_pattern ''key=hunter2-long AKIA0123456789ABCDEF''
      (register_all [''hunter2-long''] new_redactor)) = [KnownSecret, CloudKey]"
    by code_simp
  then show ?thesis
    using registered_secret_never_leaks [OF splicing_one_pattern, of "''hunter2-long''" "[''hunter2-long'']"]
      unspellable_hunter by simp
qed

text \<open>Text with nothing to mask is left alone, and only that counts as unchanged.\<close>

lemma insort_insert_nonempty [simp]: "insort_insert k ks \<noteq> ([] :: redaction_kind list)"
  by (cases ks) (auto simp: insort_insert_key_def)

lemma literal_pass_hits: "snd (literal_pass lits acc) = [] \<longleftrightarrow>
    snd acc = [] \<and> (\<forall>l \<in> set lits. \<not> contains_str (fst acc) l)"
proof (induction lits acc rule: literal_pass.induct)
  case (2 lit lits body hits)
  then show ?case by (cases "contains_str body lit") auto
qed simp

lemma pattern_pass_hits: "snd (pattern_pass rx ps acc) = [] \<longleftrightarrow>
    snd acc = [] \<and> (\<forall>(k, p) \<in> set ps. rx p (redaction_mask k) (fst acc) = None)"
proof (induction rx ps acc rule: pattern_pass.induct)
  case (2 rx k p ps body hits)
  then show ?case by (cases "rx p (redaction_mask k) body") auto
qed simp

lemma literal_pass_quiet: "snd (literal_pass lits acc) = [] \<Longrightarrow> literal_pass lits acc = acc"
proof (induction lits acc rule: literal_pass.induct)
  case (2 lit lits body hits)
  then show ?case by (cases "contains_str body lit") (auto simp: literal_pass_hits)
qed simp

lemma pattern_pass_quiet: "snd (pattern_pass rx ps acc) = [] \<Longrightarrow> pattern_pass rx ps acc = acc"
proof (induction rx ps acc rule: pattern_pass.induct)
  case (2 rx k p ps body hits)
  then show ?case by (cases "rx p (redaction_mask k) body") (auto simp: pattern_pass_hits)
qed simp

lemma redact_unchanged: "\<not> changed (redact rx input r) \<Longrightarrow> rd_text (redact rx input r) = input"
  using pattern_pass_quiet [of rx patterns "literal_pass (literals r) (input, [])"]
    literal_pass_quiet [of "literals r" "(input, [])"]
  by (auto simp: redact_def changed_def case_prod_unfold pattern_pass_hits split: if_splits)

text \<open>Two limits of the literal pass.  A secret that has a bracket can reappear in what replaces another, and
  a secret that was cut before the text is redacted is not recognised: its first part comes through.\<close>

lemma mask_can_spell_a_secret:
  "contains_str (rd_text (redact (\<lambda>_ _ _. None) ''x=aaaaaaaaa''
     (register_all [''x=[REDACTED'', ''aaaaaaaaa''] new_redactor))) ''x=[REDACTED''"
  by code_simp

lemma cut_secret_comes_through:
  "rd_text (redact (\<lambda>_ _ _. None) ''key=hunter2-lon'' (register_all [''hunter2-long''] new_redactor))
     = ''key=hunter2-lon''"
  by code_simp

end
