(* ===== verification/Spawner.thy ===== *)
theory Spawner imports Messages Model_Pool_Facts Redaction
begin

section \<open>Spawning children\<close>

text \<open>
  \<open>crates/hx-server/src/spawn.rs\<close> and \<open>crates/hx-server/src/fanout.rs\<close>: a child is one model call on a
  member drawn from the pool.  \<open>run_lane\<close> moves on to another member when the drawn one dies,
  \<open>run_fan_out\<close> runs one child per prompt, each on a member of its own.

  What comes from outside is the record \<open>spawn_env\<close>: the provider registry and the secret stores (a
  refusal is its text), the providers themselves, the clock, the store and the engine of the
  redactor.  The \<open>n\<close>-th use of a clock, provider or store is its argument \<open>n\<close>, so they may answer
  differently each time.  A call that outlives the child deadline is \<^const>\<open>None\<close>.
\<close>

record usage_record =
  ur_provider :: string
  ur_credential :: string
  ur_model :: string
  ur_input_tokens :: nat
  ur_output_tokens :: nat
  ur_cached_input_tokens :: nat
  ur_reasoning_tokens :: nat
  ur_cost_usd :: f64

definition new_usage_record :: "string \<Rightarrow> string \<Rightarrow> string \<Rightarrow> nat \<Rightarrow> nat \<Rightarrow> usage_record" where [hx_defs]:
  "new_usage_record provider credential model i out =
     \<lparr>ur_provider = provider, ur_credential = credential, ur_model = model, ur_input_tokens = i,
      ur_output_tokens = out, ur_cached_input_tokens = 0, ur_reasoning_tokens = 0, ur_cost_usd = 0\<rparr>"

record spawn_env =
  se_provider :: "string \<Rightarrow> string \<Rightarrow> string option"
  se_secret :: "string \<Rightarrow> string + string"
  se_complete :: "nat \<Rightarrow> string \<Rightarrow> chat_request \<Rightarrow> string \<Rightarrow> (hx_error + chat_response) option"
  se_store :: "nat \<Rightarrow> usage_record \<Rightarrow> hx_error option"
  se_clock :: "nat \<Rightarrow> datetime"
  se_regex :: "string \<Rightarrow> string \<Rightarrow> string \<Rightarrow> string option"
  se_deadline :: string

definition max_answer_chars :: nat where [hx_defs]:
  "max_answer_chars = 4000"

record child_spec =
  cs_member :: string
  cs_provider :: string
  cs_model :: string
  cs_base_url :: string
  cs_credential :: string
  cs_params :: "param list"
  cs_clamps :: "param_clamp list"

record child_record =
  rec_model :: string
  rec_credential :: string
  rec_clamps :: "param_clamp list"
  rec_usage :: usage_record
  rec_base_url :: string
  rec_dead_members :: "(string \<times> string) list"
  rec_answer :: string

definition redact_death_reason :: "spawn_env \<Rightarrow> string \<Rightarrow> hx_error \<Rightarrow> string" where [hx_defs]:
  "redact_death_reason env key err = rd_text (redact (se_regex env) (error_text err) (register key new_redactor))"

fun apply_params :: "param list \<Rightarrow> chat_request \<Rightarrow> chat_request" where
  "apply_params [] r = r"
| "apply_params (ReasoningEffort effort # ps) r = apply_params ps (with_reasoning_effort effort r)"

definition final_answer :: "spawn_env \<Rightarrow> string \<Rightarrow> message \<Rightarrow> string" where [hx_defs]:
  "final_answer env key m =
     (let bounded = concat (take max_answer_chars (chars (message_text m)))
      in rd_text (redact (se_regex env) bounded (register key new_redactor)))"

definition complete_with_deadline ::
  "spawn_env \<Rightarrow> nat \<Rightarrow> string \<Rightarrow> chat_request \<Rightarrow> string \<Rightarrow> hx_error + chat_response" where [hx_defs]:
  "complete_with_deadline env n provider request key =
     (case se_complete env n provider request key of
        Some r \<Rightarrow> r
      | None \<Rightarrow> Inl (ProviderError (''the provider call timed out after '' @ se_deadline env
          @ '': the member never answered'')))"

definition spec_for :: "pool_member \<Rightarrow> param list \<Rightarrow> child_spec" where [hx_defs]:
  "spec_for m requested =
     (let effective = clamp m requested
      in \<lparr>cs_member = pm_id m, cs_provider = pm_provider m, cs_model = pm_model m,
          cs_base_url = pm_base_url m, cs_credential = pm_credential m,
          cs_params = ep_params effective, cs_clamps = ep_clamps effective\<rparr>)"

definition build_spec :: "param list \<Rightarrow> model_pool \<Rightarrow> (draw_error + child_spec) \<times> model_pool" where [hx_defs]:
  "build_spec requested p = (case draw p of
     (Inl e, p) \<Rightarrow> (Inl e, p)
   | (Inr m, p) \<Rightarrow> (Inr (spec_for m requested), p))"

definition child_request :: "child_spec \<Rightarrow> string \<Rightarrow> chat_request" where [hx_defs]:
  "child_request spec prompt =
     apply_params (cs_params spec) (new_chat_request (cs_model spec) [user_message prompt])"

definition child_usage :: "child_spec \<Rightarrow> usage \<Rightarrow> usage_record" where [hx_defs]:
  "child_usage spec u =
     (new_usage_record (cs_provider spec) (cs_credential spec) (cs_model spec) (input_tokens u) (output_tokens u))
       \<lparr>ur_cached_input_tokens := cached_input_tokens u, ur_reasoning_tokens := reasoning_tokens u\<rparr>"

definition child_record_of ::
  "spawn_env \<Rightarrow> child_spec \<Rightarrow> string \<Rightarrow> chat_response \<Rightarrow> (string \<times> string) list \<Rightarrow> child_record" where [hx_defs]:
  "child_record_of env spec key response dead =
     \<lparr>rec_model = cs_model spec, rec_credential = cs_credential spec, rec_clamps = cs_clamps spec,
      rec_usage = child_usage spec (rs_usage response), rec_base_url = cs_base_url spec,
      rec_dead_members = dead, rec_answer = final_answer env key (rs_message response)\<rparr>"

text \<open>What the run of one child is given, once its provider and its key are resolved.\<close>

record prepared_child =
  pp_key :: string
  pp_spec :: child_spec

definition prepare_child :: "spawn_env \<Rightarrow> child_spec \<Rightarrow> hx_error + prepared_child" where [hx_defs]:
  "prepare_child env spec = (case se_provider env (cs_provider spec) (cs_model spec) of
     Some why \<Rightarrow> Inl (NoRoute why)
   | None \<Rightarrow> (case se_secret env (cs_credential spec) of
       Inl why \<Rightarrow> Inl (SecretError why)
     | Inr key \<Rightarrow> Inr \<lparr>pp_key = key, pp_spec = spec\<rparr>))"

datatype prepared_outcome = ChildRan child_record | ChildFailed string string hx_error

definition run_prepared :: "spawn_env \<Rightarrow> nat \<Rightarrow> string \<Rightarrow> prepared_child \<Rightarrow> hx_error + prepared_outcome" where [hx_defs]:
  "run_prepared env n prompt c =
     (let spec = pp_spec c
      in case complete_with_deadline env n (cs_provider spec) (child_request spec prompt) (pp_key c) of
        Inl err \<Rightarrow> Inr (ChildFailed (cs_member spec) (redact_death_reason env (pp_key c) err) err)
      | Inr response \<Rightarrow>
          (case se_store env n (child_usage spec (rs_usage response)) of
             Some err \<Rightarrow> Inl err
           | None \<Rightarrow> Inr (ChildRan (child_record_of env spec (pp_key c) response []))))"

definition run_child ::
  "spawn_env \<Rightarrow> nat \<Rightarrow> child_spec \<Rightarrow> string \<Rightarrow> model_pool \<Rightarrow> (hx_error + child_record) \<times> model_pool" where [hx_defs]:
  "run_child env n spec prompt p = (case prepare_child env spec of
     Inl err \<Rightarrow> (Inl err, p)
   | Inr c \<Rightarrow> (case run_prepared env n prompt c of
       Inl err \<Rightarrow> (Inl err, p)
     | Inr (ChildRan r) \<Rightarrow> (Inr r, p)
     | Inr (ChildFailed i why err) \<Rightarrow> (Inl err, snd (mark_down i why (se_clock env n) p))))"

definition redact_child_error :: "spawn_env \<Rightarrow> child_spec \<Rightarrow> hx_error \<Rightarrow> string" where [hx_defs]:
  "redact_child_error env spec err = (case se_secret env (cs_credential spec) of
     Inr key \<Rightarrow> redact_death_reason env key err
   | Inl _ \<Rightarrow> rd_text (redact (se_regex env) (error_text err) new_redactor))"

subsection \<open>A lane\<close>

definition pool_failure :: "draw_error \<Rightarrow> hx_error" where [hx_defs]:
  "pool_failure e = (case e of
     EmptyPool \<Rightarrow> NoRoute ''the model pool has no members''
   | AllDown ms \<Rightarrow> ProviderError (''every member of the model pool is down: ''
       @ join ''; '' (map (\<lambda>(i, why). i @ '' ('' @ why @ '')'') ms)))"

text \<open>The loop of \<open>run_lane\<close>.  It may not end, so a lane that never returns is \<^const>\<open>None\<close>.\<close>

partial_function (option) lane_loop ::
  "spawn_env \<Rightarrow> param list \<Rightarrow> string \<Rightarrow> nat \<Rightarrow> (string \<times> string) list \<Rightarrow> child_spec \<Rightarrow> model_pool
   \<Rightarrow> ((hx_error + child_record) \<times> model_pool) option" where
  "lane_loop env requested prompt n dead spec p = (case prepare_child env spec of
     Inl err \<Rightarrow> Some (Inl err, p)
   | Inr c \<Rightarrow>
       (let key = pp_key c
        in case complete_with_deadline env n (cs_provider spec) (child_request spec prompt) key of
          Inr response \<Rightarrow>
            (case se_store env n (child_usage spec (rs_usage response)) of
               Some err \<Rightarrow> Some (Inl err, p)
             | None \<Rightarrow> Some (Inr (child_record_of env spec key response dead), p))
        | Inl err \<Rightarrow>
            if \<not> member_death err then Some (Inl err, p)
            else
              (let why = redact_death_reason env key err;
                   p = snd (mark_down (cs_member spec) why (se_clock env n) p);
                   dead = dead @ [(cs_member spec, why)]
               in case build_spec requested p of
                 (Inr next, p) \<Rightarrow> lane_loop env requested prompt (Suc n) dead next p
               | (Inl e, p) \<Rightarrow> Some (Inl (pool_failure e), p))))"

declare lane_loop.simps [code]

definition run_lane ::
  "spawn_env \<Rightarrow> string \<Rightarrow> param list \<Rightarrow> model_pool \<Rightarrow> ((hx_error + child_record) \<times> model_pool) option" where [hx_defs]:
  "run_lane env prompt requested p = (case build_spec requested p of
     (Inl e, p) \<Rightarrow> Some (Inl (pool_failure e), p)
   | (Inr spec, p) \<Rightarrow> lane_loop env requested prompt 0 [] spec p)"

subsection \<open>A fan-out\<close>

datatype fan_out_error = NotEnoughMembers nat nat | DrawFailed draw_error

datatype child_outcome = OutcomeRan child_record | OutcomeErrored string string

record fan_out_outcome =
  fo_members :: "string list"
  fo_children :: "child_outcome list"

definition members_are_distinct :: "fan_out_outcome \<Rightarrow> bool" where [hx_defs]:
  "members_are_distinct out = (length (remdups (fo_members out)) = length (fo_members out))"

definition completed_models :: "fan_out_outcome \<Rightarrow> string list" where [hx_defs]:
  "completed_models out = concat (map (\<lambda>c. case c of OutcomeRan r \<Rightarrow> [rec_model r] | OutcomeErrored _ _ \<Rightarrow> []) (fo_children out))"

fun allocate :: "nat \<Rightarrow> model_pool \<Rightarrow> (draw_error + child_spec list) \<times> model_pool" where
  "allocate 0 p = (Inr [], p)"
| "allocate (Suc n) p = (case build_spec [] p of
     (Inl e, p) \<Rightarrow> (Inl e, p)
   | (Inr spec, p) \<Rightarrow> (case allocate n p of
       (Inl e, p) \<Rightarrow> (Inl e, p)
     | (Inr specs, p) \<Rightarrow> (Inr (spec # specs), p)))"

definition default_fanout_max_parallel :: nat where [hx_defs]:
  "default_fanout_max_parallel = 4"

definition fanout_limit :: "nat option \<Rightarrow> nat \<Rightarrow> nat" where [hx_defs]:
  "fanout_limit max_parallel wanted =
     min (max (case max_parallel of Some n \<Rightarrow> n | None \<Rightarrow> default_fanout_max_parallel) 1) (max wanted 1)"

text \<open>What the landing of one lane does: its slot, and the member's health.\<close>

definition land ::
  "spawn_env \<Rightarrow> child_spec list \<Rightarrow> string list \<Rightarrow> nat \<Rightarrow> child_outcome option list \<times> model_pool
   \<Rightarrow> child_outcome option list \<times> model_pool" where [hx_defs]:
  "land env specs prompts i state = (case state of (slots, p) \<Rightarrow>
     (case prepare_child env (specs ! i) of
        Inl _ \<Rightarrow> (slots, p)
      | Inr c \<Rightarrow> (case run_prepared env i (prompts ! i) c of
          Inr (ChildRan r) \<Rightarrow> (slots[i := Some (OutcomeRan r)], p)
        | Inr (ChildFailed m why err) \<Rightarrow>
            (slots[i := Some (OutcomeErrored m (redact_child_error env (specs ! i) err))],
             snd (mark_down m why (se_clock env i) p))
        | Inl err \<Rightarrow>
            (slots[i := Some (OutcomeErrored (cs_member (specs ! i)) (redact_child_error env (specs ! i) err))], p))))"

definition first_slots :: "spawn_env \<Rightarrow> child_spec list \<Rightarrow> child_outcome option list" where [hx_defs]:
  "first_slots env specs = map (\<lambda>spec. case prepare_child env spec of
     Inl err \<Rightarrow> Some (OutcomeErrored (cs_member spec) (redact_child_error env spec err))
   | Inr _ \<Rightarrow> None) specs"

text \<open>The lanes are in flight together, at most \<open>fanout_limit\<close> of them; in which order they land is up to the
  providers, so it is an argument, a list of child numbers.  A slot that no lane filled would be a panic, \<^const>\<open>None\<close>.\<close>

definition run_fan_out ::
  "spawn_env \<Rightarrow> nat list \<Rightarrow> string list \<Rightarrow> model_pool
   \<Rightarrow> ((fan_out_error + fan_out_outcome) \<times> model_pool) option" where [hx_defs]:
  "run_fan_out env order prompts p =
     (let wanted = length prompts
      in case allocate wanted p of
        (Inl e, p) \<Rightarrow> Some (Inl (DrawFailed e), p)
      | (Inr specs, p) \<Rightarrow>
          (let members = map cs_member specs; offered = length (remdups members)
           in if offered < wanted then Some (Inl (NotEnoughMembers wanted offered), p)
              else (case fold (land env specs prompts) order (first_slots env specs, p) of
                (slots, p) \<Rightarrow>
                  if None \<in> set slots then None
                  else Some (Inr \<lparr>fo_members = members, fo_children = map the slots\<rparr>, p))))"

end
