(* ===== verification/Spawner_Facts.thy ===== *)
theory Spawner_Facts imports Spawner
begin

section \<open>Lanes end, and children do not disturb each other\<close>

text \<open>
  What a spawner promises on a pool whose members have distinct identifiers: a lane ends, having
  benched exactly the members that died on it; a fan-out runs on as many members as it has children, and what
  happens to one child is up to that child alone.
\<close>

definition distinct_ids :: "model_pool \<Rightarrow> bool" where
  "distinct_ids p \<longleftrightarrow> distinct (map pm_id (mp_members p))"


lemma draw_cases:
  obtains (none) e where "draw p = (Inl e, p)" "healthy p = []" "e = EmptyPool \<longrightarrow> mp_members p = []"
  | (some) m p' where "draw p = (Inr m, p')" "m \<in> set (healthy p)" "mp_members p' = mp_members p"
proof (cases "healthy p = []")
  case False
  then show thesis by (intro some [OF draw_healthy]) simp_all
qed (use none draw_none in \<open>auto split: if_splits\<close>)

lemma build_spec_cases:
  obtains (none) e where "build_spec requested p = (Inl e, p)" "healthy p = []"
  | (some) m p' where "build_spec requested p = (Inr (spec_for m requested), p')" "m \<in> set (healthy p)"
      "mp_members p' = mp_members p"
  by (cases p rule: draw_cases) (auto simp: build_spec_def)



lemma spec_for_simps [simp]:
  "cs_member (spec_for m r) = pm_id m" "cs_provider (spec_for m r) = pm_provider m"
  "cs_model (spec_for m r) = pm_model m" "cs_credential (spec_for m r) = pm_credential m"
  by (simp_all add: spec_for_def Let_def)

lemma pool_failure_death: "member_death (pool_failure (AllDown ms))" "\<not> member_death (pool_failure EmptyPool)"
  by (simp_all add: pool_failure_def)






subsection \<open>Instances\<close>

text \<open>Every provider answers but that of the first member, whose upstream echoes the key it was sent.\<close>

definition half_dead_env :: spawn_env where
  "half_dead_env = \<lparr>se_provider = (\<lambda>_ _. None), se_secret = (\<lambda>_. Inr ''hunter2-long''),
     se_complete = (\<lambda>n provider _ key. Some (if provider = ''p''
       then Inl (ProviderError (''HTTP 500: bad key '' @ key))
       else Inr \<lparr>rs_message = assistant_message ''done'',
         rs_usage = \<lparr>input_tokens = 10, output_tokens = 5, cached_input_tokens = 0, reasoning_tokens = 0\<rparr>,
         rs_model = ''upstream''\<rparr>)),
     se_store = (\<lambda>_ _. None), se_clock = int, se_regex = (\<lambda>_ _ _. None), se_deadline = ''120s''\<rparr>"

lemma half_dead_lane:
  "map_option (\<lambda>(r, p). (map_sum id (\<lambda>r. (rec_model r, rec_dead_members r)) r, map pm_id (healthy p)))
     (run_lane half_dead_env ''hi'' [] two_members)
   = Some (Inr (''n'', [(''a'', ''provider error: HTTP 500: bad key [REDACTED:known-secret]'')]), [''b''])"
  by code_simp

lemma lane_ran: "\<exists>r p'. run_lane half_dead_env ''hi'' [] two_members = Some (Inr r, p')"
proof -
  obtain b p' where "run_lane half_dead_env ''hi'' [] two_members = Some (b, p')"
    using half_dead_lane by (auto split: prod.splits)
  with half_dead_lane show ?thesis by (cases b) auto
qed


subsection \<open>No key in what is reported\<close>

text \<open>The routes of a pool: what no call changes of its members.\<close>

definition routes :: "model_pool \<Rightarrow> (string \<times> string) set" where
  "routes p = (\<lambda>m. (pm_id m, pm_credential m)) ` set (mp_members p)"

lemma routes_update_first: "(\<And>m. pm_id (f m) = pm_id m \<and> pm_credential (f m) = pm_credential m) \<Longrightarrow>
    (\<lambda>m. (pm_id m, pm_credential m)) ` set (update_first i f ms) = (\<lambda>m. (pm_id m, pm_credential m)) ` set ms"
  by (induction ms) auto

lemma routes_mark_down [simp]: "routes (snd (mark_down i why now p)) = routes p"
  by (simp add: routes_def mark_down_def routes_update_first)

lemma build_spec_routes:
  assumes "build_spec requested p = (Inr spec, q)"
  shows "(cs_member spec, cs_credential spec) \<in> routes p \<and> routes q = routes p"
  using assms by (cases requested p rule: build_spec_cases) (auto simp: routes_def healthy_def)

text \<open>What a text about a call with the credential \<open>c\<close> must not contain.\<close>

definition hides_key :: "spawn_env \<Rightarrow> string \<Rightarrow> string \<Rightarrow> bool" where
  "hides_key env c t \<longleftrightarrow> (\<forall>key. se_secret env c = Inr key \<and> 8 \<le> length key \<and> unspellable key \<longrightarrow> \<not> contains_str t key)"

lemma redacted_hides:
  assumes "splicing (se_regex env)" "8 \<le> length key" "unspellable key"
  shows "\<not> contains_str (rd_text (redact (se_regex env) body (register key new_redactor))) key"
  using assms register_all_registered [OF registered_new, of "[key]"]
  by (intro redact_removes) (simp_all add: register_all_def)

lemma death_reason_hides: "splicing (se_regex env) \<Longrightarrow> prepare_child env spec = Inr c \<Longrightarrow>
    hides_key env (cs_credential spec) (redact_death_reason env (pp_key c) err)"
  by (auto simp: hides_key_def redact_death_reason_def prepare_child_def redacted_hides split: option.splits sum.splits)

lemma answer_hides: "splicing (se_regex env) \<Longrightarrow> prepare_child env spec = Inr c \<Longrightarrow>
    hides_key env (cs_credential spec) (final_answer env (pp_key c) m)"
  by (auto simp: hides_key_def final_answer_def Let_def prepare_child_def redacted_hides split: option.splits sum.splits)

lemma lane_loop_hides:
  assumes "lane_loop env requested prompt n dead spec p = Some y"
    and "splicing (se_regex env)" "(cs_member spec, cs_credential spec) \<in> routes p"
    and "\<forall>(i, why) \<in> set dead. \<exists>c. (i, c) \<in> routes p \<and> hides_key env c why"
  shows "case fst y of
      Inr rec \<Rightarrow> (\<forall>(i, why) \<in> set (rec_dead_members rec). \<exists>c. (i, c) \<in> routes p \<and> hides_key env c why)
        \<and> hides_key env (rec_credential rec) (rec_answer rec)
    | Inl _ \<Rightarrow> True"
  using assms
proof (induction env requested prompt n dead spec p y rule: lane_loop.raw_induct [rotated, consumes 1, case_names body])
  case (body loop env requested prompt n dead spec p y)
  show ?case
  proof (cases "prepare_child env spec")
    case (Inl err)
    then show ?thesis using body(2) by auto
  next
    case (Inr c)
    let ?call = "complete_with_deadline env n (cs_provider spec) (child_request spec prompt) (pp_key c)"
    show ?thesis
    proof (cases ?call)
      case (Inr response)
      then show ?thesis
        using body(2,5) \<open>prepare_child env spec = Inr c\<close> answer_hides [OF body(3) \<open>prepare_child env spec = Inr c\<close>]
        by (auto simp: child_record_of_def split: option.splits)
    next
      case (Inl err)
      let ?why = "redact_death_reason env (pp_key c) err"
      let ?p = "snd (mark_down (cs_member spec) ?why (se_clock env n) p)"
      show ?thesis
      proof (cases "member_death err")
        case False
        then show ?thesis using body(2) Inl \<open>prepare_child env spec = Inr c\<close> by auto
      next
        case True
        show ?thesis
        proof (cases "build_spec requested ?p")
          case (Pair b q)
          show ?thesis
          proof (cases b)
            case (Inl e)
            then show ?thesis
              using body(2) Pair True \<open>?call = Inl err\<close> \<open>prepare_child env spec = Inr c\<close> by (auto simp: Let_def)
          next
            case (Inr k)
            have k: "(cs_member k, cs_credential k) \<in> routes q" "routes q = routes p"
              using build_spec_routes [of requested ?p k q] Pair Inr by simp_all
            have l: "loop env requested prompt (Suc n) (dead @ [(cs_member spec, ?why)]) k q = Some y"
              using body(2) Pair Inr True \<open>?call = Inl err\<close> \<open>prepare_child env spec = Inr c\<close> by (simp add: Let_def)
            have d: "\<forall>(i, why) \<in> set (dead @ [(cs_member spec, ?why)]). \<exists>c. (i, c) \<in> routes q \<and> hides_key env c why"
              using body(4,5) death_reason_hides [OF body(3) \<open>prepare_child env spec = Inr c\<close>, of err] k(2) by auto
            show ?thesis using body(1) [OF l body(3) k(1) d] unfolding k(2) .
          qed
        qed
      qed
    qed
  qed
qed

text \<open>No lane reports a key: in the record it returns, no reason of a death contains the key of the member that died,
  and the answer does not contain the key of the member that gave it, whatever the providers echo (for keys of at least eight
  bytes that no mask can spell).\<close>

theorem lane_reports_no_key:
  assumes "splicing (se_regex env)" "run_lane env prompt requested p = Some (Inr rec, p')"
  shows "(\<forall>(i, why) \<in> set (rec_dead_members rec). \<exists>m \<in> set (mp_members p). pm_id m = i \<and>
      (\<forall>key. se_secret env (pm_credential m) = Inr key \<and> 8 \<le> length key \<and> unspellable key \<longrightarrow> \<not> contains_str why key))
    \<and> (\<forall>key. se_secret env (rec_credential rec) = Inr key \<and> 8 \<le> length key \<and> unspellable key \<longrightarrow>
         \<not> contains_str (rec_answer rec) key)"
proof -
  obtain spec q where "build_spec requested p = (Inr spec, q)" "lane_loop env requested prompt 0 [] spec q = Some (Inr rec, p')"
    using assms(2) by (auto simp: run_lane_def split: prod.splits sum.splits)
  then show ?thesis
    using lane_loop_hides [OF _ assms(1), of requested prompt 0 "[]" spec q "(Inr rec, p')"] build_spec_routes [of requested p spec q]
    by (fastforce simp: routes_def hides_key_def)
qed

theorem lane_reports_no_key_witness:
  "\<exists>r p'. run_lane half_dead_env ''hi'' [] two_members = Some (Inr r, p') \<and>
     (\<forall>(i, why) \<in> set (rec_dead_members r). \<not> contains_str why ''hunter2-long'')"
proof -
  have "splicing (se_regex half_dead_env)" by (simp add: splicing_def half_dead_env_def)
  moreover obtain r p' where r: "run_lane half_dead_env ''hi'' [] two_members = Some (Inr r, p')"
    using lane_ran by blast
  ultimately have "\<forall>(i, why) \<in> set (rec_dead_members r). \<not> contains_str why ''hunter2-long''"
    using lane_reports_no_key [of half_dead_env "''hi''" "[]" two_members r p'] unspellable_hunter
    by (fastforce simp: half_dead_env_def)
  with r show ?thesis by blast
qed

subsection \<open>Two members of one name\<close>

text \<open>Nothing refuses two members of the same identifier.  The death of the second is booked on the first, so the second
  stays healthy, is drawn again, and the lane never ends: it calls a dead provider for ever.\<close>

lemma twins_never_end:
  assumes "lane_loop env requested prompt n dead spec p = Some y"
    and "\<forall>a b. se_provider env a b = None" "\<forall>c. se_secret env c = Inr key"
    and "\<forall>n a r k. se_complete env n a r k = Some (Inl (ProviderError ''HTTP 500''))"
    and "mp_members p = [x, m]" "pm_id x = i" "pm_id m = i" "pm_health x \<noteq> Healthy" "pm_health m = Healthy"
    and "cs_member spec = i"
  shows False
  using assms
proof (induction env requested prompt n dead spec p y arbitrary: x
    rule: lane_loop.raw_induct [rotated, consumes 1, case_names body])
  case (body loop env requested prompt n dead spec p y)
  obtain c where c: "prepare_child env spec = Inr c" using body(3,4) by (simp add: prepare_child_def)
  have call: "complete_with_deadline env n (cs_provider spec) (child_request spec prompt) k = Inl (ProviderError ''HTTP 500'')"
    for k using body(5) by (simp add: complete_with_deadline_def)
  define why where "why = redact_death_reason env (pp_key c) (ProviderError ''HTTP 500'')"
  define q where "q = snd (mark_down i why (se_clock env n) p)"
  have q: "mp_members q = [x\<lparr>pm_health := Down why (se_clock env n)\<rparr>, m]"
    using body(6-7) by (simp add: q_def mark_down_def)
  then have "healthy q = [m]" using body(10) by (simp add: healthy_def)
  then have "build_spec requested q = (Inr (spec_for m requested), q\<lparr>mp_cursor := mp_cursor q + 1\<rparr>)"
    by (simp add: build_spec_def draw_healthy)
  then have "loop env requested prompt (Suc n) (dead @ [(i, why)]) (spec_for m requested)
      (q\<lparr>mp_cursor := mp_cursor q + 1\<rparr>) = Some y"
    using body(2,11) by (simp add: c call Let_def q_def why_def)
  from body(1) [OF this body(3-5), of "x\<lparr>pm_health := Down why (se_clock env n)\<rparr>"]
  show False using q body(7-10) by simp
qed

lemma twin_lane_hangs:
  assumes "mp_members p = [m, m]" "pm_health m = Healthy"
    and "\<forall>a b. se_provider env a b = None" "\<forall>c. se_secret env c = Inr key"
    and "\<forall>n a r k. se_complete env n a r k = Some (Inl (ProviderError ''HTTP 500''))"
  shows "run_lane env prompt requested p = None"
proof -
  have h: "healthy p = [m, m]" using assms(1,2) by (simp add: healthy_def)
  let ?p = "p\<lparr>mp_cursor := mp_cursor p + 1\<rparr>" and ?spec = "spec_for m requested"
  have "[m, m] ! (unat (mp_cursor p) mod 2) = m"
    by (cases "unat (mp_cursor p) mod 2 = 0") (simp_all add: mod_2_eq_odd)
  then have run: "run_lane env prompt requested p = lane_loop env requested prompt 0 [] ?spec ?p"
    using h by (simp add: run_lane_def build_spec_def draw_healthy numeral_2_eq_2)
  obtain c where c: "prepare_child env ?spec = Inr c" using assms(3,4) by (simp add: prepare_child_def)
  define why where "why = redact_death_reason env (pp_key c) (ProviderError ''HTTP 500'')"
  define q where "q = snd (mark_down (pm_id m) why (se_clock env 0) ?p)"
  have q: "mp_members q = [m\<lparr>pm_health := Down why (se_clock env 0)\<rparr>, m]"
    using assms(1) by (simp add: q_def mark_down_def)
  then have "healthy q = [m]" using assms(2) by (simp add: healthy_def)
  then have "build_spec requested q = (Inr ?spec, q\<lparr>mp_cursor := mp_cursor q + 1\<rparr>)"
    by (simp add: build_spec_def draw_healthy)
  then have "lane_loop env requested prompt 0 [] ?spec ?p
      = lane_loop env requested prompt 1 [(pm_id m, why)] ?spec (q\<lparr>mp_cursor := mp_cursor q + 1\<rparr>)" (is "_ = ?rest")
    using assms(5) by (subst lane_loop.simps) (simp add: c complete_with_deadline_def Let_def q_def why_def)
  moreover have "?rest \<noteq> Some y" for y
    using twins_never_end [OF _ assms(3-5), of requested prompt 1 "[(pm_id m, why)]" ?spec
        "q\<lparr>mp_cursor := mp_cursor q + 1\<rparr>" y "m\<lparr>pm_health := Down why (se_clock env 0)\<rparr>" m "pm_id m"]
      q assms(2) by auto
  ultimately show ?thesis using run by (metis option.exhaust)
qed

text \<open>And a lane and a single child read the same failure differently: a request that the provider refused
  leaves the member healthy in a lane, and benches it in \<open>run_child\<close>.\<close>

lemma refused_request_benches:
  assumes "prepare_child env spec = Inr c" "complete_with_deadline env n (cs_provider spec) (child_request spec prompt) (pp_key c)
      = Inl (ProviderRejected who why)"
  shows "snd (run_child env n spec prompt p)
      = snd (mark_down (cs_member spec) (redact_death_reason env (pp_key c) (ProviderRejected who why)) (se_clock env n) p)"
    and "lane_loop env requested prompt n dead spec p = Some (Inl (ProviderRejected who why), p)"
proof -
  have "pp_spec c = spec" using assms(1) by (auto simp: prepare_child_def split: option.splits sum.splits)
  then show "snd (run_child env n spec prompt p)
      = snd (mark_down (cs_member spec) (redact_death_reason env (pp_key c) (ProviderRejected who why)) (se_clock env n) p)"
    using assms by (simp add: run_child_def run_prepared_def Let_def)
  show "lane_loop env requested prompt n dead spec p = Some (Inl (ProviderRejected who why), p)"
    using assms by (subst lane_loop.simps) (simp add: Let_def)
qed

subsection \<open>A fan-out\<close>

text \<open>What happens to one child alone.\<close>

definition own_outcome :: "spawn_env \<Rightarrow> nat \<Rightarrow> child_spec \<Rightarrow> string \<Rightarrow> child_outcome" where
  "own_outcome env i spec prompt = (case prepare_child env spec of
     Inl err \<Rightarrow> OutcomeErrored (cs_member spec) (redact_child_error env spec err)
   | Inr c \<Rightarrow> (case run_prepared env i prompt c of
       Inr (ChildRan r) \<Rightarrow> OutcomeRan r
     | Inr (ChildFailed m why err) \<Rightarrow> OutcomeErrored m (redact_child_error env spec err)
     | Inl err \<Rightarrow> OutcomeErrored (cs_member spec) (redact_child_error env spec err)))"

definition in_flight :: "spawn_env \<Rightarrow> child_spec \<Rightarrow> bool" where
  "in_flight env spec \<longleftrightarrow> (\<exists>c. prepare_child env spec = Inr c)"

lemma land_slots:
  "fst (land env specs prompts i (slots, p))
    = (if in_flight env (specs ! i) then slots[i := Some (own_outcome env i (specs ! i) (prompts ! i))] else slots)"
  by (auto simp: land_def own_outcome_def in_flight_def split: sum.splits prepared_outcome.splits)

lemma land_length [simp]: "length (fst (land env specs prompts i st)) = length (fst st)"
  by (cases st) (simp add: land_slots)







lemma allocate_members: "mp_members (snd (allocate n p)) = mp_members p"
proof (induction n arbitrary: p)
  case (Suc n)
  show ?case
  proof (cases "[]::param list" p rule: build_spec_cases)
    case (some m q)
    then show ?thesis using Suc [of q] by (auto split: prod.splits sum.splits)
  qed simp
qed simp

lemma allocate_draws:
  "healthy p \<noteq> [] \<Longrightarrow> \<exists>q. allocate n p = (Inr (map (\<lambda>r. case r of Inr m \<Rightarrow> spec_for m []) (fst (draws n p))), q)"
proof (induction n arbitrary: p)
  case (Suc n)
  let ?q = "p\<lparr>mp_cursor := mp_cursor p + 1\<rparr>"
  have "healthy ?q \<noteq> []" using Suc.prems by (simp add: healthy_def)
  then obtain q where "allocate n ?q = (Inr (map (\<lambda>r. case r of Inr m \<Rightarrow> spec_for m []) (fst (draws n ?q))), q)"
    using Suc.IH by blast
  then show ?case by (simp add: build_spec_def draw_healthy [OF Suc.prems] case_prod_unfold)
qed simp

lemma draws_take: "n \<le> k \<Longrightarrow> fst (draws n p) = take n (fst (draws k p))"
proof (induction n arbitrary: k p)
  case (Suc n)
  then obtain j where k: "k = Suc j" "n \<le> j" by (cases k) auto
  show ?case using Suc.IH [OF k(2)] by (simp add: k(1) case_prod_unfold)
qed simp

lemma allocated_ids:
  assumes "distinct_ids p" "healthy p \<noteq> []" "unat (mp_cursor p) + max n (length (healthy p)) \<le> 2 ^ 64"
  obtains specs q where "allocate n p = (Inr specs, q)" "mp_members q = mp_members p" "length specs = n"
    "n \<le> length (healthy p) \<Longrightarrow> distinct (map cs_member specs)"
    "length (healthy p) \<le> n \<Longrightarrow> set (map cs_member specs) = pm_id ` set (healthy p)"
proof -
  let ?spec = "\<lambda>r. case r of Inr m \<Rightarrow> spec_for m []" and ?L = "length (healthy p)"
  let ?ids = "\<lambda>k. map cs_member (map ?spec (fst (draws k p)))"
  obtain q where q: "allocate n p = (Inr (map ?spec (fst (draws n p))), q)" using allocate_draws [OF assms(2)] by blast
  have "mset (?ids ?L) = mset (map pm_id (healthy p))"
    using draws_are_a_round [OF refl, of p] assms(3) by (simp add: multiset.map_comp comp_def)
  moreover have "distinct (map pm_id (healthy p))"
    using assms(1) unfolding distinct_ids_def healthy_def by (rule distinct_map_filter)
  ultimately have full: "distinct (?ids ?L)" "set (?ids ?L) = pm_id ` set (healthy p)"
    by (metis mset_eq_imp_distinct_iff) (metis \<open>mset (?ids ?L) = mset (map pm_id (healthy p))\<close> mset_eq_setD set_map)
  have round: "fst (draws n p) = map (\<lambda>j. Inr (healthy p ! ((unat (mp_cursor p) + j) mod ?L))) [0..<n]"
    using assms(2,3) by (intro draws_round) simp_all
  show thesis
  proof (rule that [OF q])
    show "mp_members q = mp_members p" using allocate_members [of n p] by (simp add: q)
    show "length (map ?spec (fst (draws n p))) = n" by (simp add: round)
    show "distinct (?ids n)" if "n \<le> ?L"
      using full(1) draws_take [OF that, of p] by (simp add: take_map [symmetric])
    show "set (?ids n) = pm_id ` set (healthy p)" if "?L \<le> n"
    proof
      show "set (?ids n) \<subseteq> pm_id ` set (healthy p)" using assms(2) by (auto simp: round)
      have "?ids ?L = take ?L (?ids n)" using draws_take [OF that, of p] by (simp add: take_map)
      then show "pm_id ` set (healthy p) \<subseteq> set (?ids n)" using full(2) set_take_subset by metis
    qed
  qed
qed


text \<open>A short pool is refused whole: when fewer members are healthy than there are prompts, no child runs, no member
  changes, and the refusal names how many were wanted and how many there are, or carries the pool's own error if
  there is none.\<close>

theorem fan_out_refuses_a_short_pool:
  assumes "distinct (map pm_id (mp_members p))" "length (healthy p) < length prompts"
    and "unat (mp_cursor p) + length prompts \<le> 2 ^ 64"
  shows "\<exists>e p'. run_fan_out env order prompts p = Some (Inl e, p') \<and> mp_members p' = mp_members p
    \<and> e = (if healthy p = [] then DrawFailed (if mp_members p = [] then EmptyPool else AllDown (map health_reason (mp_members p)))
           else NotEnoughMembers (length prompts) (length (healthy p)))"
proof (cases "healthy p = []")
  case True
  obtain k where "length prompts = Suc k" using assms(2) by (cases "length prompts") auto
  then show ?thesis using True by (simp add: run_fan_out_def Let_def build_spec_def draw_none)
next
  case False
  have wrap: "unat (mp_cursor p) + max (length prompts) (length (healthy p)) \<le> 2 ^ 64" using assms(2,3) by simp
  obtain specs q where al: "allocate (length prompts) p = (Inr specs, q)" "mp_members q = mp_members p"
    "set (map cs_member specs) = pm_id ` set (healthy p)"
    using allocated_ids [OF _ False wrap] assms(1,2) unfolding distinct_ids_def by (metis less_imp_le_nat)
  have "distinct (map pm_id (healthy p))"
    using assms(1) unfolding healthy_def by (rule distinct_map_filter)
  then have "length (remdups (map cs_member specs)) = length (healthy p)"
    by (metis al(3) distinct_card length_map length_remdups_card_conv set_map)
  then show ?thesis using False assms(2) al(1,2) by (simp add: run_fan_out_def Let_def)
qed


theorem fan_out_refuses_a_short_pool_witness:
  "\<exists>p'. run_fan_out half_dead_env [] [''x'', ''y'', ''z''] two_members = Some (Inl (NotEnoughMembers 3 2), p')"
proof -
  have h: "distinct (map pm_id (mp_members two_members))" "length (healthy two_members) = 2" "healthy two_members \<noteq> []"
    by code_simp+
  have c: "unat (mp_cursor two_members) = 0"
    by (simp add: two_members_def pool_from_config_def new_model_pool_def)
  show ?thesis
    using fan_out_refuses_a_short_pool [OF h(1), of "[''x'', ''y'', ''z'']" half_dead_env "[]"] h(2,3) c by auto
qed

end
