(* ===== verification/Rust_Utf8.thy ===== *)
theory Rust_Utf8 imports Rust_Prelude
begin

section \<open>Bytes that need not be text\<close>

text \<open>
  What the library does with bytes from outside: \<open>String::from_utf8\<close>, which refuses bytes that are not UTF-8, and
  \<open>String::from_utf8_lossy\<close>, which replaces each maximal piece that cannot be part of a character by the
  replacement character.  Then the lines of a text, the place of a text in another, the number of characters of a
  text, and the first and last \<open>n\<close> of them.
\<close>

text \<open>The ranges of the bytes after a leading byte, \<^const>\<open>None\<close> if it leads no character.\<close>

definition utf8_tail :: "char \<Rightarrow> (nat \<times> nat) list option" where [hx_defs]:
  "utf8_tail c = (let b = byte c; cont = (128, 191) in
     if b < 128 then Some []
     else if b < 194 then None
     else if b < 224 then Some [cont]
     else if b = 224 then Some [(160, 191), cont]
     else if b = 237 then Some [(128, 159), cont]
     else if b < 240 then Some [cont, cont]
     else if b = 240 then Some [(144, 191), cont, cont]
     else if b < 244 then Some [cont, cont, cont]
     else if b = 244 then Some [(128, 143), cont, cont]
     else None)"

fun matching :: "(nat \<times> nat) list \<Rightarrow> string \<Rightarrow> nat" where
  "matching ((lo, hi) # rs) (c # s) = (if lo \<le> byte c \<and> byte c \<le> hi then Suc (matching rs s) else 0)"
| "matching _ _ = 0"

definition replacement :: string where [hx_defs]:
  "replacement = [CHR 0xEF, CHR 0xBF, CHR 0xBD]"

text \<open>One step: what the leading byte becomes, and how many bytes after it belong to it.\<close>

definition utf8_step :: "char \<Rightarrow> string \<Rightarrow> bool \<times> nat" where [hx_defs]:
  "utf8_step c s = (case utf8_tail c of
     None \<Rightarrow> (False, 0)
   | Some rs \<Rightarrow> (matching rs s = length rs, matching rs s))"

function utf8_lossy :: "string \<Rightarrow> string" where
  "utf8_lossy [] = []"
| "utf8_lossy (c # s) = (case utf8_step c s of
     (whole, n) \<Rightarrow> (if whole then c # take n s else replacement) @ utf8_lossy (drop n s))"
  by pat_completeness auto
termination by (relation "measure length") auto

function is_utf8 :: "string \<Rightarrow> bool" where
  "is_utf8 [] = True"
| "is_utf8 (c # s) = (case utf8_step c s of (whole, n) \<Rightarrow> whole \<and> is_utf8 (drop n s))"
  by pat_completeness auto
termination by (relation "measure length") auto

lemma utf8_lossy_text: "is_utf8 s \<Longrightarrow> utf8_lossy s = s"
  by (induction s rule: is_utf8.induct) (auto split: prod.splits)

subsection \<open>Lines and places\<close>

text \<open>\<open>str::lines\<close>: the pieces between line feeds, without a last empty one and without a carriage return
  before the line feed.\<close>

definition drop_cr :: "string \<Rightarrow> string" where [hx_defs]:
  "drop_cr s = (if s \<noteq> [] \<and> last s = CHR 0x0D then butlast s else s)"

fun str_lines_from :: "string \<Rightarrow> string \<Rightarrow> string list" where
  "str_lines_from acc [] = (if acc = [] then [] else [acc])"
| "str_lines_from acc (c # s) =
     (if c = CHR 0x0A then drop_cr acc # str_lines_from [] s else str_lines_from (acc @ [c]) s)"

definition str_lines :: "string \<Rightarrow> string list" where [hx_defs]:
  "str_lines s = str_lines_from [] s"

text \<open>\<open>str::find\<close> of a text: the first place where it occurs.\<close>

fun find_str :: "string \<Rightarrow> string \<Rightarrow> nat option" where
  "find_str p [] = (if p = [] then Some 0 else None)"
| "find_str p (c # s) = (if starts_with (c # s) p then Some 0 else map_option Suc (find_str p s))"

text \<open>Decimal rendering of a signed integer.\<close>

definition show_int :: "int \<Rightarrow> string" where [hx_defs]:
  "show_int i = (if i < 0 then ''-'' @ show_nat (nat (- i)) else show_nat (nat i))"

subsection \<open>Counting characters\<close>

definition first_chars :: "nat \<Rightarrow> string \<Rightarrow> string" where [hx_defs]:
  "first_chars n s = concat (take n (chars s))"

definition skip_chars :: "nat \<Rightarrow> string \<Rightarrow> string" where [hx_defs]:
  "skip_chars n s = concat (drop n (chars s))"

lemma chars_first [simp]: "chars (first_chars n s) = take n (chars s)"
  unfolding first_chars_def by (rule chars_concat) (metis append_take_drop_id char_seq_chars char_seq_prefix)

lemma chars_skip [simp]: "chars (skip_chars n s) = drop n (chars s)"
  unfolding skip_chars_def by (rule chars_concat) (metis append_take_drop_id char_seq_chars char_seq_suffix)

lemma first_skip [simp]: "first_chars n s @ skip_chars n s = s"
  by (metis append_take_drop_id concat_append concat_chars first_chars_def skip_chars_def)

lemma chars_Cons_form: obtains c cs where "chars (k # t) = (k # c) # cs"
proof -
  obtain d cs where d: "chars (k # t) = d # cs" using chars_eq_Nil [of "k # t"] by (cases "chars (k # t)") blast+
  then have "d \<noteq> []" using chars_nonempty [of d "k # t"] by simp
  then show thesis using d that concat_chars [of "k # t"] by (cases d) auto
qed

lemma length_chars: "length (chars s) = length (filter (\<lambda>c. \<not> is_cont c) s) + (if s \<noteq> [] \<and> is_cont (hd s) then 1 else 0)"
proof (induction s)
  case (Cons b s)
  show ?case
  proof (cases s)
    case Cons': (Cons k t)
    obtain c cs where "chars (k # t) = (k # c) # cs" by (rule chars_Cons_form)
    then show ?thesis using Cons.IH Cons' by (auto simp del: chars.simps simp: chars.simps(2) [of b])
  qed simp
qed simp

lemma length_chars_append: "length (chars (s @ t)) \<le> length (chars s) + length (chars t)"
  by (cases s) (auto simp: length_chars simp del: chars.simps)

lemma length_chars_ascii: "list_all (\<lambda>c. \<not> is_cont c) s \<Longrightarrow> length (chars s) = length s"
  by (cases s) (auto simp: length_chars list_all_iff filter_id_conv simp del: chars.simps)

lemma length_chars_le: "length (chars s) \<le> length s"
proof (cases s)
  case (Cons b t)
  then show ?thesis using length_filter_le [of _ t] by (auto simp: length_chars simp del: chars.simps)
qed simp

end
