(* ===== verification/Review_Diff.thy ===== *)
theory Review_Diff imports Redaction Rust_Utf8
begin

section \<open>The diff of the review pane\<close>

text \<open>
  \<open>crates/hx-server/src/diff.rs\<close>: the line diff between the contents of a file and what an agent proposes,
  by a table of longest common subsequences within a budget and as a whole-file rewrite beyond it, and the
  redaction of what the diff shows.  A text of the redactor is a function \<open>rd\<close> of the text; the panic of
  \<open>flush_run\<close> is \<^const>\<open>None\<close>.  The product of two line counts cannot wrap a \<open>u64\<close>, because a file of
  \<open>2^32\<close> lines is beyond what the routes read.
\<close>

datatype diff_line = ContextLine string | RemovedLine string | AddedLine string

fun diff_mark :: "diff_line \<Rightarrow> string" where
  "diff_mark (ContextLine _) = '' ''"
| "diff_mark (RemovedLine _) = ''-''"
| "diff_mark (AddedLine _) = ''+''"

fun diff_text :: "diff_line \<Rightarrow> string" where
  "diff_text (ContextLine t) = t"
| "diff_text (RemovedLine t) = t"
| "diff_text (AddedLine t) = t"

subsection \<open>The edit script\<close>

datatype diff_op = Keep string | DeleteOp string | InsertOp string

text \<open>A row of the table, from the row below it: \<open>dp[i][j]\<close> from \<open>dp[i+1][j]\<close>, \<open>dp[i+1][j+1]\<close> and \<open>dp[i][j+1]\<close>.\<close>

fun lcs_row :: "string \<Rightarrow> string list \<Rightarrow> nat list \<Rightarrow> nat list" where
  "lcs_row x (y # ys) (d # below) =
     (let row = lcs_row x ys below
      in (if x = y then hd below + 1 else max d (hd row)) # row)"
| "lcs_row x _ _ = [0]"

fun lcs_table :: "string list \<Rightarrow> string list \<Rightarrow> nat list list" where
  "lcs_table [] b = [replicate (length b + 1) 0]"
| "lcs_table (x # xs) b = (let dp = lcs_table xs b in lcs_row x b (hd dp) # dp)"

function lcs_walk :: "string list \<Rightarrow> string list \<Rightarrow> nat list list \<Rightarrow> nat \<Rightarrow> nat \<Rightarrow> diff_op list" where
  "lcs_walk a b dp i j =
     (if i < length a \<and> j < length b then
        (if a ! i = b ! j then Keep (a ! i) # lcs_walk a b dp (i + 1) (j + 1)
         else if dp ! i ! (j + 1) \<le> dp ! (i + 1) ! j then DeleteOp (a ! i) # lcs_walk a b dp (i + 1) j
         else InsertOp (b ! j) # lcs_walk a b dp i (j + 1))
      else map DeleteOp (drop i a) @ map InsertOp (drop j b))"
  by pat_completeness auto
termination by (relation "measure (\<lambda>(a, b, dp, i, j). (length a - i) + (length b - j))") auto

declare lcs_walk.simps [simp del]

definition lcs_ops :: "string list \<Rightarrow> string list \<Rightarrow> diff_op list" where [hx_defs]:
  "lcs_ops a b = lcs_walk a b (lcs_table a b) 0 0"

definition whole_line_ops :: "string list \<Rightarrow> string list \<Rightarrow> diff_op list" where [hx_defs]:
  "whole_line_ops a b = map DeleteOp a @ map InsertOp b"

definition max_lcs_cells :: nat where [hx_defs]:
  "max_lcs_cells = 4000000"

fun render_op :: "diff_op \<Rightarrow> diff_line" where
  "render_op (Keep t) = ContextLine t"
| "render_op (DeleteOp t) = RemovedLine t"
| "render_op (InsertOp t) = AddedLine t"

definition diff_lines :: "string list \<Rightarrow> string list \<Rightarrow> diff_line list" where [hx_defs]:
  "diff_lines a b =
     (if a = b then map ContextLine a
      else map render_op
        (if length a * length b \<le> max_lcs_cells then lcs_ops a b else whole_line_ops a b))"

definition unified_diff :: "string \<Rightarrow> string \<Rightarrow> diff_line list" where [hx_defs]:
  "unified_diff current proposed = diff_lines (str_lines current) (str_lines proposed)"

subsection \<open>Redaction of a diff\<close>

definition marker :: string where [hx_defs]:
  "marker = ''[REDACTED:''"

definition redact_pair :: "(string \<Rightarrow> string) \<Rightarrow> string \<Rightarrow> string \<Rightarrow> string \<times> string" where [hx_defs]:
  "redact_pair rd a b =
     (if rd a \<noteq> a then (rd a, b)
      else if rd (a @ b) = a @ b then (a, b)
      else (case find_str marker (rd (a @ b)) of
        Some p \<Rightarrow>
          if length a \<le> p then (a, b)
          else (let stop = (case find_str '']'' (drop p (rd (a @ b))) of
                      Some close \<Rightarrow> p + close + 1 | None \<Rightarrow> length (rd (a @ b)))
                in (take stop (rd (a @ b)), drop stop (rd (a @ b))))
      | None \<Rightarrow> (rd (a @ b), [])))"

datatype line_kind = AddedKind | RemovedKind

fun kind_line :: "line_kind \<Rightarrow> string \<Rightarrow> diff_line" where
  "kind_line AddedKind t = AddedLine t"
| "kind_line RemovedKind t = RemovedLine t"

text \<open>The loop of \<open>flush_run\<close>: the redacted texts, and the run as it is left.  The run is a slice, which the loop
  writes to but cannot empty.\<close>

fun flush_loop :: "(string \<Rightarrow> string) \<Rightarrow> string list \<Rightarrow> string list \<times> string list" where
  "flush_loop rd [] = ([], [])"
| "flush_loop rd [x] = ([rd x], [x])"
| "flush_loop rd (x # y # run) =
     (case redact_pair rd x y of (a, b) \<Rightarrow>
      case flush_loop rd (b # run) of (texts, left) \<Rightarrow> (a # texts, x # left))"

definition flush_run ::
  "(string \<Rightarrow> string) \<Rightarrow> string list \<Rightarrow> line_kind option \<Rightarrow> (diff_line list \<times> string list) option" where [hx_defs]:
  "flush_run rd run kind =
     (if run = [] then Some ([], [])
      else (case kind of
        None \<Rightarrow> None
      | Some k \<Rightarrow> (case flush_loop rd run of (texts, left) \<Rightarrow> Some (map (kind_line k) texts, left))))"

fun line_class :: "diff_line \<Rightarrow> line_kind option" where
  "line_class (AddedLine _) = Some AddedKind"
| "line_class (RemovedLine _) = Some RemovedKind"
| "line_class (ContextLine _) = None"

text \<open>The loop over the lines, with the run, its kind and the lines written so far.\<close>

fun redact_loop ::
  "(string \<Rightarrow> string) \<Rightarrow> diff_line list \<Rightarrow> string list \<Rightarrow> line_kind option \<Rightarrow> diff_line list \<Rightarrow> diff_line list option" where
  "redact_loop rd [] run kind out = map_option (\<lambda>(ls, _). out @ ls) (flush_run rd run kind)"
| "redact_loop rd (l # ls) run kind out =
     (case line_class l of
        Some k \<Rightarrow>
          if kind = Some k then redact_loop rd ls (run @ [diff_text l]) kind out
          else (case flush_run rd run kind of
              None \<Rightarrow> None
            | Some (flushed, left) \<Rightarrow> redact_loop rd ls (left @ [diff_text l]) (Some k) (out @ flushed))
      | None \<Rightarrow>
          (case flush_run rd run kind of
              None \<Rightarrow> None
            | Some (flushed, left) \<Rightarrow> redact_loop rd ls left None (out @ flushed @ [ContextLine (diff_text l)])))"

definition redact_diff :: "(string \<Rightarrow> string) \<Rightarrow> diff_line list \<Rightarrow> diff_line list option" where [hx_defs]:
  "redact_diff rd ls = redact_loop rd ls [] None []"

end
