(* ===== verification/Remote_Host.thy ===== *)
theory Remote_Host imports Rust_Utf8 Model_Pool Redaction
begin

section \<open>What every host shares\<close>

text \<open>
  \<open>crates/hx-remote/src/host.rs\<close>: the shells of a host and how they quote, what a probe says of a machine,
  the output of a command and how it is bounded, in memory and for display.  A stream arrives in chunks, which
  are lists of bytes.
\<close>

datatype remote_os = Linux | MacOs | Windows | FreeBsd | UnknownOs

datatype shell_kind = Posix | PowerShell | CmdShell

abbreviation quote_char :: char where "quote_char \<equiv> CHR 0x27"

definition shell_quote :: "string \<Rightarrow> string" where [hx_defs]:
  "shell_quote arg = [quote_char] @ replace_str [quote_char] [quote_char, bs, quote_char, quote_char] arg @ [quote_char]"

definition powershell_quote :: "string \<Rightarrow> string" where [hx_defs]:
  "powershell_quote arg = [quote_char] @ replace_str [quote_char] [quote_char, quote_char] arg @ [quote_char]"

fun quote :: "shell_kind \<Rightarrow> string \<Rightarrow> string" where
  "quote Posix arg = shell_quote arg"
| "quote PowerShell arg = powershell_quote arg"
| "quote CmdShell arg = [CHR 0x22] @ replace_str [bs] [bs, bs] (replace_str [CHR 0x22] [] arg) @ [CHR 0x22]"

fun wrap :: "shell_kind \<Rightarrow> string \<Rightarrow> string list" where
  "wrap Posix line = [''sh'', ''-c'', line]"
| "wrap PowerShell line = [''powershell'', ''-NoProfile'', ''-NonInteractive'', ''-Command'', line]"
| "wrap CmdShell line = [''cmd'', ''/C'', line]"

fun chain :: "shell_kind \<Rightarrow> string \<Rightarrow> string \<Rightarrow> string" where
  "chain PowerShell first second = first @ ''; if ($? -eq $true) { '' @ second @ '' }''"
| "chain _ first second = first @ '' && '' @ second"

record host_caps =
  hc_os :: remote_os
  hc_shell :: shell_kind
  hc_arch :: "string option"
  hc_home_dir :: "string option"
  hc_has_sftp :: "bool option"

definition unknown_caps :: host_caps where [hx_defs]:
  "unknown_caps = \<lparr>hc_os = UnknownOs, hc_shell = Posix, hc_arch = None, hc_home_dir = None, hc_has_sftp = None\<rparr>"

definition is_unix :: "host_caps \<Rightarrow> bool" where [hx_defs]:
  "is_unix c \<longleftrightarrow> hc_os c \<in> {Linux, MacOs, FreeBsd}"

definition caps_from_uname :: "string \<Rightarrow> host_caps option" where [hx_defs]:
  "caps_from_uname stdout = (case split_whitespace stdout of
     [] \<Rightarrow> None
   | first # _ \<Rightarrow> map_option (\<lambda>os. unknown_caps\<lparr>hc_os := os, hc_shell := Posix\<rparr>)
       (if first = ''Linux'' then Some Linux
        else if first = ''Darwin'' then Some MacOs
        else if first \<in> {''FreeBSD'', ''OpenBSD'', ''NetBSD''} then Some FreeBsd
        else if first \<in> {''SunOS'', ''AIX'', ''HP-UX''} then Some UnknownOs
        else None))"

definition caps_from_ver :: "string \<Rightarrow> host_caps option" where [hx_defs]:
  "caps_from_ver stdout =
     (if contains_str (to_ascii_lowercase stdout) ''windows''
      then Some (unknown_caps\<lparr>hc_os := Windows, hc_shell := PowerShell\<rparr>) else None)"

definition detect_caps :: "string option \<Rightarrow> string option \<Rightarrow> host_caps" where [hx_defs]:
  "detect_caps uname ver =
     (case Option.bind uname caps_from_uname of
        Some caps \<Rightarrow> caps
      | None \<Rightarrow> (case Option.bind ver caps_from_ver of Some caps \<Rightarrow> caps | None \<Rightarrow> unknown_caps))"

subsection \<open>Output for display\<close>

definition notice_reserve :: nat where [hx_defs]:
  "notice_reserve = 48"

definition omission :: "nat \<Rightarrow> string \<Rightarrow> string" where [hx_defs]:
  "omission n what = [CHR 0x0A, CHR 0x0A] @ ''... ['' @ show_nat n @ '' '' @ what @ '' omitted] ...'' @ [CHR 0x0A, CHR 0x0A]"

definition truncate_middle :: "string \<Rightarrow> nat \<Rightarrow> string" where [hx_defs]:
  "truncate_middle s max_chars =
     (let total = length (chars s)
      in if total \<le> max_chars then s
         else if max_chars \<le> notice_reserve + 8 then first_chars max_chars s
         else
           (let budget = max_chars - notice_reserve;
                head_chars = budget * 3 div 5;
                tail_chars = budget - head_chars
            in first_chars head_chars s @ omission (total - head_chars - tail_chars) ''characters''
               @ skip_chars (total - tail_chars) s))"

record exec_output =
  eo_stdout :: string
  eo_stderr :: string
  eo_exit_code :: "int option"
  eo_duration_ms :: nat
  eo_truncated :: bool

definition exec_success :: "exec_output \<Rightarrow> bool" where [hx_defs]:
  "exec_success r \<longleftrightarrow> eo_exit_code r = Some 0"

definition combined :: "exec_output \<Rightarrow> string" where [hx_defs]:
  "combined r = (case (eo_stdout r = [], eo_stderr r = []) of
     (False, True) \<Rightarrow> eo_stdout r
   | (True, False) \<Rightarrow> eo_stderr r
   | (False, False) \<Rightarrow> trim_end (eo_stdout r) @ [CHR 0x0A] @ eo_stderr r
   | (True, True) \<Rightarrow> [])"

definition bounded :: "nat \<Rightarrow> exec_output \<Rightarrow> string" where [hx_defs]:
  "bounded max_chars r = truncate_middle (combined r) max_chars
     @ (case eo_exit_code r of
          Some c \<Rightarrow> if c = 0 then [] else CHR 0x0A # ''[exit status '' @ show_int c @ '']''
        | None \<Rightarrow> CHR 0x0A # ''[exit status unknown]'')"

subsection \<open>Output in memory\<close>

definition max_exec_stream_bytes :: nat where [hx_defs]:
  "max_exec_stream_bytes = 256 * 1024"

record bounded_output =
  bo_head_cap :: nat
  bo_tail_cap :: nat
  bo_head :: string
  bo_tail :: string
  bo_post_head_seen :: nat

definition with_cap :: "nat \<Rightarrow> bounded_output" where [hx_defs]:
  "with_cap cap =
     (let head_cap = (if cap \<le> 64 then cap else cap * 3 div 5)
      in \<lparr>bo_head_cap = head_cap, bo_tail_cap = cap - head_cap, bo_head = [], bo_tail = [], bo_post_head_seen = 0\<rparr>)"

text \<open>The part of \<open>push_bytes\<close> behind the head: what is left of the chunk goes to the tail, whose front is drained.\<close>

definition push_tail :: "string \<Rightarrow> bounded_output \<Rightarrow> bounded_output" where [hx_defs]:
  "push_tail chunk o_buf =
     (let o_buf = o_buf\<lparr>bo_post_head_seen := bo_post_head_seen o_buf + length chunk\<rparr>
      in if bo_tail_cap o_buf = 0 then o_buf
         else (let grown = bo_tail o_buf @ chunk
               in o_buf\<lparr>bo_tail := drop (length grown - bo_tail_cap o_buf) grown\<rparr>))"

definition push_bytes :: "string \<Rightarrow> bounded_output \<Rightarrow> bounded_output" where [hx_defs]:
  "push_bytes chunk o_buf =
     (if chunk = [] then o_buf
      else if length (bo_head o_buf) < bo_head_cap o_buf then
        (let n = min (bo_head_cap o_buf - length (bo_head o_buf)) (length chunk);
             o_buf = o_buf\<lparr>bo_head := bo_head o_buf @ take n chunk\<rparr>
         in if drop n chunk = [] then o_buf else push_tail (drop n chunk) o_buf)
      else push_tail chunk o_buf)"

definition retained_len :: "bounded_output \<Rightarrow> nat" where [hx_defs]:
  "retained_len o_buf = length (bo_head o_buf) + length (bo_tail o_buf)"

definition dropped_bytes :: "bounded_output \<Rightarrow> nat" where [hx_defs]:
  "dropped_bytes o_buf = bo_post_head_seen o_buf - length (bo_tail o_buf)"

definition is_truncated :: "bounded_output \<Rightarrow> bool" where [hx_defs]:
  "is_truncated o_buf \<longleftrightarrow> 0 < dropped_bytes o_buf"

definition finish_output :: "bounded_output \<Rightarrow> string" where [hx_defs]:
  "finish_output o_buf =
     (if dropped_bytes o_buf = 0 then utf8_lossy (bo_head o_buf @ bo_tail o_buf)
      else utf8_lossy (bo_head o_buf) @ omission (dropped_bytes o_buf) ''bytes'' @ utf8_lossy (bo_tail o_buf))"

text \<open>\<open>drain_pipe_bounded\<close>: what the pipe yields until it ends or fails is a list of chunks.\<close>

definition drain_pipe_bounded :: "string list option \<Rightarrow> nat \<Rightarrow> bounded_output" where [hx_defs]:
  "drain_pipe_bounded pipe cap = (case pipe of
     None \<Rightarrow> with_cap cap
   | Some reads \<Rightarrow> fold push_bytes (takeWhile (\<lambda>c. c \<noteq> []) reads) (with_cap cap))"

subsection \<open>Capped reads\<close>

definition check_cap :: "string \<Rightarrow> nat \<Rightarrow> nat \<Rightarrow> hx_error option" where [hx_defs]:
  "check_cap what measured cap = (if cap < measured then Some (TooLargeError what measured cap) else None)"

definition read_file_capped :: "(string \<Rightarrow> hx_error + string) \<Rightarrow> string \<Rightarrow> nat \<Rightarrow> hx_error + string" where [hx_defs]:
  "read_file_capped read path cap = (case read path of
     Inl e \<Rightarrow> Inl e
   | Inr bytes \<Rightarrow> if cap < length bytes then Inl (TooLargeError path (length bytes) cap) else Inr bytes)"

end
