(* ===== verification/File_Tools.thy ===== *)
theory File_Tools imports Remote_Host Agent_Gate
begin

section \<open>The file tools\<close>

text \<open>
  \<open>crates/hx-tools/src/fs.rs\<close> (\<open>read_file\<close>, \<open>write_file\<close>, \<open>patch\<close>) with the helpers of \<open>tool.rs\<close>.  The host is
  a trait: what it answers is the record \<open>file_host\<close>.  Arguments come parsed, or with the message of the
  parser.  An operation returns its outcome and what it asked the host to write, if the host did.
\<close>

subsection \<open>Outcomes\<close>

definition max_tool_output_chars :: nat where [hx_defs]:
  "max_tool_output_chars = 24000"

definition bound :: "string \<Rightarrow> string \<times> bool" where [hx_defs]:
  "bound s = (if length (chars s) \<le> max_tool_output_chars then (s, False)
              else (truncate_middle s max_tool_output_chars, True))"

definition outcome :: "bool \<Rightarrow> string \<Rightarrow> tool_outcome" where [hx_defs]:
  "outcome ok s = \<lparr>to_content = fst (bound s), to_ok = ok, to_truncated = snd (bound s), to_bytes_moved = None\<rparr>"

abbreviation succeeded :: "string \<Rightarrow> tool_outcome" where "succeeded \<equiv> outcome True"

abbreviation failed :: "string \<Rightarrow> tool_outcome" where "failed \<equiv> outcome False"

definition bytes_moved :: "nat \<Rightarrow> tool_outcome \<Rightarrow> tool_outcome" where [hx_defs]:
  "bytes_moved n out = out\<lparr>to_bytes_moved := Some n\<rparr>"

subsection \<open>Paths\<close>

definition is_absolute_tool_path :: "string \<Rightarrow> bool" where [hx_defs]:
  "is_absolute_tool_path path \<longleftrightarrow>
     (path \<noteq> [] \<and> hd path \<in> {CHR ''/'', bs})
     \<or> (2 \<le> length path \<and> is_ascii_alphabetic (path ! 0) \<and> path ! 1 = CHR '':'')"

definition trim_end_slashes :: "string \<Rightarrow> string" where [hx_defs]:
  "trim_end_slashes s = rev (dropWhile (\<lambda>c. c = CHR ''/'') (rev s))"

definition resolve_path :: "string \<Rightarrow> string option \<Rightarrow> string" where [hx_defs]:
  "resolve_path path ws =
     (if is_absolute_tool_path path then path
      else (case map_option trim ws of
        Some base \<Rightarrow> if base = [] then path else trim_end_slashes base @ ''/'' @ path
      | None \<Rightarrow> path))"

record file_host =
  fh_canonical :: "string \<Rightarrow> string option"
  fh_read :: "string \<Rightarrow> hx_error + string"
  fh_read_capped :: "string \<Rightarrow> nat \<Rightarrow> hx_error + string"
  fh_write :: "string \<Rightarrow> string \<Rightarrow> hx_error option"

definition effective_path :: "file_host \<Rightarrow> string \<Rightarrow> string" where [hx_defs]:
  "effective_path h path = (case fh_canonical h path of Some p \<Rightarrow> p | None \<Rightarrow> path)"

definition fs_requirement :: "string \<Rightarrow> action \<Rightarrow> string \<Rightarrow> requirement" where [hx_defs]:
  "fs_requirement path act verb = new_requirement (FsPath path) act (verb @ '' '' @ path)"

subsection \<open>\<open>read_file\<close>\<close>

definition max_read_bytes :: nat where [hx_defs]:
  "max_read_bytes = 512 * 1024"

definition read_requirement :: "string option \<Rightarrow> string \<Rightarrow> requirement" where [hx_defs]:
  "read_requirement ws path = fs_requirement (resolve_path path ws) action.Read ''read''"

definition over_read_limit :: "string \<Rightarrow> string \<Rightarrow> string" where [hx_defs]:
  "over_read_limit how path = path @ '' is '' @ how @ ''over the '' @ show_nat max_read_bytes
     @ ''-byte read limit. Read the part you need with `shell` (for example `sed -n '' @ [quote_char] @ ''1,200p''
     @ [quote_char] @ '' '' @ path @ ''`).''"

definition read_file :: "file_host \<Rightarrow> string option \<Rightarrow> string \<Rightarrow> tool_outcome" where [hx_defs]:
  "read_file h ws named =
     (let path = effective_path h (resolve_path named ws)
      in case fh_read_capped h path max_read_bytes of
        Inl (TooLargeError _ _ _) \<Rightarrow> failed (over_read_limit [] path)
      | Inl err \<Rightarrow> failed (error_text err)
      | Inr bytes \<Rightarrow>
          if max_read_bytes < length bytes then
            failed (over_read_limit (show_nat (length bytes) @ '' bytes, '') path)
          else if \<not> is_utf8 bytes then
            failed (path @ '' is not UTF-8 text ('' @ show_nat (length bytes)
              @ '' bytes); it looks binary. Use `shell` for it.'')
          else \<lparr>to_content = (if bytes = [] then ''('' @ path @ '' is empty)'' else fst (bound bytes)),
                to_ok = True, to_truncated = snd (bound bytes), to_bytes_moved = Some (length bytes)\<rparr>)"

subsection \<open>\<open>write_file\<close>\<close>

record write_args =
  wa_path :: string
  wa_content :: string

definition write_requirement :: "string option \<Rightarrow> write_args \<Rightarrow> requirement" where [hx_defs]:
  "write_requirement ws a =
     (fs_requirement (resolve_path (wa_path a) ws) action.Write ''write'')
       \<lparr>rq_bytes := Some (length (wa_content a))\<rparr>"

definition write_file ::
  "file_host \<Rightarrow> string option \<Rightarrow> write_args \<Rightarrow> tool_outcome \<times> (string \<times> string) option" where [hx_defs]:
  "write_file h ws a =
     (let path = effective_path h (resolve_path (wa_path a) ws); n = length (wa_content a)
      in case fh_write h path (wa_content a) of
        None \<Rightarrow> (bytes_moved n (succeeded (''wrote '' @ show_nat n @ '' bytes to '' @ path)), Some (path, wa_content a))
      | Some err \<Rightarrow> (failed (''could not write: '' @ error_text err), None))"

subsection \<open>\<open>patch\<close>\<close>

record patch_args =
  pa_path :: string
  pa_old :: string
  pa_new :: string
  pa_replace_all :: bool

definition patch_requirement :: "string option \<Rightarrow> patch_args \<Rightarrow> requirement" where [hx_defs]:
  "patch_requirement ws a = fs_requirement (resolve_path (pa_path a) ws) action.Write ''patch''"

text \<open>\<open>str::matches\<close> and \<open>str::replacen\<close> with count 1, for a pattern that is not empty.\<close>

function count_matches :: "string \<Rightarrow> string \<Rightarrow> nat" where
  "count_matches p [] = 0"
| "count_matches p (c # s) =
     (if starts_with (c # s) p then Suc (count_matches p (drop (length p - 1) s)) else count_matches p s)"
  by pat_completeness auto
termination by (relation "measure (\<lambda>(_, s). length s)") auto

fun replace_first :: "string \<Rightarrow> string \<Rightarrow> string \<Rightarrow> string" where
  "replace_first p m [] = []"
| "replace_first p m (c # s) =
     (if starts_with (c # s) p then m @ drop (length p - 1) s else c # replace_first p m s)"

datatype patch_plan = ApplyPatch nat | PatchNotFound | AmbiguousPatch nat

definition plan_patch :: "string \<Rightarrow> string \<Rightarrow> bool \<Rightarrow> patch_plan" where [hx_defs]:
  "plan_patch contents old replace_all =
     (if old = [] then PatchNotFound
      else let n = count_matches old contents
           in if n = 0 then PatchNotFound
              else if n = 1 then ApplyPatch 1
              else if replace_all then ApplyPatch n
              else AmbiguousPatch n)"

definition patch_file ::
  "file_host \<Rightarrow> string option \<Rightarrow> patch_args \<Rightarrow> tool_outcome \<times> (string \<times> string) option" where [hx_defs]:
  "patch_file h ws a =
     (let path = effective_path h (resolve_path (pa_path a) ws)
      in if pa_old a = [] then
           (failed ''`old` is empty: a patch with nothing to find would either do nothing or match everywhere'', None)
         else (case fh_read h path of
           Inl err \<Rightarrow> (failed (error_text err), None)
         | Inr contents \<Rightarrow>
             if \<not> is_utf8 contents then (failed (path @ '' is not UTF-8 text; patch works on text files''), None)
             else (case plan_patch contents (pa_old a) (pa_replace_all a) of
               PatchNotFound \<Rightarrow> (failed (''`old` was not found in '' @ path
                 @ ''. The file may have changed since you read it '' @ em_dash
                 @ '' read it again and copy the snippet exactly.''), None)
             | AmbiguousPatch n \<Rightarrow> (failed (''`old` appears '' @ show_nat n @ '' times in '' @ path
                 @ ''. Nothing was written: include more surrounding context to identify one of them, ''
                 @ ''or set `replace_all` if you really mean all '' @ show_nat n @ ''.''), None)
             | ApplyPatch n \<Rightarrow>
                 (let updated = (if pa_replace_all a then replace_str (pa_old a) (pa_new a) contents
                                 else replace_first (pa_old a) (pa_new a) contents)
                  in case fh_write h path updated of
                    None \<Rightarrow> (bytes_moved (length updated)
                        (succeeded (''patched '' @ show_nat n @ '' occurrence(s) in '' @ path)), Some (path, updated))
                  | Some err \<Rightarrow> (failed (''could not write: '' @ error_text err), None)))))"

end
