(* ===== verification/Review.thy ===== *)
theory Review imports Messages Review_Diff File_Tools "HOL-Library.AList"
begin

section \<open>What a session changed\<close>

text \<open>
  \<open>crates/hx-server/src/review.rs\<close>: the edits of a session are replayed from its transcript into the text each
  path ended at, and diffed against the file as it is.  The JSON of a call's arguments is its text; the parser of
  the fields the replay looks at is the argument \<open>js\<close>.
\<close>

record edit_fields =
  ef_path :: "string option"
  ef_content :: "string option"
  ef_old :: "string option"
  ef_new :: "string option"
  ef_replace_all :: "bool option"

definition editing_tools :: "string list" where [hx_defs]:
  "editing_tools = [''write_file'', ''patch'']"

record unapplied =
  un_path :: string
  un_anchor :: string

record proposed_edit =
  pe_path :: string
  pe_proposed :: string
  pe_edits :: nat
  pe_unapplied :: "string list"

record reviewed_file =
  rf_path :: string
  rf_edits :: nat
  rf_unapplied :: "string list"
  rf_diff :: "diff_line list"

definition trim_anchor :: "string \<Rightarrow> string" where [hx_defs]:
  "trim_anchor anchor =
     (let flat = join '' '' (split_whitespace anchor)
      in if length (chars flat) \<le> 80 then flat
         else first_chars 80 flat @ [CHR 0xE2, CHR 0x80, CHR 0xA6])"

definition succeeded_calls :: "message list \<Rightarrow> string set" where [hx_defs]:
  "succeeded_calls ms = set (concat (map (\<lambda>m. concat (map (\<lambda>p. case p of ToolResult i True _ \<Rightarrow> [i] | _ \<Rightarrow> []) (msg_parts m))) ms))"

text \<open>The guards of the replay, in order: an editing tool, a call that succeeded, a path, not an empty one.\<close>

fun edit_call :: "(string \<Rightarrow> edit_fields) \<Rightarrow> string set \<Rightarrow> part \<Rightarrow> (string \<times> string \<times> edit_fields) option" where
  "edit_call js done_calls (ToolCall i name arguments) =
     (if name \<notin> set editing_tools \<or> i \<notin> done_calls then None
      else (case ef_path (js arguments) of
        None \<Rightarrow> None
      | Some path \<Rightarrow> if path = [] then None else Some (path, name, js arguments)))"
| "edit_call js done_calls _ = None"

type_synonym replay = "(string \<times> string) list \<times> unapplied list"

text \<open>The slot of a path, made empty at its first touch.\<close>

definition touch :: "string \<Rightarrow> (string \<times> string) list \<Rightarrow> (string \<times> string) list" where [hx_defs]:
  "touch path texts = (if map_of texts path = None then texts @ [(path, [])] else texts)"

definition set_text :: "string \<Rightarrow> string \<Rightarrow> (string \<times> string) list \<Rightarrow> (string \<times> string) list" where [hx_defs]:
  "set_text path s texts = AList.update path s texts"

definition replay_edit :: "string \<times> string \<times> edit_fields \<Rightarrow> replay \<Rightarrow> replay" where [hx_defs]:
  "replay_edit e st = (case (e, st) of ((path, name, f), texts, missed) \<Rightarrow>
     (let texts = touch path texts; now = the (map_of texts path)
      in if name = ''write_file'' then
           (set_text path (case ef_content f of Some c \<Rightarrow> c | None \<Rightarrow> []) texts, missed)
         else
           (let old = (case ef_old f of Some t \<Rightarrow> t | None \<Rightarrow> []);
                new = (case ef_new f of Some t \<Rightarrow> t | None \<Rightarrow> [])
            in if old = [] \<or> \<not> contains_str now old then
                 (texts, missed @ [\<lparr>un_path = path, un_anchor = trim_anchor old\<rparr>])
               else (set_text path (if ef_replace_all f = Some True then replace_str old new now
                                    else replace_first old new now) texts, missed))))"

definition replay_part :: "(string \<Rightarrow> edit_fields) \<Rightarrow> string set \<Rightarrow> part \<Rightarrow> replay \<Rightarrow> replay" where [hx_defs]:
  "replay_part js done_calls p st = (case edit_call js done_calls p of None \<Rightarrow> st | Some e \<Rightarrow> replay_edit e st)"

definition reconstruct :: "(string \<Rightarrow> edit_fields) \<Rightarrow> message list \<Rightarrow> replay" where [hx_defs]:
  "reconstruct js ms =
     fold (\<lambda>m st. if msg_role m \<noteq> Assistant then st
                  else fold (replay_part js (succeeded_calls ms)) (msg_parts m) st) ms ([], [])"

fun counts_as_edit :: "(string \<Rightarrow> edit_fields) \<Rightarrow> string set \<Rightarrow> string \<Rightarrow> part \<Rightarrow> bool" where
  "counts_as_edit js done_calls path (ToolCall i name arguments) \<longleftrightarrow>
     name \<in> set editing_tools \<and> i \<in> done_calls \<and> ef_path (js arguments) = Some path"
| "counts_as_edit js done_calls path _ \<longleftrightarrow> False"

definition count_edits :: "(string \<Rightarrow> edit_fields) \<Rightarrow> message list \<Rightarrow> string \<Rightarrow> nat" where [hx_defs]:
  "count_edits js ms path = length (filter (counts_as_edit js (succeeded_calls ms) path)
     (concat (map msg_parts (filter (\<lambda>m. msg_role m = Assistant) ms))))"

definition proposed_edits :: "(string \<Rightarrow> edit_fields) \<Rightarrow> message list \<Rightarrow> proposed_edit list" where [hx_defs]:
  "proposed_edits js ms = (case reconstruct js ms of (texts, missed) \<Rightarrow>
     map (\<lambda>(path, s). \<lparr>pe_path = path, pe_proposed = s, pe_edits = count_edits js ms path,
            pe_unapplied = map un_anchor (filter (\<lambda>u. un_path u = path) missed)\<rparr>) texts)"

text \<open>\<open>render\<close>: the outer \<^const>\<open>None\<close> is a panic, the inner one a file that is not text.\<close>

definition render_review :: "proposed_edit \<Rightarrow> string option \<Rightarrow> (string \<Rightarrow> string) \<Rightarrow> reviewed_file option option" where [hx_defs]:
  "render_review e current rd = (case current of
     None \<Rightarrow> Some None
   | Some before \<Rightarrow>
       map_option (\<lambda>ls. Some \<lparr>rf_path = pe_path e, rf_edits = pe_edits e, rf_unapplied = pe_unapplied e, rf_diff = ls\<rparr>)
         (redact_diff rd (unified_diff before (pe_proposed e))))"

end
