(* ===== verification/Remote_Host_Facts.thy ===== *)
theory Remote_Host_Facts imports Remote_Host
begin

section \<open>Facts about hosts\<close>

text \<open>
  A quoted argument is read back as itself by a POSIX shell, and by PowerShell unless it holds one of the
  typographic quotes that PowerShell reads as quotes.  Output for display is within its bound, and output in
  memory depends only on the stream, not on its chunks.
\<close>

lemma show_nat_length: "0 < k \<Longrightarrow> n < 10 ^ k \<Longrightarrow> length (show_nat n) \<le> k"
proof (induction k arbitrary: n)
  case (Suc k)
  show ?case
  proof (cases "n < 10")
    case False
    then have "0 < k" using Suc.prems(2) by (cases k) auto
    then have "length (show_nat (n div 10)) \<le> k" using Suc by (simp add: less_mult_imp_div_less)
    then show ?thesis using False by (subst show_nat.simps) simp
  qed (subst show_nat.simps, simp)
qed simp

subsection \<open>Quoting\<close>


lemma starts_with_char [simp]: "starts_with (c # s) [q] \<longleftrightarrow> c = q"
  by (simp add: starts_with_def)




text \<open>How PowerShell reads a string in single quotes: a doubled quote stands for itself, and the quotes are the
  ASCII one and the typographic ones U+2018 to U+201B.\<close>

definition powershell_quotes :: "string set" where
  "powershell_quotes = {[quote_char], [CHR 0xE2, CHR 0x80, CHR 0x98], [CHR 0xE2, CHR 0x80, CHR 0x99],
     [CHR 0xE2, CHR 0x80, CHR 0x9A], [CHR 0xE2, CHR 0x80, CHR 0x9B]}"

fun powershell_body :: "string list \<Rightarrow> (string \<times> string list) option" where
  "powershell_body [] = None"
| "powershell_body [c] = (if c \<in> powershell_quotes then Some ([], []) else None)"
| "powershell_body (c # d # cs) =
     (if c \<in> powershell_quotes then
        (if d \<in> powershell_quotes then map_option (\<lambda>(w, r). (d @ w, r)) (powershell_body cs)
         else Some ([], d # cs))
      else map_option (\<lambda>(w, r). (c @ w, r)) (powershell_body (d # cs)))"

definition powershell_string :: "string \<Rightarrow> (string \<times> string list) option" where
  "powershell_string s = (case chars s of c # cs \<Rightarrow> if c \<in> powershell_quotes then powershell_body cs else None | [] \<Rightarrow> None)"

text \<open>A typographic quote ends the string, and what stands behind it is code.\<close>

lemma typographic_quote_breaks_out:
  "powershell_string (quote PowerShell (''x'' @ [CHR 0xE2, CHR 0x80, CHR 0x99] @ ''; del *''))
     = Some (''x'', chars (''; del *'' @ [quote_char]))"
  by (simp add: powershell_quote_def powershell_string_def powershell_quotes_def is_cont_def byte_def)

text \<open>For the third shell, a quoted argument need not be the argument: quotes are dropped.\<close>

lemma cmd_quote_drops_quotes: "quote CmdShell [CHR 0x22] = quote CmdShell []"
  by simp

subsection \<open>Display\<close>

lemma omission_length: "0 < k \<Longrightarrow> n < 10 ^ k \<Longrightarrow> length (omission n ''characters'') \<le> k + 33"
  using show_nat_length [of k n] by (simp add: omission_def)

lemma middle_bounded:
  assumes "length (chars s) < 10 ^ 15"
  shows "length (chars (truncate_middle s n)) \<le> n
    \<and> (truncate_middle s n = s \<or> n \<le> 56
       \<or> (\<exists>h k. truncate_middle s n = first_chars h s @ omission k ''characters'' @ skip_chars (h + k) s
            \<and> h + k \<le> length (chars s)))"
proof (cases "length (chars s) \<le> n \<or> n \<le> 56")
  case True
  then show ?thesis by (auto simp: truncate_middle_def notice_reserve_def Let_def)
next
  case False
  define h where "h = (n - 48) * 3 div 5"
  define t where "t = n - 48 - h"
  define k where "k = length (chars s) - h - t"
  have "h \<le> n - 48" using div_le_mono [of "(n - 48) * 3" "(n - 48) * 5" 5] by (simp add: h_def)
  then have ht: "h + t = n - 48" "h + t \<le> length (chars s)" using False unfolding t_def by linarith+
  have eq: "truncate_middle s n = first_chars h s @ omission k ''characters'' @ skip_chars (length (chars s) - t) s"
    unfolding truncate_middle_def notice_reserve_def Let_def h_def [symmetric] t_def [symmetric] k_def [symmetric]
    using False by simp
  have "k < 10 ^ 15" using assms by (simp add: k_def less_imp_diff_less)
  then have "length (chars (omission k ''characters'')) \<le> 48"
    using omission_length [of 15 k] length_chars_le [of "omission k ''characters''"] by simp
  then have "length (chars (truncate_middle s n)) \<le> h + 48 + t"
    using length_chars_append [of "first_chars h s" "omission k ''characters'' @ skip_chars (length (chars s) - t) s"]
      length_chars_append [of "omission k ''characters''" "skip_chars (length (chars s) - t) s"] ht unfolding eq by simp
  then have "length (chars (truncate_middle s n)) \<le> n" using ht(1) False by linarith
  moreover have "length (chars s) - t = h + k" "h + k \<le> length (chars s)" using ht by (simp_all add: k_def)
  ultimately show ?thesis using eq by metis
qed

text \<open>Output for display stays within its bound, in characters, however long it was, up to ten to the fifteen
  characters; and where it is cut with a notice, it keeps its first and its last characters.\<close>

theorem truncate_middle_bounded:
  assumes "length (chars s) < 10 ^ 15"
  shows "length (chars (truncate_middle s n)) \<le> n
    \<and> (truncate_middle s n = s \<or> n \<le> 56
       \<or> (\<exists>h k. truncate_middle s n = first_chars h s @ omission k ''characters'' @ skip_chars (h + k) s
            \<and> h + k \<le> length (chars s)))"
  by (rule middle_bounded [OF assms])

theorem truncate_middle_bounded_witness:
  "length (chars (truncate_middle (replicate 100 CHR ''x'') 60)) \<le> 60"
proof -
  have "length (chars (replicate 100 CHR ''x'')) = 100" by (subst length_chars_ascii) (simp_all add: is_cont_def byte_def list_all_iff)
  then show ?thesis using truncate_middle_bounded [of "replicate 100 CHR ''x''" 60] by simp
qed

subsection \<open>Memory\<close>

text \<open>What the buffer holds after a stream, whatever its chunks.\<close>

definition of_stream :: "nat \<Rightarrow> string \<Rightarrow> bounded_output" where
  "of_stream cap s =
     (let o_buf = with_cap cap; later = drop (bo_head_cap o_buf) s
      in o_buf\<lparr>bo_head := take (bo_head_cap o_buf) s, bo_tail := drop (length later - bo_tail_cap o_buf) later,
               bo_post_head_seen := length later\<rparr>)"

lemma push_tail_stream:
  assumes "bo_head_cap (with_cap cap) \<le> length s"
  shows "push_tail c (of_stream cap s) = of_stream cap (s @ c)"
  using assms by (auto simp: of_stream_def push_tail_def Let_def with_cap_def intro!: arg_cong [where f = "\<lambda>n. drop n _"])

lemma push_bytes_stream: "push_bytes c (of_stream cap s) = of_stream cap (s @ c)"
proof (cases "bo_head_cap (with_cap cap) \<le> length s")
  case True
  then have "bo_head_cap (of_stream cap s) \<le> length (bo_head (of_stream cap s))" by (simp add: of_stream_def Let_def)
  then show ?thesis using push_tail_stream [OF True] by (auto simp: push_bytes_def)
next
  case False
  let ?h = "bo_head_cap (with_cap cap)"
  let ?n = "min (?h - length s) (length c)"
  have room: "length (bo_head (of_stream cap s)) < bo_head_cap (of_stream cap s)"
    "bo_head_cap (of_stream cap s) = ?h" "length (bo_head (of_stream cap s)) = length s"
    using False by (auto simp: of_stream_def Let_def)
  have head: "(of_stream cap s)\<lparr>bo_head := bo_head (of_stream cap s) @ take ?n c\<rparr> = of_stream cap (s @ take ?n c)"
    using False by (auto simp: of_stream_def Let_def)
  show ?thesis
  proof (cases "drop ?n c = []")
    case True
    then show ?thesis using room head by (auto simp: push_bytes_def Let_def)
  next
    case no: False
    then have "?h \<le> length (s @ take ?n c)" using False by auto
    then have "push_tail (drop ?n c) (of_stream cap (s @ take ?n c)) = of_stream cap (s @ take ?n c @ drop ?n c)"
      using push_tail_stream [of cap "s @ take ?n c" "drop ?n c"] by simp
    then show ?thesis using room head no by (auto simp: push_bytes_def Let_def)
  qed
qed

lemma push_all_stream: "fold push_bytes chunks (of_stream cap s) = of_stream cap (s @ concat chunks)"
  by (induction chunks arbitrary: s) (simp_all add: push_bytes_stream)

lemma of_stream_start: "of_stream cap [] = with_cap cap"
  by (simp add: of_stream_def Let_def with_cap_def)

text \<open>C27. The buffer that bounds a command's output refines the whole stream: whatever the chunks, it holds the
  first bytes and the last ones, never more than its cap, and the count of dropped bytes is exactly what is
  missing.\<close>

theorem bounded_output_refines_stream:
  "fold push_bytes chunks (with_cap cap) = of_stream cap (concat chunks)
   \<and> retained_len (of_stream cap s) = min (length s) cap
   \<and> dropped_bytes (of_stream cap s) = length s - cap
   \<and> (length s \<le> cap \<longrightarrow> bo_head (of_stream cap s) @ bo_tail (of_stream cap s) = s)
   \<and> prefix (bo_head (of_stream cap s)) s \<and> suffix (bo_tail (of_stream cap s)) s"
proof (intro conjI impI)
  show "fold push_bytes chunks (with_cap cap) = of_stream cap (concat chunks)"
    using push_all_stream [of chunks cap "[]"] by (simp add: of_stream_start)
  show "retained_len (of_stream cap s) = min (length s) cap" "dropped_bytes (of_stream cap s) = length s - cap"
    by (auto simp: retained_len_def dropped_bytes_def of_stream_def Let_def with_cap_def)
  show "bo_head (of_stream cap s) @ bo_tail (of_stream cap s) = s" if "length s \<le> cap"
    using that by (auto simp: of_stream_def Let_def with_cap_def)
  show "prefix (bo_head (of_stream cap s)) s" "suffix (bo_tail (of_stream cap s)) s"
    by (auto simp: of_stream_def Let_def take_is_prefix intro: suffix_drop)
qed

theorem bounded_output_refines_stream_witness:
  "finish_output (fold push_bytes [''ab'', [], ''cdef''] (with_cap 5)) = ''abcde'' @ omission 1 ''bytes''"
proof -
  have "fold push_bytes [''ab'', [], ''cdef''] (with_cap 5) = of_stream 5 ''abcdef''"
    using bounded_output_refines_stream [of "[''ab'', [], ''cdef'']" 5 "[]"] by simp
  moreover have "utf8_lossy ''abcde'' = ''abcde''" by code_simp
  ultimately show ?thesis
    by (simp add: finish_output_def of_stream_def with_cap_def dropped_bytes_def)
qed

end
