(* ===== verification/File_Tools_Facts.thy ===== *)
theory File_Tools_Facts imports File_Tools Remote_Host_Facts
begin

section \<open>Facts about the file tools\<close>

text \<open>
  A patch without \<open>replace_all\<close> changes one place and leaves the rest; what a tool shows is bounded; what a tool
  wrote is what it reports, at the path that its requirement names, as the host resolves it.
\<close>

lemma count_matches_pos: "p \<noteq> [] \<Longrightarrow> 0 < count_matches p s \<longleftrightarrow> contains_str s p"
  by (induction p s rule: count_matches.induct) auto

lemma starts_split: "starts_with (c # s) p \<Longrightarrow> p \<noteq> [] \<Longrightarrow> c # s = p @ drop (length p - 1) s"
  by (cases p) (auto simp: starts_with_iff)

lemma replace_first_one:
  "p \<noteq> [] \<Longrightarrow> contains_str s p \<Longrightarrow> \<exists>a b. s = a @ p @ b \<and> replace_first p m s = a @ m @ b"
proof (induction p m s rule: replace_first.induct)
  case (2 p m c s)
  show ?case
  proof (cases "starts_with (c # s) p")
    case True
    then have "replace_first p m (c # s) = [] @ m @ drop (length p - 1) s" by simp
    then show ?thesis using starts_split [OF True 2(2)] by (metis append_Nil)
  next
    case False
    then obtain a b where "s = a @ p @ b" "replace_first p m s = a @ m @ b" using 2 by auto
    then show ?thesis using False by (intro exI [of _ "c # a"] exI [of _ b]) simp
  qed
qed simp

lemma replace_str_absent: "\<not> contains_str s p \<Longrightarrow> replace_str p m s = s"
  by (induction p m s rule: replace_str.induct) auto

lemma plan_patch_apply:
  "plan_patch contents old all = ApplyPatch n \<longleftrightarrow>
     old \<noteq> [] \<and> n = count_matches old contents \<and> 0 < n \<and> (n = 1 \<or> all)"
  by (auto simp: plan_patch_def Let_def)

lemma patch_file_wrote:
  assumes "patch_file h ws a = (out, Some (path, updated))"
  obtains contents where "path = effective_path h (resolve_path (pa_path a) ws)" "fh_read h path = Inr contents"
    "pa_old a \<noteq> []" "0 < count_matches (pa_old a) contents" "count_matches (pa_old a) contents = 1 \<or> pa_replace_all a"
    "updated = (if pa_replace_all a then replace_str (pa_old a) (pa_new a) contents
                else replace_first (pa_old a) (pa_new a) contents)"
    "fh_write h path updated = None" "to_ok out" "to_bytes_moved out = Some (length updated)"
  using assms plan_patch_apply
  by (fastforce simp: patch_file_def Let_def outcome_def bytes_moved_def split: if_splits sum.splits patch_plan.splits option.splits)

text \<open>A patch that wrote anything, without \<open>replace_all\<close>, replaced one occurrence of \<open>old\<close>, the only one, and left
  everything before and behind it as it was; it wrote to the path it read and reports the bytes it wrote.\<close>

theorem patch_changes_one_place:
  assumes "patch_file h ws a = (out, Some (path, updated))" "\<not> pa_replace_all a"
  shows "\<exists>before after. fh_read h path = Inr (before @ pa_old a @ after)
    \<and> updated = before @ pa_new a @ after
    \<and> count_matches (pa_old a) (before @ pa_old a @ after) = 1
    \<and> path = effective_path h (resolve_path (pa_path a) ws)
    \<and> to_ok out \<and> to_bytes_moved out = Some (length updated)"
proof -
  obtain contents where c: "path = effective_path h (resolve_path (pa_path a) ws)" "fh_read h path = Inr contents"
    "pa_old a \<noteq> []" "0 < count_matches (pa_old a) contents" "count_matches (pa_old a) contents = 1"
    "updated = replace_first (pa_old a) (pa_new a) contents" "to_ok out" "to_bytes_moved out = Some (length updated)"
    using patch_file_wrote [OF assms(1)] assms(2) by (metis (full_types))
  then obtain before after where "contents = before @ pa_old a @ after" "updated = before @ pa_new a @ after"
    using replace_first_one [OF c(3), of contents "pa_new a"] count_matches_pos [OF c(3), of contents] by auto
  then show ?thesis using c by auto
qed

text \<open>A host for the instances: one file, which takes every write.\<close>

definition one_file_host :: file_host where
  "one_file_host = \<lparr>fh_canonical = (\<lambda>p. Some p), fh_read = (\<lambda>p. Inr ''fn a() {}''),
     fh_read_capped = (\<lambda>p n. Inr ''fn a() {}''), fh_write = (\<lambda>p s. None)\<rparr>"

lemma one_file_patched:
  "snd (patch_file one_file_host (Some ''/w'') \<lparr>pa_path = ''x'', pa_old = ''a()'', pa_new = ''bb()'', pa_replace_all = False\<rparr>)
     = Some (''/w/x'', ''fn bb() {}'')"
  by code_simp

theorem patch_changes_one_place_witness:
  "\<exists>before after. ''fn a() {}'' = before @ ''a()'' @ after \<and> ''fn bb() {}'' = before @ ''bb()'' @ after"
proof -
  let ?a = "\<lparr>pa_path = ''x'', pa_old = ''a()'', pa_new = ''bb()'', pa_replace_all = False\<rparr>"
  obtain out where h: "patch_file one_file_host (Some ''/w'') ?a = (out, Some (''/w/x'', ''fn bb() {}''))"
    using one_file_patched by (metis prod.collapse)
  show ?thesis using patch_changes_one_place [OF h] by (auto simp: one_file_host_def)
qed

text \<open>The count is of occurrences that do not overlap: a snippet that occurs twice can pass for unique.\<close>

lemma overlapping_snippet_passes_for_unique:
  "plan_patch ''aaa'' ''aa'' False = ApplyPatch 1 \<and> ''aaa'' = [] @ ''aa'' @ ''a'' \<and> ''aaa'' = ''a'' @ ''aa'' @ []"
  by (simp add: plan_patch_def starts_with_def)

subsection \<open>What a tool shows\<close>

lemma bound_bounded: "length (chars s) < 10 ^ 15 \<Longrightarrow> length (chars (fst (bound s))) \<le> max_tool_output_chars"
  using middle_bounded [of s max_tool_output_chars] by (simp add: bound_def)

lemma outcome_bounded: "length (chars s) < 10 ^ 15 \<Longrightarrow> length (chars (to_content (outcome ok s))) \<le> max_tool_output_chars"
  by (simp add: outcome_def bound_bounded)

text \<open>A successful read reports exactly the bytes it read, at most 512 KiB of them, all of them text, and shows the
  text itself, cut in the middle with a mark if it has more than 24000 characters.\<close>

theorem read_file_is_measured:
  assumes "to_ok (read_file h ws named)"
  shows "\<exists>bytes. fh_read_capped h (effective_path h (resolve_path named ws)) max_read_bytes = Inr bytes
    \<and> is_utf8 bytes \<and> length bytes \<le> max_read_bytes
    \<and> to_bytes_moved (read_file h ws named) = Some (length bytes)
    \<and> (to_truncated (read_file h ws named) \<longleftrightarrow> max_tool_output_chars < length (chars bytes))
    \<and> (bytes \<noteq> [] \<longrightarrow> length (chars (to_content (read_file h ws named))) \<le> max_tool_output_chars)
    \<and> (bytes \<noteq> [] \<and> \<not> to_truncated (read_file h ws named) \<longrightarrow> to_content (read_file h ws named) = bytes)"
proof -
  let ?path = "effective_path h (resolve_path named ws)"
  have "to_ok (outcome False s) = False" for s by (simp add: outcome_def)
  then obtain bytes where b: "fh_read_capped h ?path max_read_bytes = Inr bytes" "length bytes \<le> max_read_bytes" "is_utf8 bytes"
    using assms by (fastforce simp: read_file_def Let_def split: sum.splits hx_error.splits if_splits)
  moreover have "length (chars bytes) < 10 ^ 15" using b(2) length_chars_le [of bytes] by (simp add: max_read_bytes_def)
  ultimately show ?thesis using bound_bounded [of bytes]
    by (intro exI [of _ bytes]) (simp add: read_file_def Let_def bound_def split: if_splits)
qed

theorem read_file_is_measured_witness:
  "to_bytes_moved (read_file one_file_host None ''/x'') = Some 9 \<and> to_content (read_file one_file_host None ''/x'') = ''fn a() {}''"
proof -
  have "is_utf8 ''fn a() {}''" "length (chars ''fn a() {}'') = 9" by code_simp+
  then have "to_ok (read_file one_file_host None ''/x'')" "\<not> to_truncated (read_file one_file_host None ''/x'')"
    by (simp_all add: read_file_def one_file_host_def max_read_bytes_def bound_def max_tool_output_chars_def
      del: is_utf8.simps chars.simps)
  then show ?thesis using read_file_is_measured [of one_file_host None "''/x''"] by (auto simp: one_file_host_def)
qed

end
