(* ===== verification/Approval_Queue.thy ===== *)
theory Approval_Queue imports Agent_Gate Rust_Utf8 "HOL-Library.AList" "HOL-Library.List_Lexorder" "HOL-Library.Char_ord"
begin

section \<open>The queue of open questions\<close>

text \<open>
  \<open>crates/hx-agent/src/queue.rs\<close>: a run that must ask parks its question here and waits a bounded time; a surface
  that answers goes through \<open>answer_waiting\<close>, which holds it to its ceiling.  The lock makes each operation atomic,
  so a state is what the queue holds between operations, with one record per question ever asked:
  \<open>begin_ask\<close> is \<open>decide_in_with_wait\<close> up to its wait, \<open>stop_waiting\<close> the end of the wait, \<open>end_ask\<close> the rest.
  Waiting and the channel are the library \<open>tokio\<close>: whether a send arrives and how a wait ends are arguments,
  and \<open>queue_step\<close> says what of them the code relies on.
\<close>

subsection \<open>Sorted maps\<close>

fun btree_insert :: "'k::linorder \<Rightarrow> 'v \<Rightarrow> ('k \<times> 'v) list \<Rightarrow> ('k \<times> 'v) list" where
  "btree_insert k v [] = [(k, v)]"
| "btree_insert k v ((k', v') # m) =
     (if k < k' then (k, v) # (k', v') # m else if k = k' then (k, v) # m else (k', v') # btree_insert k v m)"

definition btree_remove :: "'k \<Rightarrow> ('k \<times> 'v) list \<Rightarrow> ('k \<times> 'v) list" where [hx_defs]:
  "btree_remove k m = AList.delete k m"

lemma map_of_btree_insert [simp]: "map_of (btree_insert k v m) = (map_of m)(k \<mapsto> v)"
  by (induction k v m rule: btree_insert.induct) auto

lemma map_of_btree_remove [simp]: "map_of (btree_remove k m) = (map_of m)(k := None)"
  by (simp add: btree_remove_def delete_conv')

definition sorted_keys :: "('k::linorder \<times> 'v) list \<Rightarrow> bool" where
  "sorted_keys m \<longleftrightarrow> sorted_wrt (<) (map fst m)"

lemma sorted_keys_insert [simp]: "sorted_keys m \<Longrightarrow> sorted_keys (btree_insert k v m)"
proof -
  have "set (map fst (btree_insert k v m)) = insert k (set (map fst m))" for m :: "('a \<times> 'b) list"
    by (induction k v m rule: btree_insert.induct) auto
  then show "sorted_keys m \<Longrightarrow> sorted_keys (btree_insert k v m)"
    unfolding sorted_keys_def by (induction k v m rule: btree_insert.induct) fastforce+
qed

lemma sorted_keys_remove [simp]: "sorted_keys m \<Longrightarrow> sorted_keys (btree_remove k m)"
  unfolding sorted_keys_def btree_remove_def AList.delete_eq
  by (induction m) (auto simp: sorted_wrt_append)

lemma sorted_keys_mem: "sorted_keys m \<Longrightarrow> (k, v) \<in> set m \<longleftrightarrow> map_of m k = Some v"
  unfolding sorted_keys_def by (metis map_of_eq_Some_iff strict_sorted_iff)

subsection \<open>Questions\<close>

record waiting =
  wt_request :: approval_request
  wt_session :: "string option"
  wt_reply :: nat

text \<open>How the wait of a question ended.\<close>

datatype waited = GotAnswer approval_option string | ChannelClosed | TimedOut

datatype ask_phase = Listening | Stopped waited | Ended approval_decision

text \<open>A question, from \<open>begin_ask\<close> on.  The answer sent on its channel is kept with the ceiling it was given under.\<close>

record question =
  qu_request :: approval_request
  qu_action :: action_request
  qu_wait_secs :: nat
  qu_sent :: "(approval_option \<times> string \<times> risk_class) option"
  qu_phase :: ask_phase

record approval_queue =
  aq_pending :: "(string \<times> waiting) list"
  aq_questions :: "question list"

definition new_queue :: approval_queue where [hx_defs]:
  "new_queue = \<lparr>aq_pending = [], aq_questions = []\<rparr>"

definition queue_outstanding :: "string option \<Rightarrow> approval_queue \<Rightarrow> approval_request list" where [hx_defs]:
  "queue_outstanding session q =
     map wt_request (filter (\<lambda>w. case session of Some wanted \<Rightarrow> wt_session w = Some wanted | None \<Rightarrow> True)
       (map snd (aq_pending q)))"

definition queue_is_empty :: "approval_queue \<Rightarrow> bool" where [hx_defs]:
  "queue_is_empty q \<longleftrightarrow> aq_pending q = []"

definition queue_len :: "approval_queue \<Rightarrow> nat" where [hx_defs]:
  "queue_len q = length (aq_pending q)"

datatype answer_result = Answered | UnknownQuestion | AboveCeiling risk_class risk_class

definition set_question :: "nat \<Rightarrow> (question \<Rightarrow> question) \<Rightarrow> approval_queue \<Rightarrow> approval_queue" where [hx_defs]:
  "set_question k f q = q\<lparr>aq_questions := (aq_questions q)[k := f (aq_questions q ! k)]\<rparr>"

definition answer_waiting ::
  "bool \<Rightarrow> string \<Rightarrow> approval_option \<Rightarrow> string \<Rightarrow> risk_class \<Rightarrow> approval_queue \<Rightarrow> answer_result \<times> approval_queue" where [hx_defs]:
  "answer_waiting arrives aid option who cap q = (case map_of (aq_pending q) aid of
     None \<Rightarrow> (UnknownQuestion, q)
   | Some w \<Rightarrow>
       (let risk = apr_risk (wt_request w)
        in if \<not> covers cap risk then (AboveCeiling risk cap, q)
           else (let q = q\<lparr>aq_pending := btree_remove aid (aq_pending q)\<rparr>
                 in if arrives then (Answered, set_question (wt_reply w) (\<lambda>a. a\<lparr>qu_sent := Some (option, who, cap)\<rparr>) q)
                    else (UnknownQuestion, q))))"

text \<open>The request as it is shown: with the session it belongs to.\<close>

definition shown_request :: "string option \<Rightarrow> approval_request \<Rightarrow> approval_request" where [hx_defs]:
  "shown_request session r = (if apr_session r = None then r\<lparr>apr_session := session\<rparr> else r)"

definition begin_ask ::
  "approval_request \<Rightarrow> action_request \<Rightarrow> string option \<Rightarrow> nat \<Rightarrow> approval_queue \<Rightarrow> approval_queue" where [hx_defs]:
  "begin_ask r act session wait_secs q =
     q\<lparr>aq_pending := btree_insert (apr_id r)
         \<lparr>wt_request = shown_request session r, wt_session = session, wt_reply = length (aq_questions q)\<rparr> (aq_pending q),
       aq_questions := aq_questions q @ [\<lparr>qu_request = r, qu_action = act, qu_wait_secs = wait_secs, qu_sent = None,
         qu_phase = Listening\<rparr>]\<rparr>"

definition stop_waiting :: "nat \<Rightarrow> waited \<Rightarrow> approval_queue \<Rightarrow> approval_queue" where [hx_defs]:
  "stop_waiting k how q = set_question k (\<lambda>a. a\<lparr>qu_phase := Stopped how\<rparr>) q"

definition truncate_brief :: "string \<Rightarrow> string" where [hx_defs]:
  "truncate_brief s = first_chars 120 s @ (if 120 < length (chars s) then [CHR 0xE2, CHR 0x80, CHR 0xA6] else [])"

definition brief_action :: "action_request \<Rightarrow> string" where [hx_defs]:
  "brief_action act = (case req_command act of
     Some command \<Rightarrow> req_tool act @ '' ('' @ truncate_brief command @ '')''
   | None \<Rightarrow> req_tool act @ '': '' @ truncate_brief (req_summary act))"

definition decision_of :: "question \<Rightarrow> waited \<Rightarrow> approval_decision" where [hx_defs]:
  "decision_of a how = (case how of
     GotAnswer option who \<Rightarrow> \<lparr>ad_option = option, ad_by = who\<rparr>
   | ChannelClosed \<Rightarrow> deny_decision (''the approval channel closed before answering '' @ brief_action (qu_action a))
   | TimedOut \<Rightarrow> deny_decision (''nobody answered within '' @ show_nat (qu_wait_secs a) @ ''s for ''
       @ brief_action (qu_action a)))"

text \<open>The entry goes whatever happened, and the run gets its decision.\<close>

definition end_ask :: "nat \<Rightarrow> approval_queue \<Rightarrow> approval_queue" where [hx_defs]:
  "end_ask k q = (case qu_phase (aq_questions q ! k) of
     Stopped how \<Rightarrow>
       set_question k (\<lambda>a. a\<lparr>qu_phase := Ended (decision_of a how)\<rparr>)
         (q\<lparr>aq_pending := btree_remove (apr_id (qu_request (aq_questions q ! k))) (aq_pending q)\<rparr>)
   | _ \<Rightarrow> q)"

subsection \<open>What can happen\<close>

text \<open>
  Of the channel the code relies on this: a send arrives exactly if the receiver still waits; a wait that got an
  answer got the one that was sent; a channel is closed only if nothing was sent and no entry holds its sender.
\<close>

definition holds_sender :: "approval_queue \<Rightarrow> nat \<Rightarrow> bool" where [hx_defs]:
  "holds_sender q k \<longleftrightarrow> (\<exists>(aid, w) \<in> set (aq_pending q). wt_reply w = k)"

fun may_end :: "approval_queue \<Rightarrow> nat \<Rightarrow> waited \<Rightarrow> bool" where
  "may_end q k (GotAnswer option who) \<longleftrightarrow> (\<exists>c. qu_sent (aq_questions q ! k) = Some (option, who, c))"
| "may_end q k ChannelClosed \<longleftrightarrow> qu_sent (aq_questions q ! k) = None \<and> \<not> holds_sender q k"
| "may_end q k TimedOut \<longleftrightarrow> True"

definition still_listening :: "approval_queue \<Rightarrow> string \<Rightarrow> bool" where [hx_defs]:
  "still_listening q aid = (case map_of (aq_pending q) aid of
     Some w \<Rightarrow> qu_phase (aq_questions q ! wt_reply w) = Listening | None \<Rightarrow> False)"

inductive queue_step :: "approval_queue \<Rightarrow> approval_queue \<Rightarrow> bool" where
  asks: "queue_step q (begin_ask r act session wait_secs q)"
| answers: "queue_step q (snd (answer_waiting (still_listening q aid) aid option who cap q))"
| stops: "k < length (aq_questions q) \<Longrightarrow> qu_phase (aq_questions q ! k) = Listening \<Longrightarrow> may_end q k how \<Longrightarrow>
    queue_step q (stop_waiting k how q)"
| ends: "k < length (aq_questions q) \<Longrightarrow> qu_phase (aq_questions q ! k) = Stopped how \<Longrightarrow> queue_step q (end_ask k q)"

abbreviation queue_reaches :: "approval_queue \<Rightarrow> approval_queue \<Rightarrow> bool" where
  "queue_reaches \<equiv> queue_step\<^sup>*\<^sup>*"

end
