(* ===== verification/Gateway.thy ===== *)
theory Gateway imports Approval_Queue Model_Pool
begin

section \<open>Answers from a chat\<close>

text \<open>
  \<open>crates/hx-gateway/src\<close>: conversations (\<open>types.rs\<close>) and the session each belongs to (\<open>router.rs\<close>), which
  channel may give which answer (\<open>answer.rs\<close>), the join between a channel and the queue of open questions
  (\<open>bridge.rs\<close>), and of \<open>telegram.rs\<close> what a poll makes of updates, the payload of a button and the
  coalescing of a stream.  The hash, how the language prints a value for a developer, and what a platform does
  with a post are arguments; an update of Telegram is the record of the fields that are looked at.
\<close>

subsection \<open>Conversations\<close>

record conversation =
  cv_platform :: string
  cv_chat :: string
  cv_thread :: string

definition canonical :: "conversation \<Rightarrow> string" where [hx_defs]:
  "canonical c = cv_platform c @ ''/'' @ cv_chat c @ ''/'' @ cv_thread c"

definition hex_digits :: string where [hx_defs]:
  "hex_digits = ''0123456789abcdef''"

definition hex :: "string \<Rightarrow> string" where [hx_defs]:
  "hex bytes = concat (map (\<lambda>b. [hex_digits ! (byte b div 16), hex_digits ! (byte b mod 16)]) bytes)"

definition session_key :: "(string \<Rightarrow> string) \<Rightarrow> conversation \<Rightarrow> string" where [hx_defs]:
  "session_key sha256 c = hex (sha256 (canonical c))"

definition home_key :: "(string \<Rightarrow> string) \<Rightarrow> string \<Rightarrow> string" where [hx_defs]:
  "home_key sha256 platform = session_key sha256 \<lparr>cv_platform = platform, cv_chat = ''$home'', cv_thread = []\<rparr>"

datatype target_place = ToConversation conversation | ToHome

datatype inbound = InMessage conversation string | InAnswer conversation string string

definition resolve_delivery :: "conversation option \<Rightarrow> conversation option \<Rightarrow> hx_error + target_place" where [hx_defs]:
  "resolve_delivery home origin = (case origin of
     Some c \<Rightarrow> Inr (ToConversation c)
   | None \<Rightarrow> (case home of
       Some c \<Rightarrow> Inr (ToConversation c)
     | None \<Rightarrow> Inl (ConfigError (''background output has no destination: no live conversation and no home channel ''
         @ ''is configured; the output was refused, not dropped''))))"

subsection \<open>Who may answer\<close>

datatype answer_verdict = VerdictAnswered string string | NoAnswer

definition may_answer :: "risk_class \<Rightarrow> risk_class \<Rightarrow> bool" where [hx_defs]:
  "may_answer cap c = covers cap c"

fun risk_debug :: "risk_class \<Rightarrow> string" where
  "risk_debug risk_class.Read = ''Read''"
| "risk_debug Mutate = ''Mutate''"
| "risk_debug External = ''External''"
| "risk_debug ThirdParty = ''ThirdParty''"
| "risk_debug Destructive = ''Destructive''"
| "risk_debug Privileged = ''Privileged''"

definition judge ::
  "(string \<Rightarrow> string) \<Rightarrow> risk_class \<Rightarrow> approval_request \<Rightarrow> string \<Rightarrow> hx_error + answer_verdict" where [hx_defs]:
  "judge show_debug cap r raw =
     (if \<not> may_answer cap (apr_risk r) then
        Inl (CapabilityDenied (''an answer of '' @ show_debug raw @ '' for a '' @ risk_label (apr_risk r)
          @ '' action cannot be accepted from a channel with ceiling '' @ risk_debug cap
          @ ''; refusing rather than honouring it''))
      else (case find (\<lambda>opt. option_label opt = trim raw) (apr_options r) of
        None \<Rightarrow> Inl (CapabilityDenied (''an answer not among the offered options is not accepted: '' @ show_debug (trim raw)))
      | Some opt \<Rightarrow> Inr (VerdictAnswered (apr_id r) (option_label opt))))"

subsection \<open>The bridge\<close>

text \<open>The channels by connector, of which the last one given for an identifier counts.\<close>

definition new_bridge :: "(string \<times> risk_class) list \<Rightarrow> (string \<times> risk_class) list" where [hx_defs]:
  "new_bridge channels = fold (\<lambda>(connector, cap). btree_insert connector cap) channels []"

definition attribution :: "string \<Rightarrow> conversation \<Rightarrow> string" where [hx_defs]:
  "attribution connector c =
     cv_platform c @ '':'' @ (if cv_thread c = [] then cv_chat c else cv_chat c @ ''/'' @ cv_thread c)
     @ '' via '' @ connector"

datatype tap_outcome = TapAnswered string approval_option string | NotAnAnswer | TapRefused string string

definition ask_via ::
  "(string \<times> risk_class) list \<Rightarrow> string \<Rightarrow> hx_error option \<Rightarrow> approval_request \<Rightarrow> hx_error option" where [hx_defs]:
  "ask_via channels connector posted r = (case map_of channels connector of
     None \<Rightarrow> Some (ConnectorError connector
       (''no connector with that id is configured to answer approvals; the question was not posted''))
   | Some cap \<Rightarrow>
       if \<not> may_answer cap (apr_risk r) then
         Some (CapabilityDenied (''a '' @ risk_label (apr_risk r) @ '' action cannot be answered from '' @ connector
           @ '' (ceiling: '' @ risk_label cap
           @ ''); the question was not posted rather than posted with buttons whose answer would be refused''))
       else posted)"

text \<open>\<open>ChannelApprover::decide\<close>: post, then wait.  A question that cannot be posted is denied at once.\<close>

definition channel_ask ::
  "(string \<times> risk_class) list \<Rightarrow> string \<Rightarrow> conversation \<Rightarrow> hx_error option \<Rightarrow> nat
   \<Rightarrow> approval_request \<Rightarrow> action_request \<Rightarrow> approval_queue \<Rightarrow> approval_decision option \<times> approval_queue" where [hx_defs]:
  "channel_ask channels connector c posted wait_secs r act q = (case ask_via channels connector posted r of
     Some err \<Rightarrow>
       (Some (deny_decision (attribution connector c @ '' (the question could not be asked: '' @ error_text err @ '')'')), q)
   | None \<Rightarrow> (None, begin_ask r act (Some (canonical c)) wait_secs q))"

definition route_inbound ::
  "(string \<Rightarrow> string) \<Rightarrow> bool \<Rightarrow> (string \<times> risk_class) list \<Rightarrow> string \<Rightarrow> inbound \<Rightarrow> approval_queue
   \<Rightarrow> tap_outcome \<times> approval_queue" where [hx_defs]:
  "route_inbound show_debug arrives channels connector message q = (case message of
     InMessage _ _ \<Rightarrow> (NotAnAnswer, q)
   | InAnswer c aid raw \<Rightarrow>
       (case map_of channels connector of
          None \<Rightarrow> (TapRefused aid (connector @ '' is not configured to answer approvals; an answer from a channel ''
            @ ''that was not asked is not an answer''), q)
        | Some cap \<Rightarrow>
            (case find (\<lambda>r. apr_id r = aid) (queue_outstanding (Some (canonical c)) q) of
               None \<Rightarrow> (TapRefused aid (''no question with that id is waiting in '' @ canonical c
                 @ '': a tap that names a question this channel was not asked, or one already answered or timed out, ''
                 @ ''is not an answer to anything''), q)
             | Some r \<Rightarrow>
                 (case judge show_debug cap r raw of
                    Inl refused \<Rightarrow> (TapRefused aid (error_text refused), q)
                  | Inr NoAnswer \<Rightarrow> (TapRefused aid ''the channel reported no answer'', q)
                  | Inr (VerdictAnswered _ chosen) \<Rightarrow>
                      (case find (\<lambda>opt. option_label opt = chosen) (apr_options r) of
                         None \<Rightarrow> (TapRefused aid (show_debug chosen @ '' is not one of the options this question offered''), q)
                       | Some opt \<Rightarrow>
                           if opt = AllowAlways then
                             (TapRefused aid (connector @ '' may answer this question but not make a permanent grant: ''
                               @ [CHR 0x22] @ ''always allow this'' @ [CHR 0x22]
                               @ '' writes into the deployment's allow list, and a chat channel may only answer for ''
                               @ ''this instance or for this chat''), q)
                           else
                             (case answer_waiting arrives aid opt (attribution connector c) cap q of
                                (Answered, q) \<Rightarrow> (TapAnswered aid opt (attribution connector c), q)
                              | (UnknownQuestion, q) \<Rightarrow> (TapRefused aid (''the question was answered or expired ''
                                  @ ''between the check and the answer; the first answer is the one that counts''), q)
                              | (AboveCeiling held cap, q) \<Rightarrow> (TapRefused aid (''a '' @ risk_label held
                                  @ '' action cannot be answered from '' @ connector @ '' (ceiling: '' @ risk_label cap
                                  @ ''); the queue refused it when the answer arrived, and the run keeps waiting for ''
                                  @ ''one it may accept''), q)))))))"

subsection \<open>Telegram\<close>

definition callback_data :: "string \<Rightarrow> string \<Rightarrow> string" where [hx_defs]:
  "callback_data aid chosen = aid @ '':'' @ chosen"

definition split_callback_data :: "string \<Rightarrow> (string \<times> string) option" where [hx_defs]:
  "split_callback_data payload = (case split_once CHR '':'' payload of
     None \<Rightarrow> None
   | Some (aid, chosen) \<Rightarrow> if aid = [] \<or> chosen = [] then None else Some (aid, chosen))"

record telegram_update =
  tu_id :: "int option"
  tu_message :: "(string \<times> string option \<times> string) option"
  tu_callback :: "(string \<times> string) option"

definition telegram_chat :: "string \<Rightarrow> string \<Rightarrow> conversation" where [hx_defs]:
  "telegram_chat chat thread = \<lparr>cv_platform = ''telegram'', cv_chat = chat, cv_thread = thread\<rparr>"

definition read_update :: "telegram_update \<Rightarrow> inbound list" where [hx_defs]:
  "read_update u = (case tu_message u of
     Some (chat, thread, s) \<Rightarrow> [InMessage (telegram_chat chat (case thread of Some t \<Rightarrow> t | None \<Rightarrow> [])) s]
   | None \<Rightarrow> (case tu_callback u of
       None \<Rightarrow> []
     | Some (chat, payload) \<Rightarrow>
         (case split_callback_data payload of
            Some (aid, chosen) \<Rightarrow> [InAnswer (telegram_chat chat []) aid chosen]
          | None \<Rightarrow> [InAnswer (telegram_chat chat []) [] payload])))"

text \<open>A poll: what came in, and the offset to ask from next, an \<open>i64\<close> read as a \<open>u64\<close> plus one.\<close>

fun poll_updates :: "telegram_update list \<Rightarrow> int option \<Rightarrow> inbound list \<times> int option" where
  "poll_updates [] last_id = ([], last_id)"
| "poll_updates (u # us) last_id =
     (let last_id = (case tu_id u of None \<Rightarrow> last_id
                     | Some i \<Rightarrow> Some (max i (case last_id of Some l \<Rightarrow> l | None \<Rightarrow> i)))
      in case poll_updates us last_id of (ins, l) \<Rightarrow> (read_update u @ ins, l))"

definition next_offset :: "telegram_update list \<Rightarrow> u64 \<Rightarrow> u64" where [hx_defs]:
  "next_offset us offset = (case snd (poll_updates us None) of Some i \<Rightarrow> of_int i + 1 | None \<Rightarrow> offset)"

record coalescer =
  co_buffer :: string
  co_sent :: nat
  co_unit :: nat

definition new_coalescer :: "nat \<Rightarrow> coalescer" where [hx_defs]:
  "new_coalescer n = \<lparr>co_buffer = [], co_sent = 0, co_unit = max n 1\<rparr>"

definition push_chunk :: "string \<Rightarrow> coalescer \<Rightarrow> bool \<times> coalescer" where [hx_defs]:
  "push_chunk chunk c = (let c = c\<lparr>co_buffer := co_buffer c @ chunk\<rparr>
     in (co_unit c \<le> length (chars (co_buffer c)) - co_sent c, c))"

definition take_send :: "coalescer \<Rightarrow> string \<times> coalescer" where [hx_defs]:
  "take_send c = (co_buffer c, c\<lparr>co_sent := length (chars (co_buffer c))\<rparr>)"

definition has_unsent :: "coalescer \<Rightarrow> bool" where [hx_defs]:
  "has_unsent c \<longleftrightarrow> co_sent c < length (chars (co_buffer c))"

end
