(* ===== verification/Approval_Queue_Facts.thy ===== *)
theory Approval_Queue_Facts imports Approval_Queue Agent_Gate_Facts
begin

section \<open>Facts about the queue of open questions\<close>

text \<open>
  In every reachable state a decision that is not a denial is an answer that some surface gave within its
  ceiling; silence denies; the queue holds exactly the questions that are open, if their identifiers differ.
\<close>

subsection \<open>The invariant\<close>

text \<open>Each entry is the one of its question, which has not ended and got no answer; each answer was covered.\<close>

definition entry_ok :: "question list \<Rightarrow> string \<Rightarrow> waiting \<Rightarrow> bool" where
  "entry_ok qs aid w \<longleftrightarrow> wt_reply w < length qs \<and> aid = apr_id (qu_request (qs ! wt_reply w))
     \<and> qu_sent (qs ! wt_reply w) = None \<and> wt_request w = shown_request (wt_session w) (qu_request (qs ! wt_reply w))
     \<and> (\<forall>d. qu_phase (qs ! wt_reply w) \<noteq> Ended d)"

lemma entry_ok_update:
  "entry_ok qs aid w \<Longrightarrow> (wt_reply w = k \<Longrightarrow> qu_request a = qu_request (qs ! k) \<and> qu_sent a = qu_sent (qs ! k) \<and> (\<forall>d. qu_phase a \<noteq> Ended d)) \<Longrightarrow>
    entry_ok (qs[k := a]) aid w"
  by (cases "k = wt_reply w") (auto simp: entry_ok_def)

definition queue_ok :: "approval_queue \<Rightarrow> bool" where
  "queue_ok q \<longleftrightarrow> sorted_keys (aq_pending q)
     \<and> (\<forall>(aid, w) \<in> set (aq_pending q). entry_ok (aq_questions q) aid w)
     \<and> (\<forall>k < length (aq_questions q). let a = aq_questions q ! k in
          (\<forall>option who cap. qu_sent a = Some (option, who, cap) \<longrightarrow> covers cap (apr_risk (qu_request a)))
        \<and> (\<forall>option who. qu_phase a = Stopped (GotAnswer option who) \<longrightarrow> (\<exists>cap. qu_sent a = Some (option, who, cap)))
        \<and> (\<forall>d. qu_phase a = Ended d \<longrightarrow> ad_option d = DenyIt \<or> (\<exists>cap. qu_sent a = Some (ad_option d, ad_by d, cap))))"

lemma queue_ok_entry: "queue_ok q \<Longrightarrow> map_of (aq_pending q) aid = Some w \<Longrightarrow> entry_ok (aq_questions q) aid w"
  by (auto simp: queue_ok_def dest: map_of_SomeD)

lemma entry_mem: "queue_ok q \<Longrightarrow> (aid, w) \<in> set (aq_pending q) \<longleftrightarrow> map_of (aq_pending q) aid = Some w"
  by (auto simp: queue_ok_def sorted_keys_mem)

lemma queue_okI:
  assumes "sorted_keys (aq_pending q)"
    and "\<And>aid w. map_of (aq_pending q) aid = Some w \<Longrightarrow> entry_ok (aq_questions q) aid w"
    and "\<And>k option who cap. k < length (aq_questions q) \<Longrightarrow> qu_sent (aq_questions q ! k) = Some (option, who, cap) \<Longrightarrow>
         covers cap (apr_risk (qu_request (aq_questions q ! k)))"
    and "\<And>k option who. k < length (aq_questions q) \<Longrightarrow> qu_phase (aq_questions q ! k) = Stopped (GotAnswer option who) \<Longrightarrow>
         \<exists>cap. qu_sent (aq_questions q ! k) = Some (option, who, cap)"
    and "\<And>k d. k < length (aq_questions q) \<Longrightarrow> qu_phase (aq_questions q ! k) = Ended d \<Longrightarrow>
         ad_option d = DenyIt \<or> (\<exists>cap. qu_sent (aq_questions q ! k) = Some (ad_option d, ad_by d, cap))"
  shows "queue_ok q"
  unfolding queue_ok_def Let_def using assms by (auto simp del: not_Some_eq simp: sorted_keys_mem)

lemma queue_ok_parts:
  assumes "queue_ok q" "k < length (aq_questions q)"
  shows "qu_sent (aq_questions q ! k) = Some (option, who, cap) \<Longrightarrow> covers cap (apr_risk (qu_request (aq_questions q ! k)))"
    "qu_phase (aq_questions q ! k) = Stopped (GotAnswer option who) \<Longrightarrow> \<exists>cap. qu_sent (aq_questions q ! k) = Some (option, who, cap)"
    "qu_phase (aq_questions q ! k) = Ended d \<Longrightarrow>
       ad_option d = DenyIt \<or> (\<exists>cap. qu_sent (aq_questions q ! k) = Some (ad_option d, ad_by d, cap))"
  using assms by (auto simp: queue_ok_def Let_def)

lemma ok_sorted: "queue_ok q \<Longrightarrow> sorted_keys (aq_pending q)"
  by (simp add: queue_ok_def)

lemma queue_ok_asks:
  assumes "queue_ok q"
  shows "queue_ok (begin_ask r act session secs q)"
proof (rule queue_okI)
  show "entry_ok (aq_questions (begin_ask r act session secs q)) aid w"
    if "map_of (aq_pending (begin_ask r act session secs q)) aid = Some w" for aid w
    using that queue_ok_entry [OF assms, of aid w] by (auto simp: begin_ask_def entry_ok_def nth_append split: if_splits)
qed (use ok_sorted [OF assms] queue_ok_parts [OF assms] in \<open>auto simp: begin_ask_def nth_append less_Suc_eq split: if_splits\<close>)

lemma queue_ok_answers:
  assumes "queue_ok q"
  shows "queue_ok (snd (answer_waiting arrives aid option who cap q))"
proof (cases "\<exists>w. map_of (aq_pending q) aid = Some w \<and> covers cap (apr_risk (wt_request w))")
  case True
  then obtain w where w: "map_of (aq_pending q) aid = Some w" "covers cap (apr_risk (wt_request w))" by blast
  note entry = queue_ok_entry [OF assms w(1), unfolded entry_ok_def]
  have quiet: "qu_phase (aq_questions q ! wt_reply w) \<noteq> Stopped (GotAnswer o1 b1)" for o1 b1
    using queue_ok_parts(2) [OF assms, of "wt_reply w" o1 b1] entry by fastforce
  have eq: "snd (answer_waiting arrives aid option who cap q) = (if arrives then
      set_question (wt_reply w) (\<lambda>a. a\<lparr>qu_sent := Some (option, who, cap)\<rparr>) (q\<lparr>aq_pending := btree_remove aid (aq_pending q)\<rparr>)
      else q\<lparr>aq_pending := btree_remove aid (aq_pending q)\<rparr>)"
    using w by (simp add: answer_waiting_def Let_def)
  show ?thesis unfolding eq
  proof (rule queue_okI)
    fix aid' w'
    assume "map_of (aq_pending (if arrives then
      set_question (wt_reply w) (\<lambda>a. a\<lparr>qu_sent := Some (option, who, cap)\<rparr>) (q\<lparr>aq_pending := btree_remove aid (aq_pending q)\<rparr>)
      else q\<lparr>aq_pending := btree_remove aid (aq_pending q)\<rparr>)) aid' = Some w'"
    then have w': "map_of (aq_pending q) aid' = Some w'" "aid' \<noteq> aid" by (auto simp: set_question_def split: if_splits)
    note entry' = queue_ok_entry [OF assms w'(1)]
    then have "wt_reply w' \<noteq> wt_reply w" using entry w'(2) by (auto simp: entry_ok_def)
    then show "entry_ok (aq_questions (if arrives then
      set_question (wt_reply w) (\<lambda>a. a\<lparr>qu_sent := Some (option, who, cap)\<rparr>) (q\<lparr>aq_pending := btree_remove aid (aq_pending q)\<rparr>)
      else q\<lparr>aq_pending := btree_remove aid (aq_pending q)\<rparr>)) aid' w'"
      using entry' by (auto simp: set_question_def intro: entry_ok_update)
  qed (use w entry quiet ok_sorted [OF assms] queue_ok_parts [OF assms] in
      \<open>auto simp: set_question_def nth_list_update shown_request_def split: if_splits\<close>)
next
  case False
  then have "snd (answer_waiting arrives aid option who cap q) = q"
    by (auto simp: answer_waiting_def Let_def split: option.split)
  then show ?thesis using assms by simp
qed

lemma queue_ok_stops:
  assumes "queue_ok q" "may_end q k how" "qu_phase (aq_questions q ! k) = Listening" "k < length (aq_questions q)"
  shows "queue_ok (stop_waiting k how q)"
proof (rule queue_okI)
  show "entry_ok (aq_questions (stop_waiting k how q)) aid w" if "map_of (aq_pending (stop_waiting k how q)) aid = Some w" for aid w
    using that queue_ok_entry [OF assms(1), of aid w]
    by (simp add: stop_waiting_def set_question_def) (rule entry_ok_update, simp_all)
qed (use assms ok_sorted [OF assms(1)] queue_ok_parts [OF assms(1)] in
    \<open>auto simp: stop_waiting_def set_question_def nth_list_update split: if_splits\<close>)

lemma queue_ok_ends:
  assumes "queue_ok q" "qu_phase (aq_questions q ! k) = Stopped how" "k < length (aq_questions q)"
  shows "queue_ok (end_ask k q)"
proof (rule queue_okI)
  fix aid w
  assume "map_of (aq_pending (end_ask k q)) aid = Some w"
  then have w: "map_of (aq_pending q) aid = Some w" "aid \<noteq> apr_id (qu_request (aq_questions q ! k))"
    using assms(2) by (auto simp: end_ask_def set_question_def split: if_splits)
  note entry = queue_ok_entry [OF assms(1) w(1)]
  then have "wt_reply w \<noteq> k" using w(2) by (auto simp: entry_ok_def)
  then show "entry_ok (aq_questions (end_ask k q)) aid w"
    using entry assms(2) by (auto simp: end_ask_def set_question_def intro: entry_ok_update)
next
  fix j d
  assume "j < length (aq_questions (end_ask k q))" "qu_phase (aq_questions (end_ask k q) ! j) = Ended d"
  then show "ad_option d = DenyIt \<or> (\<exists>cap. qu_sent (aq_questions (end_ask k q) ! j) = Some (ad_option d, ad_by d, cap))"
    using assms(2,3) queue_ok_parts [OF assms(1), of j]
    by (cases how) (auto simp: end_ask_def set_question_def nth_list_update decision_of_def deny_decision_def split: if_splits)
qed (use assms ok_sorted [OF assms(1)] queue_ok_parts [OF assms(1)] in
    \<open>auto simp: end_ask_def set_question_def nth_list_update split: if_splits\<close>)

lemma queue_ok_step: "queue_step q q' \<Longrightarrow> queue_ok q \<Longrightarrow> queue_ok q'"
  by (induction rule: queue_step.induct) (auto intro: queue_ok_asks queue_ok_answers queue_ok_stops queue_ok_ends)

lemma queue_ok_reachable: "queue_reaches new_queue q \<Longrightarrow> queue_ok q"
proof (induction rule: rtranclp_induct)
  case base
  show ?case by (simp add: new_queue_def queue_ok_def sorted_keys_def)
qed (rule queue_ok_step)

text \<open>A yes is an answer, and it was within its surface's ceiling: in every state the queue can reach, a question
  that ended with anything but a denial was answered with exactly that option by exactly that person, through a
  surface whose ceiling covers the risk of the request that was asked.\<close>

theorem yes_is_a_covered_answer:
  assumes "queue_reaches new_queue q" "k < length (aq_questions q)"
    and "qu_phase (aq_questions q ! k) = Ended d" "ad_option d \<noteq> DenyIt"
  shows "\<exists>cap. qu_sent (aq_questions q ! k) = Some (ad_option d, ad_by d, cap)
    \<and> covers cap (apr_risk (qu_request (aq_questions q ! k)))"
  using queue_ok_parts [OF queue_ok_reachable [OF assms(1)] assms(2)] assms(3,4) by blast

subsection \<open>Every open question is visible\<close>

definition question_ids :: "approval_queue \<Rightarrow> string list" where
  "question_ids q = map (\<lambda>a. apr_id (qu_request a)) (aq_questions q)"

definition visible :: "approval_queue \<Rightarrow> nat \<Rightarrow> bool" where
  "visible q k \<longleftrightarrow> (\<exists>w. map_of (aq_pending q) (apr_id (qu_request (aq_questions q ! k))) = Some w \<and> wt_reply w = k)"

definition open_at :: "approval_queue \<Rightarrow> nat \<Rightarrow> bool" where
  "open_at q k \<longleftrightarrow> k < length (aq_questions q) \<and> qu_phase (aq_questions q ! k) = Listening \<and> qu_sent (aq_questions q ! k) = None"

definition all_visible :: "approval_queue \<Rightarrow> bool" where
  "all_visible q \<longleftrightarrow> (\<forall>k. open_at q k \<longrightarrow> visible q k)"

lemma ids_change:
  "question_ids (begin_ask r act session secs q) = question_ids q @ [apr_id r]"
  "question_ids (snd (answer_waiting arrives aid option who cap q)) = question_ids q"
  "question_ids (stop_waiting k how q) = question_ids q"
  "question_ids (end_ask k q) = question_ids q"
  by (auto simp: question_ids_def begin_ask_def answer_waiting_def set_question_def stop_waiting_def end_ask_def Let_def
      map_update list_update_same_conv split: option.split ask_phase.split)
    (metis (no_types, lifting) list_update_id map_update nth_map linorder_not_less list_update_beyond)+

lemma ids_step: "queue_step q q' \<Longrightarrow> \<exists>more. question_ids q' = question_ids q @ more"
  by (induction rule: queue_step.induct) (auto simp: ids_change)

lemma distinct_id:
  "distinct (question_ids q) \<Longrightarrow> j < length (aq_questions q) \<Longrightarrow> k < length (aq_questions q) \<Longrightarrow>
    apr_id (qu_request (aq_questions q ! j)) = apr_id (qu_request (aq_questions q ! k)) \<Longrightarrow> j = k"
  by (auto simp: question_ids_def distinct_conv_nth)

lemma all_visible_step:
  assumes "queue_step q q'" "queue_ok q" "distinct (question_ids q')" "all_visible q"
  shows "all_visible q'"
  unfolding all_visible_def
proof (intro allI impI)
  fix k assume "open_at q' k"
  with assms show "visible q' k"
  proof (induction rule: queue_step.induct)
    case (asks q r act session secs)
    show ?case
    proof (cases "k < length (aq_questions q)")
      case True
      then have "visible q k" using asks by (auto simp: all_visible_def open_at_def begin_ask_def nth_append)
      moreover have "apr_id (qu_request (aq_questions q ! k)) \<noteq> apr_id r"
        using asks(2) True unfolding ids_change by (auto simp: question_ids_def) (metis imageI nth_mem)
      ultimately show ?thesis using True by (auto simp: visible_def begin_ask_def nth_append)
    next
      case False
      then have "k = length (aq_questions q)" using asks(4) by (auto simp: open_at_def begin_ask_def)
      then show ?thesis by (simp add: visible_def begin_ask_def)
    qed
  next
    case (answers q aid option who cap)
    show ?case
    proof (cases "\<exists>w. map_of (aq_pending q) aid = Some w \<and> covers cap (apr_risk (wt_request w))")
      case True
      then obtain w where w: "map_of (aq_pending q) aid = Some w" "covers cap (apr_risk (wt_request w))" by blast
      note entry = queue_ok_entry [OF answers(1) w(1), unfolded entry_ok_def]
      have q': "snd (answer_waiting (still_listening q aid) aid option who cap q) = (if still_listening q aid then
          set_question (wt_reply w) (\<lambda>a. a\<lparr>qu_sent := Some (option, who, cap)\<rparr>) (q\<lparr>aq_pending := btree_remove aid (aq_pending q)\<rparr>)
          else q\<lparr>aq_pending := btree_remove aid (aq_pending q)\<rparr>)"
        using w by (simp add: answer_waiting_def Let_def)
      have k: "open_at q k" "k \<noteq> wt_reply w"
        using answers(4) entry w(1) unfolding q'
        by (auto simp: open_at_def set_question_def nth_list_update still_listening_def split: if_splits)
      then have "visible q k" using answers(3) by (simp add: all_visible_def)
      moreover have "apr_id (qu_request (aq_questions q ! k)) \<noteq> aid"
        using distinct_id [of q k "wt_reply w"] answers(2) entry k by (auto simp: ids_change open_at_def)
      ultimately show ?thesis unfolding q' using k(2) by (auto simp: visible_def set_question_def)
    next
      case False
      then have "snd (answer_waiting (still_listening q aid) aid option who cap q) = q"
        by (auto simp: answer_waiting_def Let_def split: option.split)
      then show ?thesis using answers by (simp add: all_visible_def)
    qed
  next
    case (stops j q how)
    then show ?case
      by (cases "j = k") (auto simp: all_visible_def open_at_def visible_def stop_waiting_def set_question_def)
  next
    case (ends j q how)
    then have k: "open_at q k" "k \<noteq> j"
      by (auto simp: open_at_def end_ask_def set_question_def nth_list_update split: if_splits)
    then have "visible q k" "apr_id (qu_request (aq_questions q ! k)) \<noteq> apr_id (qu_request (aq_questions q ! j))"
      using ends distinct_id [of q k j] by (auto simp: all_visible_def ids_change open_at_def)
    then show ?case using k ends(2) by (auto simp: visible_def end_ask_def set_question_def)
  qed
qed

lemma all_visible_reachable:
  "queue_reaches new_queue q \<Longrightarrow> distinct (question_ids q) \<Longrightarrow> all_visible q"
proof (induction rule: rtranclp_induct)
  case base
  show ?case by (simp add: all_visible_def open_at_def new_queue_def)
next
  case (step q q')
  then have "distinct (question_ids q)" using ids_step [OF step(2)] by auto
  then show ?case using all_visible_step [OF step(2) queue_ok_reachable [OF step(1)] step(4)] step(3) by blast
qed

text \<open>C21. While no two questions share an identifier, the queue shows exactly what is open: a question that a run still
  waits for and nobody answered is in the queue under its identifier, whatever else was asked, answered or timed out
  in between; no entry is of a question that has ended or was answered; and the wait for an open question never ends
  for want of an answering side.\<close>

theorem queue_shows_open_questions:
  assumes "queue_reaches new_queue q" "distinct (question_ids q)"
  shows "(\<forall>k. open_at q k \<longrightarrow> visible q k \<and> \<not> may_end q k ChannelClosed)
    \<and> (\<forall>(aid, w) \<in> set (aq_pending q). qu_sent (aq_questions q ! wt_reply w) = None
         \<and> (\<forall>d. qu_phase (aq_questions q ! wt_reply w) \<noteq> Ended d)
         \<and> wt_request w = shown_request (wt_session w) (qu_request (aq_questions q ! wt_reply w)))"
proof -
  have "visible q k \<Longrightarrow> holds_sender q k" for k
    unfolding visible_def holds_sender_def by (auto dest!: map_of_SomeD)
  then show ?thesis
    using all_visible_reachable [OF assms] queue_ok_reachable [OF assms(1)]
    by (auto simp: all_visible_def queue_ok_def entry_ok_def)
qed

subsection \<open>Every question can end\<close>




subsection \<open>The gate behind the queue\<close>

lemma asked_risk: "decide aid now req s = (Asks r, t) \<Longrightarrow> apr_risk r = req_risk req"
  by (auto simp: decide_def decide_live_def decide_guarded_def decide_threshold_def ask_def allow_def build_request_def
      Let_def split: option.splits remembered_decision.splits if_splits)

text \<open>C5. A tool that ran on a human's answer ran within that human's authority.  If the session asked about a call and
  the gate ran its tool on the decision of the queue, then someone answered that very question, not with a denial,
  on a surface whose ceiling covers the risk the call was classified with.\<close>

theorem tool_on_an_answer_was_covered:
  assumes "handle_call tok env s = Some (out, s', Some q)" "ce_prepare env = Inr p" "pc_requirement p = Some rq"
    and "fst (decide (ce_approval_id env) (ce_decide_time env) (call_request env p rq) s) = Asks r"
    and "queue_reaches new_queue qs" "k < length (aq_questions qs)" "qu_request (aq_questions qs ! k) = r"
    and "qu_phase (aq_questions qs ! k) = Ended (ce_answer env r (call_request env p rq))"
  shows "\<exists>option who cap. qu_sent (aq_questions qs ! k) = Some (option, who, cap) \<and> option \<noteq> DenyIt
    \<and> covers cap (req_risk (call_request env p rq))"
proof -
  let ?act = "call_request env p rq"
  obtain cl where cl: "check_capability tok env p = Some (Inr cl)" "q = cl_call cl" "check_approval env q s = (None, s')"
    using handle_call_ran [OF assms(1)] assms(2) by (metis Inr_inject)
  have "pc_requirement q = Some rq" "call_request env q rq = ?act"
    using cleared_requirement [OF cl(1)] assms(3) call_request_cong [of q p env rq] by (simp_all add: cl(2))
  then have yes: "ad_option (ce_answer env r ?act) \<noteq> DenyIt"
    using check_approval_passed [OF cl(3)] assms(4) by simp
  have "apr_risk r = req_risk ?act" using assms(4) asked_risk by (metis prod.collapse)
  then show ?thesis
    using queue_ok_parts [OF queue_ok_reachable [OF assms(5)] assms(6)] assms(7,8) yes by metis
qed

subsection \<open>Instances\<close>

text \<open>A question, asked, answered by a terminal and ended.\<close>

definition answered_queue :: "approval_request \<Rightarrow> action_request \<Rightarrow> approval_queue" where
  "answered_queue r act =
     end_ask 0 (stop_waiting 0 (GotAnswer AllowOnce ''user'')
       (snd (answer_waiting True (apr_id r) AllowOnce ''user'' Privileged (begin_ask r act None 60 new_queue))))"

lemma privileged_covers [simp]: "covers Privileged c"
  by (cases c) (simp_all add: covers_def)

lemma asked_queue:
  "begin_ask r act None 60 new_queue = \<lparr>aq_pending = [(apr_id r, \<lparr>wt_request = shown_request None r, wt_session = None, wt_reply = 0\<rparr>)],
     aq_questions = [\<lparr>qu_request = r, qu_action = act, qu_wait_secs = 60, qu_sent = None, qu_phase = Listening\<rparr>]\<rparr>"
  by (simp add: begin_ask_def new_queue_def)

lemma answered_step:
  "snd (answer_waiting True (apr_id r) AllowOnce ''user'' Privileged (begin_ask r act None 60 new_queue))
     = \<lparr>aq_pending = [], aq_questions = [\<lparr>qu_request = r, qu_action = act, qu_wait_secs = 60,
         qu_sent = Some (AllowOnce, ''user'', Privileged), qu_phase = Listening\<rparr>]\<rparr>"
  unfolding asked_queue by (simp add: answer_waiting_def set_question_def btree_remove_def)

lemma answered_queue_question:
  "aq_pending (answered_queue r act) = []"
  "aq_questions (answered_queue r act) = [\<lparr>qu_request = r, qu_action = act, qu_wait_secs = 60,
     qu_sent = Some (AllowOnce, ''user'', Privileged), qu_phase = Ended \<lparr>ad_option = AllowOnce, ad_by = ''user''\<rparr>\<rparr>]"
  unfolding answered_queue_def answered_step
  by (simp_all add: end_ask_def stop_waiting_def set_question_def decision_of_def btree_remove_def)

lemma answered_queue_reached: "queue_reaches new_queue (answered_queue r act)"
proof -
  let ?a = "begin_ask r act None 60 new_queue"
  let ?b = "snd (answer_waiting True (apr_id r) AllowOnce ''user'' Privileged ?a)"
  let ?c = "stop_waiting 0 (GotAnswer AllowOnce ''user'') ?b"
  have "queue_step new_queue ?a" by (rule asks)
  moreover have "queue_step ?a ?b"
    using answers [of ?a "apr_id r" AllowOnce "''user''" Privileged] by (simp add: still_listening_def asked_queue)
  moreover have "queue_step ?b ?c"
    unfolding answered_step by (rule stops) simp_all
  moreover have "queue_step ?c (answered_queue r act)"
    unfolding answered_queue_def answered_step
    by (rule ends [where how = "GotAnswer AllowOnce ''user''"]) (simp_all add: stop_waiting_def set_question_def)
  ultimately show ?thesis by (meson converse_rtranclp_into_rtranclp rtranclp.rtrancl_refl)
qed

theorem yes_is_a_covered_answer_witness:
  "\<exists>cap. qu_sent (aq_questions (answered_queue careful_question (shell_request ''git add x'')) ! 0) = Some (AllowOnce, ''user'', cap)
     \<and> covers cap (apr_risk careful_question)"
  using yes_is_a_covered_answer [OF answered_queue_reached [of careful_question "shell_request ''git add x''"], of 0]
  by (simp add: answered_queue_question)

theorem queue_shows_open_questions_witness:
  "visible (begin_ask careful_question (shell_request ''git add x'') None 60 new_queue) 0"
proof -
  let ?a = "begin_ask careful_question (shell_request ''git add x'') None 60 new_queue"
  have "queue_reaches new_queue ?a" by (rule r_into_rtranclp) (rule asks)
  moreover have "distinct (question_ids ?a)" "open_at ?a 0" by (simp_all add: question_ids_def open_at_def asked_queue)
  ultimately show ?thesis using queue_shows_open_questions by blast
qed


definition asking_env :: call_env where
  "asking_env = read_env\<lparr>ce_answer := (\<lambda>_ _. \<lparr>ad_option = AllowOnce, ad_by = ''user''\<rparr>)\<rparr>"

theorem tool_on_an_answer_was_covered_witness:
  "\<exists>r act. qu_sent (aq_questions (answered_queue r act) ! 0) \<noteq> None \<and> covers Privileged (req_risk act)
     \<and> fst (decide (ce_approval_id asking_env) (ce_decide_time asking_env) act (new_session (policy_at Paranoid))) = Asks r"
proof -
  let ?s = "new_session (policy_at Paranoid)"
  let ?rq = "the (pc_requirement read_call)"
  let ?act = "call_request asking_env read_call ?rq"
  have "(case handle_call workspace_token asking_env ?s of Some (_, _, Some q) \<Rightarrow> True | _ \<Rightarrow> False)" by code_simp
  then obtain out s' q where run: "handle_call workspace_token asking_env ?s = Some (out, s', Some q)"
    by (auto split: option.splits)
  have "is_asking (fst (decide (ce_approval_id asking_env) (ce_decide_time asking_env) ?act ?s))" by code_simp
  then obtain r where asked: "fst (decide (ce_approval_id asking_env) (ce_decide_time asking_env) ?act ?s) = Asks r"
    by (cases "fst (decide (ce_approval_id asking_env) (ce_decide_time asking_env) ?act ?s)") (simp_all add: is_asking_def)
  have call: "ce_prepare asking_env = Inr read_call" "pc_requirement read_call = Some ?rq"
    by (simp_all add: asking_env_def read_env_def read_call_def)
  show ?thesis
    using tool_on_an_answer_was_covered [OF run call asked answered_queue_reached [of r ?act], of 0] asked
    by (auto simp: answered_queue_question asking_env_def)
qed

text \<open>A second question under the same identifier takes the place of the first, whose wait then ends at once in a denial,
  and takes the second one's entry with it.\<close>

lemma same_identifier_displaces:
  fixes r act secs
  defines "q2 \<equiv> begin_ask r act None secs (begin_ask r act None secs new_queue)"
  shows "may_end q2 0 ChannelClosed \<and> aq_pending (end_ask 0 (stop_waiting 0 ChannelClosed q2)) = []
    \<and> qu_phase (aq_questions (end_ask 0 (stop_waiting 0 ChannelClosed q2)) ! 1) = Listening"
  by (simp add: q2_def begin_ask_def new_queue_def holds_sender_def end_ask_def stop_waiting_def set_question_def
      btree_remove_def decision_of_def)

text \<open>The list of open questions is in the order of their identifiers, not of their age.\<close>

lemma outstanding_is_not_oldest_first:
  "map apr_id (queue_outstanding None
     (begin_ask (careful_question\<lparr>apr_id := ''apr_1''\<rparr>) act None secs
       (begin_ask (careful_question\<lparr>apr_id := ''apr_2''\<rparr>) act None secs new_queue))) = [''apr_1'', ''apr_2'']"
  by (simp add: queue_outstanding_def begin_ask_def new_queue_def shown_request_def less_char_def)

end
