(* ===== verification/Gateway_Facts.thy ===== *)
theory Gateway_Facts imports Gateway Approval_Queue_Facts
begin

section \<open>Facts about answers from a chat\<close>

text \<open>
  A tap that counts answers the question it names, in the conversation that question was asked in, within the
  ceiling of the channel it came through, with an option that was offered and is not a permanent grant.
  A conversation is told from another by its text only if no part of it has a slash in it.
\<close>

subsection \<open>Telling conversations apart\<close>

lemma split_once_append: "d \<notin> set a \<Longrightarrow> split_once d (a @ d # b) = Some (a, b)"
  by (induction a) auto

text \<open>The text a conversation is known under, by the queue and by the session router, identifies it, as long as
  neither the platform nor the chat has a slash in it.\<close>

theorem canonical_identifies:
  assumes "canonical c = canonical d"
    and "CHR ''/'' \<notin> set (cv_platform c @ cv_chat c @ cv_platform d @ cv_chat d)"
  shows "c = d"
proof -
  have "split_once CHR ''/'' (canonical e) = Some (cv_platform e, cv_chat e @ CHR ''/'' # cv_thread e)"
    "split_once CHR ''/'' (cv_chat e @ CHR ''/'' # cv_thread e) = Some (cv_chat e, cv_thread e)"
    if "CHR ''/'' \<notin> set (cv_platform e @ cv_chat e)" for e
    using that split_once_append [of "CHR ''/''" "cv_platform e" "cv_chat e @ CHR ''/'' # cv_thread e"]
      split_once_append [of "CHR ''/''" "cv_chat e" "cv_thread e"] by (simp_all add: canonical_def)
  from this [of c] this [of d] assms have "cv_platform c = cv_platform d" "cv_chat c = cv_chat d" "cv_thread c = cv_thread d"
    by auto
  then show ?thesis by (cases c; cases d) simp
qed

theorem canonical_identifies_witness:
  "telegram_chat ''42'' ''7/8'' \<noteq> telegram_chat ''42'' ''7'' \<and> canonical (telegram_chat ''42'' ''7/8'') \<noteq> canonical (telegram_chat ''42'' ''7'')"
  using canonical_identifies [of "telegram_chat ''42'' ''7/8''" "telegram_chat ''42'' ''7''"] by (auto simp: telegram_chat_def)

text \<open>With a slash in a chat identifier, which a webhook may send, two conversations share their session and their
  questions; and a chat of the name \<open>$home\<close> is the home channel.\<close>

lemma slash_merges_conversations:
  "canonical (telegram_chat ''a/b'' []) = canonical (telegram_chat ''a'' ''b/'')"
  "session_key sha256 (telegram_chat ''a/b'' []) = session_key sha256 (telegram_chat ''a'' ''b/'')"
  by (simp_all add: canonical_def telegram_chat_def session_key_def)

lemma home_is_a_chat: "home_key sha256 ''telegram'' = session_key sha256 (telegram_chat ''$home'' [])"
  by (simp add: home_key_def telegram_chat_def)

lemma hex_length: "length (hex bytes) = 2 * length bytes"
  by (induction bytes) (simp_all add: hex_def)

subsection \<open>Taps\<close>

lemma outstanding_entry:
  assumes "queue_ok q" "find (\<lambda>r. apr_id r = aid) (queue_outstanding (Some scope) q) = Some r"
  obtains w where "map_of (aq_pending q) aid = Some w" "wt_request w = r" "wt_session w = Some scope"
proof -
  from assms(2) have "r \<in> set (queue_outstanding (Some scope) q)" "apr_id r = aid"
    by (auto simp: find_Some_iff)
  then obtain aid' w where w: "(aid', w) \<in> set (aq_pending q)" "wt_request w = r" "wt_session w = Some scope"
    by (auto simp: queue_outstanding_def)
  then have m: "map_of (aq_pending q) aid' = Some w" using entry_mem [OF assms(1)] by simp
  have "aid' = apr_id r" using queue_ok_entry [OF assms(1) m] w(2) by (auto simp: entry_ok_def shown_request_def split: if_splits)
  then show thesis using that m w \<open>apr_id r = aid\<close> by simp
qed

lemma judge_answered:
  "judge show_debug cap r raw = Inr v \<Longrightarrow> covers cap (apr_risk r)
    \<and> (\<exists>opt \<in> set (apr_options r). option_label opt = trim raw \<and> v = VerdictAnswered (apr_id r) (option_label opt))"
  by (auto simp: judge_def may_answer_def find_Some_iff split: if_splits option.splits)

text \<open>C19. A tap counts only for the question it names.  If an inbound message answers a question, then it is a tap from a
  configured channel, a question with the identifier it names waits under the very conversation it came from, the
  channel's ceiling covers the risk of that question, the option is one the question offered, spelled by the tap, and
  not a permanent grant; and exactly that question leaves the queue with exactly that answer, attributed to the channel.\<close>

theorem tap_answers_its_question:
  assumes "queue_ok q" "route_inbound show_debug arrives channels connector message q = (TapAnswered aid opt who, q')"
  shows "\<exists>c raw cap w. message = InAnswer c aid raw \<and> map_of channels connector = Some cap
    \<and> map_of (aq_pending q) aid = Some w \<and> wt_session w = Some (canonical c)
    \<and> covers cap (apr_risk (wt_request w))
    \<and> opt \<in> set (apr_options (wt_request w)) \<and> option_label opt = trim raw \<and> opt \<noteq> AllowAlways
    \<and> who = attribution connector c
    \<and> q' = set_question (wt_reply w) (\<lambda>a. a\<lparr>qu_sent := Some (opt, who, cap)\<rparr>)
             (q\<lparr>aq_pending := btree_remove aid (aq_pending q)\<rparr>)"
proof -
  from assms(2) obtain c raw cap r chosen i where tap: "message = InAnswer c aid raw" "map_of channels connector = Some cap"
    "find (\<lambda>r. apr_id r = aid) (queue_outstanding (Some (canonical c)) q) = Some r"
    "judge show_debug cap r raw = Inr (VerdictAnswered i chosen)"
    "find (\<lambda>opt. option_label opt = chosen) (apr_options r) = Some opt" "opt \<noteq> AllowAlways" "who = attribution connector c"
    "answer_waiting arrives aid opt who cap q = (Answered, q')"
    by (auto simp: route_inbound_def split: inbound.splits option.splits sum.splits answer_verdict.splits if_splits
        prod.splits answer_result.splits)
  obtain w where w: "map_of (aq_pending q) aid = Some w" "wt_request w = r" "wt_session w = Some (canonical c)"
    by (rule outstanding_entry [OF assms(1) tap(3)])
  have chosen: "chosen = trim raw" "covers cap (apr_risk r)" using judge_answered [OF tap(4)] by auto
  have opt: "opt \<in> set (apr_options r)" "option_label opt = chosen" using tap(5) by (auto simp: find_Some_iff)
  have "q' = set_question (wt_reply w) (\<lambda>a. a\<lparr>qu_sent := Some (opt, who, cap)\<rparr>)
             (q\<lparr>aq_pending := btree_remove aid (aq_pending q)\<rparr>)"
    using tap(8) w(1) by (auto simp: answer_waiting_def Let_def split: if_splits)
  then show ?thesis using tap w chosen opt by blast
qed

text \<open>A tap that does not count changes nothing: whatever message arrives on whatever channel, unless it answers its
  question the queue is as before, so that the run keeps waiting and its own timeout denies it.\<close>

theorem refused_tap_changes_nothing:
  assumes "queue_ok q" "route_inbound show_debug (still_listening q named) channels connector (InAnswer c named raw) q = (result, q')"
    and "\<And>aid opt who. result \<noteq> TapAnswered aid opt who"
    and "map_of (aq_pending q) named \<noteq> None \<Longrightarrow> still_listening q named"
  shows "q' = q"
  using assms(2,3,4)
  by (auto simp: route_inbound_def answer_waiting_def Let_def
      split: option.splits sum.splits answer_verdict.splits if_splits prod.splits answer_result.splits)

text \<open>A question, asked through a channel, for the instances.\<close>

definition asked_by_chat :: approval_queue where
  "asked_by_chat = begin_ask careful_question (shell_request ''git add x'') (Some ''telegram/42/'') 60 new_queue"

lemma asked_by_chat_ok: "queue_ok asked_by_chat"
  unfolding asked_by_chat_def by (intro queue_ok_asks queue_ok_reachable) simp

lemma chat_tap:
  "fst (route_inbound (\<lambda>s. s) True [(''tg'', Mutate)] ''tg'' (InAnswer (telegram_chat ''42'' []) ''q1'' ''allow once'') asked_by_chat)
     = TapAnswered ''q1'' AllowOnce ''telegram:42 via tg''"
  by code_simp

theorem tap_answers_its_question_witness:
  "\<exists>w. map_of (aq_pending asked_by_chat) ''q1'' = Some w \<and> wt_session w = Some ''telegram/42/''"
proof -
  let ?route = "route_inbound (\<lambda>s. s) True [(''tg'', Mutate)] ''tg'' (InAnswer (telegram_chat ''42'' []) ''q1'' ''allow once'') asked_by_chat"
  have "?route = (TapAnswered ''q1'' AllowOnce ''telegram:42 via tg'', snd ?route)" by (rule prod_eqI) (simp_all add: chat_tap)
  from tap_answers_its_question [OF asked_by_chat_ok this] show ?thesis by (auto simp: canonical_def telegram_chat_def)
qed

lemma stray_tap:
  "\<not> (case fst (route_inbound (\<lambda>s. s) True [(''tg'', Mutate)] ''tg'' (InAnswer (telegram_chat ''43'' []) ''q1'' ''allow once'') asked_by_chat)
       of TapAnswered _ _ _ \<Rightarrow> True | _ \<Rightarrow> False) \<and> still_listening asked_by_chat ''q1''"
  by code_simp

theorem refused_tap_changes_nothing_witness:
  "snd (route_inbound (\<lambda>s. s) True [(''tg'', Mutate)] ''tg'' (InAnswer (telegram_chat ''43'' []) ''q1'' ''allow once'') asked_by_chat)
     = asked_by_chat"
proof -
  let ?tap = "InAnswer (telegram_chat ''43'' []) ''q1'' ''allow once''"
  let ?route = "route_inbound (\<lambda>s. s) (still_listening asked_by_chat ''q1'') [(''tg'', Mutate)] ''tg'' ?tap asked_by_chat"
  have listening: "still_listening asked_by_chat ''q1'' = True" using stray_tap by blast
  have "snd ?route = asked_by_chat"
    by (rule refused_tap_changes_nothing [OF asked_by_chat_ok prod.collapse [symmetric]]) (use stray_tap listening in auto)
  then show ?thesis unfolding listening .
qed

subsection \<open>Telegram\<close>

text \<open>A button carries its question and its answer: the payload of a button for a question, whose identifier has no
  colon, is read back as that identifier and that option's label.\<close>

theorem button_reads_back:
  assumes "aid \<noteq> []" "CHR '':'' \<notin> set aid"
  shows "split_callback_data (callback_data aid (option_label opt)) = Some (aid, option_label opt)"
  using split_once_append [OF assms(2), of "option_label opt"] assms(1)
  by (cases opt) (simp_all add: split_callback_data_def callback_data_def)

theorem button_reads_back_witness:
  "split_callback_data ''apr_1:allow once'' = Some (''apr_1'', ''allow once'')"
  using button_reads_back [of "''apr_1''" AllowOnce] by (simp add: callback_data_def)

text \<open>A tap is read without its thread, so that a question which was asked in a thread of a chat cannot be answered from
  there: it is refused, whatever the channel may answer.\<close>

lemma threaded_question_cannot_be_tapped:
  assumes "queue_ok q" "map_of (aq_pending q) aid = Some w" "wt_session w = Some (canonical (telegram_chat chat thread))"
    and "thread \<noteq> []" "CHR ''/'' \<notin> set chat" "aid \<noteq> []" "CHR '':'' \<notin> set aid"
    and "read_update \<lparr>tu_id = i, tu_message = None, tu_callback = Some (chat, callback_data aid (option_label opt))\<rparr> = [tap]"
  shows "\<exists>why. route_inbound show_debug arrives channels connector tap q = (TapRefused aid why, q)"
proof -
  have tap: "tap = InAnswer (telegram_chat chat []) aid (option_label opt)"
    using assms(6-8) split_once_append [OF assms(7), of "option_label opt"]
    by (cases opt) (auto simp: read_update_def split_callback_data_def callback_data_def)
  have "canonical (telegram_chat chat []) \<noteq> canonical (telegram_chat chat thread)"
    using assms(4) by (simp add: canonical_def telegram_chat_def)
  then have "find (\<lambda>r. apr_id r = aid) (queue_outstanding (Some (canonical (telegram_chat chat []))) q) = None"
    using assms(1-3) outstanding_entry [OF assms(1), of aid "canonical (telegram_chat chat [])"] by (metis not_None_eq option.inject)
  then show ?thesis by (auto simp: tap route_inbound_def split: option.split)
qed

lemma poll_offset_above:
  "u \<in> set us \<Longrightarrow> tu_id u = Some i \<Longrightarrow> \<exists>l. snd (poll_updates us last_id) = Some l \<and> i \<le> l"
proof (induction us last_id rule: poll_updates.induct)
  case (2 v us last_id)
  have grows: "\<exists>m. snd (poll_updates us (Some l)) = Some m \<and> l \<le> m" for l
  proof (induction us arbitrary: l)
    case (Cons u us)
    then show ?case by (cases "tu_id u") (auto simp: Let_def case_prod_unfold, meson max.boundedE order_trans)
  qed simp
  show ?case
  proof (cases "u = v")
    case True
    then show ?thesis using grows [of "max i (case last_id of Some l \<Rightarrow> l | None \<Rightarrow> i)"] 2(3)
      by (auto simp: Let_def case_prod_unfold)
  qed (use 2 in \<open>auto simp: Let_def case_prod_unfold\<close>)
qed simp

text \<open>A poll reads every update, in order, and the next one starts behind all of them.\<close>

lemma poll_reads_all: "fst (poll_updates us last_id) = concat (map read_update us)"
  by (induction us arbitrary: last_id) (simp_all add: Let_def case_prod_unfold)

text \<open>What a coalesced stream sends last is the whole text, and a chunk waits only while less than a unit is unsent.\<close>

lemma coalesced_text: "fst (take_send (fold (\<lambda>s c. snd (push_chunk s c)) chunks c)) = co_buffer c @ concat chunks"
  by (induction chunks arbitrary: c) (simp_all add: take_send_def push_chunk_def Let_def)

end
