(* ===== verification/Rust_Net.thy ===== *)
theory Rust_Net imports Rust_Utf8 "HOL-Library.Word" "HOL-Library.Monad_Syntax"
begin

section \<open>Internet addresses and numbers of the standard library\<close>

unbundle bit_operations_syntax

text \<open>
  \<open>str::parse\<close> at the types the sandbox crate parses: unsigned integers and \<open>IpAddr\<close>.  The address parser reads
  from the front of a text and hands back the rest; a reader that fails gives \<^const>\<open>None\<close> and has read nothing.
  An address is the integer \<open>u32::from\<close> or \<open>u128::from\<close> makes of it, whose first byte is the most significant.
\<close>

subsection \<open>Texts\<close>

definition strip_prefix :: "string \<Rightarrow> string \<Rightarrow> string option" where [hx_defs]:
  "strip_prefix p s = (if starts_with s p then Some (drop (length p) s) else None)"

definition trim_end_matches :: "char \<Rightarrow> string \<Rightarrow> string" where [hx_defs]:
  "trim_end_matches d s = rev (dropWhile (\<lambda>c. c = d) (rev s))"

definition trim_start_matches :: "char \<Rightarrow> string \<Rightarrow> string" where [hx_defs]:
  "trim_start_matches d s = dropWhile (\<lambda>c. c = d) s"

definition rsplit_once :: "char \<Rightarrow> string \<Rightarrow> (string \<times> string) option" where [hx_defs]:
  "rsplit_once d s = map_option (\<lambda>(a, b). (rev b, rev a)) (split_once d (rev s))"

text \<open>The first line of a text that is not empty: \<open>lines().next()\<close>.\<close>

definition first_line :: "string \<Rightarrow> string option" where [hx_defs]:
  "first_line s = (case s of
     [] \<Rightarrow> None
   | _ \<Rightarrow> Some (case split_once (CHR 0x0A) s of Some (l, _) \<Rightarrow> drop_cr l | None \<Rightarrow> s))"

subsection \<open>Numbers\<close>

text \<open>\<open>char::to_digit\<close> for a radix of at most 16.\<close>

definition to_digit :: "nat \<Rightarrow> char \<Rightarrow> nat option" where [hx_defs]:
  "to_digit radix c = (let b = byte c;
       d = (if 48 \<le> b \<and> b \<le> 57 then b - 48 else if 97 \<le> b \<and> b \<le> 102 then b - 87
            else if 65 \<le> b \<and> b \<le> 70 then b - 55 else radix)
     in if d < radix then Some d else None)"

fun read_digits :: "nat \<Rightarrow> string \<Rightarrow> nat list \<times> string" where
  "read_digits radix [] = ([], [])"
| "read_digits radix (c # s) = (case to_digit radix c of
     None \<Rightarrow> ([], c # s)
   | Some d \<Rightarrow> (case read_digits radix s of (ds, r) \<Rightarrow> (d # ds, r)))"

definition digits_value :: "nat \<Rightarrow> nat list \<Rightarrow> nat" where [hx_defs]:
  "digits_value radix ds = foldl (\<lambda>a d. a * radix + d) 0 ds"

text \<open>\<open>str::parse\<close> for an unsigned integer up to \<open>most\<close>: a plus sign may lead, and every overflow is an error.\<close>

definition parse_unsigned :: "nat \<Rightarrow> string \<Rightarrow> nat option" where [hx_defs]:
  "parse_unsigned most s = (let t = (case s of c # r \<Rightarrow> if c = CHR ''+'' then r else s | [] \<Rightarrow> []) in
     case read_digits 10 t of (ds, r) \<Rightarrow>
       if ds \<noteq> [] \<and> r = [] \<and> digits_value 10 ds \<le> most then Some (digits_value 10 ds) else None)"

subsection \<open>Addresses\<close>

datatype ip_addr = V4 "32 word" | V6 "128 word"

definition given_char :: "char \<Rightarrow> string \<Rightarrow> string option" where [hx_defs]:
  "given_char c s = (case s of k # r \<Rightarrow> if k = c then Some r else None | [] \<Rightarrow> None)"

definition after_separator :: "char \<Rightarrow> bool \<Rightarrow> (string \<Rightarrow> 'a option) \<Rightarrow> string \<Rightarrow> 'a option" where [hx_defs]:
  "after_separator c first inner s = (if first then inner s else Option.bind (given_char c s) inner)"

definition read_number :: "nat \<Rightarrow> nat \<Rightarrow> bool \<Rightarrow> nat \<Rightarrow> string \<Rightarrow> (nat \<times> string) option" where [hx_defs]:
  "read_number radix max_digits zero_prefix most s = (case read_digits radix s of (ds, r) \<Rightarrow>
     if ds = [] \<or> length ds > max_digits \<or> (\<not> zero_prefix \<and> hd ds = 0 \<and> length ds > 1)
        \<or> digits_value radix ds > most
     then None else Some (digits_value radix ds, r))"

definition read_octet :: "string \<Rightarrow> (nat \<times> string) option" where [hx_defs]:
  "read_octet = read_number 10 3 False 255"

definition read_ipv4 :: "string \<Rightarrow> (nat list \<times> string) option" where [hx_defs]:
  "read_ipv4 s = do {
     (a, s) \<leftarrow> read_octet s;
     (b, s) \<leftarrow> after_separator (CHR ''.'') False read_octet s;
     (c, s) \<leftarrow> after_separator (CHR ''.'') False read_octet s;
     (d, s) \<leftarrow> after_separator (CHR ''.'') False read_octet s;
     Some ([a, b, c, d], s) }"

text \<open>Up to \<open>n\<close> groups, of which the last two may be written as an IPv4 address.\<close>

fun read_groups :: "bool \<Rightarrow> nat \<Rightarrow> string \<Rightarrow> nat list \<times> bool \<times> string" where
  "read_groups first 0 s = ([], False, s)"
| "read_groups first (Suc n) s =
     (case (if 0 < n then after_separator (CHR '':'') first read_ipv4 s else None) of
        Some (os, r) \<Rightarrow> ([os ! 0 * 256 + os ! 1, os ! 2 * 256 + os ! 3], True, r)
      | None \<Rightarrow>
     (case after_separator (CHR '':'') first (read_number 16 4 True 65535) s of
        None \<Rightarrow> ([], False, s)
      | Some (g, r) \<Rightarrow> (case read_groups False n r of (gs, v4, r') \<Rightarrow> (g # gs, v4, r'))))"

definition read_ipv6 :: "string \<Rightarrow> (nat list \<times> string) option" where [hx_defs]:
  "read_ipv6 s = (case read_groups True 8 s of (front, v4, r) \<Rightarrow>
     if length front = 8 then Some (front, r)
     else if v4 then None
     else do {
       r \<leftarrow> given_char (CHR '':'') r;
       r \<leftarrow> given_char (CHR '':'') r;
       (case read_groups True (7 - length front) r of (back, _, r) \<Rightarrow>
          Some (front @ replicate (8 - length front - length back) 0 @ back, r)) })"

text \<open>\<open>IpAddr::from_str\<close>: the text is an address and nothing more.\<close>

definition parse_ip :: "string \<Rightarrow> ip_addr option" where [hx_defs]:
  "parse_ip s = (case read_ipv4 s of
     Some (os, r) \<Rightarrow> if r = [] then Some (V4 (of_nat (digits_value 256 os))) else None
   | None \<Rightarrow> (case read_ipv6 s of
       Some (gs, r) \<Rightarrow> if r = [] then Some (V6 (of_nat (digits_value 65536 gs))) else None
     | None \<Rightarrow> None))"

definition is_loopback :: "ip_addr \<Rightarrow> bool" where [hx_defs]:
  "is_loopback ip = (case ip of V4 a \<Rightarrow> drop_bit 24 a = 127 | V6 a \<Rightarrow> a = 1)"

end
