(* ===== verification/Egress.thy ===== *)
theory Egress imports Rust_Net
begin

section \<open>The egress allow list\<close>

text \<open>
  \<open>crates/hx-sandbox/src/egress/policy.rs\<close>, the predicates on entries of \<open>crates/hx-sandbox/src/spec.rs\<close>, and the
  proxy \<open>crates/hx-sandbox/src/bin/egress_proxy.rs\<close>, which holds its own copy of both because it is built without the
  library.  A sandbox with an allow list reaches the internet through this proxy only.
\<close>

subsection \<open>Rules\<close>

datatype egress_rule =
    Name_Rule string
  | Ip_Rule ip_addr
  | Cidr_Rule ip_addr nat

definition to_hostname :: "string \<Rightarrow> string" where [hx_defs]:
  "to_hostname entry = to_ascii_lowercase (trim_end_matches (CHR ''.'') entry)"

definition clean_entry :: "string \<Rightarrow> string" where [hx_defs]:
  "clean_entry entry = trim_end_matches (CHR ''.'') (trim entry)"

definition family_bits :: "ip_addr \<Rightarrow> nat" where [hx_defs]:
  "family_bits ip = (case ip of V4 _ \<Rightarrow> 32 | V6 _ \<Rightarrow> 128)"

definition parse_rule :: "string \<Rightarrow> egress_rule option" where [hx_defs]:
  "parse_rule entry0 = (let entry = clean_entry entry0 in
     if entry = [] then None
     else case split_once (CHR ''/'') entry of
       Some (net, p) \<Rightarrow>
         (case parse_ip net of None \<Rightarrow> None | Some address \<Rightarrow>
         (case parse_unsigned 255 p of None \<Rightarrow> None | Some p' \<Rightarrow>
            if p' > family_bits address then None else Some (Cidr_Rule address p')))
     | None \<Rightarrow>
         (case parse_ip entry of
            Some ip \<Rightarrow> Some (Ip_Rule ip)
          | None \<Rightarrow> Some (Name_Rule (to_hostname entry))))"

text \<open>
  The mask of the first \<open>prefix\<close> bits.  The shift of the source would panic for a prefix beyond the width; a rule that was
  parsed has none, which is \<open>parsed_prefix\<close> below.
\<close>

definition ip_in_network :: "ip_addr \<Rightarrow> ip_addr \<Rightarrow> nat \<Rightarrow> bool" where [hx_defs]:
  "ip_in_network ip net p = (case (ip, net) of
     (V4 a, V4 n) \<Rightarrow>
       (let mask = (if p = 0 then 0 else push_bit (32 - p) (- 1)) in a AND mask = n AND mask)
   | (V6 a, V6 n) \<Rightarrow>
       (let mask = (if p = 0 then 0 else push_bit (128 - p) (- 1)) in a AND mask = n AND mask)
   | _ \<Rightarrow> False)"

definition allows :: "egress_rule \<Rightarrow> ip_addr \<Rightarrow> bool" where [hx_defs]:
  "allows r ip = (case r of
     Ip_Rule allowed \<Rightarrow> allowed = ip
   | Cidr_Rule net p \<Rightarrow> ip_in_network ip net p
   | Name_Rule _ \<Rightarrow> False)"

subsection \<open>What the validator takes\<close>

definition is_ascii_hexdigit :: "char \<Rightarrow> bool" where [hx_defs]:
  "is_ascii_hexdigit c \<longleftrightarrow> to_digit 16 c \<noteq> None"

definition is_inet_aton_number :: "string \<Rightarrow> bool" where [hx_defs]:
  "is_inet_aton_number part =
     (if part = [] then False
      else case (case strip_prefix ''0x'' part of None \<Rightarrow> strip_prefix ''0X'' part | Some h \<Rightarrow> Some h) of
        Some h \<Rightarrow> h \<noteq> [] \<and> list_all is_ascii_hexdigit h
      | None \<Rightarrow>
          if length part > 1 \<and> starts_with part ''0'' then list_all (\<lambda>c. 48 \<le> byte c \<and> byte c \<le> 55) part
          else list_all is_ascii_digit part)"

definition is_address_shaped :: "string \<Rightarrow> bool" where [hx_defs]:
  "is_address_shaped host = (let parts = split_on (CHR ''.'') host in
     \<not> (parts = [] \<or> length parts > 4) \<and> list_all is_inet_aton_number parts)"

definition is_label :: "string \<Rightarrow> bool" where [hx_defs]:
  "is_label l \<longleftrightarrow> l \<noteq> [] \<and> list_all (\<lambda>c. is_ascii_alphanumeric c \<or> c = CHR ''-'') l"

definition is_proxy_enforceable :: "string \<Rightarrow> bool" where [hx_defs]:
  "is_proxy_enforceable entry0 = (let entry = clean_entry entry0 in
     if entry = [] then False
     else case parse_rule entry of
       Some (Ip_Rule _) \<Rightarrow> True
     | Some (Cidr_Rule _ _) \<Rightarrow> True
     | Some (Name_Rule host0) \<Rightarrow>
         (let host = (case strip_prefix ''*.'' host0 of Some h \<Rightarrow> h | None \<Rightarrow> host0) in
          list_all is_label (split_on (CHR ''.'') host) \<and> \<not> is_address_shaped host)
     | None \<Rightarrow> False)"

subsection \<open>The proxy\<close>

text \<open>
  The proxy's own copy of the rules and of the tests on numbers and addresses.  A resolver is a function from a name
  to the addresses the proxy's host gives for it.
\<close>

datatype proxy_rule = PName string | PIp ip_addr | PCidr ip_addr nat

definition proxy_parse :: "string \<Rightarrow> proxy_rule option" where [hx_defs]:
  "proxy_parse entry0 = (let entry = trim_end_matches (CHR ''.'') (trim entry0) in
     if entry = [] then None
     else case split_once (CHR ''/'') entry of
       Some (net, p) \<Rightarrow>
         (case parse_ip net of None \<Rightarrow> None | Some address \<Rightarrow>
         (case parse_unsigned 255 p of None \<Rightarrow> None | Some p' \<Rightarrow>
            (let most = (case address of V4 _ \<Rightarrow> 32 | V6 _ \<Rightarrow> 128) in
             if p' > most then None else Some (PCidr address p'))))
     | None \<Rightarrow>
         (case parse_ip entry of
            Some ip \<Rightarrow> Some (PIp ip)
          | None \<Rightarrow> Some (PName (to_ascii_lowercase (trim_end_matches (CHR ''.'') entry)))))"

definition proxy_allows :: "proxy_rule \<Rightarrow> ip_addr \<Rightarrow> bool" where [hx_defs]:
  "proxy_allows r ip = (case r of
     PIp allowed \<Rightarrow> allowed = ip
   | PCidr net p \<Rightarrow> (case (ip, net) of
       (V4 a, V4 n) \<Rightarrow>
         (let mask = (if p = 0 then 0 else push_bit (32 - p) (- 1)) in a AND mask = n AND mask)
     | (V6 a, V6 n) \<Rightarrow>
         (let mask = (if p = 0 then 0 else push_bit (128 - p) (- 1)) in a AND mask = n AND mask)
     | _ \<Rightarrow> False)
   | PName _ \<Rightarrow> False)"

definition proxy_inet_aton_number :: "string \<Rightarrow> bool" where [hx_defs]:
  "proxy_inet_aton_number part =
     (if part = [] then False
      else case (case strip_prefix ''0x'' part of None \<Rightarrow> strip_prefix ''0X'' part | Some h \<Rightarrow> Some h) of
        Some h \<Rightarrow> h \<noteq> [] \<and> list_all is_ascii_hexdigit h
      | None \<Rightarrow>
          if length part > 1 \<and> starts_with part ''0'' then list_all (\<lambda>c. 48 \<le> byte c \<and> byte c \<le> 55) part
          else list_all is_ascii_digit part)"

definition proxy_address_shaped :: "string \<Rightarrow> bool" where [hx_defs]:
  "proxy_address_shaped host = (let parts = split_on (CHR ''.'') host in
     \<not> (parts = [] \<or> length parts > 4) \<and> list_all proxy_inet_aton_number parts)"

definition parse_allowlist :: "string \<Rightarrow> proxy_rule list" where [hx_defs]:
  "parse_allowlist raw = List.map_filter proxy_parse (split_on (CHR '','') raw)"

definition name_covers :: "string \<Rightarrow> proxy_rule \<Rightarrow> bool" where [hx_defs]:
  "name_covers host rule = (case rule of
     PName entry \<Rightarrow>
       (case strip_prefix ''*.'' entry of
          Some domain \<Rightarrow> host \<noteq> domain \<and> ends_with host domain
            \<and> host ! (length host - length domain - 1) = CHR ''.''
        | None \<Rightarrow> host = entry)
   | _ \<Rightarrow> False)"

definition allowed_name :: "string \<Rightarrow> proxy_rule list \<Rightarrow> bool" where [hx_defs]:
  "allowed_name host0 allow =
     (let host = to_ascii_lowercase (trim_end_matches (CHR ''.'') host0) in list_ex (name_covers host) allow)"

definition allowed_address :: "ip_addr \<Rightarrow> proxy_rule list \<Rightarrow> bool" where [hx_defs]:
  "allowed_address ip allow = list_ex (\<lambda>rule. proxy_allows rule ip) allow"

datatype proxy_outcome =
    Hang_Up
  | Status nat string
  | Dial (dial_host: string) (dial_port: nat)

text \<open>
  What \<open>handle\<close> does with the first bytes a client sent, up to the point where it connects: a status it answers
  and closes with, or the destination it dials.
\<close>

definition split_target :: "string \<Rightarrow> string \<times> nat" where [hx_defs]:
  "split_target target = (case rsplit_once (CHR '':'') target of
     Some (h, p) \<Rightarrow> (h, case parse_unsigned 65535 p of Some n \<Rightarrow> n | None \<Rightarrow> 0)
   | None \<Rightarrow> (target, 443))"

definition may_dial :: "(string \<Rightarrow> ip_addr list) \<Rightarrow> proxy_rule list \<Rightarrow> string \<Rightarrow> bool" where [hx_defs]:
  "may_dial resolve allow host = (case parse_ip host of
     Some ip \<Rightarrow> allowed_address ip allow
   | None \<Rightarrow> \<not> proxy_address_shaped host
       \<and> (allowed_name host allow \<or> list_ex (\<lambda>ip. allowed_address ip allow) (resolve host)))"

definition handle :: "(string \<Rightarrow> ip_addr list) \<Rightarrow> proxy_rule list \<Rightarrow> string \<Rightarrow> proxy_outcome" where [hx_defs]:
  "handle resolve allow sent = (if sent = [] then Hang_Up
     else case first_line (utf8_lossy sent) of
       None \<Rightarrow> Hang_Up
     | Some request \<Rightarrow>
    (let parts = split_whitespace request in
     case parts of
       [] \<Rightarrow> Status 405 ''Method Not Allowed''
     | method # rest \<Rightarrow>
         if \<not> eq_ignore_ascii_case method ''CONNECT'' then Status 405 ''Method Not Allowed''
         else case rest of
           [] \<Rightarrow> Status 400 ''Bad Request''
         | target # _ \<Rightarrow> (case split_target target of (host, port) \<Rightarrow>
             if host = [] \<or> port = 0 then Status 400 ''Bad Request''
             else if \<not> may_dial resolve allow host then Status 403 ''Forbidden''
             else Dial host port)))"

text \<open>The allow list as \<open>setup\<close> hands it to the proxy's environment.\<close>

definition allow_env :: "string list \<Rightarrow> string" where [hx_defs]:
  "allow_env allowlist = join '','' allowlist"

end
