(* ===== verification/Sandbox_Spec.thy ===== *)
theory Sandbox_Spec imports Rust_Float Egress
begin

section \<open>Sandboxes: what is asked of the engine\<close>

text \<open>
  \<open>crates/hx-sandbox/src/spec.rs\<close>, with the profile it is built from (\<open>SandboxProfile\<close> of
  \<open>crates/hx-core/src/config.rs\<close>) and the translation to the engine's own settings (\<open>to_host_config\<close> and
  \<open>to_container_config\<close> of \<open>docker.rs\<close>).  The quantities a profile names are 64-bit words: the memory limit is a
  product that wraps in the release build, and the conversions to \<open>i64\<close> keep the bits.
\<close>

subsection \<open>Profiles and specifications\<close>

datatype isolation_level = L1 | L2 | L3

record sandbox_profile =
  pr_isolation :: isolation_level
  pr_image :: string
  pr_cpus :: f64
  pr_memory_mb :: "64 word"
  pr_workspace_mb :: "64 word"
  pr_pids_max :: "64 word"
  pr_ttl_secs :: "64 word"
  pr_egress :: "string list"
  pr_network :: bool
  pr_readonly_rootfs :: bool
  pr_host :: "string option"
  pr_command :: "string list option"

record sandbox_spec =
  sp_profile :: string
  sp_image :: string
  sp_isolation :: isolation_level
  sp_cpus :: f64
  sp_memory_mb :: "64 word"
  sp_pids_max :: int
  sp_workspace_mb :: "64 word"
  sp_ttl_secs :: "64 word"
  sp_egress_allow :: "string list"
  sp_network :: bool
  sp_readonly_rootfs :: bool
  sp_workspace_host_path :: string
  sp_workspace_path :: string
  sp_user :: "string option"
  sp_env :: "(string \<times> string) list"
  sp_runtime :: "string option"

definition default_profile :: sandbox_profile where [hx_defs]:
  "default_profile = \<lparr>pr_isolation = L2, pr_image = ''docker.io/library/debian:stable-slim'', pr_cpus = 2,
     pr_memory_mb = 2048, pr_workspace_mb = 4096, pr_pids_max = 512, pr_ttl_secs = 1800, pr_egress = [],
     pr_network = False, pr_readonly_rootfs = True, pr_host = None, pr_command = None\<rparr>"

definition sandbox_uid :: string where [hx_defs]: "sandbox_uid = ''1000:1000''"

definition userns_remapped :: string where [hx_defs]: "userns_remapped = ''private''"

definition from_profile :: "string \<Rightarrow> sandbox_profile \<Rightarrow> sandbox_spec" where [hx_defs]:
  "from_profile name p = \<lparr>
     sp_profile = name,
     sp_image = pr_image p,
     sp_isolation = pr_isolation p,
     sp_cpus = (if pr_cpus p > 0 then pr_cpus p else 2),
     sp_memory_mb = (if pr_memory_mb p > 0 then pr_memory_mb p else 4096),
     sp_pids_max = (if pr_pids_max p > 0 then sint (pr_pids_max p) else 2048),
     sp_workspace_mb = (if pr_workspace_mb p > 0 then pr_workspace_mb p else 16384),
     sp_ttl_secs = (if pr_ttl_secs p > 0 then pr_ttl_secs p else 4 * 3600),
     sp_egress_allow = pr_egress p,
     sp_network = pr_network p,
     sp_readonly_rootfs = pr_readonly_rootfs p,
     sp_workspace_host_path = [],
     sp_workspace_path = ''/workspace'',
     sp_user = None,
     sp_env = [],
     sp_runtime = None\<rparr>"

subsection \<open>Validation\<close>

datatype spec_error =
    No_Image | No_Workspace | Bad_Cpus f64 | No_Memory | No_Ttl | No_Pid_Ceiling
  | Egress_Without_Network "string list"
  | Egress_Not_Enforced "string list"

text \<open>\<^const>\<open>None\<close> where the source gives \<open>Ok\<close>.\<close>

definition validate :: "sandbox_spec \<Rightarrow> spec_error option" where [hx_defs]:
  "validate s =
     (if trim (sp_image s) = [] then Some No_Image
      else if trim (sp_workspace_host_path s) = [] then Some No_Workspace
      else if sp_cpus s \<le> 0 then Some (Bad_Cpus (sp_cpus s))
      else if sp_memory_mb s = 0 then Some No_Memory
      else if sp_ttl_secs s = 0 then Some No_Ttl
      else if sp_pids_max s \<le> 0 then Some No_Pid_Ceiling
      else if \<not> sp_network s \<and> sp_egress_allow s \<noteq> [] then Some (Egress_Without_Network (sp_egress_allow s))
      else if sp_network s \<and> sp_egress_allow s \<noteq> [] then
        (case find (\<lambda>e. \<not> is_proxy_enforceable e) (sp_egress_allow s) of
           Some e \<Rightarrow> Some (Egress_Not_Enforced [e])
         | None \<Rightarrow> None)
      else None)"

subsection \<open>Settings\<close>

record host_settings =
  hs_privileged :: bool
  hs_user :: string
  hs_cap_drop :: "string list"
  hs_cap_add :: "string list"
  hs_security_opt :: "string list"
  hs_network_mode :: string
  hs_pids_limit :: int
  hs_nano_cpus :: int
  hs_memory_bytes :: int
  hs_memory_swap_bytes :: int
  hs_runtime :: "string option"
  hs_readonly_rootfs :: bool
  hs_auto_remove :: bool
  hs_init :: bool
  hs_userns_mode :: "string option"
  hs_tmpfs :: "(string \<times> string) list"
  hs_binds :: "string list"
  hs_dns :: "string list"

text \<open>The conversion of a float to \<open>i64\<close>: towards zero, and saturating.\<close>

definition f64_to_i64 :: "f64 \<Rightarrow> int" where [hx_defs]:
  "f64_to_i64 x = max (- (2 ^ 63)) (min (2 ^ 63 - 1) (if 0 \<le> x then \<lfloor>x\<rfloor> else \<lceil>x\<rceil>))"

definition memory_bytes :: "64 word \<Rightarrow> int" where [hx_defs]:
  "memory_bytes mb = sint (mb * 1024 * 1024)"

definition base_settings :: "sandbox_spec \<Rightarrow> host_settings" where [hx_defs]:
  "base_settings s = \<lparr>
     hs_privileged = False,
     hs_user = (case sp_user s of Some u \<Rightarrow> u | None \<Rightarrow> sandbox_uid),
     hs_cap_drop = [''ALL''],
     hs_cap_add = [],
     hs_security_opt = [''no-new-privileges:true''],
     hs_network_mode = (if sp_network s then ''bridge'' else ''none''),
     hs_pids_limit = sp_pids_max s,
     hs_nano_cpus = f64_to_i64 (fmul (sp_cpus s) 1000000000),
     hs_memory_bytes = memory_bytes (sp_memory_mb s),
     hs_memory_swap_bytes = memory_bytes (sp_memory_mb s),
     hs_runtime = None,
     hs_readonly_rootfs = sp_readonly_rootfs s,
     hs_auto_remove = False,
     hs_init = True,
     hs_userns_mode = None,
     hs_tmpfs = [],
     hs_binds = [],
     hs_dns = []\<rparr>"

definition at_level :: "isolation_level \<Rightarrow> host_settings \<Rightarrow> host_settings" where [hx_defs]:
  "at_level l h = (case l of
     L1 \<Rightarrow> h\<lparr>hs_cap_add := [''CHOWN'', ''DAC_OVERRIDE'', ''FOWNER'', ''SETGID'', ''SETUID'']\<rparr>
   | L2 \<Rightarrow> h\<lparr>hs_cap_add := [], hs_readonly_rootfs := True, hs_userns_mode := Some userns_remapped\<rparr>
   | L3 \<Rightarrow> h\<lparr>hs_cap_add := [], hs_readonly_rootfs := True, hs_userns_mode := Some userns_remapped,
       hs_runtime := Some ''runsc''\<rparr>)"

definition scratch_areas :: "(string \<times> string) list" where [hx_defs]:
  "scratch_areas = [(''/tmp'', ''rw,noexec,nosuid,size=1g''), (''/var/tmp'', ''rw,noexec,nosuid,size=512m''),
     (''/run'', ''rw,noexec,nosuid,size=64m'')]"

definition settings_of :: "sandbox_spec \<Rightarrow> host_settings" where [hx_defs]:
  "settings_of s =
     (let h = (at_level (sp_isolation s) (base_settings s))\<lparr>hs_tmpfs := scratch_areas\<rparr> in
      if sp_workspace_host_path s \<noteq> []
      then h\<lparr>hs_binds := [sp_workspace_host_path s @ '':'' @ sp_workspace_path s @ '':rw'']\<rparr> else h)"

definition has_cap :: "string \<Rightarrow> host_settings \<Rightarrow> bool" where [hx_defs]:
  "has_cap c h = list_ex (\<lambda>k. eq_ignore_ascii_case k c) (hs_cap_add h)"

definition drops_all_capabilities :: "host_settings \<Rightarrow> bool" where [hx_defs]:
  "drops_all_capabilities h = list_ex (\<lambda>c. c = ''ALL'') (hs_cap_drop h)"

definition has_no_new_privileges :: "host_settings \<Rightarrow> bool" where [hx_defs]:
  "has_no_new_privileges h = list_ex (\<lambda>o'. starts_with o' ''no-new-privileges'') (hs_security_opt h)"

definition requests_userns_remapping :: "host_settings \<Rightarrow> bool" where [hx_defs]:
  "requests_userns_remapping h \<longleftrightarrow> hs_userns_mode h = Some userns_remapped"

definition is_networked :: "host_settings \<Rightarrow> bool" where [hx_defs]:
  "is_networked h \<longleftrightarrow> hs_network_mode h \<noteq> ''none''"

definition has_kernel_isolation :: "host_settings \<Rightarrow> bool" where [hx_defs]:
  "has_kernel_isolation h \<longleftrightarrow> hs_runtime h \<noteq> None"

subsection \<open>The engine's settings\<close>

text \<open>The fields of \<open>HostConfig\<close> and \<open>ContainerCreateBody\<close> the crate sets; \<^const>\<open>None\<close> leaves the engine's default.\<close>

record host_config =
  hc_privileged :: "bool option"
  hc_readonly_rootfs :: "bool option"
  hc_cap_drop :: "string list option"
  hc_cap_add :: "string list option"
  hc_security_opt :: "string list option"
  hc_network_mode :: "string option"
  hc_dns :: "string list option"
  hc_pids_limit :: "int option"
  hc_nano_cpus :: "int option"
  hc_memory :: "int option"
  hc_memory_swap :: "int option"
  hc_runtime :: "string option"
  hc_auto_remove :: "bool option"
  hc_init :: "bool option"
  hc_userns_mode :: "string option"
  hc_tmpfs :: "(string \<rightharpoonup> string) option"
  hc_binds :: "string list option"

record container_body =
  cb_image :: "string option"
  cb_cmd :: "string list option"
  cb_env :: "string list option"
  cb_user :: "string option"
  cb_tty :: "bool option"
  cb_attach_stdout :: "bool option"
  cb_attach_stderr :: "bool option"
  cb_working_dir :: "string option"
  cb_host_config :: "host_config option"

definition unless_empty :: "'a list \<Rightarrow> 'a list option" where [hx_defs]:
  "unless_empty xs = (if xs = [] then None else Some xs)"

definition to_host_config :: "host_settings \<Rightarrow> host_config" where [hx_defs]:
  "to_host_config h = \<lparr>
     hc_privileged = Some (hs_privileged h),
     hc_readonly_rootfs = Some (hs_readonly_rootfs h),
     hc_cap_drop = Some (hs_cap_drop h),
     hc_cap_add = unless_empty (hs_cap_add h),
     hc_security_opt = Some (hs_security_opt h),
     hc_network_mode = Some (hs_network_mode h),
     hc_dns = unless_empty (hs_dns h),
     hc_pids_limit = Some (hs_pids_limit h),
     hc_nano_cpus = Some (hs_nano_cpus h),
     hc_memory = Some (hs_memory_bytes h),
     hc_memory_swap = Some (hs_memory_swap_bytes h),
     hc_runtime = hs_runtime h,
     hc_auto_remove = Some (hs_auto_remove h),
     hc_init = Some (hs_init h),
     hc_userns_mode = hs_userns_mode h,
     hc_tmpfs = Some (map_of (rev (hs_tmpfs h))),
     hc_binds = unless_empty (hs_binds h)\<rparr>"

definition to_container_config :: "sandbox_spec \<Rightarrow> host_settings \<Rightarrow> container_body" where [hx_defs]:
  "to_container_config s h = \<lparr>
     cb_image = Some (sp_image s),
     cb_cmd = Some [''sleep'', ''infinity''],
     cb_env = unless_empty (map (\<lambda>(k, v). k @ ''='' @ v) (sp_env s)),
     cb_user = Some (hs_user h),
     cb_tty = Some False,
     cb_attach_stdout = Some True,
     cb_attach_stderr = Some True,
     cb_working_dir = Some (sp_workspace_path s),
     cb_host_config = Some (to_host_config h)\<rparr>"

end
