(* ===== verification/Sandbox_Docker.thy ===== *)
theory Sandbox_Docker imports Sandbox_Spec "HOL-Library.AList"
begin

section \<open>The Docker runtime\<close>

text \<open>
  \<open>setup\<close> and \<open>teardown\<close> of \<open>crates/hx-sandbox/src/egress.rs\<close> and \<open>DockerRuntime\<close> of \<open>docker.rs\<close>.  The engine
  is a service outside the repository: what it does with a request is a record of functions on a state
  of its own, each giving its error, or \<^const>\<open>None\<close>, and the state after.
\<close>

datatype log_output = Std_Out string | Std_Err string | Console string | Std_In string

datatype exec_start = Exec_Start_Error string | Exec_Detached | Exec_Attached "(string + log_output) list"

record 'd docker =
  dk_create_network :: "string \<Rightarrow> bool \<Rightarrow> 'd \<Rightarrow> string option \<times> 'd"
  dk_remove_network :: "string \<Rightarrow> 'd \<Rightarrow> string option \<times> 'd"
  dk_create_container :: "string \<Rightarrow> container_body \<Rightarrow> 'd \<Rightarrow> string option \<times> 'd"
  dk_connect_network :: "string \<Rightarrow> string \<Rightarrow> string list \<Rightarrow> 'd \<Rightarrow> string option \<times> 'd"
  dk_start_container :: "string \<Rightarrow> 'd \<Rightarrow> string option \<times> 'd"
  dk_stop_container :: "string \<Rightarrow> int \<Rightarrow> 'd \<Rightarrow> string option \<times> 'd"
  dk_remove_container :: "string \<Rightarrow> bool \<Rightarrow> 'd \<Rightarrow> string option \<times> 'd"
  dk_create_exec :: "string \<Rightarrow> string list \<Rightarrow> string option \<Rightarrow> 'd \<Rightarrow> (string + string) \<times> 'd"
  dk_start_exec :: "string \<Rightarrow> 'd \<Rightarrow> exec_start \<times> 'd"
  dk_inspect_exec :: "string \<Rightarrow> 'd \<Rightarrow> (string + int option) \<times> 'd"

datatype docker_error =
    No_Network string string
  | Binary_Unreadable string
  | No_Proxy string string
  | No_Outer_Network string string
  | No_Alias string string string
  | Proxy_Not_Started string string
  | No_Sandbox string string string
  | Not_Started string string
  | Not_Stopped string string
  | Not_Removed string string
  | No_Exec string string
  | Exec_Not_Started string
  | Exec_Was_Detached
  | Stream_Error string
  | No_Exec_Status string

subsection \<open>The egress network and its proxy\<close>

record egress_proxy =
  ep_network :: string
  ep_container :: string
  ep_endpoint :: string

definition proxy_url :: "egress_proxy \<Rightarrow> string" where [hx_defs]:
  "proxy_url p = ''http://'' @ ep_endpoint p"

definition egress_network_name :: "string \<Rightarrow> string" where [hx_defs]:
  "egress_network_name name_base = name_base @ ''-egress''"

definition egress_proxy_name :: "string \<Rightarrow> string" where [hx_defs]:
  "egress_proxy_name name_base = name_base @ ''-egress-proxy''"

definition proxy_body :: "string list \<Rightarrow> string \<Rightarrow> container_body" where [hx_defs]:
  "proxy_body allowlist bin = \<lparr>
     cb_image = Some ''ubuntu:24.04'',
     cb_cmd = Some [''/hx-egress-proxy''],
     cb_env = Some [''HX_EGRESS_ALLOW='' @ allow_env allowlist],
     cb_user = None, cb_tty = None, cb_attach_stdout = None, cb_attach_stderr = None, cb_working_dir = None,
     cb_host_config = Some \<lparr>
       hc_privileged = None, hc_readonly_rootfs = None, hc_cap_drop = None, hc_cap_add = None, hc_security_opt = None,
       hc_network_mode = None, hc_dns = None, hc_pids_limit = None, hc_nano_cpus = None, hc_memory = None,
       hc_memory_swap = None, hc_runtime = None, hc_auto_remove = None, hc_init = None, hc_userns_mode = None,
       hc_tmpfs = None, hc_binds = Some [bin @ '':/hx-egress-proxy:ro'']\<rparr>\<rparr>"

text \<open>The two removals every later step of \<open>setup\<close> makes when it fails, with their errors ignored.\<close>

definition roll_back :: "'d docker \<Rightarrow> string \<Rightarrow> string \<Rightarrow> 'd \<Rightarrow> 'd" where [hx_defs]:
  "roll_back D network container d =
     (let d = snd (dk_remove_container D container True d) in snd (dk_remove_network D network d))"

text \<open>\<open>bin\<close> is what canonicalizing the path of the proxy's binary gives.\<close>

definition egress_setup :: "'d docker \<Rightarrow> string + string \<Rightarrow> string \<Rightarrow> string list \<Rightarrow> 'd \<Rightarrow> (docker_error + egress_proxy) \<times> 'd" where [hx_defs]:
  "egress_setup D bin name_base allowlist d =
     (let network = egress_network_name name_base; container = egress_proxy_name name_base in
     (case dk_create_network D network True d of
        (Some e, d) \<Rightarrow> (Inl (No_Network network e), d)
      | (None, d) \<Rightarrow>
     (case bin of
        Inl e \<Rightarrow> (Inl (Binary_Unreadable e), d)
      | Inr path \<Rightarrow>
     (case dk_create_container D container (proxy_body allowlist path) d of
        (Some e, d) \<Rightarrow> (Inl (No_Proxy container e), snd (dk_remove_network D network d))
      | (None, d) \<Rightarrow>
     (case dk_connect_network D ''bridge'' container [] d of
        (Some e, d) \<Rightarrow> (Inl (No_Outer_Network container e), roll_back D network container d)
      | (None, d) \<Rightarrow>
     (case dk_connect_network D network container [''hxproxy''] d of
        (Some e, d) \<Rightarrow> (Inl (No_Alias container network e), roll_back D network container d)
      | (None, d) \<Rightarrow>
     (case dk_start_container D container d of
        (Some e, d) \<Rightarrow> (Inl (Proxy_Not_Started container e), roll_back D network container d)
      | (None, d) \<Rightarrow>
        (Inr \<lparr>ep_network = network, ep_container = container, ep_endpoint = ''hxproxy:3128''\<rparr>, d))))))))"

definition teardown :: "'d docker \<Rightarrow> egress_proxy \<Rightarrow> 'd \<Rightarrow> 'd" where [hx_defs]:
  "teardown D p d = roll_back D (ep_network p) (ep_container p) d"

subsection \<open>The runtime\<close>

text \<open>The mutex-guarded map from a container to the egress resources it owns is an association list with distinct keys.\<close>

record 'd docker_state =
  dr_daemon :: 'd
  dr_egress :: "(string \<times> egress_proxy) list"

definition container_name :: "string \<Rightarrow> string" where [hx_defs]:
  "container_name sid = ''hx-'' @ sid"

text \<open>The body \<open>create\<close> sends: on the plain bridge, or on the internal network and pointed at its proxy.\<close>

definition proxied_spec :: "egress_proxy option \<Rightarrow> sandbox_spec \<Rightarrow> sandbox_spec" where [hx_defs]:
  "proxied_spec proxy spec = (case proxy of
     None \<Rightarrow> spec
   | Some p \<Rightarrow> spec\<lparr>sp_env := sp_env spec
       @ map (\<lambda>k. (k, proxy_url p)) [''HTTP_PROXY'', ''HTTPS_PROXY'', ''http_proxy'', ''https_proxy''] @ [(''NO_PROXY'', [])]\<rparr>)"

definition placed_settings :: "egress_proxy option \<Rightarrow> host_settings \<Rightarrow> host_settings" where [hx_defs]:
  "placed_settings proxy h = (case proxy of None \<Rightarrow> h | Some p \<Rightarrow> h\<lparr>hs_network_mode := ep_network p\<rparr>)"

definition sandbox_body :: "egress_proxy option \<Rightarrow> sandbox_spec \<Rightarrow> host_settings \<Rightarrow> container_body" where [hx_defs]:
  "sandbox_body proxy spec h = to_container_config (proxied_spec proxy spec) (placed_settings proxy h)"

definition wants_egress :: "sandbox_spec \<Rightarrow> bool" where [hx_defs]:
  "wants_egress spec \<longleftrightarrow> sp_network spec \<and> sp_egress_allow spec \<noteq> []"

definition egress_for ::
  "'d docker \<Rightarrow> string + string \<Rightarrow> string \<Rightarrow> sandbox_spec \<Rightarrow> 'd \<Rightarrow> (docker_error + egress_proxy option) \<times> 'd" where [hx_defs]:
  "egress_for D bin name spec d =
     (if wants_egress spec
      then (case egress_setup D bin name (sp_egress_allow spec) d of (Inl e, d) \<Rightarrow> (Inl e, d) | (Inr p, d) \<Rightarrow> (Inr (Some p), d))
      else (Inr None, d))"

definition docker_create ::
  "'d docker \<Rightarrow> string + string \<Rightarrow> string \<Rightarrow> sandbox_spec \<Rightarrow> host_settings \<Rightarrow> 'd docker_state
     \<Rightarrow> (docker_error + string) \<times> 'd docker_state" where [hx_defs]:
  "docker_create D bin sid spec h s =
     (let name = container_name sid in
     (case egress_for D bin name spec (dr_daemon s) of
        (Inl e, d) \<Rightarrow> (Inl e, s\<lparr>dr_daemon := d\<rparr>)
      | (Inr proxy, d) \<Rightarrow>
     (case dk_create_container D name (sandbox_body proxy spec h) d of
        (Some e, d) \<Rightarrow>
          (Inl (No_Sandbox name (sp_image spec) e),
           s\<lparr>dr_daemon := (case proxy of Some p \<Rightarrow> teardown D p d | None \<Rightarrow> d)\<rparr>)
      | (None, d) \<Rightarrow>
          (Inr name, s\<lparr>dr_daemon := d,
             dr_egress := (case proxy of Some p \<Rightarrow> AList.update name p (dr_egress s) | None \<Rightarrow> dr_egress s)\<rparr>))))"

definition docker_start :: "'d docker \<Rightarrow> string \<Rightarrow> 'd docker_state \<Rightarrow> docker_error option \<times> 'd docker_state" where [hx_defs]:
  "docker_start D rid s = (case dk_start_container D rid (dr_daemon s) of
     (e, d) \<Rightarrow> (map_option (Not_Started rid) e, s\<lparr>dr_daemon := d\<rparr>))"

definition docker_stop :: "'d docker \<Rightarrow> string \<Rightarrow> int \<Rightarrow> 'd docker_state \<Rightarrow> docker_error option \<times> 'd docker_state" where [hx_defs]:
  "docker_stop D rid grace s =
     (case dk_stop_container D rid (if grace > 0 then grace else 10) (dr_daemon s) of
        (e, d) \<Rightarrow> (map_option (Not_Stopped rid) e, s\<lparr>dr_daemon := d\<rparr>))"

definition docker_remove :: "'d docker \<Rightarrow> string \<Rightarrow> 'd docker_state \<Rightarrow> docker_error option \<times> 'd docker_state" where [hx_defs]:
  "docker_remove D rid s =
     (case dk_remove_container D rid True (dr_daemon s) of
        (Some e, d) \<Rightarrow> (Some (Not_Removed rid e), s\<lparr>dr_daemon := d\<rparr>)
      | (None, d) \<Rightarrow>
          (None, s\<lparr>dr_daemon := (case map_of (dr_egress s) rid of Some p \<Rightarrow> teardown D p d | None \<Rightarrow> d),
                  dr_egress := AList.delete rid (dr_egress s)\<rparr>))"

subsection \<open>Running a command\<close>

record sandbox_exec_output =
  eo_stdout :: string
  eo_stderr :: string
  eo_exit_code :: int

fun collect_output :: "(string + log_output) list \<Rightarrow> string \<Rightarrow> string \<Rightarrow> docker_error + string \<times> string" where
  "collect_output [] out err = Inr (out, err)"
| "collect_output (Inl e # cs) out err = Inl (Stream_Error e)"
| "collect_output (Inr (Std_Out m) # cs) out err = collect_output cs (out @ utf8_lossy m) err"
| "collect_output (Inr (Console m) # cs) out err = collect_output cs (out @ utf8_lossy m) err"
| "collect_output (Inr (Std_Err m) # cs) out err = collect_output cs out (err @ utf8_lossy m)"
| "collect_output (Inr (Std_In m) # cs) out err = collect_output cs out err"

definition docker_exec ::
  "'d docker \<Rightarrow> string \<Rightarrow> string \<Rightarrow> string option \<Rightarrow> 'd docker_state \<Rightarrow> (docker_error + sandbox_exec_output) \<times> 'd docker_state" where [hx_defs]:
  "docker_exec D rid command workdir s =
     (case dk_create_exec D rid [''sh'', ''-c'', command] workdir (dr_daemon s) of
        (Inl e, d) \<Rightarrow> (Inl (No_Exec rid e), s\<lparr>dr_daemon := d\<rparr>)
      | (Inr exec, d) \<Rightarrow>
     (case dk_start_exec D exec d of
        (Exec_Start_Error e, d) \<Rightarrow> (Inl (Exec_Not_Started e), s\<lparr>dr_daemon := d\<rparr>)
      | (Exec_Detached, d) \<Rightarrow> (Inl Exec_Was_Detached, s\<lparr>dr_daemon := d\<rparr>)
      | (Exec_Attached cs, d) \<Rightarrow>
     (case collect_output cs [] [] of
        Inl e \<Rightarrow> (Inl e, s\<lparr>dr_daemon := d\<rparr>)
      | Inr (out, err) \<Rightarrow>
     (case dk_inspect_exec D exec d of
        (Inl e, d) \<Rightarrow> (Inl (No_Exec_Status e), s\<lparr>dr_daemon := d\<rparr>)
      | (Inr code, d) \<Rightarrow>
          (Inr \<lparr>eo_stdout = out, eo_stderr = err, eo_exit_code = (case code of Some c \<Rightarrow> c | None \<Rightarrow> -1)\<rparr>,
           s\<lparr>dr_daemon := d\<rparr>)))))"

end
