(* ===== verification/Sandbox_Manager.thy ===== *)
theory Sandbox_Manager imports Sandbox_Docker
begin

section \<open>The life of a sandbox\<close>

text \<open>
  \<open>crates/hx-sandbox/src/runtime.rs\<close>: the manager that creates sandboxes, knows the live ones, and removes them when they
  expire.  A runtime is a record of operations on its own state, which \<open>docker_runtime\<close> instantiates.  \<open>deadline t s\<close> is
  the instant \<open>s\<close> seconds after \<open>t\<close> in the clock library, \<^const>\<open>None\<close> where its arithmetic panics.
\<close>

datatype sandbox_state = Creating | Running | Stopped | Expired | Failed

definition is_terminal :: "sandbox_state \<Rightarrow> bool" where [hx_defs]:
  "is_terminal st \<longleftrightarrow> st = Stopped \<or> st = Expired \<or> st = Failed"

record sandbox_handle =
  h_id :: string
  h_profile :: string
  h_runtime_id :: string
  h_state :: sandbox_state
  h_created_at :: datetime
  h_expires_at :: datetime
  h_workspace_host_path :: string
  h_workspace_path :: string
  h_isolation :: isolation_level

definition handle_expired :: "datetime \<Rightarrow> sandbox_handle \<Rightarrow> bool" where [hx_defs]:
  "handle_expired now h \<longleftrightarrow> now \<ge> h_expires_at h"

definition remaining :: "datetime \<Rightarrow> sandbox_handle \<Rightarrow> int" where [hx_defs]:
  "remaining now h = h_expires_at h - now"

record ('r, 'e) runtime =
  rt_create :: "string \<Rightarrow> sandbox_spec \<Rightarrow> host_settings \<Rightarrow> 'r \<Rightarrow> ('e + string) \<times> 'r"
  rt_start :: "string \<Rightarrow> 'r \<Rightarrow> 'e option \<times> 'r"
  rt_stop :: "string \<Rightarrow> int \<Rightarrow> 'r \<Rightarrow> 'e option \<times> 'r"
  rt_remove :: "string \<Rightarrow> 'r \<Rightarrow> 'e option \<times> 'r"
  rt_exec :: "string \<Rightarrow> string \<Rightarrow> string option \<Rightarrow> 'r \<Rightarrow> ('e + sandbox_exec_output) \<times> 'r"

definition docker_runtime :: "'d docker \<Rightarrow> string + string \<Rightarrow> ('d docker_state, docker_error) runtime" where [hx_defs]:
  "docker_runtime D bin = \<lparr>rt_create = docker_create D bin, rt_start = docker_start D, rt_stop = docker_stop D,
     rt_remove = docker_remove D, rt_exec = docker_exec D\<rparr>"

subsection \<open>The manager\<close>

text \<open>The map of live sandboxes is an association list with distinct keys.\<close>

record 'r manager =
  mg_runtime :: 'r
  mg_live :: "(string \<times> sandbox_handle) list"
  mg_max :: nat

definition new_manager :: "'r \<Rightarrow> nat \<Rightarrow> 'r manager" where [hx_defs]:
  "new_manager r max_concurrent = \<lparr>mg_runtime = r, mg_live = [], mg_max = max max_concurrent 1\<rparr>"

datatype 'e manager_error =
    Invalid_Spec string spec_error
  | No_Slot string nat nat
  | Create_Failed 'e
  | Launch_Failed_Stuck 'e 'e
  | Launch_Failed 'e
  | Unknown_Sandbox string
  | Not_Running string sandbox_state
  | Exec_Failed 'e
  | Still_Tracked string "'e option" 'e
  | Deregistered_With_Errors string 'e

datatype 'e spawned = Spawned sandbox_handle | Spawn_Error "'e manager_error" | Panicked string

definition handle_of :: "string \<Rightarrow> sandbox_spec \<Rightarrow> string \<Rightarrow> sandbox_state \<Rightarrow> datetime \<Rightarrow> datetime \<Rightarrow> sandbox_handle" where [hx_defs]:
  "handle_of sid spec rid st now expires = \<lparr>h_id = sid, h_profile = sp_profile spec, h_runtime_id = rid, h_state = st,
     h_created_at = now, h_expires_at = expires, h_workspace_host_path = sp_workspace_host_path spec,
     h_workspace_path = sp_workspace_path spec, h_isolation = sp_isolation spec\<rparr>"

text \<open>\<open>Panicked\<close> holds the container that is running when the deadline cannot be computed.\<close>

definition spawn ::
  "('r, 'e) runtime \<Rightarrow> (datetime \<Rightarrow> int \<Rightarrow> datetime option) \<Rightarrow> string \<Rightarrow> sandbox_spec \<Rightarrow> datetime \<Rightarrow> 'r manager
     \<Rightarrow> 'e spawned \<times> 'r manager" where [hx_defs]:
  "spawn R deadline sid spec now m =
     (case validate spec of
        Some e \<Rightarrow> (Spawn_Error (Invalid_Spec (sp_profile spec) e), m)
      | None \<Rightarrow>
     (if length (mg_live m) \<ge> mg_max m
      then (Spawn_Error (No_Slot (sp_profile spec) (length (mg_live m)) (mg_max m)), m)
      else
     (case rt_create R sid spec (settings_of spec) (mg_runtime m) of
        (Inl e, r) \<Rightarrow> (Spawn_Error (Create_Failed e), m\<lparr>mg_runtime := r\<rparr>)
      | (Inr rid, r) \<Rightarrow>
     (case rt_start R rid r of
        (Some e, r) \<Rightarrow>
          (case rt_remove R rid r of
             (Some e', r) \<Rightarrow>
               (case deadline now (sint (sp_ttl_secs spec)) of
                  None \<Rightarrow> (Panicked rid, m\<lparr>mg_runtime := r\<rparr>)
                | Some t \<Rightarrow>
                    (Spawn_Error (Launch_Failed_Stuck e e'),
                     m\<lparr>mg_runtime := r, mg_live := AList.update sid (handle_of sid spec rid Failed now t) (mg_live m)\<rparr>))
           | (None, r) \<Rightarrow> (Spawn_Error (Launch_Failed e), m\<lparr>mg_runtime := r\<rparr>))
      | (None, r) \<Rightarrow>
          (case deadline now (sint (sp_ttl_secs spec)) of
             None \<Rightarrow> (Panicked rid, m\<lparr>mg_runtime := r\<rparr>)
           | Some t \<Rightarrow>
               (let h = handle_of sid spec rid Running now t in
                (Spawned h, m\<lparr>mg_runtime := r, mg_live := AList.update sid h (mg_live m)\<rparr>)))))))"

definition get_sandbox :: "string \<Rightarrow> 'r manager \<Rightarrow> sandbox_handle option" where [hx_defs]:
  "get_sandbox sid m = map_of (mg_live m) sid"

definition list_sandboxes :: "'r manager \<Rightarrow> sandbox_handle list" where [hx_defs]:
  "list_sandboxes m = sort_key h_created_at (map snd (mg_live m))"

definition free_slots :: "'r manager \<Rightarrow> nat" where [hx_defs]:
  "free_slots m = mg_max m - length (mg_live m)"

definition exec_sandbox ::
  "('r, 'e) runtime \<Rightarrow> string \<Rightarrow> string \<Rightarrow> string option \<Rightarrow> 'r manager \<Rightarrow> ('e manager_error + sandbox_exec_output) \<times> 'r manager" where [hx_defs]:
  "exec_sandbox R sid command workdir m =
     (case get_sandbox sid m of
        None \<Rightarrow> (Inl (Unknown_Sandbox sid), m)
      | Some h \<Rightarrow>
          if h_state h \<noteq> Running then (Inl (Not_Running sid (h_state h)), m)
          else (case rt_exec R (h_runtime_id h) command workdir (mg_runtime m) of
             (Inl e, r) \<Rightarrow> (Inl (Exec_Failed e), m\<lparr>mg_runtime := r\<rparr>)
           | (Inr out, r) \<Rightarrow> (Inr out, m\<lparr>mg_runtime := r\<rparr>)))"

subsection \<open>Destroying\<close>

text \<open>
  \<open>destroy\<close> gives up the lock between its steps: it takes the handle out of the map, stops the container, removes
  it, and puts the handle back if the engine refused.  Each step is an operation of its own; \<open>destroy\<close> is their sequence.
\<close>

definition take_out :: "string \<Rightarrow> 'r manager \<Rightarrow> sandbox_handle option \<times> 'r manager" where [hx_defs]:
  "take_out sid m = (map_of (mg_live m) sid, m\<lparr>mg_live := AList.delete sid (mg_live m)\<rparr>)"

definition stop_engine :: "('r, 'e) runtime \<Rightarrow> sandbox_handle \<Rightarrow> 'r manager \<Rightarrow> 'e option \<times> 'r manager" where [hx_defs]:
  "stop_engine R h m = (case rt_stop R (h_runtime_id h) 10 (mg_runtime m) of (e, r) \<Rightarrow> (e, m\<lparr>mg_runtime := r\<rparr>))"

definition remove_engine :: "('r, 'e) runtime \<Rightarrow> sandbox_handle \<Rightarrow> 'r manager \<Rightarrow> 'e option \<times> 'r manager" where [hx_defs]:
  "remove_engine R h m = (case rt_remove R (h_runtime_id h) (mg_runtime m) of (e, r) \<Rightarrow> (e, m\<lparr>mg_runtime := r\<rparr>))"

definition put_back :: "string \<Rightarrow> sandbox_handle \<Rightarrow> 'r manager \<Rightarrow> 'r manager" where [hx_defs]:
  "put_back sid h m = m\<lparr>mg_live := AList.update sid (h\<lparr>h_state := Failed\<rparr>) (mg_live m)\<rparr>"

definition destroy :: "('r, 'e) runtime \<Rightarrow> string \<Rightarrow> 'r manager \<Rightarrow> 'e manager_error option \<times> 'r manager" where [hx_defs]:
  "destroy R sid m =
     (case take_out sid m of
        (None, m) \<Rightarrow> (None, m)
      | (Some h, m) \<Rightarrow>
     (case stop_engine R h m of
        (stopped, m) \<Rightarrow>
     (case remove_engine R h m of
        (Some e, m) \<Rightarrow> (Some (Still_Tracked sid stopped e), put_back sid h m)
      | (None, m) \<Rightarrow> (map_option (Deregistered_With_Errors sid) stopped, m))))"

text \<open>
  The sweep: which handles are due is read once, then each is destroyed in turn; the ids that were
  removed without an error are returned.
\<close>

definition is_due :: "datetime \<Rightarrow> sandbox_handle \<Rightarrow> bool" where [hx_defs]:
  "is_due now h \<longleftrightarrow> handle_expired now h \<or> h_state h = Failed"

fun destroy_all :: "('r, 'e) runtime \<Rightarrow> string list \<Rightarrow> 'r manager \<Rightarrow> string list \<times> 'r manager" where
  "destroy_all R [] m = ([], m)"
| "destroy_all R (sid # ids) m =
     (case destroy R sid m of (e, m) \<Rightarrow>
        (case destroy_all R ids m of (reaped, m) \<Rightarrow> (if e = None then sid # reaped else reaped, m)))"

definition reap :: "('r, 'e) runtime \<Rightarrow> datetime \<Rightarrow> 'r manager \<Rightarrow> string list \<times> 'r manager" where [hx_defs]:
  "reap R now m = destroy_all R (map h_id (filter (is_due now) (map snd (mg_live m)))) m"

subsection \<open>Callers side by side\<close>

text \<open>
  Requests and the sweep share the manager: between the steps of one \<open>destroy\<close> others run.  \<open>w_flight\<close> holds the calls of
  \<open>destroy\<close> that are under way, with the step each takes next, and \<open>w_lost\<close> the containers of the calls that panicked.
  A new sandbox is named by 32 hexadecimal digits of a random number.
\<close>

definition hex32 :: "nat \<Rightarrow> string" where [hx_defs]:
  "hex32 u = map (\<lambda>i. ''0123456789abcdef'' ! (u div 16 ^ (31 - i) mod 16)) [0..<32]"

definition sandbox_id :: "nat \<Rightarrow> string" where [hx_defs]:
  "sandbox_id u = ''sbx_'' @ hex32 u"

datatype destroy_step = To_Stop | To_Remove | To_Put_Back

record 'r world =
  w_manager :: "'r manager"
  w_flight :: "(string \<times> sandbox_handle \<times> destroy_step) list"
  w_lost :: "string list"

datatype manager_call =
    Call_Spawn nat sandbox_spec datetime
  | Call_Exec string string "string option"
  | Call_Destroy string
  | Call_Proceed nat

definition remove_nth :: "nat \<Rightarrow> 'a list \<Rightarrow> 'a list" where [hx_defs]:
  "remove_nth i xs = take i xs @ drop (Suc i) xs"

text \<open>The next step of the \<open>i\<close>-th call of \<open>destroy\<close> that is under way.\<close>

definition proceed :: "('r, 'e) runtime \<Rightarrow> nat \<Rightarrow> 'r world \<Rightarrow> 'r world" where [hx_defs]:
  "proceed R i w =
     (if i < length (w_flight w) then
        (case w_flight w ! i of
           (k, h, To_Stop) \<Rightarrow>
             w\<lparr>w_manager := snd (stop_engine R h (w_manager w)), w_flight := (w_flight w)[i := (k, h, To_Remove)]\<rparr>
         | (k, h, To_Remove) \<Rightarrow>
             (case remove_engine R h (w_manager w) of
                (Some e, m) \<Rightarrow> w\<lparr>w_manager := m, w_flight := (w_flight w)[i := (k, h, To_Put_Back)]\<rparr>
              | (None, m) \<Rightarrow> w\<lparr>w_manager := m, w_flight := remove_nth i (w_flight w)\<rparr>)
         | (k, h, To_Put_Back) \<Rightarrow>
             w\<lparr>w_manager := put_back k h (w_manager w), w_flight := remove_nth i (w_flight w)\<rparr>)
      else w)"

definition manager_step ::
  "('r, 'e) runtime \<Rightarrow> (datetime \<Rightarrow> int \<Rightarrow> datetime option) \<Rightarrow> manager_call \<Rightarrow> 'r world \<Rightarrow> 'r world" where [hx_defs]:
  "manager_step R deadline c w = (case c of
     Call_Spawn u spec now \<Rightarrow>
       (case spawn R deadline (sandbox_id u) spec now (w_manager w) of
          (Panicked rid, m) \<Rightarrow> w\<lparr>w_manager := m, w_lost := rid # w_lost w\<rparr>
        | (_, m) \<Rightarrow> w\<lparr>w_manager := m\<rparr>)
   | Call_Exec k command workdir \<Rightarrow> w\<lparr>w_manager := snd (exec_sandbox R k command workdir (w_manager w))\<rparr>
   | Call_Destroy k \<Rightarrow>
       (case take_out k (w_manager w) of
          (None, m) \<Rightarrow> w\<lparr>w_manager := m\<rparr>
        | (Some h, m) \<Rightarrow> w\<lparr>w_manager := m, w_flight := w_flight w @ [(k, h, To_Stop)]\<rparr>)
   | Call_Proceed i \<Rightarrow> proceed R i w)"

definition new_world :: "'r \<Rightarrow> nat \<Rightarrow> 'r world" where [hx_defs]:
  "new_world r max_concurrent = \<lparr>w_manager = new_manager r max_concurrent, w_flight = [], w_lost = []\<rparr>"

text \<open>Requests that run to their end one after the other, the sweep among them.\<close>

datatype manager_request =
    Req_Spawn nat sandbox_spec datetime
  | Req_Exec string string "string option"
  | Req_Destroy string
  | Req_Reap datetime

definition serve ::
  "('r, 'e) runtime \<Rightarrow> (datetime \<Rightarrow> int \<Rightarrow> datetime option) \<Rightarrow> manager_request \<Rightarrow> 'r manager \<Rightarrow> 'r manager" where [hx_defs]:
  "serve R deadline q m = (case q of
     Req_Spawn u spec now \<Rightarrow> snd (spawn R deadline (sandbox_id u) spec now m)
   | Req_Exec k command workdir \<Rightarrow> snd (exec_sandbox R k command workdir m)
   | Req_Destroy k \<Rightarrow> snd (destroy R k m)
   | Req_Reap now \<Rightarrow> snd (reap R now m))"

end
