(* ===== verification/Sandbox_Manager_Facts.thy ===== *)
theory Sandbox_Manager_Facts imports Sandbox_Manager Machine
begin

section \<open>No sandbox is lost\<close>

text \<open>
  The contract between the manager and a runtime (\<open>sandbox_engine\<close>), what the manager keeps under it, and the contract
  of the Docker service (\<open>docker_daemon\<close>) that gives it.
\<close>

text \<open>The handles a world has: those in the map, and those a \<open>destroy\<close> has in hand.\<close>

definition held :: "'r world \<Rightarrow> (string \<times> sandbox_handle) set" where
  "held w = set (mg_live (w_manager w)) \<union> (\<lambda>(k, h, _). (k, h)) ` set (w_flight w)"

lemma held_iff: "(k, h) \<in> held w \<longleftrightarrow> (k, h) \<in> set (mg_live (w_manager w)) \<or> (\<exists>p. (k, h, p) \<in> set (w_flight w))"
  by (force simp: held_def)

subsection \<open>What a runtime promises the manager\<close>

text \<open>
  \<open>boxes\<close> are the sandbox containers that exist, \<open>name\<close> is the container of a sandbox, and \<open>valid\<close> is what the runtime keeps
  of its own state.  Only a creation adds a container, and a removal that reports success has removed it.
\<close>

locale sandbox_engine =
  fixes R :: "('r, 'e) runtime"
    and boxes :: "'r \<Rightarrow> string set"
    and name :: "string \<Rightarrow> string"
    and valid :: "'r \<Rightarrow> bool"
  assumes create_refused: "rt_create R (sandbox_id u) spec h r = (Inl e, r') \<Longrightarrow> valid r \<Longrightarrow> valid r' \<and> boxes r' = boxes r"
    and create_done: "rt_create R (sandbox_id u) spec h r = (Inr rid, r') \<Longrightarrow> valid r \<Longrightarrow>
      valid r' \<and> rid = name (sandbox_id u) \<and> rid \<notin> boxes r \<and> boxes r' = insert rid (boxes r)"
    and start_keeps: "rt_start R rid r = (e', r') \<Longrightarrow> valid r \<Longrightarrow> valid r' \<and> boxes r' = boxes r"
    and stop_keeps: "rt_stop R rid grace r = (e', r') \<Longrightarrow> valid r \<Longrightarrow> valid r' \<and> boxes r' = boxes r"
    and exec_keeps: "rt_exec R rid command workdir r = (out, r') \<Longrightarrow> valid r \<Longrightarrow> valid r' \<and> boxes r' = boxes r"
    and remove_only: "rt_remove R rid r = (e', r') \<Longrightarrow> valid r \<Longrightarrow>
      valid r' \<and> boxes r - {rid} \<subseteq> boxes r' \<and> boxes r' \<subseteq> boxes r"
    and remove_done: "rt_remove R rid r = (None, r') \<Longrightarrow> valid r \<Longrightarrow> rid \<notin> boxes r'"
begin

definition inv :: "'r world \<Rightarrow> bool" where
  "inv w \<longleftrightarrow> valid (mg_runtime (w_manager w)) \<and> distinct (map fst (mg_live (w_manager w)))
     \<and> (\<forall>(k, h) \<in> held w. h_runtime_id h = name k)
     \<and> boxes (mg_runtime (w_manager w)) \<subseteq> name ` fst ` held w \<union> set (w_lost w)"

lemma invI:
  assumes "valid (mg_runtime (w_manager w))" "distinct (map fst (mg_live (w_manager w)))" "\<And>k h. (k, h) \<in> held w \<Longrightarrow> h_runtime_id h = name k"
    and "\<And>b. b \<in> boxes (mg_runtime (w_manager w)) \<Longrightarrow> b \<notin> set (w_lost w) \<Longrightarrow> \<exists>k h. (k, h) \<in> held w \<and> b = name k"
  shows "inv w"
  using assms unfolding inv_def by (force simp: image_iff)

lemma invD:
  assumes "inv w"
  shows "distinct (map fst (mg_live (w_manager w)))" "\<And>k h. (k, h) \<in> held w \<Longrightarrow> h_runtime_id h = name k"
    and "\<And>b. b \<in> boxes (mg_runtime (w_manager w)) \<Longrightarrow> b \<notin> set (w_lost w) \<Longrightarrow> \<exists>k h. (k, h) \<in> held w \<and> b = name k"
    and "valid (mg_runtime (w_manager w))"
  using assms unfolding inv_def by (force simp: image_iff)+

text \<open>A change that keeps the handles, but for the one of \<open>k\<close>, and at most removes containers, but for the one of \<open>k\<close>.\<close>

lemma inv_change:
  assumes "inv w" "distinct (map fst (mg_live (w_manager w')))" "valid (mg_runtime (w_manager w'))"
    and new: "\<And>j h. (j, h) \<in> held w' \<Longrightarrow> (j, h) \<in> held w \<or> h_runtime_id h = name j"
    and old: "\<And>j h. (j, h) \<in> held w \<Longrightarrow> (\<exists>h. (j, h) \<in> held w') \<or> name j \<notin> boxes (mg_runtime (w_manager w'))"
    and more: "\<And>b. b \<in> boxes (mg_runtime (w_manager w')) \<Longrightarrow>
      b \<in> boxes (mg_runtime (w_manager w)) \<or> b \<in> set (w_lost w') \<or> (\<exists>j h. (j, h) \<in> held w' \<and> b = name j)"
    and lost: "set (w_lost w) \<subseteq> set (w_lost w')"
  shows "inv w'"
proof (rule invI)
  show "h_runtime_id h = name k" if "(k, h) \<in> held w'" for k h using new [OF that] invD(2) [OF assms(1)] by blast
  show "\<exists>k h. (k, h) \<in> held w' \<and> b = name k"
    if "b \<in> boxes (mg_runtime (w_manager w'))" "b \<notin> set (w_lost w')" for b
    using more [OF that(1)] that invD(3) [OF assms(1), of b] old lost by blast
qed (rule assms(2) assms(3))+

lemma held_update:
  "distinct (map fst al) \<Longrightarrow> set (AList.update k h al) = insert (k, h) {(j, g) \<in> set al. j \<noteq> k}"
  by (induction al) (auto simp: rev_image_eqI)

lemma held_delete: "set (AList.delete k al) = {(j, g) \<in> set al. j \<noteq> k}"
  by (auto simp: AList.delete_eq)

lemma inv_same_handles:
  assumes "inv w" "valid r" "boxes r \<subseteq> boxes (mg_runtime (w_manager w))"
  shows "inv (w\<lparr>w_manager := (w_manager w)\<lparr>mg_runtime := r\<rparr>\<rparr>)"
  using assms(2,3) invD(1) [OF assms(1)] by (intro inv_change [OF assms(1)]) (auto simp: held_iff)

lemma handle_of_runtime_id [simp]: "h_runtime_id (handle_of k spec rid st now t) = rid"
  by (simp add: handle_of_def)

lemma inv_track:
  assumes "inv w" "valid r" "h_runtime_id h = name k" "boxes r \<subseteq> insert (name k) (boxes (mg_runtime (w_manager w)))"
  shows "inv (w\<lparr>w_manager := (w_manager w)\<lparr>mg_runtime := r, mg_live := AList.update k h (mg_live (w_manager w))\<rparr>\<rparr>)"
    (is "inv ?w")
proof (rule inv_change [OF assms(1)])
  have d: "distinct (map fst (mg_live (w_manager w)))" using assms(1) by (rule invD)
  then show "distinct (map fst (mg_live (w_manager ?w)))" by (simp add: distinct_update)
  have k: "(j, g) \<in> held ?w \<longleftrightarrow> (j, g) = (k, h) \<or> j \<noteq> k \<and> (j, g) \<in> set (mg_live (w_manager w)) \<or> (\<exists>p. (j, g, p) \<in> set (w_flight w))" for j g
    by (auto simp: held_iff held_update [OF d])
  show "(j, g) \<in> held w \<or> h_runtime_id g = name j" if "(j, g) \<in> held ?w" for j g
    using that assms(3) unfolding k by (auto simp: held_iff)
  show "(\<exists>g. (j, g) \<in> held ?w) \<or> X" if "(j, g) \<in> held w" for j g X
    using that [unfolded held_iff] k by (cases "j = k") blast+
  show "b \<in> boxes (mg_runtime (w_manager w)) \<or> b \<in> set (w_lost ?w) \<or> (\<exists>j g. (j, g) \<in> held ?w \<and> b = name j)"
    if "b \<in> boxes (mg_runtime (w_manager ?w))" for b
    using that assms(4) unfolding k by auto
qed (simp_all add: assms(2))

lemma inv_lose:
  assumes "inv w" "valid r" "boxes r \<subseteq> insert rid (boxes (mg_runtime (w_manager w)))"
  shows "inv (w\<lparr>w_manager := (w_manager w)\<lparr>mg_runtime := r\<rparr>, w_lost := rid # w_lost w\<rparr>)"
  using assms(2,3) invD(1) [OF assms(1)] by (intro inv_change [OF assms(1)]) (auto simp: held_iff)

lemma inv_spawn:
  assumes "inv w"
  shows "inv (manager_step R deadline (Call_Spawn u spec now) w)"
proof (cases "validate spec = None \<and> length (mg_live (w_manager w)) < mg_max (w_manager w)")
  case True
  note v0 = invD(4) [OF assms]
  obtain res r1 where c: "rt_create R (sandbox_id u) spec (settings_of spec) (mg_runtime (w_manager w)) = (res, r1)" by fastforce
  show ?thesis
  proof (cases res)
    case (Inl e)
    have "valid r1 \<and> boxes r1 = boxes (mg_runtime (w_manager w))" using create_refused c v0 unfolding Inl by blast
    then show ?thesis using True c Inl assms by (auto simp: manager_step_def spawn_def intro!: inv_same_handles)
  next
    case (Inr rid)
    have b1: "valid r1" "rid = name (sandbox_id u)" "boxes r1 = insert rid (boxes (mg_runtime (w_manager w)))"
      using create_done c v0 unfolding Inr by blast+
    obtain e2 r2 where st: "rt_start R rid r1 = (e2, r2)" by fastforce
    have b2: "valid r2" "boxes r2 = insert rid (boxes (mg_runtime (w_manager w)))" using start_keeps [OF st] b1 by simp_all
    obtain e3 r3 where rm: "rt_remove R rid r2 = (e3, r3)" by fastforce
    have b3: "valid r3" "boxes r3 \<subseteq> boxes r2" "e3 = None \<Longrightarrow> boxes r3 \<subseteq> boxes (mg_runtime (w_manager w))"
      using remove_only [OF rm b2(1)] remove_done [OF _ b2(1), of rid r3] rm b2(2) by auto
    show ?thesis
    proof (cases e2)
      case None
      then show ?thesis using True c Inr st assms b1 b2
        by (cases "deadline now (sint (sp_ttl_secs spec))")
          (auto simp: manager_step_def spawn_def Let_def intro!: inv_track inv_lose)
    next
      case (Some e)
      show ?thesis
      proof (cases e3)
        case None
        then show ?thesis using True c Inr st Some rm assms b3
          by (auto simp: manager_step_def spawn_def intro!: inv_same_handles)
      next
        case (Some e')
        then show ?thesis using True c Inr st \<open>e2 = Some e\<close> rm assms b1 b2 b3
          by (cases "deadline now (sint (sp_ttl_secs spec))")
            (auto simp: manager_step_def spawn_def intro!: inv_track inv_lose)
      qed
    qed
  qed
qed (use assms in \<open>auto simp: manager_step_def spawn_def split: option.splits\<close>)

lemma inv_exec:
  assumes "inv w"
  shows "inv (manager_step R deadline (Call_Exec k command workdir) w)"
proof (cases "\<exists>h. get_sandbox k (w_manager w) = Some h \<and> h_state h = Running")
  case True
  then obtain h where h: "get_sandbox k (w_manager w) = Some h" "h_state h = Running" by blast
  obtain out r where e: "rt_exec R (h_runtime_id h) command workdir (mg_runtime (w_manager w)) = (out, r)" by fastforce
  have "inv (w\<lparr>w_manager := (w_manager w)\<lparr>mg_runtime := r\<rparr>\<rparr>)"
    using exec_keeps [OF e invD(4) [OF assms]] by (intro inv_same_handles [OF assms]) simp_all
  then show ?thesis by (cases out) (simp_all add: manager_step_def exec_sandbox_def h e)
qed (use assms in \<open>auto simp: manager_step_def exec_sandbox_def split: option.splits\<close>)

lemma inv_destroy:
  assumes "inv w"
  shows "inv (manager_step R deadline (Call_Destroy k) w)"
proof (cases "map_of (mg_live (w_manager w)) k")
  case None
  then have "AList.delete k (mg_live (w_manager w)) = mg_live (w_manager w)" by (force simp: AList.delete_eq filter_id_conv map_of_eq_None_iff)
  then show ?thesis using None assms by (simp add: manager_step_def take_out_def)
next
  case (Some h)
  have d: "distinct (map fst (mg_live (w_manager w)))" using assms by (rule invD)
  have only: "(k, g) \<in> set (mg_live (w_manager w)) \<longleftrightarrow> g = h" for g
    unfolding map_of_eq_Some_iff [OF d, symmetric] Some by auto
  let ?w = "w\<lparr>w_manager := (w_manager w)\<lparr>mg_live := AList.delete k (mg_live (w_manager w))\<rparr>,
    w_flight := w_flight w @ [(k, h, To_Stop)]\<rparr>"
  have w: "manager_step R deadline (Call_Destroy k) w = ?w" using Some by (simp add: manager_step_def take_out_def)
  have same: "(j, g) \<in> held ?w \<longleftrightarrow> (j, g) \<in> held w" for j g
    using only by (cases "j = k") (auto simp: held_iff held_delete)
  show ?thesis unfolding w
  proof (rule inv_change [OF assms])
    show "distinct (map fst (mg_live (w_manager ?w)))" using d by (simp add: distinct_delete)
    show "valid (mg_runtime (w_manager ?w))" using invD(4) [OF assms] by simp
  qed (simp_all only: same, auto)
qed

lemma held_nth:
  assumes "i < length (w_flight w)" "w_flight w ! i = (k, h, p)"
  shows "(j, g) \<in> held (w\<lparr>w_flight := (w_flight w)[i := (k, h, p')]\<rparr>) \<longleftrightarrow> (j, g) \<in> held w"
    and "(j, g) \<in> held w \<longleftrightarrow> (j, g) \<in> held (w\<lparr>w_flight := remove_nth i (w_flight w)\<rparr>) \<or> (j, g) = (k, h)"
proof -
  have f: "w_flight w = take i (w_flight w) @ (k, h, p) # drop (Suc i) (w_flight w)"
    using assms by (metis id_take_nth_drop)
  have u: "(w_flight w)[i := (k, h, p')] = take i (w_flight w) @ (k, h, p') # drop (Suc i) (w_flight w)"
    using assms(1) by (simp add: upd_conv_take_nth_drop)
  have s: "set (w_flight w) = insert (k, h, p) (set (take i (w_flight w)) \<union> set (drop (Suc i) (w_flight w)))"
    by (subst f) auto
  show "(j, g) \<in> held (w\<lparr>w_flight := (w_flight w)[i := (k, h, p')]\<rparr>) \<longleftrightarrow> (j, g) \<in> held w"
    by (auto simp: held_iff u s)
  show "(j, g) \<in> held w \<longleftrightarrow> (j, g) \<in> held (w\<lparr>w_flight := remove_nth i (w_flight w)\<rparr>) \<or> (j, g) = (k, h)"
    by (auto simp: held_iff remove_nth_def s)
qed

lemma inv_proceed:
  assumes "inv w"
  shows "inv (proceed R i w)"
proof (cases "i < length (w_flight w)")
  case True
  obtain k h p where i: "w_flight w ! i = (k, h, p)" by (metis surj_pair)
  have d: "distinct (map fst (mg_live (w_manager w)))" using assms by (rule invD)
  have n: "h_runtime_id h = name k"
    using invD(2) [OF assms] True i by (metis held_iff nth_mem)
  show ?thesis
  proof (cases p)
    case To_Stop
    obtain e r where st: "rt_stop R (h_runtime_id h) 10 (mg_runtime (w_manager w)) = (e, r)" by fastforce
    have same: "inv (w\<lparr>w_manager := (w_manager w)\<lparr>mg_runtime := r\<rparr>\<rparr>)" (is "inv ?v")
      using stop_keeps [OF st invD(4) [OF assms]] by (intro inv_same_handles [OF assms]) simp_all
    have v: "i < length (w_flight ?v)" "w_flight ?v ! i = (k, h, p)" using True i by simp_all
    have "inv (?v\<lparr>w_flight := (w_flight ?v)[i := (k, h, To_Remove)]\<rparr>)"
      using d invD(4) [OF same] by (intro inv_change [OF same]) (simp_all only: held_nth(1) [OF v], auto)
    then show ?thesis using True i To_Stop st by (simp add: proceed_def stop_engine_def)
  next
    case To_Remove
    obtain e r where rm: "rt_remove R (h_runtime_id h) (mg_runtime (w_manager w)) = (e, r)" by fastforce
    note v0 = invD(4) [OF assms]
    have b: "boxes r \<subseteq> boxes (mg_runtime (w_manager w))" "valid r" using remove_only [OF rm v0] by blast+
    have same: "inv (w\<lparr>w_manager := (w_manager w)\<lparr>mg_runtime := r\<rparr>\<rparr>)" (is "inv ?v") by (rule inv_same_handles [OF assms b(2,1)])
    have v: "i < length (w_flight ?v)" "w_flight ?v ! i = (k, h, p)" using True i by simp_all
    show ?thesis
    proof (cases e)
      case None
      have "inv (?v\<lparr>w_flight := remove_nth i (w_flight ?v)\<rparr>)"
      proof (rule inv_change [OF same])
        show "(\<exists>g. (j, g) \<in> held (?v\<lparr>w_flight := remove_nth i (w_flight ?v)\<rparr>))
            \<or> name j \<notin> boxes (mg_runtime (w_manager (?v\<lparr>w_flight := remove_nth i (w_flight ?v)\<rparr>)))"
          if "(j, g) \<in> held ?v" for j g
          using that remove_done [OF _ v0, of "h_runtime_id h" r] rm None n unfolding held_nth(2) [OF v] by auto
        show "(j, g) \<in> held ?v \<or> h_runtime_id g = name j"
          if "(j, g) \<in> held (?v\<lparr>w_flight := remove_nth i (w_flight ?v)\<rparr>)" for j g
          using that unfolding held_nth(2) [OF v] by blast
      qed (use d b in auto)
      then show ?thesis using True i To_Remove rm None by (simp add: proceed_def remove_engine_def)
    next
      case (Some e')
      have "inv (?v\<lparr>w_flight := (w_flight ?v)[i := (k, h, To_Put_Back)]\<rparr>)"
        using d invD(4) [OF same] by (intro inv_change [OF same]) (simp_all only: held_nth(1) [OF v], auto)
      then show ?thesis using True i To_Remove rm Some by (simp add: proceed_def remove_engine_def)
    qed
  next
    case To_Put_Back
    have t: "inv (w\<lparr>w_manager := (w_manager w)\<lparr>mg_runtime := mg_runtime (w_manager w),
        mg_live := AList.update k (h\<lparr>h_state := Failed\<rparr>) (mg_live (w_manager w))\<rparr>\<rparr>)" (is "inv ?v")
      using n invD(4) [OF assms] by (intro inv_track [OF assms]) auto
    have v: "i < length (w_flight ?v)" "w_flight ?v ! i = (k, h, p)" using True i by simp_all
    have kept: "(k, h\<lparr>h_state := Failed\<rparr>) \<in> held (?v\<lparr>w_flight := remove_nth i (w_flight ?v)\<rparr>)"
      using d by (simp add: held_iff held_update)
    have "inv (?v\<lparr>w_flight := remove_nth i (w_flight ?v)\<rparr>)"
    proof (rule inv_change [OF t])
      show "(\<exists>g. (j, g) \<in> held (?v\<lparr>w_flight := remove_nth i (w_flight ?v)\<rparr>)) \<or> X" if "(j, g) \<in> held ?v" for j g X
        using that kept unfolding held_nth(2) [OF v] by blast
      show "(j, g) \<in> held ?v \<or> h_runtime_id g = name j"
        if "(j, g) \<in> held (?v\<lparr>w_flight := remove_nth i (w_flight ?v)\<rparr>)" for j g
        using that unfolding held_nth(2) [OF v] by blast
    qed (use invD(1,4) [OF t] in auto)
    then show ?thesis using True i To_Put_Back by (simp add: proceed_def put_back_def)
  qed
qed (use assms in \<open>simp add: proceed_def\<close>)

sublocale life: invariant "manager_step R deadline" inv
proof (unfold_locales)
  show "inv (manager_step R deadline c w)" if "inv w" for c w
    using that by (cases c) (auto intro: inv_spawn inv_exec inv_destroy simp: manager_step_def [of _ _ "Call_Proceed _"] inv_proceed)
qed

end

context sandbox_engine
begin

lemma start_inv: "valid r \<Longrightarrow> boxes r = {} \<Longrightarrow> inv (new_world r n)"
  by (simp add: inv_def new_world_def new_manager_def held_def)

lemma none_lost:
  assumes "valid r" "boxes r = {}" "reaches (manager_step R deadline) (new_world r n) w"
    and "b \<in> boxes (mg_runtime (w_manager w))"
  shows "b \<in> set (w_lost w) \<or> (\<exists>k h. (k, h) \<in> held w \<and> h_runtime_id h = b \<and> b = name k)"
proof -
  have "inv w" using life.reachable [OF assms(3) start_inv [OF assms(1,2)]] .
  then show ?thesis using invD(2,3) assms(4) by metis
qed

end

subsection \<open>What the container service promises\<close>

text \<open>
  The documented behaviour of the engine that the runtime relies on: \<open>conts\<close> and \<open>nets\<close> are the names in use.  A name is
  used once; only the two creations and the two removals change what exists; a removal that fails may have removed; the
  removal of a container that does not exist is an error.
\<close>

locale docker_daemon =
  fixes D :: "'d docker"
    and conts :: "'d \<Rightarrow> string set"
    and nets :: "'d \<Rightarrow> string set"
  assumes create_network: "dk_create_network D n internal d = (e, d') \<Longrightarrow>
      conts d' = conts d \<and> nets d' = (if e = None then insert n (nets d) else nets d)"
    and remove_network: "dk_remove_network D n d = (e, d') \<Longrightarrow>
      conts d' = conts d \<and> nets d - {n} \<subseteq> nets d' \<and> nets d' \<subseteq> nets d \<and> (e = None \<longrightarrow> n \<notin> nets d')"
    and create_container: "dk_create_container D c body d = (e, d') \<Longrightarrow>
      nets d' = nets d \<and> conts d' = (if e = None then insert c (conts d) else conts d) \<and> (e = None \<longrightarrow> c \<notin> conts d)"
    and remove_container: "dk_remove_container D c force d = (e, d') \<Longrightarrow>
      nets d' = nets d \<and> conts d - {c} \<subseteq> conts d' \<and> conts d' \<subseteq> conts d \<and> (e = None \<longrightarrow> c \<notin> conts d')
      \<and> (c \<notin> conts d \<longrightarrow> e \<noteq> None)"
    and connect_network: "dk_connect_network D n c aliases d = (e, d') \<Longrightarrow> conts d' = conts d \<and> nets d' = nets d"
    and start_container: "dk_start_container D c d = (e, d') \<Longrightarrow> conts d' = conts d \<and> nets d' = nets d"
    and stop_container: "dk_stop_container D c grace d = (e, d') \<Longrightarrow> conts d' = conts d \<and> nets d' = nets d"
    and create_exec: "dk_create_exec D c cmd dir d = (x, d') \<Longrightarrow> conts d' = conts d \<and> nets d' = nets d"
    and start_exec: "dk_start_exec D k d = (y, d') \<Longrightarrow> conts d' = conts d \<and> nets d' = nets d"
    and inspect_exec: "dk_inspect_exec D k d = (z, d') \<Longrightarrow> conts d' = conts d \<and> nets d' = nets d"

text \<open>The names of sandboxes, and of the proxies beside them, differ.\<close>

definition box_names :: "string set" where
  "box_names = range (\<lambda>u. container_name (sandbox_id u))"

lemma proxy_no_box: "egress_proxy_name (container_name (sandbox_id u)) \<notin> box_names"
proof
  assume "egress_proxy_name (container_name (sandbox_id u)) \<in> box_names"
  then obtain v where "egress_proxy_name (container_name (sandbox_id u)) = container_name (sandbox_id v)"
    by (auto simp: box_names_def)
  from arg_cong [OF this, of length] show False
    by (simp add: egress_proxy_name_def container_name_def sandbox_id_def hex32_def)
qed

definition docker_boxes :: "('d \<Rightarrow> string set) \<Rightarrow> 'd docker_state \<Rightarrow> string set" where
  "docker_boxes conts s = conts (dr_daemon s) \<inter> box_names"

definition docker_valid :: "'d docker_state \<Rightarrow> bool" where
  "docker_valid s \<longleftrightarrow> (\<forall>(k, p) \<in> set (dr_egress s). ep_container p \<notin> box_names)"

end
