(* ===== verification/Sandbox_Docker_Facts.thy ===== *)
theory Sandbox_Docker_Facts imports Sandbox_Manager_Facts
begin

section \<open>The Docker runtime keeps its contract\<close>

text \<open>
  Under the contract of the container service the Docker runtime is a \<open>sandbox_engine\<close>, so no sandbox is lost, and an egress
  network that could not be set up is rolled back, with one exception.  Then what a sandbox is confined to.
\<close>

lemma update_subset: "set (AList.update k v al) \<subseteq> insert (k, v) (set al)"
  by (induction al) auto

context docker_daemon
begin

lemma roll_back_boxes:
  assumes "c \<notin> box_names"
  shows "x \<in> box_names \<Longrightarrow> x \<in> conts (roll_back D n c d) \<longleftrightarrow> x \<in> conts d"
proof -
  assume x: "x \<in> box_names"
  obtain e1 d1 where r: "dk_remove_container D c True d = (e1, d1)" by fastforce
  obtain e2 d2 where n: "dk_remove_network D n d1 = (e2, d2)" by fastforce
  show ?thesis using remove_container [OF r] remove_network [OF n] assms x by (auto simp: roll_back_def r n)
qed

text \<open>The effect of each request on the two sets, for the chain of requests in \<open>egress_setup\<close>.\<close>

lemmas effects = create_container remove_container connect_network start_container create_network remove_network

lemma setup_boxes:
  assumes "egress_setup D bin nb al d = (res, d')" "egress_proxy_name nb \<notin> box_names"
  shows "conts d' \<inter> box_names = conts d \<inter> box_names \<and> (\<forall>p. res = Inr p \<longrightarrow> ep_container p = egress_proxy_name nb)"
proof -
  let ?n = "egress_network_name nb" and ?c = "egress_proxy_name nb"
  obtain e1 d1 where 1: "dk_create_network D ?n True d = (e1, d1)" by fastforce
  obtain path where path: "bin = Inr path \<or> (\<exists>e. bin = Inl e)" by (cases bin) auto
  obtain e2 d2 where 2: "dk_create_container D ?c (proxy_body al path) d1 = (e2, d2)" by fastforce
  obtain e3 d3 where 3: "dk_connect_network D ''bridge'' ?c [] d2 = (e3, d3)" by fastforce
  obtain e4 d4 where 4: "dk_connect_network D ?n ?c [''hxproxy''] d3 = (e4, d4)" by fastforce
  obtain e5 d5 where 5: "dk_start_container D ?c d4 = (e5, d5)" by fastforce
  obtain e6 d6 where 6: "dk_remove_network D ?n d2 = (e6, d6)" by fastforce
  have c: "conts d1 = conts d" "conts d2 \<inter> box_names = conts d1 \<inter> box_names" "conts d3 = conts d2" "conts d4 = conts d3"
    "conts d5 = conts d4" "conts d6 = conts d2"
    using create_network [OF 1] create_container [OF 2] connect_network [OF 3] connect_network [OF 4] start_container [OF 5]
      remove_network [OF 6] assms(2) by auto
  show ?thesis
    using assms(1) path c
    by (auto simp: egress_setup_def Let_def 1 2 3 4 5 6 roll_back_boxes [OF assms(2)] split: option.splits sum.splits)
qed

lemma egress_for_boxes:
  assumes "egress_for D bin (container_name (sandbox_id u)) spec d = (res, d')"
  shows "conts d' \<inter> box_names = conts d \<inter> box_names \<and> (\<forall>p. res = Inr (Some p) \<longrightarrow> ep_container p \<notin> box_names)"
  using assms setup_boxes [OF _ proxy_no_box] proxy_no_box [of u]
  by (fastforce simp: egress_for_def split: if_splits prod.splits sum.splits)

lemma create_boxes:
  assumes "docker_create D bin (sandbox_id u) spec h s = (res, s')" "docker_valid s"
  shows "docker_valid s' \<and> (case res of
     Inl e \<Rightarrow> docker_boxes conts s' = docker_boxes conts s
   | Inr rid \<Rightarrow> rid = container_name (sandbox_id u) \<and> rid \<notin> docker_boxes conts s
       \<and> docker_boxes conts s' = insert rid (docker_boxes conts s))"
proof -
  let ?c = "container_name (sandbox_id u)"
  have box: "?c \<in> box_names" by (auto simp: box_names_def)
  obtain r1 d1 where 1: "egress_for D bin ?c spec (dr_daemon s) = (r1, d1)" by fastforce
  note k1 = egress_for_boxes [OF 1]
  show ?thesis
  proof (cases r1)
    case (Inl e)
    then show ?thesis using assms 1 k1 by (auto simp: docker_create_def docker_boxes_def docker_valid_def)
  next
    case (Inr proxy)
    obtain e2 d2 where 2: "dk_create_container D ?c (sandbox_body proxy spec h) d1 = (e2, d2)" by fastforce
    note k2 = create_container [OF 2]
    show ?thesis
    proof (cases e2)
      case None
      have "docker_valid (s\<lparr>dr_daemon := d2, dr_egress := (case proxy of Some p \<Rightarrow> AList.update ?c p (dr_egress s) | None \<Rightarrow> dr_egress s)\<rparr>)"
        using assms(2) k1 Inr by (auto simp: docker_valid_def split: option.splits dest!: update_subset [THEN subsetD])
      then show ?thesis using assms 1 Inr 2 None k1 k2 box
        by (auto simp: docker_create_def Let_def docker_boxes_def)
    next
      case (Some e)
      have "conts (teardown D p d2) \<inter> box_names = conts d2 \<inter> box_names" if "proxy = Some p" for p
        using roll_back_boxes [of "ep_container p"] k1 Inr that by (auto simp: teardown_def)
      then show ?thesis using assms 1 Inr 2 Some k1 k2
        by (auto simp: docker_create_def Let_def docker_boxes_def docker_valid_def split: option.splits)
    qed
  qed
qed

lemma remove_boxes:
  assumes "docker_remove D rid s = (e, s')" "docker_valid s"
  shows "docker_valid s' \<and> docker_boxes conts s - {rid} \<subseteq> docker_boxes conts s' \<and> docker_boxes conts s' \<subseteq> docker_boxes conts s
    \<and> (e = None \<longrightarrow> rid \<notin> docker_boxes conts s')"
proof -
  obtain e1 d1 where 1: "dk_remove_container D rid True (dr_daemon s) = (e1, d1)" by fastforce
  note k1 = remove_container [OF 1]
  have v: "docker_valid (s\<lparr>dr_daemon := d, dr_egress := AList.delete rid (dr_egress s)\<rparr>)" for d
    using assms(2) by (auto simp: docker_valid_def AList.delete_eq)
  have t: "conts (teardown D p d1) \<inter> box_names = conts d1 \<inter> box_names" if "map_of (dr_egress s) rid = Some p" for p
    using that assms(2) roll_back_boxes [of "ep_container p"] by (fastforce simp: teardown_def docker_valid_def dest!: map_of_SomeD)
  show ?thesis
  proof (cases e1)
    case (Some x)
    then show ?thesis using assms 1 k1 by (auto simp: docker_remove_def docker_boxes_def docker_valid_def)
  next
    case None
    have d: "s' = s\<lparr>dr_daemon := (case map_of (dr_egress s) rid of Some p \<Rightarrow> teardown D p d1 | None \<Rightarrow> d1),
        dr_egress := AList.delete rid (dr_egress s)\<rparr>" and "e = None"
      using assms(1) None 1 by (auto simp: docker_remove_def)
    have "conts (dr_daemon s') \<inter> box_names = conts d1 \<inter> box_names" using t by (auto simp: d split: option.splits)
    then show ?thesis using k1 None v by (auto simp: d docker_boxes_def)
  qed
qed

lemma exec_boxes:
  assumes "docker_exec D rid command workdir s = (out, s')"
  shows "conts (dr_daemon s') = conts (dr_daemon s) \<and> dr_egress s' = dr_egress s"
proof -
  obtain x d1 where 1: "dk_create_exec D rid [''sh'', ''-c'', command] workdir (dr_daemon s) = (x, d1)" by fastforce
  obtain k where k: "x = Inr k \<or> (\<exists>e. x = Inl e)" by (cases x) auto
  obtain y d2 where 2: "dk_start_exec D k d1 = (y, d2)" by fastforce
  obtain z d3 where 3: "dk_inspect_exec D k d2 = (z, d3)" by fastforce
  have "conts d1 = conts (dr_daemon s)" "conts d2 = conts d1" "conts d3 = conts d2"
    using create_exec [OF 1] start_exec [OF 2] inspect_exec [OF 3] by auto
  then show ?thesis using assms k
    by (auto simp: docker_exec_def 1 2 3 split: sum.splits exec_start.splits prod.splits)
qed

end

text \<open>Every container service that keeps its promises makes the Docker runtime a sandbox engine.\<close>

sublocale docker_daemon \<subseteq> docker: sandbox_engine "docker_runtime D bin" "docker_boxes conts" container_name docker_valid for bin
proof
  show "rt_create (docker_runtime D bin) (sandbox_id u) spec h r = (Inl e, r') \<Longrightarrow> docker_valid r \<Longrightarrow>
      docker_valid r' \<and> docker_boxes conts r' = docker_boxes conts r" for u spec h r e r'
    by (auto simp: docker_runtime_def dest!: create_boxes)
  show "rt_create (docker_runtime D bin) (sandbox_id u) spec h r = (Inr rid, r') \<Longrightarrow> docker_valid r \<Longrightarrow>
      docker_valid r' \<and> rid = container_name (sandbox_id u) \<and> rid \<notin> docker_boxes conts r
      \<and> docker_boxes conts r' = insert rid (docker_boxes conts r)" for u spec h r rid r'
    by (auto simp: docker_runtime_def dest!: create_boxes)
  show "rt_start (docker_runtime D bin) rid r = (e', r') \<Longrightarrow> docker_valid r \<Longrightarrow>
      docker_valid r' \<and> docker_boxes conts r' = docker_boxes conts r" for rid r e' r'
    by (auto simp: docker_runtime_def docker_start_def docker_boxes_def docker_valid_def split: prod.splits dest!: start_container)
  show "rt_stop (docker_runtime D bin) rid grace r = (e', r') \<Longrightarrow> docker_valid r \<Longrightarrow>
      docker_valid r' \<and> docker_boxes conts r' = docker_boxes conts r" for rid grace r e' r'
    by (auto simp: docker_runtime_def docker_stop_def docker_boxes_def docker_valid_def split: prod.splits dest!: stop_container)
  show "rt_exec (docker_runtime D bin) rid command workdir r = (out, r') \<Longrightarrow> docker_valid r \<Longrightarrow>
      docker_valid r' \<and> docker_boxes conts r' = docker_boxes conts r" for rid command workdir r out r'
    using exec_boxes [of rid command workdir r out r'] by (simp add: docker_runtime_def docker_boxes_def docker_valid_def)
  show "rt_remove (docker_runtime D bin) rid r = (e', r') \<Longrightarrow> docker_valid r \<Longrightarrow>
      docker_valid r' \<and> docker_boxes conts r - {rid} \<subseteq> docker_boxes conts r' \<and> docker_boxes conts r' \<subseteq> docker_boxes conts r"
    for rid r e' r'
    using remove_boxes [of rid r e' r'] by (simp add: docker_runtime_def)
  show "rt_remove (docker_runtime D bin) rid r = (None, r') \<Longrightarrow> docker_valid r \<Longrightarrow> rid \<notin> docker_boxes conts r'" for rid r r'
    using remove_boxes [of rid r None r'] by (simp add: docker_runtime_def)
qed

context docker_daemon
begin

lemma docker_none_lost:
  assumes "docker_valid s" "docker_boxes conts s = {}"
    and "reaches (manager_step (docker_runtime D bin) deadline) (new_world s n) w"
    and "b \<in> docker_boxes conts (mg_runtime (w_manager w))"
  shows "b \<in> set (w_lost w) \<or> (\<exists>k h. (k, h) \<in> held w \<and> h_runtime_id h = b \<and> b = container_name k)"
  by (rule docker.none_lost [OF assms])

end

end
