(* ===== verification/Egress_Facts.thy ===== *)
theory Egress_Facts imports Egress
begin

section \<open>What the egress allow list admits\<close>

text \<open>
  The proxy's copy of the rules is the library's, a network admits the addresses that share its prefix, and every entry the
  validator takes reaches the proxy as the rule the validator read.
\<close>

subsection \<open>The two copies\<close>

definition proxy_of :: "egress_rule \<Rightarrow> proxy_rule" where
  "proxy_of r = (case r of Name_Rule n \<Rightarrow> PName n | Ip_Rule ip \<Rightarrow> PIp ip | Cidr_Rule net p \<Rightarrow> PCidr net p)"

lemma proxy_parse_eq: "proxy_parse e = map_option proxy_of (parse_rule e)"
  by (simp add: proxy_parse_def parse_rule_def clean_entry_def to_hostname_def family_bits_def proxy_of_def Let_def
      split: option.splits prod.splits ip_addr.splits)

lemma proxy_allows_eq: "proxy_allows (proxy_of r) ip = allows r ip"
  by (cases r) (simp_all add: proxy_allows_def allows_def proxy_of_def ip_in_network_def Let_def)

lemma proxy_inet_aton_eq: "proxy_inet_aton_number = is_inet_aton_number"
  by (rule ext) (simp add: proxy_inet_aton_number_def is_inet_aton_number_def)

lemma proxy_address_shaped_eq: "proxy_address_shaped = is_address_shaped"
  by (rule ext) (simp add: proxy_address_shaped_def is_address_shaped_def proxy_inet_aton_eq)

subsection \<open>Networks\<close>

text \<open>The bits of an address, the most significant first.\<close>

definition address_bits :: "ip_addr \<Rightarrow> bool list" where
  "address_bits ip = (case ip of V4 a \<Rightarrow> map (bit a) (rev [0..<32]) | V6 a \<Rightarrow> map (bit a) (rev [0..<128]))"

lemma masked_eq_iff:
  fixes a n :: "'a::len word"
  shows "a AND NOT (mask k) = n AND NOT (mask k) \<longleftrightarrow> (\<forall>i. k \<le> i \<and> i < LENGTH('a) \<longrightarrow> bit a i = bit n i)"
  by (auto simp: bit_eq_iff bit_simps)

lemma take_bits_iff:
  assumes "p \<le> w"
  shows "take p (map f (rev [0..<w])) = take p (map g (rev [0..<w]))
    \<longleftrightarrow> (\<forall>i. w - p \<le> i \<and> i < w \<longrightarrow> f i = g i)"
proof -
  have "take p (rev [0..<w]) = rev [w - p..<w]" using assms by (simp add: take_rev drop_upt)
  then show ?thesis by (auto simp: take_map)
qed

lemma in_network_iff:
  assumes "p \<le> family_bits net"
  shows "ip_in_network ip net p \<longleftrightarrow> family_bits ip = family_bits net \<and> take p (address_bits ip) = take p (address_bits net)"
proof (cases "p = 0")
  case True
  then show ?thesis by (cases ip; cases net) (simp_all add: ip_in_network_def family_bits_def)
next
  case False
  show ?thesis
  proof (cases ip; cases net)
    fix a n assume "ip = V4 a" "net = V4 n"
    then show ?thesis using assms False masked_eq_iff [of a "32 - p" n] take_bits_iff [of p 32 "bit a" "bit n"]
      by (simp add: ip_in_network_def family_bits_def address_bits_def Let_def del: upt_rec_numeral)
  next
    fix a n assume "ip = V6 a" "net = V6 n"
    then show ?thesis using assms False masked_eq_iff [of a "128 - p" n] take_bits_iff [of p 128 "bit a" "bit n"]
      by (simp add: ip_in_network_def family_bits_def address_bits_def Let_def del: upt_rec_numeral)
  qed (simp_all add: ip_in_network_def family_bits_def)
qed

lemma parsed_prefix: "parse_rule e = Some (Cidr_Rule net p) \<Longrightarrow> p \<le> family_bits net"
  by (auto simp: parse_rule_def Let_def split: if_splits option.splits prod.splits)

text \<open>A network of the allow list admits exactly the addresses of its family whose first bits, as many as its prefix
  says, are the network's: a rule that was read never masks more or less than it states, at either width and at the
  prefixes zero and full.
\<close>

theorem network_admits_its_prefix:
  assumes "parse_rule e = Some (Cidr_Rule net p)"
  shows "allows (Cidr_Rule net p) ip
    \<longleftrightarrow> family_bits ip = family_bits net \<and> take p (address_bits ip) = take p (address_bits net)"
  using in_network_iff [OF parsed_prefix [OF assms]] by (simp add: allows_def)

text \<open>Witness: a network of the private range.\<close>

lemma network_admits_its_prefix_witness:
  "parse_rule ''10.0.0.0/8'' = Some (Cidr_Rule (V4 0x0A000000) 8)
   \<and> take 8 (address_bits (V4 0x0AFFFFFF)) = take 8 (address_bits (V4 0x0A000000))
   \<and> take 8 (address_bits (V4 0x0B000001)) \<noteq> take 8 (address_bits (V4 0x0A000000))"
proof -
  have "clean_entry ''10.0.0.0/8'' = ''10.0.0.0/8''" "split_once (CHR ''/'') ''10.0.0.0/8'' = Some (''10.0.0.0'', ''8'')"
    "read_ipv4 ''10.0.0.0'' = Some ([10, 0, 0, 0], [])" "parse_unsigned 255 ''8'' = Some 8" by code_simp+
  then have r: "parse_rule ''10.0.0.0/8'' = Some (Cidr_Rule (V4 0x0A000000) 8)"
    by (simp add: parse_rule_def parse_ip_def digits_value_def family_bits_def)
  have a: "allows (Cidr_Rule (V4 0x0A000000) 8) (V4 0x0AFFFFFF)"
    "\<not> allows (Cidr_Rule (V4 0x0A000000) 8) (V4 0x0B000001)"
    by (simp_all add: allows_def ip_in_network_def Let_def mask_eq_exp_minus_1)
  show ?thesis using r a by (simp add: network_admits_its_prefix [OF r] family_bits_def)
qed

subsection \<open>Entries hold no comma\<close>

text \<open>What a reader takes from the front of a text.\<close>

definition consumes :: "(char \<Rightarrow> bool) \<Rightarrow> string \<Rightarrow> string \<Rightarrow> bool" where
  "consumes P s r \<longleftrightarrow> (\<exists>u. s = u @ r \<and> list_all P u)"

lemma consumes_refl [simp]: "consumes P s s"
  by (simp add: consumes_def)

lemma consumes_trans [trans]: "consumes P s r \<Longrightarrow> consumes P r t \<Longrightarrow> consumes P s t"
  unfolding consumes_def by (metis append_assoc list_all_append)

lemma consumes_all: "consumes P s [] \<Longrightarrow> list_all P s"
  by (auto simp: consumes_def)

definition address_char :: "char \<Rightarrow> bool" where
  "address_char c \<longleftrightarrow> is_ascii_hexdigit c \<or> c = CHR ''.'' \<or> c = CHR '':''"

lemma to_digit_16: "to_digit 10 c \<noteq> None \<Longrightarrow> to_digit 16 c \<noteq> None"
  by (auto simp: to_digit_def Let_def split: if_splits)

lemma read_digits_consumes:
  assumes "radix = 10 \<or> radix = 16" and "read_digits radix s = (ds, r)"
  shows "consumes address_char s r"
  using assms(2)
proof (induction s arbitrary: ds)
  case (Cons c s)
  show ?case
  proof (cases "to_digit radix c")
    case (Some d)
    then have c: "address_char c" using assms(1) to_digit_16 [of c] by (auto simp: address_char_def is_ascii_hexdigit_def)
    obtain es where "read_digits radix s = (es, r)" using Cons.prems Some by (auto split: prod.splits)
    from Cons.IH [OF this] c show ?thesis unfolding consumes_def by (metis append_Cons list.pred_inject(2))
  qed (use Cons.prems in auto)
qed (auto simp: consumes_def)

definition address_reader :: "(string \<Rightarrow> ('a \<times> string) option) \<Rightarrow> bool" where
  "address_reader f \<longleftrightarrow> (\<forall>s v r. f s = Some (v, r) \<longrightarrow> consumes address_char s r)"

lemma address_readerD: "f s = Some (v, r) \<Longrightarrow> address_reader f \<Longrightarrow> consumes address_char s r"
  by (simp add: address_reader_def)

lemma reader_number: "radix = 10 \<or> radix = 16 \<Longrightarrow> address_reader (read_number radix m z b)"
  by (auto simp: address_reader_def read_number_def split: prod.splits if_splits intro: read_digits_consumes)

lemma reader_octet: "address_reader read_octet"
  unfolding read_octet_def by (rule reader_number) simp

lemma given_char_consumes: "given_char c s = Some r \<Longrightarrow> address_char c \<Longrightarrow> consumes address_char s r"
  by (auto simp: given_char_def consumes_def split: list.splits if_splits intro!: exI [of _ "[c]"])

lemma address_char_marks [simp]: "address_char (CHR ''.'')" "address_char (CHR '':'')"
  by (simp_all add: address_char_def)

lemma reader_separator: "address_char c \<Longrightarrow> address_reader f \<Longrightarrow> address_reader (after_separator c first f)"
  by (cases first)
    (auto simp: address_reader_def after_separator_def bind_eq_Some_conv dest!: given_char_consumes intro: consumes_trans)

lemmas readers = reader_octet reader_separator [OF address_char_marks(1) reader_octet]

lemma reader_ipv4: "address_reader read_ipv4"
proof -
  have "consumes address_char s r" if "read_ipv4 s = Some (v, r)" for s v r
    using that unfolding read_ipv4_def
    by (auto simp: bind_eq_Some_conv split: prod.splits)
      (blast intro: consumes_trans dest: address_readerD [OF _ readers(1)] address_readerD [OF _ readers(2)])
  then show ?thesis by (simp add: address_reader_def)
qed

lemma read_groups_consumes: "read_groups first n s = (gs, v4, r) \<Longrightarrow> consumes address_char s r"
proof (induction first n s arbitrary: gs v4 rule: read_groups.induct)
  case (2 first n s)
  show ?case
  proof (cases "if 0 < n then after_separator (CHR '':'') first read_ipv4 s else None")
    case (Some a)
    then show ?thesis using "2.prems"
      by (cases a) (auto split: if_splits dest: address_readerD [OF _ reader_separator [OF address_char_marks(2) reader_ipv4]])
  next
    case None
    show ?thesis
    proof (cases "after_separator (CHR '':'') first (read_number 16 4 True 65535) s")
      case (Some a)
      obtain g t where a: "a = (g, t)" by (cases a)
      have "address_reader (read_number 16 4 True 65535)" by (rule reader_number) simp
      with Some have "consumes address_char s t"
        unfolding a by (metis address_readerD reader_separator address_char_marks(2))
      moreover obtain hs w where "read_groups False n t = (hs, w, r)"
        using "2.prems" None Some by (auto simp: a split: prod.splits)
      then have "consumes address_char t r" using "2.IH" [OF None Some a [symmetric]] by blast
      ultimately show ?thesis by (rule consumes_trans)
    qed (use "2.prems" None in auto)
  qed
qed auto

lemma reader_ipv6: "address_reader read_ipv6"
proof -
  have "consumes address_char s r" if six: "read_ipv6 s = Some (v, r)" for s v r
  proof -
    obtain front w t where f: "read_groups True 8 s = (front, w, t)" by (metis surj_pair)
    then have st: "consumes address_char s t" by (rule read_groups_consumes)
    show ?thesis
    proof (cases "length front = 8")
      case False
      then obtain t1 t2 where t: "given_char (CHR '':'') t = Some t1" "given_char (CHR '':'') t1 = Some t2"
        using six f by (auto simp: read_ipv6_def bind_eq_Some_conv split: if_splits)
      obtain rear x u where b: "read_groups True (7 - length front) t2 = (rear, x, u)" by (metis surj_pair)
      then have "u = r" using six f False t by (auto simp: read_ipv6_def split: if_splits)
      then show ?thesis using st t [THEN given_char_consumes] read_groups_consumes [OF b]
        by (auto intro: consumes_trans)
    qed (use six f st in \<open>simp add: read_ipv6_def\<close>)
  qed
  then show ?thesis by (simp add: address_reader_def)
qed

lemma parse_ip_chars: "parse_ip s = Some ip \<Longrightarrow> list_all address_char s"
  by (rule consumes_all)
    (auto simp: parse_ip_def split: option.splits if_splits dest: address_readerD [OF _ reader_ipv4] address_readerD [OF _ reader_ipv6])

lemma set_dropWhile_keep: "x \<in> set xs \<Longrightarrow> \<not> P x \<Longrightarrow> x \<in> set (dropWhile P xs)"
  by (induction xs) auto

lemma trim_keeps:
  assumes "k \<in> set s" and "\<And>c. is_ws c \<Longrightarrow> k \<notin> set c"
  shows "k \<in> set (trim s)"
proof -
  have "k \<in> set (concat (chars s))" using assms(1) by simp
  then obtain c where c: "c \<in> set (chars s)" "k \<in> set c" by (auto simp del: concat_chars)
  moreover have "\<not> is_ws c" using c(2) assms(2) by blast
  ultimately have "c \<in> set (rev (dropWhile is_ws (rev (dropWhile is_ws (chars s)))))"
    using set_dropWhile_keep [of c "chars s" is_ws] set_dropWhile_keep [of c "rev (dropWhile is_ws (chars s))" is_ws] by simp
  then show ?thesis using c(2) unfolding trim_def by (auto simp del: set_rev)
qed

lemma comma_no_ws: "is_ws c \<Longrightarrow> CHR '','' \<notin> set c"
  by (auto simp: is_ws_def byte_def map_eq_Cons_conv split: list.splits)

lemma comma_clean: "CHR '','' \<in> set e \<Longrightarrow> CHR '','' \<in> set (clean_entry e)"
  using trim_keeps [of "CHR '',''" e] comma_no_ws
  by (simp add: clean_entry_def trim_end_matches_def set_dropWhile_keep)

lemma comma_hostname: "CHR '','' \<in> set e \<Longrightarrow> CHR '','' \<in> set (to_hostname e)"
proof -
  assume "CHR '','' \<in> set e"
  then have "CHR '','' \<in> set (trim_end_matches (CHR ''.'') e)" by (simp add: trim_end_matches_def set_dropWhile_keep)
  moreover have "ascii_lower (CHR '','') = CHR '',''" by (simp add: ascii_lower_def byte_def)
  ultimately show ?thesis by (metis image_eqI list.set_map to_ascii_lowercase_def to_hostname_def)
qed

lemma comma_no_address: "parse_ip s = Some ip \<Longrightarrow> CHR '','' \<notin> set s"
  using parse_ip_chars [of s ip]
  by (auto simp: list_all_iff address_char_def is_ascii_hexdigit_def to_digit_def byte_def)

lemma comma_no_number: "parse_unsigned m s = Some v \<Longrightarrow> CHR '','' \<notin> set s"
proof -
  have d: "read_digits 10 t = (ds, []) \<Longrightarrow> CHR '','' \<notin> set t" for t ds
    by (induction t arbitrary: ds) (auto simp: to_digit_def byte_def split: option.splits prod.splits)
  assume p: "parse_unsigned m s = Some v"
  let ?t = "case s of c # r \<Rightarrow> if c = CHR ''+'' then r else s | [] \<Rightarrow> []"
  obtain ds r where r: "read_digits 10 ?t = (ds, r)" by fastforce
  with p have "r = []" by (simp add: parse_unsigned_def Let_def split: if_splits del: read_digits.simps)
  with r have "CHR '','' \<notin> set ?t" using d by blast
  then show ?thesis by (cases s) (auto split: if_splits)
qed

lemma split_once_set: "split_once d s = Some (a, b) \<Longrightarrow> set s = insert d (set a \<union> set b)"
  by (induction s arbitrary: a b) (auto split: if_splits)

lemma comma_not_label: "list_all is_label (split_on d h) \<Longrightarrow> d \<noteq> CHR '','' \<Longrightarrow> CHR '','' \<notin> set h"
proof -
  assume l: "list_all is_label (split_on d h)" and d: "d \<noteq> CHR '',''"
  have "set (join [d] ls) \<subseteq> insert d (\<Union> (set ` set ls))" for ls
    by (induction "[d]" ls rule: join.induct) auto
  from this [of "split_on d h"] have "set h \<subseteq> insert d (\<Union> (set ` set (split_on d h)))" by simp
  moreover have "CHR '','' \<notin> set w" if "is_label w" for w
    using that by (auto simp: is_label_def list_all_iff is_ascii_alphanumeric_def is_ascii_alphabetic_def is_ascii_digit_def byte_def)
  ultimately show ?thesis using l d by (auto simp: list_all_iff)
qed

lemma parse_rule_forms:
  "parse_rule e = Some (Name_Rule n) \<Longrightarrow> n = to_hostname (clean_entry e)"
  "parse_rule e = Some (Ip_Rule ip) \<Longrightarrow> parse_ip (clean_entry e) = Some ip"
  "parse_rule e = Some (Cidr_Rule net p) \<Longrightarrow>
     \<exists>a b. split_once (CHR ''/'') (clean_entry e) = Some (a, b) \<and> parse_ip a = Some net \<and> parse_unsigned 255 b = Some p"
  by (simp_all add: parse_rule_def Let_def split: if_splits option.splits prod.splits)

lemma enforceable_no_comma:
  assumes "is_proxy_enforceable e"
  shows "CHR '','' \<notin> set e"
proof
  assume "CHR '','' \<in> set e"
  then have c: "CHR '','' \<in> set (clean_entry (clean_entry e))" by (intro comma_clean)
  obtain r where r: "parse_rule (clean_entry e) = Some r"
    using assms by (auto simp: is_proxy_enforceable_def Let_def split: if_splits option.splits)
  show False
  proof (cases r)
    case (Name_Rule h)
    then have "CHR '','' \<in> set h" using c comma_hostname parse_rule_forms(1) r by metis
    then have "CHR '','' \<in> set (case strip_prefix ''*.'' h of Some h \<Rightarrow> h | None \<Rightarrow> h)"
      by (auto simp: strip_prefix_def starts_with_iff split: if_splits)
    moreover have "list_all is_label (split_on (CHR ''.'') (case strip_prefix ''*.'' h of Some h \<Rightarrow> h | None \<Rightarrow> h))"
      using assms r Name_Rule by (auto simp: is_proxy_enforceable_def Let_def split: if_splits option.splits)
    ultimately show False using comma_not_label [of "CHR ''.''"] by simp
  next
    case (Ip_Rule ip)
    then show False using c comma_no_address parse_rule_forms(2) r by metis
  next
    case (Cidr_Rule net p)
    then obtain a b where s: "split_once (CHR ''/'') (clean_entry (clean_entry e)) = Some (a, b)"
      and ab: "parse_ip a = Some net" "parse_unsigned 255 b = Some p" using parse_rule_forms(3) r by blast
    show False using c split_once_set [OF s] comma_no_address [OF ab(1)] comma_no_number [OF ab(2)] by simp
  qed
qed

lemma split_join: "ws \<noteq> [] \<Longrightarrow> (\<And>w. w \<in> set ws \<Longrightarrow> d \<notin> set w) \<Longrightarrow> split_on d (join [d] ws) = ws"
proof (induction ws)
  case (Cons w ws)
  then show ?case
    by (cases "ws = []") (simp_all add: split_on_no_sep join_Cons_nonempty split_on_append_sep)
qed simp

lemma allowlist_of_env:
  assumes "list_all is_proxy_enforceable es"
  shows "parse_allowlist (allow_env es) = List.map_filter (\<lambda>e. map_option proxy_of (parse_rule e)) es"
proof (cases "es = []")
  case True
  have "parse_rule [] = None" by (simp add: parse_rule_def clean_entry_def trim_def trim_end_matches_def)
  then show ?thesis
    using True by (simp add: parse_allowlist_def allow_env_def proxy_parse_eq [abs_def] map_filter_simps)
next
  case False
  have "split_on (CHR '','') (join '','' es) = es"
    using assms False by (intro split_join) (auto simp: list_all_iff dest: enforceable_no_comma)
  then show ?thesis by (simp add: parse_allowlist_def allow_env_def proxy_parse_eq [abs_def])
qed

text \<open>For closed texts: names, and what is read of them.\<close>

lemma no_address: "list_ex (\<lambda>c. \<not> address_char c) s \<Longrightarrow> parse_ip s = None"
  using parse_ip_chars [of s] by (cases "parse_ip s") (auto simp: list_all_iff list_ex_iff)

lemma parse_name:
  assumes "clean_entry e = s" "s \<noteq> []" "split_once (CHR ''/'') s = None" "list_ex (\<lambda>c. \<not> address_char c) s"
  shows "parse_rule e = Some (Name_Rule (to_hostname s))"
  using assms no_address [of s] by (simp add: parse_rule_def)

lemma enforceable_name:
  assumes "clean_entry e = s" "s \<noteq> []" "clean_entry s = t" "t \<noteq> []" "split_once (CHR ''/'') t = None"
    "list_ex (\<lambda>c. \<not> address_char c) t"
    and "(case strip_prefix ''*.'' (to_hostname t) of Some h \<Rightarrow> h | None \<Rightarrow> to_hostname t) = h"
    and "list_all is_label (split_on (CHR ''.'') h)" "\<not> is_address_shaped h"
  shows "is_proxy_enforceable e"
  using assms parse_name [of s t] by (simp add: is_proxy_enforceable_def)

lemma target_443: "rsplit_once (CHR '':'') t = Some (h, ''443'') \<Longrightarrow> split_target t = (h, 443)"
proof -
  have "read_digits 10 ''443'' = ([4, 4, 3], [])" by code_simp
  then show "rsplit_once (CHR '':'') t = Some (h, ''443'') \<Longrightarrow> ?thesis"
    by (simp add: split_target_def parse_unsigned_def digits_value_def del: read_digits.simps)
qed

subsection \<open>The proxy dials what is listed\<close>

text \<open>When an entry, as the library reads it, admits a destination: a name entry a name, exactly or as a domain
  above it, an address entry the address, or an address the name resolves to.\<close>

definition name_matches :: "string \<Rightarrow> string \<Rightarrow> bool" where
  "name_matches n h \<longleftrightarrow> (case strip_prefix ''*.'' n of Some d \<Rightarrow> \<exists>a. h = a @ ''.'' @ d | None \<Rightarrow> h = n)"

definition entry_admits :: "(string \<Rightarrow> ip_addr list) \<Rightarrow> string \<Rightarrow> string \<Rightarrow> bool" where
  "entry_admits resolve e host = (case parse_rule e of
     None \<Rightarrow> False
   | Some (Name_Rule n) \<Rightarrow> parse_ip host = None \<and> name_matches n (to_hostname host)
   | Some r \<Rightarrow> (\<exists>ip \<in> set (case parse_ip host of Some ip \<Rightarrow> [ip] | None \<Rightarrow> resolve host). allows r ip))"

lemma name_covers_eq: "name_covers h (PName n) = name_matches n h"
proof (cases "strip_prefix ''*.'' n")
  case (Some d)
  have "h \<noteq> d \<and> ends_with h d \<and> h ! (length h - length d - 1) = CHR ''.'' \<longleftrightarrow> (\<exists>a. h = a @ ''.'' @ d)"
  proof
    assume l: "h \<noteq> d \<and> ends_with h d \<and> h ! (length h - length d - 1) = CHR ''.''"
    then obtain b where h: "h = b @ d" and "b \<noteq> []" by (auto simp: ends_with_iff)
    then obtain a k where b: "b = a @ [k]" by (metis rev_exhaust)
    with h l have "k = CHR ''.''" by (simp add: nth_append)
    with h b show "\<exists>a. h = a @ ''.'' @ d" by simp
  qed (auto simp: ends_with_iff nth_append)
  then show ?thesis using Some by (simp add: name_covers_def name_matches_def)
qed (simp add: name_covers_def name_matches_def)

lemma list_ex_map_filter: "list_ex P (List.map_filter f xs) \<longleftrightarrow> (\<exists>x \<in> set xs. \<exists>y. f x = Some y \<and> P y)"
  by (induction xs) (auto simp: map_filter_simps split: option.splits)

lemma list_ex_env:
  "list_all is_proxy_enforceable es \<Longrightarrow>
   list_ex P (parse_allowlist (allow_env es)) \<longleftrightarrow> (\<exists>e \<in> set es. \<exists>r. parse_rule e = Some r \<and> P (proxy_of r))"
  by (auto simp: allowlist_of_env list_ex_map_filter)

lemma allowed_address_env:
  "list_all is_proxy_enforceable es \<Longrightarrow>
   allowed_address ip (parse_allowlist (allow_env es)) \<longleftrightarrow> (\<exists>e \<in> set es. \<exists>r. parse_rule e = Some r \<and> allows r ip)"
  by (simp add: allowed_address_def list_ex_env proxy_allows_eq)

lemma name_covers_proxy_of: "name_covers k (proxy_of r) \<longleftrightarrow> (\<exists>n. r = Name_Rule n \<and> name_matches n k)"
proof (cases r)
  case (Name_Rule n)
  then show ?thesis using name_covers_eq [of k n] by (simp add: proxy_of_def)
qed (simp_all add: name_covers_def proxy_of_def)

lemma allowed_name_env:
  "list_all is_proxy_enforceable es \<Longrightarrow>
   allowed_name h (parse_allowlist (allow_env es))
     \<longleftrightarrow> (\<exists>e \<in> set es. \<exists>n. parse_rule e = Some (Name_Rule n) \<and> name_matches n (to_hostname h))"
  by (auto simp: allowed_name_def list_ex_env name_covers_proxy_of to_hostname_def)

lemma may_dial_iff:
  assumes "list_all is_proxy_enforceable es"
  shows "may_dial resolve (parse_allowlist (allow_env es)) host
    \<longleftrightarrow> (parse_ip host \<noteq> None \<or> \<not> is_address_shaped host) \<and> (\<exists>e \<in> set es. entry_admits resolve e host)"
proof (cases "parse_ip host")
  case None
  have "entry_admits resolve e host \<longleftrightarrow> (\<exists>n. parse_rule e = Some (Name_Rule n) \<and> name_matches n (to_hostname host))
      \<or> (\<exists>ip \<in> set (resolve host). \<exists>r. parse_rule e = Some r \<and> allows r ip)" for e
    using None by (auto simp: entry_admits_def allows_def split: option.splits egress_rule.splits)
  then show ?thesis
    using assms None by (auto simp: may_dial_def proxy_address_shaped_eq allowed_name_env allowed_address_env list_ex_iff)
next
  case (Some ip)
  have "entry_admits resolve e host \<longleftrightarrow> (\<exists>r. parse_rule e = Some r \<and> allows r ip)" for e
    using Some by (auto simp: entry_admits_def allows_def split: option.splits egress_rule.splits)
  then show ?thesis using assms Some by (simp add: may_dial_def allowed_address_env)
qed

text \<open>C6. The allow list is enforced end to end: for a list the validator took, written to the environment and
  read back by the proxy, whatever bytes a client sends, the proxy dials a destination only if an entry of the list
  admits it, by its name or by an address the name resolves to, and never one that only looks like an address.
\<close>

theorem dialed_is_listed:
  assumes "list_all is_proxy_enforceable es"
    and "handle resolve (parse_allowlist (allow_env es)) sent = Dial host port"
  shows "(\<exists>e \<in> set es. entry_admits resolve e host) \<and> (parse_ip host \<noteq> None \<or> \<not> is_address_shaped host) \<and> 0 < port"
proof -
  have "may_dial resolve (parse_allowlist (allow_env es)) host \<and> port \<noteq> 0"
    using assms(2) by (auto simp: handle_def Let_def split: if_splits option.splits list.splits prod.splits)
  then show ?thesis using may_dial_iff [OF assms(1)] by simp
qed

text \<open>Witness: a request for a listed domain.\<close>

lemma dialed_is_listed_witness:
  "handle (\<lambda>_. []) (parse_allowlist (allow_env [''crates.io'', ''*.crates.io''])) ''CONNECT static.crates.io:443 HTTP/1.1''
     = Dial ''static.crates.io'' 443
   \<and> (\<exists>e \<in> set [''crates.io'', ''*.crates.io'']. entry_admits (\<lambda>_. []) e ''static.crates.io'')"
proof -
  let ?es = "[''crates.io'', ''*.crates.io'']"
  have e: "list_all is_proxy_enforceable ?es"
  proof -
    have "is_proxy_enforceable ''crates.io''"
      by (rule enforceable_name [of _ "''crates.io''" "''crates.io''" "''crates.io''"]; code_simp)
    moreover have "is_proxy_enforceable ''*.crates.io''"
      by (rule enforceable_name [of _ "''*.crates.io''" "''*.crates.io''" "''crates.io''"]; code_simp)
    ultimately show ?thesis by simp
  qed
  have h: "parse_ip ''static.crates.io'' = None" by (rule no_address) code_simp
  have "parse_rule ''*.crates.io'' = Some (Name_Rule (to_hostname ''*.crates.io''))" by (rule parse_name; code_simp)
  moreover have "to_hostname ''*.crates.io'' = ''*.crates.io''" "to_hostname ''static.crates.io'' = ''static.crates.io''" by code_simp+
  moreover have "name_matches ''*.crates.io'' ''static.crates.io''"
    by (auto simp: name_matches_def strip_prefix_def starts_with_def intro: exI [of _ "''static''"])
  ultimately have a: "entry_admits (\<lambda>_. []) ''*.crates.io'' ''static.crates.io''" using h by (simp add: entry_admits_def)
  have "\<not> is_address_shaped ''static.crates.io''" by code_simp
  then have m: "may_dial (\<lambda>_. []) (parse_allowlist (allow_env ?es)) ''static.crates.io''"
    using a by (auto simp: may_dial_iff [OF e])
  have "first_line (utf8_lossy ''CONNECT static.crates.io:443 HTTP/1.1'') = Some ''CONNECT static.crates.io:443 HTTP/1.1''"
    "split_whitespace ''CONNECT static.crates.io:443 HTTP/1.1'' = [''CONNECT'', ''static.crates.io:443'', ''HTTP/1.1'']"
    "rsplit_once (CHR '':'') ''static.crates.io:443'' = Some (''static.crates.io'', ''443'')" "eq_ignore_ascii_case ''CONNECT'' ''CONNECT''" by code_simp+
  then have c: "handle (\<lambda>_. []) (parse_allowlist (allow_env ?es)) ''CONNECT static.crates.io:443 HTTP/1.1''
    = Dial ''static.crates.io'' 443" using m by (simp add: handle_def target_443)
  then show ?thesis using dialed_is_listed [OF e c] by blast
qed

subsection \<open>Where the list says more or less than it seems\<close>

text \<open>
  One listed address among those a name resolves to is enough for the name to be dialed, and the connection is made by
  name: to any of its addresses.
\<close>

lemma one_listed_address_suffices:
  assumes "parse_ip host = None" "\<not> is_address_shaped host" "ip \<in> set (resolve host)" "proxy_allows r ip" "r \<in> set allow"
  shows "may_dial resolve allow host"
  using assms by (auto simp: may_dial_def proxy_address_shaped_eq allowed_address_def list_ex_iff)

lemma mixed_answer_is_dialed:
  "handle (\<lambda>_. [V4 0x0A000001, V4 0x08080808]) [PCidr (V4 0x0A000000) 8] ''CONNECT rebind.example:443 HTTP/1.1''
     = Dial ''rebind.example'' 443
   \<and> \<not> proxy_allows (PCidr (V4 0x0A000000) 8) (V4 0x08080808)"
proof -
  have "parse_ip ''rebind.example'' = None" by (rule no_address) code_simp
  moreover have "\<not> is_address_shaped ''rebind.example''" by code_simp
  moreover have "proxy_allows (PCidr (V4 0x0A000000) 8) (V4 0x0A000001)" "\<not> proxy_allows (PCidr (V4 0x0A000000) 8) (V4 0x08080808)"
    by (simp_all add: proxy_allows_def Let_def mask_eq_exp_minus_1)
  ultimately have m: "may_dial (\<lambda>_. [V4 0x0A000001, V4 0x08080808]) [PCidr (V4 0x0A000000) 8] ''rebind.example''"
    and n: "\<not> proxy_allows (PCidr (V4 0x0A000000) 8) (V4 0x08080808)"
    by (auto intro: one_listed_address_suffices)
  have "first_line (utf8_lossy ''CONNECT rebind.example:443 HTTP/1.1'') = Some ''CONNECT rebind.example:443 HTTP/1.1''"
    "split_whitespace ''CONNECT rebind.example:443 HTTP/1.1'' = [''CONNECT'', ''rebind.example:443'', ''HTTP/1.1'']"
    "rsplit_once (CHR '':'') ''rebind.example:443'' = Some (''rebind.example'', ''443'')" "eq_ignore_ascii_case ''CONNECT'' ''CONNECT''" by code_simp+
  then show ?thesis using m n by (simp add: handle_def target_443)
qed

text \<open>An address in brackets, as a client writes an IPv6 destination, is no address to the proxy.\<close>

lemma bracketed_is_no_address: "parse_ip (CHR ''['' # s) = None"
proof -
  have d: "to_digit 10 (CHR ''['') = None" "to_digit 16 (CHR ''['') = None" by code_simp+
  have "read_octet (CHR ''['' # s) = None" by (simp add: read_octet_def read_number_def d)
  then have four: "read_ipv4 (CHR ''['' # s) = None" by (simp add: read_ipv4_def)
  have "read_groups True (Suc 7) (CHR ''['' # s) = ([], False, CHR ''['' # s)"
    using four unfolding read_groups.simps by (simp add: after_separator_def read_number_def d)
  then have "read_ipv6 (CHR ''['' # s) = None" by (simp add: read_ipv6_def given_char_def)
  with four show ?thesis by (simp add: parse_ip_def)
qed

text \<open>The validator reads an entry after trimming it once more than the proxy does.\<close>

lemma spaced_entry_is_lost:
  "is_proxy_enforceable ''crates.io .'' \<and> is_proxy_enforceable ''10.0.0.0/8 .''
   \<and> parse_allowlist (allow_env [''crates.io .'', ''10.0.0.0/8 .'']) = [PName ''crates.io '']"
proof -
  have e1: "is_proxy_enforceable ''crates.io .''"
    by (rule enforceable_name [of _ "''crates.io ''" "''crates.io''" "''crates.io''"]; code_simp)
  have c: "clean_entry ''10.0.0.0/8 .'' = ''10.0.0.0/8 ''" "clean_entry ''10.0.0.0/8 '' = ''10.0.0.0/8''"
    "split_once (CHR ''/'') ''10.0.0.0/8'' = Some (''10.0.0.0'', ''8'')" "read_ipv4 ''10.0.0.0'' = Some ([10, 0, 0, 0], [])"
    "parse_unsigned 255 ''8'' = Some 8" by code_simp+
  then have e2: "is_proxy_enforceable ''10.0.0.0/8 .''"
    by (simp add: is_proxy_enforceable_def parse_rule_def parse_ip_def digits_value_def family_bits_def)
  have "clean_entry ''crates.io .'' = ''crates.io ''" "to_hostname ''crates.io '' = ''crates.io ''"
    "split_once (CHR ''/'') ''crates.io '' = None" "list_ex (\<lambda>c. \<not> address_char c) ''crates.io ''"
    "split_once (CHR ''/'') ''10.0.0.0/8 '' = Some (''10.0.0.0'', ''8 '')" "read_digits 10 ''8 '' = ([8], '' '')" by code_simp+
  note f = this
  have r1: "parse_rule ''crates.io .'' = Some (Name_Rule ''crates.io '')"
    using parse_name [OF f(1)] f(2-4) by simp
  have "parse_unsigned 255 ''8 '' = None" using f(6) by (simp add: parse_unsigned_def del: read_digits.simps)
  then have r2: "parse_rule ''10.0.0.0/8 .'' = None"
    unfolding parse_rule_def c(1) f(5) Let_def by (simp split: option.splits)
  with e1 e2 r1 have "parse_allowlist (allow_env [''crates.io .'', ''10.0.0.0/8 .'']) = [PName ''crates.io '']"
    by (simp add: allowlist_of_env map_filter_simps proxy_of_def)
  with e1 e2 show ?thesis by simp
qed

end
