(* ===== verification/Sandbox_Facts.thy ===== *)
theory Sandbox_Facts imports Sandbox_Docker_Facts Egress_Facts
begin

section \<open>Sandboxes from their profile to their end\<close>

text \<open>
  The confinement of a container as it is sent to the engine, the memory limit, what a failed creation leaves behind, and what the manager
  keeps: no container is out of its hands, the limit of live sandboxes, and the sweep.
\<close>

subsection \<open>A service that keeps its promises\<close>

text \<open>Names of containers and of networks; a request fails only where the name is in use, or missing.\<close>

definition reference_daemon :: "(string set \<times> string set) docker" where [hx_defs]:
  "reference_daemon = \<lparr>
     dk_create_network = (\<lambda>n internal (cs, ns). if n \<in> ns then (Some ''conflict'', (cs, ns)) else (None, (cs, insert n ns))),
     dk_remove_network = (\<lambda>n (cs, ns). if n \<in> ns then (None, (cs, ns - {n})) else (Some ''not found'', (cs, ns))),
     dk_create_container = (\<lambda>c body (cs, ns). if c \<in> cs then (Some ''conflict'', (cs, ns)) else (None, (insert c cs, ns))),
     dk_connect_network = (\<lambda>n c aliases d. (None, d)),
     dk_start_container = (\<lambda>c d. (if c \<in> fst d then None else Some ''not found'', d)),
     dk_stop_container = (\<lambda>c grace d. (if c \<in> fst d then None else Some ''not found'', d)),
     dk_remove_container = (\<lambda>c force (cs, ns). if c \<in> cs then (None, (cs - {c}, ns)) else (Some ''not found'', (cs, ns))),
     dk_create_exec = (\<lambda>c cmd dir d. (Inr c, d)),
     dk_start_exec = (\<lambda>k d. (Exec_Attached [], d)),
     dk_inspect_exec = (\<lambda>k d. (Inr (Some 0), d))\<rparr>"


subsection \<open>Confinement\<close>

definition noexec_area :: "string \<Rightarrow> bool" where
  "noexec_area opts \<longleftrightarrow> starts_with opts ''rw,noexec,nosuid,''"

definition harmless_caps :: "string set" where
  "harmless_caps = {''CHOWN'', ''DAC_OVERRIDE'', ''FOWNER'', ''SETGID'', ''SETUID''}"

definition confined :: "isolation_level \<Rightarrow> host_config \<Rightarrow> bool" where
  "confined l c \<longleftrightarrow>
     hc_privileged c = Some False \<and> hc_cap_drop c = Some [''ALL''] \<and> hc_security_opt c = Some [''no-new-privileges:true'']
   \<and> hc_memory_swap c = hc_memory c \<and> hc_memory c \<noteq> None \<and> hc_pids_limit c \<noteq> None
   \<and> (\<forall>cs. hc_cap_add c = Some cs \<longrightarrow> set cs \<subseteq> harmless_caps)
   \<and> (\<exists>t. hc_tmpfs c = Some t \<and> (\<forall>p opts. t p = Some opts \<longrightarrow> noexec_area opts))
   \<and> (l \<noteq> L1 \<longrightarrow> hc_cap_add c = None \<and> hc_readonly_rootfs c = Some True \<and> hc_userns_mode c = Some userns_remapped)
   \<and> (l = L3 \<longrightarrow> hc_runtime c = Some ''runsc'')"

definition network_of :: "string \<Rightarrow> sandbox_spec \<Rightarrow> string" where
  "network_of name spec = (if wants_egress spec then egress_network_name name else if sp_network spec then ''bridge'' else ''none'')"

lemma setup_proxy: "egress_setup D bin nb al d = (Inr p, d') \<Longrightarrow>
  p = \<lparr>ep_network = egress_network_name nb, ep_container = egress_proxy_name nb, ep_endpoint = ''hxproxy:3128''\<rparr>"
  by (auto simp: egress_setup_def Let_def split: prod.splits option.splits sum.splits)

lemma egress_for_proxy:
  assumes "egress_for D bin name spec d = (Inr proxy, d')"
  shows "case proxy of None \<Rightarrow> \<not> wants_egress spec | Some p \<Rightarrow> wants_egress spec \<and> ep_network p = egress_network_name name
     \<and> ep_endpoint p = ''hxproxy:3128''"
  using assms by (auto simp: egress_for_def split: if_splits prod.splits sum.splits dest!: setup_proxy)

lemma scratch_noexec: "map_of (rev scratch_areas) p = Some opts \<Longrightarrow> noexec_area opts"
  by (auto simp: scratch_areas_def noexec_area_def starts_with_def split: if_splits)

lemma to_host_config_confined:
  "confined (sp_isolation spec) (to_host_config ((settings_of spec)\<lparr>hs_network_mode := n\<rparr>))"
  by (cases "sp_isolation spec")
    (auto simp: confined_def to_host_config_def settings_of_def at_level_def base_settings_def Let_def unless_empty_def
      harmless_caps_def intro: scratch_noexec)

lemma placed_settings_eq:
  "placed_settings proxy (settings_of spec) = (settings_of spec)\<lparr>hs_network_mode :=
     (case proxy of None \<Rightarrow> hs_network_mode (settings_of spec) | Some p \<Rightarrow> ep_network p)\<rparr>"
  by (simp add: placed_settings_def split: option.splits)

lemma settings_network: "hs_network_mode (settings_of spec) = (if sp_network spec then ''bridge'' else ''none'')"
  by (cases "sp_isolation spec") (simp_all add: settings_of_def at_level_def base_settings_def Let_def)

text \<open>C9. The container a sandbox becomes is confined, whatever its profile says: it is never privileged, drops every
  capability and gains at most the five of a build, cannot swap around its memory limit, has no executable scratch
  area; from level L2 on it has no capability at all, a read-only root and remapped users, and at L3 a kernel of its
  own.  It sits on the network its egress rules ask for: its own internal one if there is an allow list, and none
  unless networking is on.
\<close>

theorem sandbox_is_confined:
  assumes "egress_for D bin name spec d = (Inr proxy, d')"
  shows "\<exists>c. cb_host_config (sandbox_body proxy spec (settings_of spec)) = Some c \<and> confined (sp_isolation spec) c
    \<and> hc_network_mode c = Some (network_of name spec)"
proof -
  have "sp_isolation (proxied_spec proxy spec) = sp_isolation spec" by (simp add: proxied_spec_def split: option.splits)
  moreover have "(case proxy of None \<Rightarrow> hs_network_mode (settings_of spec) | Some p \<Rightarrow> ep_network p) = network_of name spec"
    using egress_for_proxy [OF assms] by (auto simp: network_of_def settings_network split: option.splits)
  ultimately show ?thesis
    by (simp add: sandbox_body_def to_container_config_def placed_settings_eq to_host_config_confined)
      (simp add: to_host_config_def)
qed

text \<open>Witness: a sandbox with an allow list.\<close>

definition demo_spec :: sandbox_spec where [hx_defs]:
  "demo_spec = (from_profile ''node'' (default_profile\<lparr>pr_network := True, pr_egress := [''crates.io'']\<rparr>))
     \<lparr>sp_workspace_host_path := ''/srv/ws''\<rparr>"

definition demo_proxy :: egress_proxy where [hx_defs]:
  "demo_proxy = \<lparr>ep_network = ''hx-a-egress'', ep_container = ''hx-a-egress-proxy'', ep_endpoint = ''hxproxy:3128''\<rparr>"

lemma demo_egress:
  "egress_for reference_daemon (Inr ''/bin/p'') ''hx-a'' demo_spec ({}, {}) =
     (Inr (Some demo_proxy), ({''hx-a-egress-proxy''}, {''hx-a-egress''}))"
  by (simp add: egress_for_def egress_setup_def reference_daemon_def demo_spec_def demo_proxy_def wants_egress_def
      from_profile_def default_profile_def egress_network_name_def egress_proxy_name_def Let_def)

lemma sandbox_is_confined_witness:
  "\<exists>c. cb_host_config (sandbox_body (Some demo_proxy) demo_spec (settings_of demo_spec)) = Some c
     \<and> confined (sp_isolation demo_spec) c \<and> hc_network_mode c = Some (network_of ''hx-a'' demo_spec)"
  by (rule sandbox_is_confined [OF demo_egress])

subsection \<open>The memory limit\<close>

lemma memory_bytes_exact:
  assumes "unat mb < 2 ^ 43"
  shows "memory_bytes mb = int (unat mb) * 2 ^ 20"
proof -
  have p: "unat (mb * 1024 * 1024) = unat mb * 2 ^ 20"
  proof -
    have "unat mb * 2 ^ 20 < 2 ^ 64" using assms by simp
    then show ?thesis by (simp add: unat_word_ariths)
  qed
  have u: "uint (mb * 1024 * 1024) = int (unat mb * 2 ^ 20)" unfolding p [symmetric] by simp
  have "int (unat mb * 2 ^ 20) < int (2 ^ 63)" using assms by (subst of_nat_less_iff) simp
  then have "uint (mb * 1024 * 1024) < 2 ^ 63" unfolding u by simp
  then have "sint (mb * 1024 * 1024) = uint (mb * 1024 * 1024)"
    by (simp only: sint_uint, subst signed_take_bit_int_eq_self_iff) (auto intro: order_trans [OF _ uint_ge_0])
  with u show ?thesis by (simp add: memory_bytes_def)
qed

text \<open>A specification that passed validation and asks for less than \<open>2^43\<close> megabytes gets exactly that memory, and
  no more with swap: the limit sent to the engine is positive, and the number of bytes asked for.
\<close>

theorem memory_limit_is_exact:
  assumes "validate spec = None" "unat (sp_memory_mb spec) < 2 ^ 43"
  shows "hs_memory_bytes (settings_of spec) = int (unat (sp_memory_mb spec)) * 2 ^ 20
    \<and> hs_memory_swap_bytes (settings_of spec) = hs_memory_bytes (settings_of spec) \<and> 0 < hs_memory_bytes (settings_of spec)"
proof -
  have h: "hs_memory_bytes (settings_of spec) = memory_bytes (sp_memory_mb spec)"
    "hs_memory_swap_bytes (settings_of spec) = memory_bytes (sp_memory_mb spec)"
    by (cases "sp_isolation spec"; simp add: settings_of_def at_level_def base_settings_def Let_def)+
  have "sp_memory_mb spec \<noteq> 0" using assms(1) by (auto simp: validate_def split: if_splits)
  then have "0 < uint (sp_memory_mb spec)" using uint_ge_0 [of "sp_memory_mb spec"] by (simp add: less_le uint_0_iff)
  then show ?thesis unfolding h memory_bytes_exact [OF assms(2)] by simp
qed

lemma demo_trims: "trim ''docker.io/library/debian:stable-slim'' \<noteq> []" "trim ''/srv/ws'' \<noteq> []"
  by code_simp+

lemma demo_enforceable: "is_proxy_enforceable ''crates.io''"
  by (rule enforceable_name [of _ "''crates.io''" "''crates.io''" "''crates.io''"]; code_simp)

text \<open>\<open>demo_spec\<close> with a memory of its own.\<close>

lemma demo_valid: "mb \<noteq> 0 \<Longrightarrow> validate (demo_spec\<lparr>sp_memory_mb := mb\<rparr>) = None"
  using demo_trims demo_enforceable by (simp add: validate_def demo_spec_def from_profile_def default_profile_def)

text \<open>Witness: two gigabytes.\<close>

lemma memory_limit_is_exact_witness:
  "hs_memory_bytes (settings_of (demo_spec\<lparr>sp_memory_mb := 2048\<rparr>)) = 2147483648
   \<and> hs_memory_swap_bytes (settings_of (demo_spec\<lparr>sp_memory_mb := 2048\<rparr>)) = 2147483648"
  using memory_limit_is_exact [OF demo_valid, of 2048] by simp

text \<open>At the bound and beyond the product wraps: a limit of zero is no limit to the engine.\<close>

lemma memory_limit_wraps:
  "validate (demo_spec\<lparr>sp_memory_mb := 2 ^ 44\<rparr>) = None \<and> hs_memory_bytes (settings_of (demo_spec\<lparr>sp_memory_mb := 2 ^ 44\<rparr>)) = 0"
proof -
  have "memory_bytes (2 ^ 44) = 0" by (simp add: memory_bytes_def)
  then show ?thesis using demo_valid [of "2 ^ 44"]
    by (simp add: settings_of_def at_level_def base_settings_def demo_spec_def from_profile_def default_profile_def Let_def)
qed

subsection \<open>Failed creations\<close>

text \<open>A service that removes what exists.\<close>

definition removes :: "'d docker \<Rightarrow> ('d \<Rightarrow> string set) \<Rightarrow> ('d \<Rightarrow> string set) \<Rightarrow> bool" where
  "removes D conts nets \<longleftrightarrow> (\<forall>c force d. c \<in> conts d \<longrightarrow> fst (dk_remove_container D c force d) = None)
     \<and> (\<forall>n d. n \<in> nets d \<longrightarrow> fst (dk_remove_network D n d) = None)"

context docker_daemon
begin

lemma roll_back_clean:
  assumes "removes D conts nets" "conts d = insert c C" "nets d = insert n N" "c \<notin> C" "n \<notin> N"
  shows "conts (roll_back D n c d) = C \<and> nets (roll_back D n c d) = N"
proof -
  obtain e1 d1 where 1: "dk_remove_container D c True d = (e1, d1)" by fastforce
  obtain e2 d2 where 2: "dk_remove_network D n d1 = (e2, d2)" by fastforce
  have "e1 = None" using assms(1,2) 1 unfolding removes_def by (metis fst_conv insertI1)
  then have a: "conts d1 = C" "nets d1 = nets d" using remove_container [OF 1] assms(2,4) by auto
  have "e2 = None" using assms(1,3) 2 a unfolding removes_def by (metis fst_conv insertI1)
  then show ?thesis using remove_network [OF 2] a assms(3,5) by (auto simp: roll_back_def 1 2)
qed

lemma setup_clean:
  assumes "removes D conts nets" "egress_network_name nb \<notin> nets d" "egress_proxy_name nb \<notin> conts d"
    and s: "egress_setup D (Inr path) nb al d = (res, d')"
  shows "case res of Inl e \<Rightarrow> conts d' = conts d \<and> nets d' = nets d
    | Inr p \<Rightarrow> conts d' = insert (egress_proxy_name nb) (conts d) \<and> nets d' = insert (egress_network_name nb) (nets d)"
proof -
  let ?n = "egress_network_name nb" and ?c = "egress_proxy_name nb"
  obtain e1 d1 where 1: "dk_create_network D ?n True d = (e1, d1)" by fastforce
  obtain e2 d2 where 2: "dk_create_container D ?c (proxy_body al path) d1 = (e2, d2)" by fastforce
  obtain e3 d3 where 3: "dk_connect_network D ''bridge'' ?c [] d2 = (e3, d3)" by fastforce
  obtain e4 d4 where 4: "dk_connect_network D ?n ?c [''hxproxy''] d3 = (e4, d4)" by fastforce
  obtain e5 d5 where 5: "dk_start_container D ?c d4 = (e5, d5)" by fastforce
  obtain e6 d6 where 6: "dk_remove_network D ?n d2 = (e6, d6)" by fastforce
  have same: "conts d3 = conts d2" "conts d4 = conts d2" "conts d5 = conts d2" "nets d3 = nets d2" "nets d4 = nets d2" "nets d5 = nets d2"
    using connect_network [OF 3] connect_network [OF 4] start_container [OF 5] by simp_all
  show ?thesis
  proof (cases "e1 = None \<and> e2 = None")
    case True
    then have d2: "conts d2 = insert ?c (conts d)" "nets d2 = insert ?n (nets d)"
      using create_network [OF 1] create_container [OF 2] by simp_all
    have "conts (roll_back D ?n ?c x) = conts d \<and> nets (roll_back D ?n ?c x) = nets d"
      if "x = d3 \<or> x = d4 \<or> x = d5" for x
      using that same d2 by (intro roll_back_clean [OF assms(1) _ _ assms(3,2)]) auto
    then show ?thesis using s True d2 same
      by (auto simp: egress_setup_def Let_def 1 2 3 4 5 split: option.splits)
  next
    case False
    show ?thesis
    proof (cases e1)
      case None
      then have n: "nets d2 = insert ?n (nets d)" "conts d2 = conts d"
        using False create_network [OF 1] create_container [OF 2] by auto
      then have "e6 = None" using assms(1) 6 unfolding removes_def by (metis fst_conv insertI1)
      then have "conts d6 = conts d \<and> nets d6 = nets d" using remove_network [OF 6] n assms(2) by auto
      then show ?thesis using s False None by (auto simp: egress_setup_def Let_def 1 2 6)
    next
      case (Some e)
      then show ?thesis using s create_network [OF 1] by (auto simp: egress_setup_def Let_def 1)
    qed
  qed
qed

lemma create_clean:
  assumes "removes D conts nets" "egress_network_name (container_name k) \<notin> nets (dr_daemon s)"
    "egress_proxy_name (container_name k) \<notin> conts (dr_daemon s)"
    and c: "docker_create D (Inr path) k spec h s = (Inl e, s')"
  shows "conts (dr_daemon s') = conts (dr_daemon s) \<and> nets (dr_daemon s') = nets (dr_daemon s)"
proof -
  let ?c = "container_name k"
  obtain r1 d1 where 1: "egress_for D (Inr path) ?c spec (dr_daemon s) = (r1, d1)" by fastforce
  show ?thesis
  proof (cases "wants_egress spec")
    case False
    obtain e2 d2 where 2: "dk_create_container D ?c (sandbox_body None spec h) (dr_daemon s) = (e2, d2)" by fastforce
    show ?thesis using c False create_container [OF 2]
      by (cases e2) (auto simp: docker_create_def egress_for_def Let_def 2)
  next
    case True
    obtain r d1 where s1: "egress_setup D (Inr path) ?c (sp_egress_allow spec) (dr_daemon s) = (r, d1)" by fastforce
    note clean = setup_clean [OF assms(1-3) s1]
    show ?thesis
    proof (cases r)
      case (Inl x)
      then show ?thesis using c True clean by (auto simp: docker_create_def egress_for_def Let_def s1)
    next
      case (Inr p)
      obtain e2 d2 where 2: "dk_create_container D ?c (sandbox_body (Some p) spec h) d1 = (e2, d2)" by fastforce
      have p: "ep_network p = egress_network_name ?c" "ep_container p = egress_proxy_name ?c"
        using setup_proxy s1 Inr by fastforce+
      obtain x where x: "e2 = Some x" using c True Inr by (cases e2) (auto simp: docker_create_def egress_for_def Let_def s1 2)
      then have "conts d2 = insert (egress_proxy_name ?c) (conts (dr_daemon s))" "nets d2 = insert (egress_network_name ?c) (nets (dr_daemon s))"
        using create_container [OF 2] clean Inr by auto
      then have "conts (teardown D p d2) = conts (dr_daemon s) \<and> nets (teardown D p d2) = nets (dr_daemon s)"
        unfolding teardown_def p by (intro roll_back_clean [OF assms(1) _ _ assms(3,2)])
      then show ?thesis using c True Inr x by (auto simp: docker_create_def egress_for_def Let_def s1 2)
    qed
  qed
qed

end




text \<open>With a binary that cannot be read, the network that was made for it stays.\<close>

lemma unreadable_binary_leaks_network:
  assumes "docker_daemon D conts nets" "fst (dk_create_network D (egress_network_name nb) True d) = None"
    and "egress_setup D (Inl e) nb al d = (res, d')"
  shows "res = Inl (Binary_Unreadable e) \<and> nets d' = insert (egress_network_name nb) (nets d)"
proof -
  obtain d1 where 1: "dk_create_network D (egress_network_name nb) True d = (None, d1)" using assms(2) by (metis prod.collapse)
  then have "res = Inl (Binary_Unreadable e)" "d' = d1" using assms(3) by (auto simp: egress_setup_def Let_def)
  then show ?thesis using docker_daemon.create_network [OF assms(1) 1] by simp
qed

subsection \<open>No container is out of the manager's hands\<close>



lemma demo_spec_valid: "validate demo_spec = None"
  using demo_valid [of 2048] by (simp add: demo_spec_def from_profile_def default_profile_def)

definition demo_start :: "(string set \<times> string set) docker_state" where [hx_defs]:
  "demo_start = \<lparr>dr_daemon = ({}, {}), dr_egress = []\<rparr>"

text \<open>What \<open>create\<close> and \<open>start\<close> give for a first sandbox with the reference service.\<close>

lemma demo_create:
  "\<exists>s. docker_create reference_daemon (Inr ''/bin/p'') k demo_spec (settings_of demo_spec) demo_start = (Inr (container_name k), s)
     \<and> container_name k \<in> fst (dr_daemon s)"
  by (simp add: docker_create_def egress_for_def egress_setup_def reference_daemon_def demo_spec_def demo_start_def
      wants_egress_def from_profile_def default_profile_def egress_network_name_def egress_proxy_name_def container_name_def Let_def)

lemma demo_spawn:
  fixes deadline :: "datetime \<Rightarrow> int \<Rightarrow> datetime option"
  obtains m where "spawn (docker_runtime reference_daemon (Inr ''/bin/p'')) deadline k demo_spec now (new_manager demo_start n)
      = ((case deadline now (sint (sp_ttl_secs demo_spec)) of None \<Rightarrow> Panicked (container_name k)
          | Some t \<Rightarrow> Spawned (handle_of k demo_spec (container_name k) Running now t)), m)"
    and "container_name k \<in> fst (dr_daemon (mg_runtime m))"
    and "deadline now (sint (sp_ttl_secs demo_spec)) = None \<Longrightarrow> mg_live m = []"
proof -
  obtain s where c: "docker_create reference_daemon (Inr ''/bin/p'') k demo_spec (settings_of demo_spec) demo_start = (Inr (container_name k), s)"
    and i: "container_name k \<in> fst (dr_daemon s)" using demo_create by blast
  have st: "docker_start reference_daemon (container_name k) s = (None, s)"
    using i by (simp add: docker_start_def reference_daemon_def)
  show thesis
  proof (cases "deadline now (sint (sp_ttl_secs demo_spec))")
    case None
    show thesis by (rule that [of "(new_manager demo_start n)\<lparr>mg_runtime := s\<rparr>"])
      (simp_all add: spawn_def demo_spec_valid new_manager_def docker_runtime_def c st i None)
  next
    case (Some t)
    show thesis by (rule that [of "(new_manager demo_start n)\<lparr>mg_runtime := s,
        mg_live := AList.update k (handle_of k demo_spec (container_name k) Running now t) []\<rparr>"])
      (simp_all add: spawn_def demo_spec_valid new_manager_def docker_runtime_def c st i Some Let_def)
  qed
qed


text \<open>A lifetime whose deadline cannot be computed panics once the container runs: it exists, and nothing points at it.\<close>

lemma overflowing_lifetime_loses_container:
  assumes "deadline now (sint (sp_ttl_secs demo_spec)) = None"
  shows "\<exists>m. spawn (docker_runtime reference_daemon (Inr ''/bin/p'')) deadline k demo_spec now (new_manager demo_start n)
      = (Panicked (container_name k), m) \<and> container_name k \<in> fst (dr_daemon (mg_runtime m)) \<and> mg_live m = []"
  using demo_spawn [of deadline k now n] assms by (metis option.simps(4))

subsection \<open>Output in pieces\<close>

text \<open>Each piece of output is decoded on its own: whole characters come through, a character on the seam does not.\<close>

lemma whole_pieces_are_kept:
  "list_all is_utf8 ms \<Longrightarrow> collect_output (map (\<lambda>m. Inr (Std_Out m)) ms) out err = Inr (out @ concat ms, err)"
  by (induction ms arbitrary: out) (auto simp: utf8_lossy_text)

lemma character_on_the_seam_is_scarred:
  "is_utf8 [CHR 0xC3, CHR 0xA9]
   \<and> collect_output [Inr (Std_Out [CHR 0xC3]), Inr (Std_Out [CHR 0xA9])] [] [] = Inr (replacement @ replacement, [])"
  by code_simp

end
