(* ===== verification/Sandbox_Sweep_Facts.thy ===== *)
theory Sandbox_Sweep_Facts imports Sandbox_Facts
begin

section \<open>The limit and the sweep\<close>

text \<open>
  What requests do to the map of live sandboxes: served one after the other they keep it within its limit, and the sweep
  removes exactly what is due, or keeps it marked for the next sweep.  Side by side they can pass the limit.
\<close>

lemma entries_update: "distinct (map fst al) \<Longrightarrow> set (AList.update k h al) = insert (k, h) {(j, g) \<in> set al. j \<noteq> k}"
  by (induction al) (auto simp: rev_image_eqI)

lemma entries_delete: "set (AList.delete k al) = {(j, g) \<in> set al. j \<noteq> k}"
  by (auto simp: AList.delete_eq)

lemma length_update: "length (AList.update k v al) = (if k \<in> fst ` set al then length al else Suc (length al))"
  by (induction al) auto

lemma length_delete: "length (AList.delete k al) \<le> length al"
  by (simp add: AList.delete_eq)

lemma length_delete_less: "k \<in> fst ` set al \<Longrightarrow> length (AList.delete k al) < length al"
  by (induction al) (auto simp: AList.delete_eq intro: le_imp_less_Suc)

subsection \<open>One destruction\<close>

definition marked :: "sandbox_handle \<Rightarrow> sandbox_handle" where
  "marked h = h\<lparr>h_state := Failed\<rparr>"

lemma marked_simps [simp]: "h_id (marked h) = h_id h" "h_state (marked h) = Failed" "h_runtime_id (marked h) = h_runtime_id h"
  "marked (marked h) = marked h"
  by (simp_all add: marked_def)

lemma destroy_live:
  assumes "destroy R k m = (e, m')"
  shows "mg_max m' = mg_max m \<and>
      (mg_live m' = AList.delete k (mg_live m)
       \<or> (\<exists>h r. map_of (mg_live m) k = Some h \<and> e \<noteq> None \<and> fst (rt_remove R (h_runtime_id h) r) \<noteq> None
            \<and> mg_live m' = AList.update k (marked h) (AList.delete k (mg_live m))))"
proof (cases "map_of (mg_live m) k")
  case None
  then show ?thesis using assms by (auto simp: destroy_def take_out_def)
next
  case (Some h)
  obtain e1 r1 where 1: "rt_stop R (h_runtime_id h) 10 (mg_runtime m) = (e1, r1)" by fastforce
  obtain e2 r2 where 2: "rt_remove R (h_runtime_id h) r1 = (e2, r2)" by fastforce
  show ?thesis
  proof (cases e2)
  case None
    then show ?thesis using assms Some 1 2
      by (auto simp: destroy_def take_out_def stop_engine_def remove_engine_def)
  next
    case (Some x)
    have "fst (rt_remove R (h_runtime_id h) r1) \<noteq> None" using 2 Some by simp
    moreover have "e \<noteq> None \<and> mg_max m' = mg_max m \<and> mg_live m' = AList.update k (marked h) (AList.delete k (mg_live m))"
      using assms \<open>map_of (mg_live m) k = Some h\<close> 1 2 Some
      by (auto simp: destroy_def take_out_def stop_engine_def remove_engine_def put_back_def marked_def)
    ultimately show ?thesis using \<open>map_of (mg_live m) k = Some h\<close> by blast
  qed
qed

text \<open>The map as a set: the entry goes, or is marked, and then the call is an error and the engine refused.\<close>

lemma destroy_set:
  assumes "destroy R k m = (e, m')" "distinct (map fst (mg_live m))"
  shows "mg_max m' = mg_max m \<and> distinct (map fst (mg_live m')) \<and> length (mg_live m') \<le> length (mg_live m)
    \<and> (set (mg_live m') = {(j, h) \<in> set (mg_live m). j \<noteq> k}
       \<or> (\<exists>h r. (k, h) \<in> set (mg_live m) \<and> e \<noteq> None \<and> fst (rt_remove R (h_runtime_id h) r) \<noteq> None
            \<and> set (mg_live m') = insert (k, marked h) {(j, h) \<in> set (mg_live m). j \<noteq> k}))"
proof -
  have d: "distinct (map fst (AList.delete k (mg_live m)))" using assms(2) by (rule distinct_delete)
  from destroy_live [OF assms(1)] show ?thesis
  proof (elim conjE disjE exE)
    assume "mg_max m' = mg_max m" "mg_live m' = AList.delete k (mg_live m)"
    then show ?thesis using d by (simp add: entries_delete length_delete)
  next
    fix h r
    assume h: "mg_max m' = mg_max m" "map_of (mg_live m) k = Some h" "e \<noteq> None" "fst (rt_remove R (h_runtime_id h) r) \<noteq> None"
      "mg_live m' = AList.update k (marked h) (AList.delete k (mg_live m))"
    have in_m: "(k, h) \<in> set (mg_live m)" using h(2) by (rule map_of_SomeD)
    then have "length (AList.delete k (mg_live m)) < length (mg_live m)" by (intro length_delete_less) force
    then have "length (mg_live m') \<le> length (mg_live m)" by (simp add: h(5) length_update)
    moreover have "distinct (map fst (mg_live m'))" using d by (simp add: h(5) distinct_update)
    moreover have "set (mg_live m') = insert (k, marked h) {(j, h) \<in> set (mg_live m). j \<noteq> k}"
      by (auto simp: h(5) entries_update [OF d] entries_delete)
    ultimately show ?thesis using h in_m by blast
  qed
qed

subsection \<open>The sweep\<close>

lemma destroy_all_set:
  assumes "destroy_all R ks m = (reaped, m')" "distinct (map fst (mg_live m))"
  shows "mg_max m' = mg_max m \<and> distinct (map fst (mg_live m')) \<and> length (mg_live m') \<le> length (mg_live m)
    \<and> {(j, h) \<in> set (mg_live m). j \<notin> set ks} \<subseteq> set (mg_live m')
    \<and> set (mg_live m') \<subseteq> {(j, h) \<in> set (mg_live m). j \<notin> set ks}
        \<union> {(j, marked h) | j h r. (j, h) \<in> set (mg_live m) \<and> j \<in> set ks \<and> fst (rt_remove R (h_runtime_id h) r) \<noteq> None}"
  using assms
proof (induction ks arbitrary: m reaped)
  case (Cons k ks)
  obtain e m1 where 1: "destroy R k m = (e, m1)" by fastforce
  obtain rs where 2: "destroy_all R ks m1 = (rs, m')"
    using Cons.prems(1) 1 by (auto split: prod.splits)
  note k = destroy_set [OF 1 Cons.prems(2)]
  note ks = Cons.IH [OF 2 conjunct1 [OF conjunct2 [OF k]]]
  have "{(j, h) \<in> set (mg_live m). j \<notin> set (k # ks)} \<subseteq> {(j, h) \<in> set (mg_live m1). j \<notin> set ks}" using k by auto
  moreover have "{(j, h) \<in> set (mg_live m1). j \<notin> set ks}
        \<union> {(j, marked h) | j h r. (j, h) \<in> set (mg_live m1) \<and> j \<in> set ks \<and> fst (rt_remove R (h_runtime_id h) r) \<noteq> None}
      \<subseteq> {(j, h) \<in> set (mg_live m). j \<notin> set (k # ks)}
        \<union> {(j, marked h) | j h r. (j, h) \<in> set (mg_live m) \<and> j \<in> set (k # ks) \<and> fst (rt_remove R (h_runtime_id h) r) \<noteq> None}"
  proof -
    have "set (mg_live m1) \<subseteq> {(j, h) \<in> set (mg_live m). j \<noteq> k}
        \<union> {(k, marked h) | h r. (k, h) \<in> set (mg_live m) \<and> fst (rt_remove R (h_runtime_id h) r) \<noteq> None}"
      using k by blast
    then show ?thesis by (force simp: subset_iff)
  qed
  moreover have "mg_max m' = mg_max m" "distinct (map fst (mg_live m'))" "length (mg_live m') \<le> length (mg_live m)"
    using k ks by auto
  ultimately show ?case using ks by blast
qed auto

subsection \<open>Requests in turn\<close>

definition kept :: "nat \<Rightarrow> 'r manager \<Rightarrow> bool" where
  "kept n m \<longleftrightarrow> distinct (map fst (mg_live m)) \<and> (\<forall>(k, h) \<in> set (mg_live m). h_id h = k)
     \<and> length (mg_live m) \<le> max n 1 \<and> mg_max m = max n 1"

lemma spawn_live:
  assumes "spawn R deadline k spec now m = (res, m')"
  shows "mg_max m' = mg_max m \<and> (mg_live m' = mg_live m
    \<or> (length (mg_live m) < mg_max m \<and> (\<exists>h. h_id h = k \<and> mg_live m' = AList.update k h (mg_live m))))"
proof -
  have id: "h_id (handle_of k spec rid st now t) = k" for rid st t by (simp add: handle_of_def)
  then show ?thesis using assms
    by (auto simp: spawn_def Let_def split: option.splits if_splits sum.splits prod.splits
        intro!: exI [of _ "handle_of k spec _ _ now _"])
qed

lemma kept_track:
  assumes "kept n m" "length (mg_live m) < mg_max m" "h_id h = k" "mg_live m' = AList.update k h (mg_live m)" "mg_max m' = mg_max m"
  shows "kept n m'"
proof -
  have d: "distinct (map fst (mg_live m))" using assms(1) by (simp add: kept_def)
  show ?thesis using assms unfolding kept_def by (auto simp: entries_update [OF d] distinct_update length_update)
qed

lemma kept_fewer:
  assumes "kept n m" "mg_max m' = mg_max m" "distinct (map fst (mg_live m'))" "length (mg_live m') \<le> length (mg_live m)"
    and "set (mg_live m') \<subseteq> set (mg_live m) \<union> {(k, marked h) | k h. (k, h) \<in> set (mg_live m)}"
  shows "kept n m'"
  using assms unfolding kept_def by fastforce

interpretation served: invariant "serve R deadline" "kept n" for R deadline n
proof
  show "kept n (serve R deadline q m)" if "kept n m" for q m
  proof (cases q)
    case (Req_Spawn u spec now)
    obtain res m' where s: "spawn R deadline (sandbox_id u) spec now m = (res, m')" by fastforce
    from spawn_live [OF s] have "kept n m'"
    proof (elim conjE disjE exE)
      fix h assume "mg_max m' = mg_max m" "length (mg_live m) < mg_max m" "h_id h = sandbox_id u"
        "mg_live m' = AList.update (sandbox_id u) h (mg_live m)"
      then show "kept n m'" by (intro kept_track [OF that])
    qed (use that in \<open>simp add: kept_def\<close>)
    then show ?thesis by (simp add: serve_def Req_Spawn s)
  next
    case (Req_Exec k command workdir)
    have "mg_live (snd (exec_sandbox R k command workdir m)) = mg_live m" "mg_max (snd (exec_sandbox R k command workdir m)) = mg_max m"
      by (auto simp: exec_sandbox_def split: option.splits sum.splits prod.splits)
    then show ?thesis using that by (simp add: serve_def Req_Exec kept_def)
  next
    case (Req_Destroy k)
    obtain e m' where s: "destroy R k m = (e, m')" by fastforce
    have "distinct (map fst (mg_live m))" using that by (simp add: kept_def)
    from destroy_set [OF s this] have "kept n m'" by (intro kept_fewer [OF that]) auto
    then show ?thesis by (simp add: serve_def Req_Destroy s)
  next
    case (Req_Reap now)
    obtain e m' where s: "reap R now m = (e, m')" by fastforce
    have "distinct (map fst (mg_live m))" using that by (simp add: kept_def)
    note a = destroy_all_set [OF s [unfolded reap_def] this]
    have "set (mg_live m') \<subseteq> set (mg_live m) \<union> {(k, marked h) | k h. (k, h) \<in> set (mg_live m)}" using a by blast
    with a have "kept n m'" by (intro kept_fewer [OF that]) (blast | simp only:)+
    then show ?thesis by (simp add: serve_def Req_Reap s)
  qed
qed

lemma new_manager_kept: "kept n (new_manager r n)"
  by (simp add: kept_def new_manager_def)

text \<open>C28. While requests are served one after the other, with whatever answers of the engine, there are never more
  sandboxes than the limit, and a valid sandbox is refused for want of a slot exactly when all are in use.
\<close>

theorem sandboxes_within_limit:
  assumes "reaches (serve R deadline) (new_manager r n) m"
  shows "length (mg_live m) \<le> max n 1
    \<and> ((\<exists>p a b. fst (spawn R deadline k spec now m) = Spawn_Error (No_Slot p a b))
         \<longleftrightarrow> validate spec = None \<and> length (mg_live m) = max n 1)"
proof -
  have m: "kept n m" by (rule served.reachable [OF assms new_manager_kept])
  then have "(\<exists>p a b. fst (spawn R deadline k spec now m) = Spawn_Error (No_Slot p a b))
      \<longleftrightarrow> validate spec = None \<and> mg_max m \<le> length (mg_live m)"
    by (auto simp: spawn_def Let_def split: option.splits sum.splits prod.splits)
  with m show ?thesis unfolding kept_def by auto
qed

text \<open>C22. A sweep does what it says: what is not due stays as it is; whatever is still there after it is either not due, or
  was due and is marked as failed, because the engine refused to remove its container, and the next sweep
  takes it up again; with an engine that refuses nothing, nothing that is due remains.
\<close>

theorem sweep_takes_what_is_due:
  assumes "reaches (serve R deadline) (new_manager r n) m" and "reap R now m = (reaped, m')"
  shows "{(k, h) \<in> set (mg_live m). \<not> is_due now h} \<subseteq> set (mg_live m')
    \<and> (\<forall>(k, h) \<in> set (mg_live m').
         ((k, h) \<in> set (mg_live m) \<and> \<not> is_due now h)
       \<or> (\<exists>g r. (k, g) \<in> set (mg_live m) \<and> is_due now g \<and> h = marked g \<and> is_due now h
             \<and> fst (rt_remove R (h_runtime_id g) r) \<noteq> None))"
proof -
  have m: "kept n m" by (rule served.reachable [OF assms(1) new_manager_kept])
  then have d: "distinct (map fst (mg_live m))" and i: "\<And>k h. (k, h) \<in> set (mg_live m) \<Longrightarrow> h_id h = k"
    by (auto simp: kept_def)
  let ?ks = "map h_id (filter (is_due now) (map snd (mg_live m)))"
  have one: "g = h" if "(k, g) \<in> set (mg_live m)" "(k, h) \<in> set (mg_live m)" for k g h
    using that d by (metis eq_key_imp_eq_value)
  have ks: "k \<in> set ?ks \<longleftrightarrow> is_due now h" if kh: "(k, h) \<in> set (mg_live m)" for k h
  proof
    assume "k \<in> set ?ks"
    then obtain j g where g: "(j, g) \<in> set (mg_live m)" "is_due now g" "k = h_id g" by auto
    then have "(k, g) \<in> set (mg_live m)" using i [OF g(1)] by simp
    then show "is_due now h" using one [OF kh] g(2) by blast
  next
    assume "is_due now h"
    then show "k \<in> set ?ks" using kh i [OF kh] by force
  qed
  note a = destroy_all_set [OF assms(2) [unfolded reap_def] d]
  have "set (mg_live m') \<subseteq> {(k, h). (k, h) \<in> set (mg_live m) \<and> \<not> is_due now h \<or>
      (\<exists>g r. (k, g) \<in> set (mg_live m) \<and> is_due now g \<and> h = marked g \<and> fst (rt_remove R (h_runtime_id g) r) \<noteq> None)}"
    using a ks by blast
  moreover have "{(k, h) \<in> set (mg_live m). \<not> is_due now h} \<subseteq> set (mg_live m')" using a ks by blast
  moreover have "is_due now (marked g)" for g by (simp add: is_due_def)
  ultimately show ?thesis by blast
qed

text \<open>Witness: nothing to sweep.\<close>

lemma sandboxes_within_limit_witness:
  "length (mg_live (new_manager demo_start 4)) \<le> max 4 1
   \<and> ((\<exists>p a b. fst (spawn (docker_runtime reference_daemon (Inr [])) (\<lambda>t s. Some (t + s)) ''x'' demo_spec 0 (new_manager demo_start 4))
          = Spawn_Error (No_Slot p a b))
        \<longleftrightarrow> validate demo_spec = None \<and> length (mg_live (new_manager demo_start 4)) = max 4 1)"
  by (rule sandboxes_within_limit [OF reaches_start])

lemma demo_spawned:
  obtains m where "spawn (docker_runtime reference_daemon (Inr ''/bin/p'')) (\<lambda>t s. Some (t + s)) (sandbox_id 7) demo_spec 0 (new_manager demo_start 4)
      = (Spawned (handle_of (sandbox_id 7) demo_spec (container_name (sandbox_id 7)) Running 0 1800), m)"
    and "mg_live m = [(sandbox_id 7, handle_of (sandbox_id 7) demo_spec (container_name (sandbox_id 7)) Running 0 1800)]"
    and "reaches (serve (docker_runtime reference_daemon (Inr ''/bin/p'')) (\<lambda>t s. Some (t + s))) (new_manager demo_start 4) m"
proof -
  let ?R = "docker_runtime reference_daemon (Inr ''/bin/p'')" and ?dl = "\<lambda>(t :: datetime) s. Some (t + s)"
  let ?h = "handle_of (sandbox_id 7) demo_spec (container_name (sandbox_id 7)) Running 0 1800"
  have t: "sint (sp_ttl_secs demo_spec) = 1800" by (simp add: demo_spec_def from_profile_def default_profile_def)
  obtain m where m: "spawn ?R ?dl (sandbox_id 7) demo_spec 0 (new_manager demo_start 4) = (Spawned ?h, m)"
    using demo_spawn [of ?dl "sandbox_id 7" 0 4] t by auto
  have "mg_live m = [(sandbox_id 7, ?h)]"
    using m spawn_live [OF m] by (auto simp: spawn_def new_manager_def Let_def split: option.splits if_splits sum.splits prod.splits)
  moreover have "reaches (serve ?R ?dl) (new_manager demo_start 4) m"
    using reaches_call [OF reaches_start, of "serve ?R ?dl" "new_manager demo_start 4" "Req_Spawn 7 demo_spec 0"]
    by (simp add: serve_def m)
  ultimately show thesis using that m by blast
qed

text \<open>Witness: a sandbox that has half an hour is still there after a minute.\<close>

lemma sweep_takes_what_is_due_witness:
  "\<exists>m. mg_live m = [(sandbox_id 7, handle_of (sandbox_id 7) demo_spec (container_name (sandbox_id 7)) Running 0 1800)]
     \<and> (sandbox_id 7, handle_of (sandbox_id 7) demo_spec (container_name (sandbox_id 7)) Running 0 1800)
       \<in> set (mg_live (snd (reap (docker_runtime reference_daemon (Inr ''/bin/p'')) 60 m)))"
proof -
  let ?R = "docker_runtime reference_daemon (Inr ''/bin/p'')" and ?dl = "\<lambda>(t :: datetime) s. Some (t + s)"
  let ?h = "handle_of (sandbox_id 7) demo_spec (container_name (sandbox_id 7)) Running 0 1800"
  obtain m where m: "mg_live m = [(sandbox_id 7, ?h)]" "reaches (serve ?R ?dl) (new_manager demo_start 4) m"
    using demo_spawned by metis
  obtain rs m' where r: "reap ?R 60 m = (rs, m')" by fastforce
  have "\<not> is_due 60 ?h" by (simp add: is_due_def handle_expired_def handle_of_def)
  then have "(sandbox_id 7, ?h) \<in> set (mg_live m')" using sweep_takes_what_is_due [OF m(2) r] m(1) by auto
  then show ?thesis using m(1) r by (metis snd_conv)
qed

subsection \<open>Where the limit and the sweep give out\<close>

text \<open>A container that is gone from the engine, removed by hand, is never let go: the removal of what does not exist is an error.\<close>

lemma vanished_container_keeps_its_slot:
  assumes "docker_daemon D conts nets" "map_of (mg_live m) k = Some h"
    and "h_runtime_id h \<notin> conts (dr_daemon (mg_runtime m))"
  shows "\<exists>e m'. destroy (docker_runtime D bin) k m = (Some e, m') \<and> map_of (mg_live m') k = Some (marked h)
    \<and> h_runtime_id (marked h) \<notin> conts (dr_daemon (mg_runtime m'))"
proof -
  obtain e1 d1 where 1: "dk_stop_container D (h_runtime_id h) 10 (dr_daemon (mg_runtime m)) = (e1, d1)" by fastforce
  obtain e2 d2 where 2: "dk_remove_container D (h_runtime_id h) True d1 = (e2, d2)" by fastforce
  note k = docker_daemon.stop_container [OF assms(1) 1] docker_daemon.remove_container [OF assms(1) 2]
  obtain x where "e2 = Some x" using k assms(3) by auto
  then show ?thesis using assms(2,3) k
    by (auto simp: destroy_def take_out_def stop_engine_def remove_engine_def docker_runtime_def docker_stop_def docker_remove_def
        put_back_def marked_def 1 2 update_conv)
qed

text \<open>
  The limit is checked against the map, from which a \<open>destroy\<close> under way has taken its handle: if the engine refuses to
  remove, the handle comes back on top of a sandbox that was admitted in the meantime.
\<close>

definition stubborn_runtime :: "(unit, unit) runtime" where
  "stubborn_runtime = \<lparr>rt_create = (\<lambda>k spec h r. (Inr k, r)), rt_start = (\<lambda>k r. (None, r)), rt_stop = (\<lambda>k grace r. (None, r)),
     rt_remove = (\<lambda>k r. (Some (), r)), rt_exec = (\<lambda>k command workdir r. (Inl (), r))\<rparr>"

lemma limit_passed_side_by_side:
  "length (mg_live (w_manager (fold (manager_step stubborn_runtime (\<lambda>t s. Some (t + s)))
      [Call_Spawn 1 demo_spec 0, Call_Destroy (sandbox_id 1), Call_Spawn 2 demo_spec 0, Call_Proceed 0, Call_Proceed 0, Call_Proceed 0]
      (new_world () 1)))) = 2"
proof -
  have "sandbox_id 1 \<noteq> sandbox_id 2"
  proof -
    have "sandbox_id 1 ! 35 \<noteq> sandbox_id 2 ! 35" by (simp add: sandbox_id_def hex32_def)
    then show ?thesis by metis
  qed
  then show ?thesis
    by (simp add: manager_step_def spawn_def demo_spec_valid new_world_def new_manager_def stubborn_runtime_def take_out_def
        proceed_def stop_engine_def remove_engine_def put_back_def remove_nth_def Let_def AList.delete_eq)
qed

end
