(* ===== verification/Sse.thy ===== *)
theory Sse imports Rust_Utf8
begin

section \<open>Streams of events as bytes\<close>

text \<open>
  \<open>crates/hx-provider/src/sse.rs\<close>: the decoder that turns the chunks of a response body into text and holds an
  incomplete character back, and what the two adapters' readers of events share.  A chunk is a piece of the
  network's choosing.  The contract \<open>framed_reader\<close> says what a reader needs of its framing for the pieces not to
  matter: once a frame is complete, nothing that comes later moves its end.
\<close>

subsection \<open>The decoder\<close>

text \<open>
  \<open>std::str::from_utf8\<close>: \<^const>\<open>None\<close> for text, otherwise how many bytes are text, and how many after them can
  belong to no character; \<^const>\<open>None\<close> in its place is a character that the end of the bytes cut.
\<close>

function utf8_error :: "string \<Rightarrow> (nat \<times> nat option) option" where
  "utf8_error [] = None"
| "utf8_error (c # s) = (case utf8_step c s of (whole, n) \<Rightarrow>
     if whole then map_option (\<lambda>(good, len). (Suc n + good, len)) (utf8_error (drop n s))
     else Some (0, if utf8_tail c \<noteq> None \<and> n = length s then None else Some (Suc n)))"
  by pat_completeness auto
termination by (relation "measure length") auto

lemma matching_le: "matching rs s \<le> length s"
  by (induction rs s rule: matching.induct) auto

lemma utf8_step_le: "snd (utf8_step c s) \<le> length s"
  using matching_le by (simp add: utf8_step_def split: option.splits)

lemma utf8_error_bounds:
  "utf8_error s = Some (good, len) \<Longrightarrow> good < length s \<and> (\<forall>k. len = Some k \<longrightarrow> 0 < k \<and> good + k \<le> length s)"
proof (induction s arbitrary: good rule: utf8_error.induct)
  case (2 c s)
  obtain whole n where st: "utf8_step c s = (whole, n)" by fastforce
  have n: "n \<le> length s" using utf8_step_le [of c s] st by simp
  show ?case
  proof (cases whole)
    case True
    obtain u where u: "utf8_error (drop n s) = Some (u, len)" "good = Suc (n + u)" using 2(2) st True by auto
    show ?thesis using 2(1) [OF st [symmetric] True u(1)] u(2) n by auto
  next
    case False
    then show ?thesis using 2(2) st n by (auto split: if_splits)
  qed
qed simp

text \<open>The loop of \<open>push\<close>: what it puts out, and what stays in \<open>pending\<close>.\<close>

function decode :: "string \<Rightarrow> string \<Rightarrow> string \<times> string" where
  "decode out pending =
     (if pending = [] then (out, [])
      else (case utf8_error pending of
          None \<Rightarrow> (out @ pending, [])
        | Some (good, None) \<Rightarrow> (out @ utf8_lossy (take good pending), drop good pending)
        | Some (good, Some len) \<Rightarrow>
            decode (out @ utf8_lossy (take good pending) @ replacement) (drop (min (good + len) (length pending)) pending)))"
  by pat_completeness auto
termination by (relation "measure (length \<circ> snd)") (auto dest: utf8_error_bounds)

declare decode.simps [simp del]

definition decoder_push :: "string \<Rightarrow> string \<Rightarrow> string \<times> string" where [hx_defs]:
  "decoder_push pending chunk = decode [] (pending @ chunk)"

definition decoder_finish :: "string \<Rightarrow> string" where [hx_defs]:
  "decoder_finish pending = utf8_lossy pending"

text \<open>Everything a decoder puts out for a sequence of chunks.\<close>

fun decode_chunks :: "string \<Rightarrow> string list \<Rightarrow> string" where
  "decode_chunks pending [] = decoder_finish pending"
| "decode_chunks pending (b # bs) = (case decoder_push pending b of (out, pending) \<Rightarrow> out @ decode_chunks pending bs)"

subsection \<open>What a chunk boundary cannot change\<close>

lemma matching_more: "matching rs s < length s \<or> matching rs s = length rs \<Longrightarrow> matching rs (s @ t) = matching rs s"
  by (induction rs s rule: matching.induct) auto

lemma utf8_step_more:
  assumes "utf8_step c s = (whole, n)" "whole \<or> utf8_tail c = None \<or> n < length s"
  shows "utf8_step c (s @ t) = (whole, n)"
proof (cases "utf8_tail c")
  case None
  then show ?thesis using assms by (simp add: utf8_step_def)
next
  case (Some rs)
  then have "matching rs s = n" "whole \<longleftrightarrow> n = length rs" using assms(1) by (auto simp: utf8_step_def)
  then show ?thesis using assms(2) Some matching_more [of rs s t] by (auto simp: utf8_step_def)
qed

lemma lossy_text_more: "utf8_error s = None \<Longrightarrow> utf8_lossy (s @ t) = s @ utf8_lossy t"
proof (induction s rule: utf8_error.induct)
  case (2 c s)
  obtain whole n where st: "utf8_step c s = (whole, n)" by fastforce
  have n: "n \<le> length s" using utf8_step_le [of c s] st by simp
  have w: whole using 2(2) st by (auto split: if_splits)
  have e: "utf8_error (drop n s) = None" using 2(2) st w by simp
  have "utf8_lossy (c # s @ t) = c # take n s @ utf8_lossy (drop n s @ t)"
    using utf8_step_more [OF st, of t] w n by simp
  then show ?case using 2(1) [OF st [symmetric] w e] by simp
qed simp

lemma utf8_error_prefix: "utf8_error s = Some (good, len) \<Longrightarrow> utf8_error (take good s) = None"
proof (induction s arbitrary: good rule: utf8_error.induct)
  case (2 c s)
  obtain whole n where st: "utf8_step c s = (whole, n)" by fastforce
  have n: "n \<le> length s" using utf8_step_le [of c s] st by simp
  show ?case
  proof (cases whole)
    case True
    obtain u where u: "utf8_error (drop n s) = Some (u, len)" "good = Suc (n + u)" using 2(2) st True by auto
    obtain rs where rs: "utf8_tail c = Some rs" "matching rs s = n" "n = length rs"
      using st True by (auto simp: utf8_step_def split: option.splits)
    have "matching rs (take (n + u) s) = n"
    proof -
      have "matching rs (take (length rs + u) s) = matching rs s" by (induction rs s rule: matching.induct) auto
      then show ?thesis using rs by simp
    qed
    then have "utf8_step c (take (n + u) s) = (True, n)" using rs by (simp add: utf8_step_def)
    then show ?thesis using 2(1) [OF st [symmetric] True u(1)] u(2) by (simp add: drop_take)
  next
    case False
    then show ?thesis using 2(2) st by (auto split: if_splits)
  qed
qed simp

lemma lossy_upto_more: "utf8_error s = Some (good, len) \<Longrightarrow> utf8_lossy (take good s @ t) = take good s @ utf8_lossy t"
  by (rule lossy_text_more) (rule utf8_error_prefix)

lemma lossy_invalid_more:
  "utf8_error s = Some (good, Some len) \<Longrightarrow> utf8_lossy (s @ t) = take good s @ replacement @ utf8_lossy (drop (good + len) s @ t)"
proof (induction s arbitrary: good rule: utf8_error.induct)
  case (2 c s)
  obtain whole n where st: "utf8_step c s = (whole, n)" by fastforce
  have n: "n \<le> length s" using utf8_step_le [of c s] st by simp
  show ?case
  proof (cases whole)
    case True
    obtain u where u: "utf8_error (drop n s) = Some (u, Some len)" "good = Suc (n + u)" using 2(2) st True by auto
    have "utf8_lossy (c # s @ t) = c # take n s @ utf8_lossy (drop n s @ t)"
      using utf8_step_more [OF st, of t] True n by simp
    then show ?thesis using 2(1) [OF st [symmetric] True u(1)] u(2) by (simp add: take_add drop_drop add.commute add.left_commute)
  next
    case False
    then have l: "good = 0" "len = Suc n" "utf8_tail c = None \<or> n < length s" using 2(2) st n by (auto split: if_splits)
    then show ?thesis using utf8_step_more [OF st, of t] False n by auto
  qed
qed simp

lemma decode_lossy:
  "decode out pending = (got, rest) \<Longrightarrow> out @ utf8_lossy (pending @ t) = got @ utf8_lossy (rest @ t)"
proof (induction out pending arbitrary: got rest rule: decode.induct)
  case (1 out pending)
  show ?case
  proof (cases "pending = []")
    case True
    then show ?thesis using 1(2) by (simp add: decode.simps)
  next
    case p: False
    show ?thesis
    proof (cases "utf8_error pending")
      case None
      then show ?thesis using 1(2) p lossy_text_more [OF None, of t] by (simp add: decode.simps)
    next
      case (Some e)
      obtain good len where e: "e = (good, len)" by fastforce
      note u = lossy_upto_more [OF Some [unfolded e]]
      have j: "take good pending @ drop good pending @ t = pending @ t" by (metis append_assoc append_take_drop_id)
      have s: "utf8_lossy (take good pending) = take good pending" using u [of "[]"] by simp
      show ?thesis
      proof (cases len)
        case None
        then show ?thesis using 1(2) p Some e u [of "drop good pending @ t", unfolded j] s by (auto simp: decode.simps)
      next
        case l: (Some k)
        have b: "good + k \<le> length pending" using utf8_error_bounds Some e l by blast
        have d: "decode (out @ utf8_lossy (take good pending) @ replacement) (drop (min (good + k) (length pending)) pending) = (got, rest)"
          using 1(2) p Some e l by (simp add: decode.simps [of out])
        show ?thesis using 1(1) [OF p Some e [symmetric] l d] lossy_invalid_more [OF Some [unfolded e l], of t] s b
          by (simp add: min_def split: if_splits)
      qed
    qed
  qed
qed

lemma push_lossy:
  "decoder_push pending chunk = (out, rest) \<Longrightarrow> utf8_lossy (pending @ chunk @ t) = out @ utf8_lossy (rest @ t)"
  using decode_lossy [of "[]" "pending @ chunk"] by (simp add: decoder_push_def)

lemma utf8_error_cut: "utf8_error s = Some (good, None) \<Longrightarrow> utf8_lossy (drop good s) = replacement"
proof (induction s arbitrary: good rule: utf8_error.induct)
  case (2 c s)
  obtain whole n where st: "utf8_step c s = (whole, n)" by fastforce
  show ?case
  proof (cases whole)
    case True
    obtain u where u: "utf8_error (drop n s) = Some (u, None)" "good = Suc (n + u)" using 2(2) st True by auto
    show ?thesis using 2(1) [OF st [symmetric] True u(1)] u(2) by (simp add: add.commute)
  next
    case False
    then show ?thesis using 2(2) st by (auto split: if_splits)
  qed
qed simp

lemma decode_rest: "decode out pending = (got, rest) \<Longrightarrow> rest = [] \<or> utf8_lossy rest = replacement"
proof (induction out pending rule: decode.induct)
  case (1 out pending)
  show ?case
  proof (cases "utf8_error pending")
    case None
    then show ?thesis using 1(2) by (simp add: decode.simps [of out] split: if_splits)
  next
    case (Some e)
    obtain good len where e: "e = (good, len)" by fastforce
    then have p: "pending \<noteq> []" using Some by auto
    show ?thesis
    proof (cases len)
      case None
      then show ?thesis using 1(2) p Some e utf8_error_cut by (auto simp: decode.simps [of out])
    next
      case l: (Some k)
      show ?thesis using 1(1) [OF p Some e [symmetric] l] 1(2) p Some e l by (simp add: decode.simps [of out pending])
    qed
  qed
qed

lemma push_rest: "decoder_push pending chunk = (out, rest) \<Longrightarrow> decoder_finish rest \<in> {[], replacement}"
  using decode_rest [of "[]" "pending @ chunk" out rest] by (auto simp: decoder_push_def decoder_finish_def)

text \<open>The property of the decoder: whatever the chunks, the text is that of all their bytes.\<close>

lemma decode_chunks_lossy: "decode_chunks pending bs = utf8_lossy (pending @ concat bs)"
proof (induction bs arbitrary: pending)
  case (Cons b bs)
  obtain out rest where p: "decoder_push pending b = (out, rest)" by fastforce
  show ?case using push_lossy [OF p, of "concat bs"] Cons.IH p by simp
qed (simp add: decoder_finish_def)

lemma lossy_Nil_iff: "utf8_lossy s = [] \<longleftrightarrow> s = []"
  by (cases s) (auto simp: replacement_def split: prod.splits)

subsection \<open>Readers of frames\<close>

text \<open>
  What the two readers share.  \<open>cut\<close> is where the first frame ends, \<open>step\<close> what a frame does to the state of
  the turn, with an outcome if it ends the reading; \<open>loop\<close> takes frames while there are any.  \<open>ok\<close> restricts the texts
  for which the framing is stable.
\<close>

text \<open>Reading chunk by chunk: the chunks left over when a frame ended the reading are never looked at.\<close>

fun read_chunks :: "(string \<Rightarrow> 's \<Rightarrow> 'r option \<times> string \<times> 's) \<Rightarrow> string list \<Rightarrow> string \<Rightarrow> string \<Rightarrow> 's
    \<Rightarrow> 'r option \<times> string list \<times> string \<times> string \<times> 's" where
  "read_chunks loop [] pending raw s = (None, [], pending, raw, s)"
| "read_chunks loop (b # bs) pending raw s = (case decoder_push pending b of (out, pending) \<Rightarrow>
     (case loop (raw @ out) s of
        (Some r, raw, s) \<Rightarrow> (Some r, bs, pending, raw, s)
      | (None, raw, s) \<Rightarrow> read_chunks loop bs pending raw s))"

locale framed_reader =
  fixes cut :: "string \<Rightarrow> nat option"
    and ok :: "string \<Rightarrow> bool"
    and step :: "string \<Rightarrow> 's \<Rightarrow> 'r option \<times> 's"
    and loop :: "string \<Rightarrow> 's \<Rightarrow> 'r option \<times> string \<times> 's"
  assumes cut_bounds: "cut a = Some n \<Longrightarrow> 0 < n \<and> n \<le> length a"
    and cut_more: "ok (a @ b) \<Longrightarrow> cut a = Some n \<Longrightarrow> cut (a @ b) = Some n"
    and ok_suffix: "ok (a @ b) \<Longrightarrow> ok b"
    and loop: "loop raw s = (case cut raw of
        None \<Rightarrow> (None, raw, s)
      | Some n \<Rightarrow> (case step (take n raw) s of
          (None, s) \<Rightarrow> loop (drop n raw) s
        | (Some r, s) \<Rightarrow> (Some r, drop n raw, s)))"
begin

lemma loop_suffix: "loop raw s = (r, rest, s') \<Longrightarrow> \<exists>p. raw = p @ rest"
proof (induction "length raw" arbitrary: raw s rule: less_induct)
  case less
  show ?case
  proof (cases "cut raw")
    case None
    then show ?thesis using less.prems by (simp add: loop [of raw])
  next
    case (Some n)
    obtain e t where st: "step (take n raw) s = (e, t)" by fastforce
    show ?thesis
    proof (cases e)
      case None
      then have "loop (drop n raw) t = (r, rest, s')" using less.prems Some st by (simp add: loop [of raw])
      moreover have "length (drop n raw) < length raw" using cut_bounds [OF Some] by auto
      ultimately obtain p where "drop n raw = p @ rest" using less.hyps by blast
      then have "raw = (take n raw @ p) @ rest" by (metis append_assoc append_take_drop_id)
      then show ?thesis by blast
    next
      case (Some x)
      then have "raw = take n raw @ rest" using less.prems \<open>cut raw = Some n\<close> st by (auto simp: loop [of raw])
      then show ?thesis by blast
    qed
  qed
qed

lemma loop_rest: "loop raw s = (None, rest, s') \<Longrightarrow> cut rest = None"
proof (induction "length raw" arbitrary: raw s rule: less_induct)
  case less
  show ?case
  proof (cases "cut raw")
    case None
    then show ?thesis using less.prems by (simp add: loop [of raw])
  next
    case (Some n)
    obtain e t where st: "step (take n raw) s = (e, t)" by fastforce
    then have "loop (drop n raw) t = (None, rest, s')" using less.prems Some by (cases e) (auto simp: loop [of raw])
    moreover have "length (drop n raw) < length raw" using cut_bounds [OF Some] by auto
    ultimately show ?thesis using less.hyps by blast
  qed
qed

lemma loop_more:
  assumes "ok (raw @ more)" "loop raw s = (r, rest, s')"
  shows "loop (raw @ more) s = (case r of None \<Rightarrow> loop (rest @ more) s' | Some x \<Rightarrow> (Some x, rest @ more, s'))"
  using assms
proof (induction "length raw" arbitrary: raw s rule: less_induct)
  case less
  show ?case
  proof (cases "cut raw")
    case None
    then show ?thesis using less.prems by (auto simp: loop [of raw])
  next
    case c: (Some n)
    have b: "0 < n" "n \<le> length raw" using cut_bounds [OF c] by auto
    have m: "cut (raw @ more) = Some n" by (rule cut_more [OF less.prems(1) c])
    have o: "ok (drop n raw @ more)" using ok_suffix [of "take n raw"] less.prems(1) by (simp flip: append_assoc)
    obtain e t where st: "step (take n raw) s = (e, t)" by fastforce
    show ?thesis
    proof (cases e)
      case None
      then have l: "loop (drop n raw) t = (r, rest, s')" using less.prems(2) c st by (simp add: loop [of raw])
      have "loop (raw @ more) s = loop (drop n raw @ more) t" using m st None b by (simp add: loop [of "raw @ more"])
      then show ?thesis using less.hyps [OF _ o l] b by simp
    next
      case (Some x)
      then show ?thesis using less.prems(2) c m st b by (auto simp: loop [of raw] loop [of "raw @ more"])
    qed
  qed
qed

lemma read_chunks_whole:
  assumes "ok (raw @ utf8_lossy (pending @ concat bs))" "read_chunks loop bs pending raw s = (r, left, pending', raw', s')"
  shows "loop (raw @ utf8_lossy (pending @ concat bs)) s = (case r of
      None \<Rightarrow> loop (raw' @ decoder_finish pending') s'
    | Some x \<Rightarrow> (Some x, raw' @ utf8_lossy (pending' @ concat left), s'))"
  using assms
proof (induction bs arbitrary: pending raw s)
  case (Cons b bs)
  obtain out p where d: "decoder_push pending b = (out, p)" by fastforce
  obtain e rest t where l: "loop (raw @ out) s = (e, rest, t)" by (metis surj_pair)
  let ?more = "utf8_lossy (p @ concat bs)"
  have w: "raw @ utf8_lossy (pending @ concat (b # bs)) = (raw @ out) @ ?more"
    using push_lossy [OF d, of "concat bs"] by simp
  note m = loop_more [OF Cons.prems(1) [unfolded w] l, folded w]
  obtain q where q: "raw @ out = q @ rest" using loop_suffix [OF l] by blast
  have o: "ok (rest @ ?more)" using ok_suffix [of q "rest @ ?more"] Cons.prems(1) [unfolded w] q by simp
  show ?case
  proof (cases e)
    case None
    then show ?thesis using m Cons.IH [OF o, of t] Cons.prems(2) d l by simp
  next
    case (Some x)
    then show ?thesis using m Cons.prems(2) d l by auto
  qed
qed (simp add: decoder_finish_def)

end

end
