(* ===== verification/Json.thy ===== *)
theory Json imports Rust_Float Sse
begin

section \<open>JSON values\<close>

text \<open>
  The values of \<open>serde_json\<close> that the provider adapters read and build, with the accessors they call: \<open>get\<close> of a
  field or an index, \<open>as_str\<close>, \<open>as_array\<close>, \<open>as_u64\<close>, \<open>as_i64\<close>.  An access of the wrong kind is \<^const>\<open>None\<close>, never an
  error.  The parser and the printer are the library's: a record of two functions; \<open>canonical_json\<close> states of a
  text that it is printed as it was read.
\<close>

datatype json =
    JNull
  | JBool bool
  | JInt int
  | JFloat f64
  | JString string
  | JArray "json list"
  | JObject "(string \<times> json) list"

fun get_field :: "string \<Rightarrow> json \<Rightarrow> json option" where
  "get_field f (JObject kvs) = map_of kvs f"
| "get_field f _ = None"

fun get_first :: "json \<Rightarrow> json option" where
  "get_first (JArray (v # _)) = Some v"
| "get_first _ = None"

fun json_str :: "json \<Rightarrow> string option" where
  "json_str (JString s) = Some s"
| "json_str _ = None"

fun json_array :: "json \<Rightarrow> json list option" where
  "json_array (JArray vs) = Some vs"
| "json_array _ = None"

fun json_u64 :: "json \<Rightarrow> nat option" where
  "json_u64 (JInt i) = (if 0 \<le> i \<and> i < 2 ^ 64 then Some (nat i) else None)"
| "json_u64 _ = None"

fun json_i64 :: "json \<Rightarrow> int option" where
  "json_i64 (JInt i) = (if - (2 ^ 63) \<le> i \<and> i < 2 ^ 63 then Some i else None)"
| "json_i64 _ = None"

text \<open>The chains \<open>get(f).and_then(as_str).unwrap_or(d)\<close> and \<open>get(f).cloned().unwrap_or(Null)\<close>.\<close>

definition str_field :: "string \<Rightarrow> json \<Rightarrow> string option" where [hx_defs]:
  "str_field f v = Option.bind (get_field f v) json_str"

definition str_field_or :: "string \<Rightarrow> string \<Rightarrow> json \<Rightarrow> string" where [hx_defs]:
  "str_field_or d f v = (case str_field f v of Some s \<Rightarrow> s | None \<Rightarrow> d)"

definition field_or_null :: "string \<Rightarrow> json \<Rightarrow> json" where [hx_defs]:
  "field_or_null f v = (case get_field f v of Some w \<Rightarrow> w | None \<Rightarrow> JNull)"

definition number :: "json \<Rightarrow> string \<Rightarrow> nat" where [hx_defs]:
  "number v f = (case Option.bind (get_field f v) json_u64 of Some n \<Rightarrow> n | None \<Rightarrow> 0)"

text \<open>\<open>value[f] = w\<close> on an object.\<close>

fun set_field :: "string \<Rightarrow> json \<Rightarrow> json \<Rightarrow> json" where
  "set_field f w (JObject kvs) = JObject (filter (\<lambda>(k, _). k \<noteq> f) kvs @ [(f, w)])"
| "set_field f w v = v"

lemma get_set_field [simp]: "get_field f (set_field g w (JObject kvs)) = (if f = g then Some w else map_of kvs f)"
proof -
  have "map_of (filter (\<lambda>(k, _). k \<noteq> g) kvs) f = (if f = g then None else map_of kvs f)" by (induction kvs) auto
  then show ?thesis by (simp add: map_add_def split: option.splits)
qed

record json_lib =
  from_str :: "string \<Rightarrow> string + json"
  to_string :: "json \<Rightarrow> string"

text \<open>A text the printer writes and the parser reads back: what the model keeps of a value.\<close>

definition canonical_json :: "json_lib \<Rightarrow> string \<Rightarrow> bool" where
  "canonical_json J t \<longleftrightarrow> (case from_str J t of Inr v \<Rightarrow> to_string J v = t | Inl _ \<Rightarrow> False)"

text \<open>A value the model keeps as its text.\<close>

definition value_of :: "json_lib \<Rightarrow> string \<Rightarrow> json" where [hx_defs]:
  "value_of J t = (case from_str J t of Inr v \<Rightarrow> v | Inl _ \<Rightarrow> JNull)"

text \<open>Arguments as a provider sent them: kept as they are if they do not parse, under a name that says so.\<close>

definition read_arguments :: "json_lib \<Rightarrow> string \<Rightarrow> string" where [hx_defs]:
  "read_arguments J raw = (case from_str J raw of
     Inr v \<Rightarrow> to_string J v
   | Inl _ \<Rightarrow> to_string J (JObject [(''__malformed_arguments'', JString raw)]))"

subsection \<open>The lines of an event\<close>

text \<open>
  Both adapters read the lines of a frame alike: a trailing carriage return is dropped, a comment is skipped, and one
  space after the colon belongs to neither the field nor its value.
\<close>

definition drop_space :: "string \<Rightarrow> string" where [hx_defs]:
  "drop_space s = (case s of c # t \<Rightarrow> if c = CHR '' '' then t else s | [] \<Rightarrow> [])"

definition frame_fields :: "string \<Rightarrow> (string \<times> string) list" where [hx_defs]:
  "frame_fields frame = List.map_filter
     (\<lambda>line. if starts_with (drop_cr line) '':'' then None
             else map_option (\<lambda>(f, v). (f, drop_space v)) (split_once (CHR '':'') (drop_cr line)))
     (str_lines frame)"

definition data_lines :: "string \<Rightarrow> string list" where [hx_defs]:
  "data_lines frame = map snd (filter (\<lambda>(f, _). f = ''data'') (frame_fields frame))"

definition lf2 :: string where [hx_defs]:
  "lf2 = [CHR 0x0A, CHR 0x0A]"

definition crlf2 :: string where [hx_defs]:
  "crlf2 = [CHR 0x0D, CHR 0x0A, CHR 0x0D, CHR 0x0A]"

end
