(* ===== verification/Openai.thy ===== *)
theory Openai imports Json Messages Rust_Net
begin

section \<open>The OpenAI-compatible adapter\<close>

text \<open>
  \<open>crates/hx-provider/src/openai.rs\<close>: the request body, the reading of a reply, whole or as a stream of events, and what
  an HTTP failure means.  The transport is a parameter: a function from the request to what came of it.  The JSON of
  arguments and schemas is kept as its text, as in \<open>Messages\<close>; the temperature and the raw reply are left out.
\<close>

datatype finish_reason = Stop | Length_Limit | Tool_Use | Content_Filter | Other_Reason

record wire_response = chat_response +
  rs_finish :: finish_reason

datatype stream_delta = Delta_Text string | Delta_Reasoning string | Delta_Call string string string

subsection \<open>The request\<close>

definition chat_completions_url :: "string \<Rightarrow> string" where [hx_defs]:
  "chat_completions_url base =
     (let trimmed = trim_end_matches (CHR ''/'') (trim base) in
      if ends_with trimmed ''/chat/completions'' then trimmed else trimmed @ ''/chat/completions'')"

definition tool_body :: "json_lib \<Rightarrow> tool_spec \<Rightarrow> json" where [hx_defs]:
  "tool_body J t = JObject
     [(''type'', JString ''function''),
      (''function'', JObject
        [(''name'', JString (ts_name t)), (''description'', JString (ts_description t)),
         (''parameters'', value_of J (ts_schema t))])]"

text \<open>A part that cannot be sent fails the request: the walk stops at the first.\<close>

fun text_content :: "part list \<Rightarrow> hx_error + string" where
  "text_content [] = Inr []"
| "text_content (Text t # ps) = map_sum (\<lambda>e. e) ((@) t) (text_content ps)"
| "text_content (ToolResult _ _ content # ps) = map_sum (\<lambda>e. e) ((@) content) (text_content ps)"
| "text_content (Image _ _ # ps) =
     Inl (ProviderError ''image inputs are not implemented in the OpenAI-compatible adapter yet'')"
| "text_content (ToolCall _ _ _ # ps) = text_content ps"

fun call_entry :: "part \<Rightarrow> json option" where
  "call_entry (ToolCall i name arguments) = Some (JObject
     [(''id'', JString i), (''type'', JString ''function''),
      (''function'', JObject [(''name'', JString name), (''arguments'', JString arguments)])])"
| "call_entry _ = None"

fun result_entry :: "part \<Rightarrow> json option" where
  "result_entry (ToolResult i _ content) = Some (JObject
     [(''role'', JString ''tool''), (''tool_call_id'', JString i), (''content'', JString content)])"
| "result_entry _ = None"

definition assistant_entry :: "message \<Rightarrow> json" where [hx_defs]:
  "assistant_entry m =
     (let calls = List.map_filter call_entry (tool_calls m);
          entry = JObject [(''role'', JString ''assistant''),
            (''content'', if message_text m = [] then JNull else JString (message_text m))]
      in if calls = [] then entry else set_field ''tool_calls'' (JArray calls) entry)"

definition wire_message :: "message \<Rightarrow> hx_error + json list" where [hx_defs]:
  "wire_message m = (case msg_role m of
     System \<Rightarrow> Inr [JObject [(''role'', JString ''system''), (''content'', JString (message_text m))]]
   | User \<Rightarrow> (case text_content (msg_parts m) of
       Inl e \<Rightarrow> Inl e
     | Inr t \<Rightarrow> Inr [JObject [(''role'', JString ''user''), (''content'', JString t)]])
   | Assistant \<Rightarrow> Inr [assistant_entry m]
   | Tool \<Rightarrow> Inr (List.map_filter result_entry (msg_parts m)))"

fun wire_messages :: "message list \<Rightarrow> hx_error + json list" where
  "wire_messages [] = Inr []"
| "wire_messages (m # ms) = (case wire_message m of
     Inl e \<Rightarrow> Inl e
   | Inr es \<Rightarrow> map_sum (\<lambda>e. e) ((@) es) (wire_messages ms))"

fun effort_text :: "reasoning_effort \<Rightarrow> string" where
  "effort_text LowEffort = ''low''"
| "effort_text MediumEffort = ''medium''"
| "effort_text HighEffort = ''high''"

definition build_body :: "json_lib \<Rightarrow> chat_request \<Rightarrow> hx_error + json" where [hx_defs]:
  "build_body J req = (case wire_messages (cr_messages req) of
     Inl e \<Rightarrow> Inl e
   | Inr es \<Rightarrow>
      (let messages = (case cr_system req of
             Some s \<Rightarrow> [JObject [(''role'', JString ''system''), (''content'', JString s)]] | None \<Rightarrow> []) @ es;
           body = JObject [(''model'', JString (cr_model req)), (''messages'', JArray messages),
             (''max_tokens'', JInt (int (cr_max_tokens req))), (''stream'', JBool False)];
           body = (if cr_tools req = [] then body
             else set_field ''tools'' (JArray (map (tool_body J) (cr_tools req))) body)
       in Inr (case cr_reasoning_effort req of
            Some effort \<Rightarrow> set_field ''reasoning_effort'' (JString (effort_text effort)) body
          | None \<Rightarrow> body)))"

definition stream_body :: "json_lib \<Rightarrow> chat_request \<Rightarrow> hx_error + json" where [hx_defs]:
  "stream_body J req = map_sum (\<lambda>e. e)
     (\<lambda>body. set_field ''stream_options'' (JObject [(''include_usage'', JBool True)]) (set_field ''stream'' (JBool True) body))
     (build_body J req)"

subsection \<open>Tool calls in fragments\<close>

record raw_call =
  rc_id :: string
  rc_name :: string
  rc_arguments :: string

definition fragment_name :: "json \<Rightarrow> string" where [hx_defs]:
  "fragment_name call = (case Option.bind (get_field ''function'' call) (str_field ''name'') of Some s \<Rightarrow> s | None \<Rightarrow> [])"

definition fragment_arguments :: "json \<Rightarrow> string" where [hx_defs]:
  "fragment_arguments call =
     (case Option.bind (get_field ''function'' call) (str_field ''arguments'') of Some s \<Rightarrow> s | None \<Rightarrow> [])"

definition fragment_index :: "json \<Rightarrow> nat option" where [hx_defs]:
  "fragment_index call = Option.bind (get_field ''index'' call) json_u64"

text \<open>One fragment: the call it extends, or a new one.  \<open>by_index\<close> has the places of the indices seen.\<close>

definition merge_fragment :: "json \<Rightarrow> raw_call list \<times> (nat \<times> nat) list \<Rightarrow> raw_call list \<times> (nat \<times> nat) list" where [hx_defs]:
  "merge_fragment call st = (case st of (merged, by_index) \<Rightarrow>
     (let i = str_field_or [] ''id'' call; name = fragment_name call; arguments = fragment_arguments call;
          target = (case fragment_index call of
              Some index \<Rightarrow> map_of by_index index
            | None \<Rightarrow> if name = [] \<and> i = [] \<and> merged \<noteq> [] then Some (length merged - 1) else None)
      in (case target of
            Some k \<Rightarrow> (merged[k := (merged ! k)\<lparr>rc_arguments := rc_arguments (merged ! k) @ arguments\<rparr>], by_index)
          | None \<Rightarrow> (merged @ [\<lparr>rc_id = i, rc_name = name, rc_arguments = arguments\<rparr>],
              (case fragment_index call of Some index \<Rightarrow> by_index @ [(index, length merged)] | None \<Rightarrow> by_index)))))"

definition merge_tool_call_fragments :: "json list \<Rightarrow> raw_call list" where [hx_defs]:
  "merge_tool_call_fragments calls = fst (fold merge_fragment calls ([], []))"

subsection \<open>A whole reply\<close>

definition ellipsis :: string where [hx_defs]:
  "ellipsis = [CHR 0xE2, CHR 0x80, CHR 0xA6]"

definition error_body_limit :: nat where [hx_defs]:
  "error_body_limit = 512"

definition truncate_body :: "string \<Rightarrow> string" where [hx_defs]:
  "truncate_body s = (let trimmed = trim s in
     if char_count trimmed \<le> error_body_limit then trimmed
     else first_chars error_body_limit trimmed @ ellipsis @ '' ('' @ show_nat (char_count trimmed - error_body_limit)
            @ '' more characters)'')"

fun reply_calls :: "json_lib \<Rightarrow> raw_call list \<Rightarrow> hx_error + part list" where
  "reply_calls J [] = Inr []"
| "reply_calls J (c # cs) =
     (if rc_id c = [] then Inl (ProviderError ''a tool call arrived without an id'')
      else if rc_name c = [] then Inl (ProviderError (''tool call '' @ rc_id c @ '' arrived without a function name''))
      else map_sum (\<lambda>e. e) ((#) (ToolCall (rc_id c) (rc_name c) (read_arguments J (rc_arguments c)))) (reply_calls J cs))"

definition text_parts :: "string \<Rightarrow> part list" where [hx_defs]:
  "text_parts t = (if t = [] then [] else [Text t])"

definition read_finish :: "string \<Rightarrow> finish_reason" where [hx_defs]:
  "read_finish s =
     (if s = ''stop'' then Stop else if s = ''length'' then Length_Limit
      else if s = ''tool_calls'' \<or> s = ''function_call'' then Tool_Use
      else if s = ''content_filter'' then Content_Filter else Other_Reason)"

definition reply_usage :: "json \<Rightarrow> usage" where [hx_defs]:
  "reply_usage u =
     \<lparr>input_tokens = number u ''prompt_tokens'', output_tokens = number u ''completion_tokens'',
      cached_input_tokens = number (field_or_null ''prompt_tokens_details'' u) ''cached_tokens'',
      reasoning_tokens = number (field_or_null ''completion_tokens_details'' u) ''reasoning_tokens''\<rparr>"

definition parse_response :: "json_lib \<Rightarrow> json \<Rightarrow> string \<Rightarrow> hx_error + wire_response" where [hx_defs]:
  "parse_response J body requested =
     (case Option.bind (get_field ''choices'' body) get_first of
        None \<Rightarrow> Inl (ProviderError (''the response contained no choices: '' @ truncate_body (to_string J body)))
      | Some choice \<Rightarrow>
     (let message = field_or_null ''message'' choice in
     (case (case Option.bind (get_field ''tool_calls'' message) json_array of
              Some calls \<Rightarrow> reply_calls J (merge_tool_call_fragments calls)
            | None \<Rightarrow> Inr []) of
        Inl e \<Rightarrow> Inl e
      | Inr calls \<Rightarrow>
          (let parts = text_parts (str_field_or [] ''content'' message) @ calls in
           if parts = [] then Inl (ProviderError ''the model returned neither text nor a tool call'')
           else Inr \<lparr>rs_message = new_message Assistant parts,
                  rs_usage = reply_usage (field_or_null ''usage'' body),
                  rs_model = str_field_or requested ''model'' body,
                  rs_finish = read_finish (str_field_or ''stop'' ''finish_reason'' choice)\<rparr>))))"

definition classify_error :: "string \<Rightarrow> nat \<Rightarrow> nat option \<Rightarrow> string \<Rightarrow> hx_error" where [hx_defs]:
  "classify_error pid status retry_after body =
     (let detail = truncate_body body in
      if status = 429 then RateLimited pid (min ((case retry_after of Some s \<Rightarrow> s | None \<Rightarrow> 60) * 1000) (2 ^ 64 - 1))
      else if status = 401 \<or> status = 403
      then ProviderAuth pid (''HTTP '' @ show_nat status @ '' '' @ em_dash @ '' the credential was refused: '' @ detail)
      else if status = 404
      then ProviderError (pid @ '': HTTP 404 '' @ em_dash @ '' the model or the base URL is wrong: '' @ detail)
      else if status = 400 \<or> status = 422
      then ProviderRejected pid (''the request was rejected (HTTP '' @ show_nat status @ ''): '' @ detail)
      else ProviderError (pid @ '': HTTP '' @ show_nat status @ '': '' @ detail))"

subsection \<open>Calls over HTTP\<close>

text \<open>
  What reaches the network and what comes back.  A transport failure carries the text of the library's error; the text of
  a body can fail to be read, and its chunks end with an error if the connection breaks.
\<close>

record http_request =
  hq_url :: string
  hq_headers :: "(string \<times> string) list"
  hq_body :: json

record http_reply =
  hr_status :: nat
  hr_retry_after :: "string option"
  hr_text :: "string + string"
  hr_chunks :: "(string + string) list"

datatype transport = Timed_Out string | Unreachable string | Answered http_reply

record endpoint =
  ep_id :: string
  ep_models :: "string list"
  ep_base_url :: string
  ep_send_auth :: bool

definition new_endpoint :: "string \<Rightarrow> string \<Rightarrow> string list \<Rightarrow> endpoint" where [hx_defs]:
  "new_endpoint pid base models = \<lparr>ep_id = pid, ep_models = models, ep_base_url = base, ep_send_auth = True\<rparr>"

definition without_auth :: "endpoint \<Rightarrow> endpoint" where [hx_defs]:
  "without_auth ep = ep\<lparr>ep_send_auth := False\<rparr>"

definition is_success :: "http_reply \<Rightarrow> bool" where [hx_defs]:
  "is_success r \<longleftrightarrow> 200 \<le> hr_status r \<and> hr_status r < 300"

definition retry_after :: "http_reply \<Rightarrow> nat option" where [hx_defs]:
  "retry_after r = Option.bind (hr_retry_after r) (\<lambda>v. parse_unsigned (2 ^ 64 - 1) (trim v))"

definition sent_request :: "string \<Rightarrow> (http_request \<Rightarrow> transport) \<Rightarrow> http_request \<Rightarrow> hx_error + http_reply" where [hx_defs]:
  "sent_request pid net rq = (case net rq of
     Timed_Out err \<Rightarrow> Inl (ProviderError (pid @ '': request to '' @ hq_url rq @ '' timed out after '' @ err))
   | Unreachable err \<Rightarrow> Inl (ProviderError (pid @ '': could not reach '' @ hq_url rq @ '': '' @ err))
   | Answered r \<Rightarrow> Inr r)"

definition body_text :: "string \<Rightarrow> http_reply \<Rightarrow> string" where [hx_defs]:
  "body_text excuse r = (case hr_text r of Inr t \<Rightarrow> t | Inl err \<Rightarrow> ''<'' @ excuse @ '': '' @ err @ ''>'')"

definition auth_header :: "endpoint \<Rightarrow> string \<Rightarrow> (string \<times> string) list" where [hx_defs]:
  "auth_header ep key = (if ep_send_auth ep then [(''authorization'', ''Bearer '' @ key)] else [])"

definition complete_raw :: "json_lib \<Rightarrow> endpoint \<Rightarrow> (http_request \<Rightarrow> transport) \<Rightarrow> string \<Rightarrow> chat_request \<Rightarrow> hx_error + wire_response" where [hx_defs]:
  "complete_raw J ep net key req =
     (case build_body J req of
        Inl e \<Rightarrow> Inl e
      | Inr body \<Rightarrow>
     (case sent_request (ep_id ep) net
          \<lparr>hq_url = chat_completions_url (ep_base_url ep),
           hq_headers = [(''content-type'', ''application/json''), (''accept'', ''application/json'')] @ auth_header ep key,
           hq_body = body\<rparr> of
        Inl e \<Rightarrow> Inl e
      | Inr r \<Rightarrow>
     (let t = body_text ''the response body could not be read'' r in
      if \<not> is_success r then Inl (classify_error (ep_id ep) (hr_status r) (retry_after r) t)
      else (case from_str J t of
          Inl err \<Rightarrow> Inl (ProviderError (ep_id ep @ '': the response was not JSON ('' @ err @ ''); body: '' @ truncate_body t))
        | Inr parsed \<Rightarrow> parse_response J parsed (cr_model req)))))"

text \<open>The default \<open>stream\<close> of a provider replays a whole reply: a text, then each call.\<close>

definition replayed :: "wire_response \<Rightarrow> stream_delta list" where [hx_defs]:
  "replayed r = (if message_text (rs_message r) = [] then [] else [Delta_Text (message_text (rs_message r))])
     @ List.map_filter (\<lambda>p. case p of ToolCall i name arguments \<Rightarrow> Some (Delta_Call i name arguments) | _ \<Rightarrow> None)
         (tool_calls (rs_message r))"

end
