(* ===== verification/Openai_Facts.thy ===== *)
theory Openai_Facts imports Openai
begin

section \<open>Requests, replies and fragments of the OpenAI-compatible adapter\<close>

text \<open>
  Fragments of tool calls are put together by their index, whatever the order they come in; an assistant turn that is sent
  reads back as the same turn; and what an HTTP failure tells the pools.
\<close>

subsection \<open>Fragments\<close>

text \<open>The indices in the order they are first seen.\<close>

definition first_seen :: "nat list \<Rightarrow> nat list" where
  "first_seen is = fold (\<lambda>i seen. if i \<in> set seen then seen else seen @ [i]) is []"

lemma first_seen_snoc [simp]: "first_seen (is @ [i]) = (if i \<in> set (first_seen is) then first_seen is else first_seen is @ [i])"
  by (simp add: first_seen_def)

lemma set_first_seen [simp]: "set (first_seen is) = set is"
  by (induction "is" rule: rev_induct) (auto simp: first_seen_def [of "[]"])

lemma distinct_first_seen [simp]: "distinct (first_seen is)"
  by (induction "is" rule: rev_induct) (auto simp: first_seen_def [of "[]"])

definition index_of :: "json \<Rightarrow> nat" where
  "index_of f = the (fragment_index f)"

text \<open>The call with an index: the identifier and the name of its first fragment, the arguments of all in order.\<close>

definition call_at :: "json list \<Rightarrow> nat \<Rightarrow> raw_call" where
  "call_at fs i = (let own = filter (\<lambda>f. index_of f = i) fs in
     \<lparr>rc_id = str_field_or [] ''id'' (hd own), rc_name = fragment_name (hd own), rc_arguments = concat (map fragment_arguments own)\<rparr>)"

lemma call_at_other: "index_of f \<noteq> i \<Longrightarrow> call_at (fs @ [f]) i = call_at fs i"
  by (simp add: call_at_def)

lemma call_at_first: "i \<notin> index_of ` set fs \<Longrightarrow> index_of f = i
    \<Longrightarrow> call_at (fs @ [f]) i = \<lparr>rc_id = str_field_or [] ''id'' f, rc_name = fragment_name f, rc_arguments = fragment_arguments f\<rparr>"
proof -
  assume "i \<notin> index_of ` set fs" "index_of f = i"
  moreover then have "filter (\<lambda>f. index_of f = i) fs = []" by (auto simp: filter_empty_conv image_iff)
  ultimately show ?thesis by (simp add: call_at_def)
qed

lemma call_at_more: "i \<in> index_of ` set fs \<Longrightarrow> index_of f = i
    \<Longrightarrow> call_at (fs @ [f]) i = (call_at fs i)\<lparr>rc_arguments := rc_arguments (call_at fs i) @ fragment_arguments f\<rparr>"
proof -
  assume "i \<in> index_of ` set fs" "index_of f = i"
  moreover then have "filter (\<lambda>f. index_of f = i) fs \<noteq> []" by (auto simp: filter_empty_conv)
  ultimately show ?thesis by (simp add: call_at_def Let_def)
qed

lemma map_of_zip_nth: "distinct xs \<Longrightarrow> k < length xs \<Longrightarrow> map_of (zip xs [0..<length xs]) (xs ! k) = Some k"
  by (simp add: map_of_zip_nth)

lemma map_of_zip_None: "x \<notin> set xs \<Longrightarrow> map_of (zip xs [0..<length xs]) x = None"
  by (auto simp: map_of_eq_None_iff dest: set_zip_leftD)

lemma merge_fragment_indexed: "fragment_index f = Some i \<Longrightarrow> merge_fragment f (merged, by_index) = (case map_of by_index i of
    Some k \<Rightarrow> (merged[k := (merged ! k)\<lparr>rc_arguments := rc_arguments (merged ! k) @ fragment_arguments f\<rparr>], by_index)
  | None \<Rightarrow> (merged @ [\<lparr>rc_id = str_field_or [] ''id'' f, rc_name = fragment_name f, rc_arguments = fragment_arguments f\<rparr>],
      by_index @ [(i, length merged)]))"
  by (simp add: merge_fragment_def Let_def split: option.splits)

lemma merge_fragment_whole: "fragment_index f = None \<Longrightarrow> fragment_name f \<noteq> [] \<or> str_field_or [] ''id'' f \<noteq> []
    \<Longrightarrow> merge_fragment f (merged, by_index)
      = (merged @ [\<lparr>rc_id = str_field_or [] ''id'' f, rc_name = fragment_name f, rc_arguments = fragment_arguments f\<rparr>], by_index)"
  by (auto simp: merge_fragment_def Let_def)

lemma merge_state:
  assumes "\<forall>f \<in> set fs. fragment_index f \<noteq> None"
  shows "fold merge_fragment fs ([], []) =
    (map (call_at fs) (first_seen (map index_of fs)),
     zip (first_seen (map index_of fs)) [0..<length (first_seen (map index_of fs))])"
  using assms
proof (induction fs rule: rev_induct)
  case Nil
  then show ?case by (simp add: first_seen_def)
next
  case (snoc f fs)
  let ?s = "first_seen (map index_of fs)"
  have i: "fragment_index f = Some (index_of f)" using snoc.prems by (auto simp: index_of_def)
  have IH: "fold merge_fragment fs ([], []) = (map (call_at fs) ?s, zip ?s [0..<length ?s])" using snoc by simp
  show ?case
  proof (cases "index_of f \<in> set ?s")
    case True
    then obtain k where k: "k < length ?s" "?s ! k = index_of f" by (meson in_set_conv_nth)
    have t: "map_of (zip ?s [0..<length ?s]) (index_of f) = Some k"
      using map_of_zip_nth [OF distinct_first_seen k(1)] k(2) by simp
    have "(map (call_at fs) ?s)[k := (call_at fs (index_of f))\<lparr>rc_arguments := rc_arguments (call_at fs (index_of f)) @ fragment_arguments f\<rparr>]
        = map (call_at (fs @ [f])) ?s"
    proof (rule nth_equalityI)
      fix j assume "j < length ((map (call_at fs) ?s)[k := (call_at fs (index_of f))\<lparr>rc_arguments := rc_arguments (call_at fs (index_of f)) @ fragment_arguments f\<rparr>])"
      then have j: "j < length ?s" by simp
      show "(map (call_at fs) ?s)[k := (call_at fs (index_of f))\<lparr>rc_arguments := rc_arguments (call_at fs (index_of f)) @ fragment_arguments f\<rparr>] ! j
          = map (call_at (fs @ [f])) ?s ! j"
      proof (cases "j = k")
        case True
        then show ?thesis using j k \<open>index_of f \<in> set ?s\<close> call_at_more [of "index_of f" fs f] by simp
      next
        case False
        then have "?s ! j \<noteq> index_of f" using j k distinct_first_seen nth_eq_iff_index_eq by metis
        then show ?thesis using j False call_at_other [of f "?s ! j" fs] by simp
      qed
    qed simp
    then show ?thesis using IH merge_fragment_indexed [OF i] t k True by simp
  next
    case False
    have t: "map_of (zip ?s [0..<length ?s]) (index_of f) = None" by (rule map_of_zip_None [OF False])
    have "map (call_at (fs @ [f])) ?s = map (call_at fs) ?s"
      using False by (intro map_cong refl call_at_other) auto
    moreover have "call_at (fs @ [f]) (index_of f)
        = \<lparr>rc_id = str_field_or [] ''id'' f, rc_name = fragment_name f, rc_arguments = fragment_arguments f\<rparr>"
      using False by (intro call_at_first) auto
    moreover have "merge_fragment f (map (call_at fs) ?s, zip ?s [0..<length ?s])
        = (map (call_at fs) ?s @ [\<lparr>rc_id = str_field_or [] ''id'' f, rc_name = fragment_name f, rc_arguments = fragment_arguments f\<rparr>],
           zip ?s [0..<length ?s] @ [(index_of f, length ?s)])"
      by (simp only: merge_fragment_indexed [OF i] t option.case length_map)
    ultimately show ?thesis using IH False by simp
  qed
qed

text \<open>C37. Tool calls come together whatever way a provider cuts and interleaves them: if every fragment has an index, there is one
  call for each index, in the order the indices are first seen, with the identifier and the name of its first
  fragment and the arguments of all its fragments in order.
\<close>

theorem fragments_join_by_index:
  assumes "\<forall>f \<in> set fs. fragment_index f \<noteq> None"
  shows "merge_tool_call_fragments fs = map (call_at fs) (first_seen (map index_of fs))"
  using merge_state [OF assms] by (simp add: merge_tool_call_fragments_def)

definition fragment :: "nat \<Rightarrow> string \<Rightarrow> string \<Rightarrow> string \<Rightarrow> json" where
  "fragment i k name args = JObject [(''index'', JInt (int i)), (''id'', JString k),
     (''function'', JObject [(''name'', JString name), (''arguments'', JString args)])]"

text \<open>Witness: two calls, interleaved.\<close>

lemma fragments_join_by_index_witness:
  "merge_tool_call_fragments [fragment 1 ''b'' ''ls'' ''x'', fragment 0 ''a'' ''cat'' ''y'', fragment 1 [] [] ''z'', fragment 0 [] [] ''w'']
   = [\<lparr>rc_id = ''b'', rc_name = ''ls'', rc_arguments = ''xz''\<rparr>, \<lparr>rc_id = ''a'', rc_name = ''cat'', rc_arguments = ''yw''\<rparr>]"
proof -
  let ?fs = "[fragment 1 ''b'' ''ls'' ''x'', fragment 0 ''a'' ''cat'' ''y'', fragment 1 [] [] ''z'', fragment 0 [] [] ''w'']"
  have "fragment_index (fragment 1 k n a) = Some 1" "fragment_index (fragment 0 k n a) = Some 0" for k n a
    by (simp_all add: fragment_index_def fragment_def)
  then have i: "\<forall>f \<in> set ?fs. fragment_index f \<noteq> None" by simp
  have "map (call_at ?fs) (first_seen (map index_of ?fs))
      = [\<lparr>rc_id = ''b'', rc_name = ''ls'', rc_arguments = ''xz''\<rparr>, \<lparr>rc_id = ''a'', rc_name = ''cat'', rc_arguments = ''yw''\<rparr>]"
    by (simp add: first_seen_def call_at_def index_of_def fragment_index_def fragment_def str_field_or_def str_field_def
        fragment_name_def fragment_arguments_def)
  then show ?thesis using fragments_join_by_index [OF i] by simp
qed

subsection \<open>An assistant turn, sent and read back\<close>

lemma merge_whole_calls:
  assumes "\<forall>f \<in> set fs. fragment_index f = None \<and> (fragment_name f \<noteq> [] \<or> str_field_or [] ''id'' f \<noteq> [])"
  shows "merge_tool_call_fragments fs
    = map (\<lambda>f. \<lparr>rc_id = str_field_or [] ''id'' f, rc_name = fragment_name f, rc_arguments = fragment_arguments f\<rparr>) fs"
proof -
  have "fold merge_fragment fs ([], [])
      = (map (\<lambda>f. \<lparr>rc_id = str_field_or [] ''id'' f, rc_name = fragment_name f, rc_arguments = fragment_arguments f\<rparr>) fs, [])"
    using assms
  proof (induction fs rule: rev_induct)
    case (snoc f fs)
    then have "fold merge_fragment fs ([], []) =
        (map (\<lambda>f. \<lparr>rc_id = str_field_or [] ''id'' f, rc_name = fragment_name f, rc_arguments = fragment_arguments f\<rparr>) fs, [])" by simp
    moreover have "fragment_index f = None" "fragment_name f \<noteq> [] \<or> str_field_or [] ''id'' f \<noteq> []" using snoc.prems by auto
    ultimately show ?case by (simp add: merge_fragment_whole)
  qed simp
  then show ?thesis by (simp add: merge_tool_call_fragments_def)
qed

definition sound_call :: "json_lib \<Rightarrow> part \<Rightarrow> bool" where
  "sound_call J p = (case p of ToolCall i name arguments \<Rightarrow> i \<noteq> [] \<and> name \<noteq> [] \<and> canonical_json J arguments | _ \<Rightarrow> False)"

lemma sound_entry:
  assumes "sound_call J p"
  shows "call_entry p = Some (the (call_entry p))" "fragment_index (the (call_entry p)) = None" "fragment_name (the (call_entry p)) \<noteq> []"
    "\<lparr>rc_id = str_field_or [] ''id'' (the (call_entry p)), rc_name = fragment_name (the (call_entry p)),
       rc_arguments = fragment_arguments (the (call_entry p))\<rparr>
     = (case p of ToolCall i name arguments \<Rightarrow> \<lparr>rc_id = i, rc_name = name, rc_arguments = arguments\<rparr>)"
  using assms by (cases p; simp add: sound_call_def str_field_or_def str_field_def fragment_name_def fragment_arguments_def
      fragment_index_def)+

lemma call_entries_merge:
  assumes "\<forall>p \<in> set ps. sound_call J p"
  shows "merge_tool_call_fragments (List.map_filter call_entry ps)
    = map (\<lambda>p. case p of ToolCall i name arguments \<Rightarrow> \<lparr>rc_id = i, rc_name = name, rc_arguments = arguments\<rparr>) ps"
proof -
  have e: "List.map_filter call_entry ps = map (\<lambda>p. the (call_entry p)) ps"
    using assms
  proof (induction ps)
    case (Cons p ps)
    then show ?case using sound_entry(1) [of J p] by (auto simp: map_filter_simps option.case_eq_if intro: exI [of _ "the (call_entry p)"])
  qed (simp add: map_filter_simps)
  have "\<forall>f \<in> set (map (\<lambda>p. the (call_entry p)) ps). fragment_index f = None \<and> (fragment_name f \<noteq> [] \<or> str_field_or [] ''id'' f \<noteq> [])"
    using assms sound_entry(2,3) by auto
  from merge_whole_calls [OF this] show ?thesis
    using assms by (auto simp: e intro!: sound_entry(4))
qed

lemma reply_calls_sound:
  "\<forall>p \<in> set ps. sound_call J p \<Longrightarrow> reply_calls J
     (map (\<lambda>p. case p of ToolCall i name arguments \<Rightarrow> \<lparr>rc_id = i, rc_name = name, rc_arguments = arguments\<rparr>) ps) = Inr ps"
  by (induction ps) (auto simp: sound_call_def canonical_json_def read_arguments_def split: part.splits sum.splits)

text \<open>The reply a provider would send with an entry of a request as its message.\<close>

definition as_reply :: "json \<Rightarrow> json" where
  "as_reply entry = JObject [(''choices'', JArray [JObject [(''message'', entry)]])]"

text \<open>C36. What was said reads back: the entry of an assistant turn in a request, read as a reply, is the turn: its text, and its
  tool calls in order, with their identifiers, names and arguments, and no call is lost or merged with another.
\<close>

theorem sent_turn_reads_back:
  assumes "\<forall>p \<in> set (tool_calls m). sound_call J p" "message_text m \<noteq> [] \<or> tool_calls m \<noteq> []"
  shows "\<exists>r. parse_response J (as_reply (assistant_entry m)) requested = Inr r
    \<and> msg_role (rs_message r) = Assistant \<and> msg_parts (rs_message r) = text_parts (message_text m) @ tool_calls m"
proof -
  let ?cs = "List.map_filter call_entry (tool_calls m)"
  have c: "?cs = [] \<longleftrightarrow> tool_calls m = []"
    using assms(1) by (cases "tool_calls m") (auto simp: map_filter_simps sound_call_def split: part.splits)
  have t: "str_field_or [] ''content'' (assistant_entry m) = message_text m"
    by (simp add: assistant_entry_def Let_def str_field_or_def str_field_def)
  have a: "Option.bind (get_field ''tool_calls'' (assistant_entry m)) json_array = (if ?cs = [] then None else Some ?cs)"
    by (simp add: assistant_entry_def Let_def)
  have m: "reply_calls J (merge_tool_call_fragments ?cs) = Inr (tool_calls m)"
    using call_entries_merge [OF assms(1)] reply_calls_sound [OF assms(1)] by simp
  have "field_or_null ''message'' (JObject [(''message'', assistant_entry m)]) = assistant_entry m" by (simp add: field_or_null_def)
  moreover have "text_parts (message_text m) @ tool_calls m \<noteq> []" using assms(2) by (auto simp: text_parts_def)
  ultimately show ?thesis using t a m c
    by (cases "?cs = []") (auto simp: parse_response_def as_reply_def new_message_def text_parts_def Let_def)
qed

definition plain_json :: json_lib where
  "plain_json = \<lparr>from_str = (\<lambda>t. Inr (JString t)), to_string = (\<lambda>v. case v of JString t \<Rightarrow> t | _ \<Rightarrow> [])\<rparr>"

text \<open>Witness: a turn of text and two calls.\<close>

lemma sent_turn_reads_back_witness:
  "\<exists>r. parse_response plain_json (as_reply (assistant_entry (new_message Assistant [Text ''hi'', ToolCall ''a'' ''ls'' ''1'', ToolCall ''b'' ''cat'' ''2'']))) ''m'' = Inr r
     \<and> msg_parts (rs_message r) = [Text ''hi'', ToolCall ''a'' ''ls'' ''1'', ToolCall ''b'' ''cat'' ''2'']"
proof -
  let ?m = "new_message Assistant [Text ''hi'', ToolCall ''a'' ''ls'' ''1'', ToolCall ''b'' ''cat'' ''2'']"
  have "tool_calls ?m = [ToolCall ''a'' ''ls'' ''1'', ToolCall ''b'' ''cat'' ''2'']" "message_text ?m = ''hi''"
    by (simp_all add: tool_calls_def message_text_def new_message_def)
  moreover have "sound_call plain_json (ToolCall ''a'' ''ls'' ''1'')" "sound_call plain_json (ToolCall ''b'' ''cat'' ''2'')"
    by (simp_all add: sound_call_def canonical_json_def plain_json_def)
  ultimately show ?thesis using sent_turn_reads_back [of ?m plain_json "''m''"] by (auto simp: text_parts_def)
qed

text \<open>Text after a call does not keep its place: the reply has all the text first.\<close>

lemma text_moves_before_calls:
  "map_sum (\<lambda>e. e) (msg_parts \<circ> rs_message)
     (parse_response plain_json (as_reply (assistant_entry (new_message Assistant [ToolCall ''a'' ''ls'' ''1'', Text ''hi'']))) ''m'')
   = Inr [Text ''hi'', ToolCall ''a'' ''ls'' ''1'']"
  by code_simp

subsection \<open>What a failure tells the pools\<close>

text \<open>Only a refused credential is an authentication failure; a wait never wraps.\<close>

lemma classify_error_auth: "is_auth_failure (classify_error pid status ra body) \<longleftrightarrow> status = 401 \<or> status = 403"
  by (auto simp: classify_error_def Let_def)

lemma classify_error_wait: "classify_error pid status ra body = RateLimited scope ms \<Longrightarrow> status = 429 \<and> ms < 2 ^ 64"
  by (auto simp: classify_error_def Let_def split: if_splits)

end
