(* ===== verification/Openai_Stream.thy ===== *)
theory Openai_Stream imports Openai
begin

section \<open>The stream of the OpenAI-compatible adapter\<close>

text \<open>
  The events of \<open>crates/hx-provider/src/openai.rs\<close>: framing, the accumulator, the loop of \<open>stream\<close>, and the reply that is
  put together at its end.  The sink of the deltas may fail; it is a function of the number of the delta and the
  delta.  A body is a sequence of chunks, the last of which may be a broken connection.
\<close>

subsection \<open>Events\<close>

datatype sse_event = Sse_Data string | Sse_Done

definition parse_sse_frame :: "string \<Rightarrow> sse_event" where [hx_defs]:
  "parse_sse_frame frame =
     (let payload = join [CHR 0x0A] (data_lines frame) in
      if trim payload = ''[DONE]'' then Sse_Done else Sse_Data payload)"

definition event_end :: "string \<Rightarrow> nat option" where [hx_defs]:
  "event_end raw = (case (find_str lf2 raw, find_str crlf2 raw) of
     (Some a, Some b) \<Rightarrow> Some (if a < b then a + 2 else b + 4)
   | (Some a, None) \<Rightarrow> Some (a + 2)
   | (None, Some b) \<Rightarrow> Some (b + 4)
   | (None, None) \<Rightarrow> None)"

definition take_sse_event :: "string \<Rightarrow> sse_event option \<times> string" where [hx_defs]:
  "take_sse_event raw = (case event_end raw of
     None \<Rightarrow> (None, raw)
   | Some n \<Rightarrow> (Some (parse_sse_frame (take n raw)), drop n raw))"

definition take_trailing_sse_event :: "string \<Rightarrow> sse_event option" where [hx_defs]:
  "take_trailing_sse_event raw =
     (if list_ex (\<lambda>line. starts_with (drop_cr line) ''data:'') (str_lines raw) then Some (parse_sse_frame raw) else None)"

lemma starts_with_length: "starts_with s p \<Longrightarrow> length p \<le> length s"
  by (auto simp: starts_with_iff)

lemma find_str_bounds: "find_str p s = Some i \<Longrightarrow> i + length p \<le> length s"
proof (induction s arbitrary: i)
  case (Cons c s)
  then show ?case using starts_with_length [of "c # s" p] by (auto split: if_splits)
qed (auto split: if_splits)

lemma event_end_bounds: "event_end raw = Some n \<Longrightarrow> 0 < n \<and> n \<le> length raw"
  by (auto simp: event_end_def lf2_def crlf2_def split: option.splits if_splits dest: find_str_bounds)

lemma take_sse_event_shorter: "take_sse_event raw = (Some e, rest) \<Longrightarrow> length rest < length raw"
  using event_end_bounds [of raw] by (auto simp: take_sse_event_def split: option.splits)

subsection \<open>The accumulator\<close>

record openai_acc =
  oa_text :: string
  oa_reasoning :: string
  oa_calls :: "json list"
  oa_tool_use :: bool
  oa_usage :: usage

definition zero_usage :: usage where [hx_defs]:
  "zero_usage = \<lparr>input_tokens = 0, output_tokens = 0, cached_input_tokens = 0, reasoning_tokens = 0\<rparr>"

definition new_openai_acc :: openai_acc where [hx_defs]:
  "new_openai_acc = \<lparr>oa_text = [], oa_reasoning = [], oa_calls = [], oa_tool_use = False, oa_usage = zero_usage\<rparr>"

definition merge_stream_usage :: "usage \<Rightarrow> json \<Rightarrow> usage" where [hx_defs]:
  "merge_stream_usage into r =
     \<lparr>input_tokens = max (input_tokens into) (number r ''prompt_tokens''),
      output_tokens = max (output_tokens into) (number r ''completion_tokens''),
      cached_input_tokens = max (max (cached_input_tokens into) (number r ''cached_tokens''))
        (number (field_or_null ''prompt_tokens_details'' r) ''cached_tokens''),
      reasoning_tokens = max (max (reasoning_tokens into) (number r ''reasoning_tokens''))
        (number (field_or_null ''completion_tokens_details'' r) ''reasoning_tokens'')\<rparr>"

definition delta_field :: "string \<Rightarrow> json \<Rightarrow> json option" where [hx_defs]:
  "delta_field f choice = Option.bind (get_field ''delta'' choice) (get_field f)"

definition finished_calls :: "json_lib \<Rightarrow> json list \<Rightarrow> stream_delta list" where [hx_defs]:
  "finished_calls J calls =
     map (\<lambda>c. Delta_Call (rc_id c) (rc_name c) (read_arguments J (rc_arguments c)))
       (filter (\<lambda>c. rc_id c \<noteq> [] \<and> rc_name c \<noteq> []) (merge_tool_call_fragments calls))"

definition add_text :: "json \<Rightarrow> openai_acc \<Rightarrow> stream_delta list \<times> openai_acc" where [hx_defs]:
  "add_text choice acc = (case Option.bind (delta_field ''content'' choice) json_str of
     Some t \<Rightarrow> if t = [] then ([], acc) else ([Delta_Text t], acc\<lparr>oa_text := oa_text acc @ t\<rparr>)
   | None \<Rightarrow> ([], acc))"

definition add_reasoning :: "json \<Rightarrow> openai_acc \<Rightarrow> stream_delta list \<times> openai_acc" where [hx_defs]:
  "add_reasoning choice acc = (case Option.bind (delta_field ''reasoning_content'' choice) json_str of
     Some t \<Rightarrow> if t = [] then ([], acc) else ([Delta_Reasoning t], acc\<lparr>oa_reasoning := oa_reasoning acc @ t\<rparr>)
   | None \<Rightarrow> ([], acc))"

definition add_calls :: "json_lib \<Rightarrow> json \<Rightarrow> openai_acc \<Rightarrow> stream_delta list \<times> openai_acc" where [hx_defs]:
  "add_calls J choice acc =
     (let acc = (case Option.bind (delta_field ''tool_calls'' choice) json_array of
            Some calls \<Rightarrow> acc\<lparr>oa_calls := oa_calls acc @ calls\<rparr> | None \<Rightarrow> acc)
      in if str_field ''finish_reason'' choice = Some ''tool_calls''
         then (finished_calls J (oa_calls acc), acc\<lparr>oa_tool_use := True\<rparr>) else ([], acc))"

definition apply_chunk :: "json_lib \<Rightarrow> json \<Rightarrow> openai_acc \<Rightarrow> stream_delta list \<times> openai_acc" where [hx_defs]:
  "apply_chunk J chunk acc =
     (let acc = (case get_field ''usage'' chunk of
            Some u \<Rightarrow> acc\<lparr>oa_usage := merge_stream_usage (oa_usage acc) u\<rparr> | None \<Rightarrow> acc)
      in (case Option.bind (get_field ''choices'' chunk) get_first of
            None \<Rightarrow> ([], acc)
          | Some choice \<Rightarrow>
             (case add_text choice acc of (texts, acc) \<Rightarrow>
              case add_reasoning choice acc of (reasons, acc) \<Rightarrow>
              case add_calls J choice acc of (calls, acc) \<Rightarrow> (texts @ reasons @ calls, acc))))"

definition finish_stream :: "json_lib \<Rightarrow> string \<Rightarrow> openai_acc \<Rightarrow> string \<Rightarrow> hx_error + wire_response" where [hx_defs]:
  "finish_stream J pid acc requested =
     (let parts = text_parts (oa_text acc)
            @ (if oa_tool_use acc
               then map (\<lambda>c. ToolCall (rc_id c) (rc_name c) (read_arguments J (rc_arguments c)))
                 (merge_tool_call_fragments (oa_calls acc))
               else [])
      in if parts = [] then Inl (ProviderError (pid @ '': the streamed turn produced neither text nor a tool call''))
         else Inr \<lparr>rs_message = new_message Assistant parts, rs_usage = oa_usage acc, rs_model = requested,
                rs_finish = (if oa_tool_use acc then Tool_Use else Stop)\<rparr>)"

subsection \<open>The loop\<close>

text \<open>What the adapter holds while it reads, and what the sink has been given.\<close>

record 'acc turn =
  tn_acc :: 'acc
  tn_sent :: "stream_delta list"

fun send_all :: "(nat \<Rightarrow> stream_delta \<Rightarrow> hx_error option) \<Rightarrow> stream_delta list \<Rightarrow> 'acc turn \<Rightarrow> hx_error option \<times> 'acc turn" where
  "send_all sink [] tn = (None, tn)"
| "send_all sink (d # ds) tn = (case sink (length (tn_sent tn)) d of
     Some e \<Rightarrow> (Some e, tn\<lparr>tn_sent := tn_sent tn @ [d]\<rparr>)
   | None \<Rightarrow> send_all sink ds (tn\<lparr>tn_sent := tn_sent tn @ [d]\<rparr>))"

record client =
  cl_json :: json_lib
  cl_id :: string
  cl_sink :: "nat \<Rightarrow> stream_delta \<Rightarrow> hx_error option"

definition feed_event :: "client \<Rightarrow> sse_event \<Rightarrow> openai_acc turn \<Rightarrow> (hx_error + bool) \<times> openai_acc turn" where [hx_defs]:
  "feed_event C event tn = (case event of
     Sse_Done \<Rightarrow> (Inr True, tn)
   | Sse_Data line \<Rightarrow>
      if line = [] then (Inr False, tn)
      else (case from_str (cl_json C) line of
          Inl err \<Rightarrow> (Inl (ProviderError (cl_id C @ '': a streamed chunk was not JSON ('' @ err @ ''): '' @ truncate_body line)), tn)
        | Inr chunk \<Rightarrow>
           (case apply_chunk (cl_json C) chunk (tn_acc tn) of (deltas, acc) \<Rightarrow>
              (case send_all (cl_sink C) deltas (tn\<lparr>tn_acc := acc\<rparr>) of
                (Some e, tn) \<Rightarrow> (Inl e, tn)
              | (None, tn) \<Rightarrow> (Inr False, tn)))))"

text \<open>The inner loop; its outcome is an error, the terminal marker, or none while the stream goes on.\<close>

function feed_events :: "client \<Rightarrow> string \<Rightarrow> openai_acc turn \<Rightarrow> (hx_error + unit) option \<times> string \<times> openai_acc turn" where
  "feed_events C raw tn = (case take_sse_event raw of
     (None, raw) \<Rightarrow> (None, raw, tn)
   | (Some event, raw) \<Rightarrow> (case feed_event C event tn of
       (Inl e, tn) \<Rightarrow> (Some (Inl e), raw, tn)
     | (Inr True, tn) \<Rightarrow> (Some (Inr ()), raw, tn)
     | (Inr False, tn) \<Rightarrow> feed_events C raw tn))"
  by pat_completeness auto
termination by (relation "measure (\<lambda>(C, raw, tn). length raw)") (auto dest: take_sse_event_shorter [OF sym])

declare feed_events.simps [simp del]

fun read_parts :: "client \<Rightarrow> (string + string) list \<Rightarrow> string \<Rightarrow> string \<Rightarrow> openai_acc turn
    \<Rightarrow> (hx_error + bool) \<times> string \<times> string \<times> openai_acc turn" where
  "read_parts C [] pending raw tn = (Inr False, pending, raw, tn)"
| "read_parts C (Inl err # parts) pending raw tn =
     (Inl (ProviderError (cl_id C @ '': the stream was interrupted: '' @ err)), pending, raw, tn)"
| "read_parts C (Inr chunk # parts) pending raw tn =
     (case decoder_push pending chunk of (out, pending) \<Rightarrow>
        (case feed_events C (raw @ out) tn of
          (Some (Inl e), raw, tn) \<Rightarrow> (Inl e, pending, raw, tn)
        | (Some (Inr _), raw, tn) \<Rightarrow> (Inr True, pending, raw, tn)
        | (None, raw, tn) \<Rightarrow> read_parts C parts pending raw tn))"

definition feed_trailing :: "client \<Rightarrow> string \<Rightarrow> openai_acc turn \<Rightarrow> hx_error option \<times> openai_acc turn" where [hx_defs]:
  "feed_trailing C raw tn = (case take_trailing_sse_event raw of
     None \<Rightarrow> (None, tn)
   | Some event \<Rightarrow> (case feed_event C event tn of
       (Inl e, tn) \<Rightarrow> (Some e, tn) | (Inr _, tn) \<Rightarrow> (None, tn)))"

definition openai_turn :: "client \<Rightarrow> (string + string) list \<Rightarrow> string \<Rightarrow> (hx_error + wire_response) \<times> openai_acc turn" where [hx_defs]:
  "openai_turn C parts requested =
     (case read_parts C parts [] [] \<lparr>tn_acc = new_openai_acc, tn_sent = []\<rparr> of
        (Inl e, _, _, tn) \<Rightarrow> (Inl e, tn)
      | (Inr ended, pending, raw, tn) \<Rightarrow>
     (case feed_events C (raw @ decoder_finish pending) tn of
        (Some (Inl e), raw, tn) \<Rightarrow> (Inl e, tn)
      | (r, raw, tn) \<Rightarrow>
     (case (if ended \<or> r \<noteq> None then (None, tn) else feed_trailing C raw tn) of
        (Some e, tn) \<Rightarrow> (Inl e, tn)
      | (None, tn) \<Rightarrow> (finish_stream (cl_json C) (cl_id C) (tn_acc tn) requested, tn))))"

definition openai_stream :: "endpoint \<Rightarrow> client \<Rightarrow> (http_request \<Rightarrow> transport) \<Rightarrow> string \<Rightarrow> chat_request
    \<Rightarrow> (hx_error + wire_response) \<times> openai_acc turn" where [hx_defs]:
  "openai_stream ep C net key req =
     (let tn = \<lparr>tn_acc = new_openai_acc, tn_sent = []\<rparr> in
     (case stream_body (cl_json C) req of
        Inl e \<Rightarrow> (Inl e, tn)
      | Inr body \<Rightarrow>
     (case sent_request (cl_id C) net
          \<lparr>hq_url = chat_completions_url (ep_base_url ep),
           hq_headers = [(''content-type'', ''application/json''), (''accept'', ''text/event-stream''), (''accept'', ''application/json'')]
             @ auth_header ep key,
           hq_body = body\<rparr> of
        Inl e \<Rightarrow> (Inl e, tn)
      | Inr r \<Rightarrow>
          if \<not> is_success r
          then (Inl (classify_error (cl_id C) (hr_status r) (retry_after r) (body_text ''could not read'' r)), tn)
          else openai_turn C (hr_chunks r) (cr_model req))))"

end
