(* ===== verification/Anthropic.thy ===== *)
theory Anthropic imports Openai_Stream "HOL-Library.AList"
begin

section \<open>The Anthropic adapter\<close>

text \<open>
  \<open>crates/hx-provider/src/anthropic.rs\<close> and \<open>anthropic_stream.rs\<close>: requests and replies of the messages interface, and
  its stream of named events with the blocks that are open.  HTTP failures, transport and sink are those of the other
  adapter.  That a key fits a header is the HTTP library's to say: \<open>header_ok\<close> gives its error.
\<close>

definition messages_url :: "string \<Rightarrow> string" where [hx_defs]:
  "messages_url base =
     (let trimmed = trim_end_matches (CHR ''/'') (trim base) in
      if ends_with trimmed ''/v1/messages'' then trimmed
      else if ends_with trimmed ''/v1'' then trimmed @ ''/messages'' else trimmed @ ''/v1/messages'')"

definition text_block :: "string \<Rightarrow> json" where [hx_defs]:
  "text_block t = JObject [(''type'', JString ''text''), (''text'', JString t)]"

definition no_images :: hx_error where [hx_defs]:
  "no_images = ProviderError ''image inputs are not implemented in the Anthropic adapter yet''"

fun text_blocks :: "part list \<Rightarrow> hx_error + json list" where
  "text_blocks [] = Inr []"
| "text_blocks (Text t # ps) = map_sum (\<lambda>e. e) (\<lambda>bs. if t = [] then bs else text_block t # bs) (text_blocks ps)"
| "text_blocks (Image _ _ # ps) = Inl no_images"
| "text_blocks (_ # ps) = text_blocks ps"

fun assistant_blocks :: "json_lib \<Rightarrow> part list \<Rightarrow> hx_error + json list" where
  "assistant_blocks J [] = Inr []"
| "assistant_blocks J (Text t # ps) = map_sum (\<lambda>e. e) (\<lambda>bs. if t = [] then bs else text_block t # bs) (assistant_blocks J ps)"
| "assistant_blocks J (ToolCall i name arguments # ps) = map_sum (\<lambda>e. e)
     ((#) (JObject [(''type'', JString ''tool_use''), (''id'', JString i), (''name'', JString name), (''input'', value_of J arguments)]))
     (assistant_blocks J ps)"
| "assistant_blocks J (ToolResult _ _ _ # ps) =
     Inl (ProviderError ''an assistant message cannot carry a tool result in the Anthropic adapter'')"
| "assistant_blocks J (Image _ _ # ps) = Inl no_images"

fun result_block :: "part \<Rightarrow> json option" where
  "result_block (ToolResult i ok content) = Some (JObject [(''type'', JString ''tool_result''), (''tool_use_id'', JString i),
     (''content'', JString content), (''is_error'', JBool (\<not> ok))])"
| "result_block _ = None"

definition turn_entry :: "string \<Rightarrow> json list \<Rightarrow> json" where [hx_defs]:
  "turn_entry role blocks = JObject [(''role'', JString role), (''content'', JArray blocks)]"

text \<open>The walk over the transcript: the system text that was gathered, and the messages so far.\<close>

definition push_message :: "json_lib \<Rightarrow> message \<Rightarrow> string \<times> json list \<Rightarrow> hx_error + (string \<times> json list)" where [hx_defs]:
  "push_message J m st = (case st of (system, entries) \<Rightarrow> (case msg_role m of
     System \<Rightarrow> Inr (system @ message_text m, entries)
   | User \<Rightarrow> map_sum (\<lambda>e. e) (\<lambda>bs. (system, entries @ [turn_entry ''user'' bs])) (text_blocks (msg_parts m))
   | Assistant \<Rightarrow> map_sum (\<lambda>e. e) (\<lambda>bs. (system, entries @ [turn_entry ''assistant'' bs])) (assistant_blocks J (msg_parts m))
   | Tool \<Rightarrow> (let bs = List.map_filter result_block (msg_parts m) in
       Inr (if bs = [] then (system, entries) else (system, entries @ [turn_entry ''user'' bs])))))"

fun push_messages :: "json_lib \<Rightarrow> message list \<Rightarrow> string \<times> json list \<Rightarrow> hx_error + (string \<times> json list)" where
  "push_messages J [] st = Inr st"
| "push_messages J (m # ms) st = (case push_message J m st of Inl e \<Rightarrow> Inl e | Inr st \<Rightarrow> push_messages J ms st)"

definition anthropic_tool :: "json_lib \<Rightarrow> tool_spec \<Rightarrow> json" where [hx_defs]:
  "anthropic_tool J t = JObject [(''name'', JString (ts_name t)), (''description'', JString (ts_description t)),
     (''input_schema'', value_of J (ts_schema t))]"

definition anthropic_body :: "json_lib \<Rightarrow> chat_request \<Rightarrow> hx_error + json" where [hx_defs]:
  "anthropic_body J req =
     (case push_messages J (cr_messages req) ((case cr_system req of Some s \<Rightarrow> s | None \<Rightarrow> []), []) of
        Inl e \<Rightarrow> Inl e
      | Inr (system, entries) \<Rightarrow>
          (let body = JObject [(''model'', JString (cr_model req)), (''messages'', JArray entries),
                 (''max_tokens'', JInt (int (cr_max_tokens req)))];
               body = (if system = [] then body else set_field ''system'' (JString system) body)
           in Inr (if cr_tools req = [] then body
                else set_field ''tools'' (JArray (map (anthropic_tool J) (cr_tools req))) body)))"

subsection \<open>A whole reply\<close>

fun reply_blocks :: "json_lib \<Rightarrow> json list \<Rightarrow> hx_error + part list" where
  "reply_blocks J [] = Inr []"
| "reply_blocks J (b # bs) =
     (let kind = str_field_or [] ''type'' b in
      if kind = ''text'' then map_sum (\<lambda>e. e) ((@) (text_parts (str_field_or [] ''text'' b))) (reply_blocks J bs)
      else if kind = ''tool_use'' then
        (case str_field ''id'' b of
           None \<Rightarrow> Inl (ProviderError ''a tool_use block arrived without an id'')
         | Some i \<Rightarrow> (case str_field ''name'' b of
             None \<Rightarrow> Inl (ProviderError (''tool_use block '' @ i @ '' arrived without a name''))
           | Some name \<Rightarrow> map_sum (\<lambda>e. e) ((#) (ToolCall i name (to_string J (field_or_null ''input'' b)))) (reply_blocks J bs)))
      else reply_blocks J bs)"

definition read_stop :: "string \<Rightarrow> finish_reason" where [hx_defs]:
  "read_stop s =
     (if s = ''end_turn'' \<or> s = ''stop_sequence'' then Stop else if s = ''max_tokens'' then Length_Limit
      else if s = ''tool_use'' then Tool_Use else Other_Reason)"

definition read_usage :: "json \<Rightarrow> usage" where [hx_defs]:
  "read_usage u = \<lparr>input_tokens = number u ''input_tokens'', output_tokens = number u ''output_tokens'',
     cached_input_tokens = number u ''cache_read_input_tokens'', reasoning_tokens = 0\<rparr>"

definition anthropic_reply :: "json_lib \<Rightarrow> json \<Rightarrow> string \<Rightarrow> hx_error + wire_response" where [hx_defs]:
  "anthropic_reply J body requested =
     (case Option.bind (get_field ''content'' body) json_array of
        None \<Rightarrow> Inl (ProviderError (''the response contained no content: '' @ truncate_body (to_string J body)))
      | Some blocks \<Rightarrow>
     (case reply_blocks J blocks of
        Inl e \<Rightarrow> Inl e
      | Inr parts \<Rightarrow>
          if parts = [] then Inl (ProviderError ''the model returned neither text nor a tool call'')
          else Inr \<lparr>rs_message = new_message Assistant parts, rs_usage = read_usage (field_or_null ''usage'' body),
                 rs_model = str_field_or requested ''model'' body,
                 rs_finish = read_stop (str_field_or ''end_turn'' ''stop_reason'' body)\<rparr>))"

subsection \<open>The turn so far\<close>

record block =
  bk_kind :: string
  bk_buffer :: string
  bk_id :: "string option"
  bk_name :: "string option"

record anthropic_acc =
  aa_text :: string
  aa_reasoning :: string
  aa_calls :: "json list"
  aa_open :: "(int \<times> block) list"
  aa_model :: string
  aa_usage :: usage
  aa_stop_reason :: "string option"
  aa_error :: "string option"

definition new_anthropic_acc :: anthropic_acc where [hx_defs]:
  "new_anthropic_acc = \<lparr>aa_text = [], aa_reasoning = [], aa_calls = [], aa_open = [], aa_model = [], aa_usage = zero_usage,
     aa_stop_reason = None, aa_error = None\<rparr>"

definition block_index :: "json \<Rightarrow> int" where [hx_defs]:
  "block_index data = (case Option.bind (get_field ''index'' data) json_i64 of Some i \<Rightarrow> i | None \<Rightarrow> 0)"

text \<open>The buffer of an open block grows; a delta for no open block is not kept.\<close>

definition extend_block :: "int \<Rightarrow> string \<Rightarrow> anthropic_acc \<Rightarrow> anthropic_acc" where [hx_defs]:
  "extend_block i t acc = (case map_of (aa_open acc) i of
     Some b \<Rightarrow> acc\<lparr>aa_open := AList.update i (b\<lparr>bk_buffer := bk_buffer b @ t\<rparr>) (aa_open acc)\<rparr>
   | None \<Rightarrow> acc)"

definition message_start :: "json \<Rightarrow> anthropic_acc \<Rightarrow> anthropic_acc" where [hx_defs]:
  "message_start data acc =
     (let acc = (case Option.bind (get_field ''message'' data) (str_field ''model'') of
            Some m \<Rightarrow> acc\<lparr>aa_model := m\<rparr> | None \<Rightarrow> acc)
      in (case Option.bind (get_field ''message'' data) (get_field ''usage'') of
            Some u \<Rightarrow> acc\<lparr>aa_usage := read_usage u\<rparr> | None \<Rightarrow> acc))"

definition block_start :: "json \<Rightarrow> anthropic_acc \<Rightarrow> stream_delta list \<times> anthropic_acc" where [hx_defs]:
  "block_start data acc =
     (let b = field_or_null ''content_block'' data; kind = str_field_or [] ''type'' b;
          entry = \<lparr>bk_kind = kind, bk_buffer = [], bk_id = None, bk_name = None\<rparr>;
          opened = (\<lambda>entry acc. acc\<lparr>aa_open := AList.update (block_index data) entry (aa_open acc)\<rparr>)
      in if kind = ''text'' \<and> str_field_or [] ''text'' b \<noteq> []
         then (let t = str_field_or [] ''text'' b in
               ([Delta_Text t], opened (entry\<lparr>bk_buffer := t\<rparr>) (acc\<lparr>aa_text := aa_text acc @ t\<rparr>)))
         else if kind = ''tool_use''
         then ([], opened (entry\<lparr>bk_id := str_field ''id'' b, bk_name := str_field ''name'' b\<rparr>) acc)
         else ([], opened entry acc))"

definition block_delta :: "json \<Rightarrow> anthropic_acc \<Rightarrow> stream_delta list \<times> anthropic_acc" where [hx_defs]:
  "block_delta data acc =
     (let d = field_or_null ''delta'' data; kind = str_field_or [] ''type'' d; i = block_index data in
      if kind = ''text_delta'' then
        (case str_field ''text'' d of
           Some t \<Rightarrow> if t = [] then ([], acc)
             else ([Delta_Text t], (extend_block i t acc)\<lparr>aa_text := aa_text acc @ t\<rparr>)
         | None \<Rightarrow> ([], acc))
      else if kind = ''thinking_delta'' then
        (case str_field ''thinking'' d of
           Some t \<Rightarrow> if t = [] then ([], acc) else ([Delta_Reasoning t], acc\<lparr>aa_reasoning := aa_reasoning acc @ t\<rparr>)
         | None \<Rightarrow> ([], acc))
      else if kind = ''input_json_delta'' then
        (case str_field ''partial_json'' d of Some t \<Rightarrow> ([], extend_block i t acc) | None \<Rightarrow> ([], acc))
      else ([], acc))"

text \<open>The cut of an excerpt: back to a character boundary.\<close>

definition excerpt :: "string \<Rightarrow> string" where [hx_defs]:
  "excerpt t = (if length t \<le> 400 then t
     else take (the (find (is_char_boundary t) (rev [0..<401]))) t @ ellipsis)"

definition block_stop :: "json_lib \<Rightarrow> json \<Rightarrow> anthropic_acc \<Rightarrow> hx_error + (stream_delta list \<times> anthropic_acc)" where [hx_defs]:
  "block_stop J data acc = (let i = block_index data in
     (case map_of (aa_open acc) i of
        None \<Rightarrow> Inr ([], acc)
      | Some b \<Rightarrow>
          (let acc = acc\<lparr>aa_open := AList.delete i (aa_open acc)\<rparr> in
           if bk_kind b \<noteq> ''tool_use'' then Inr ([], acc)
           else (let k = (case bk_id b of Some k \<Rightarrow> k | None \<Rightarrow> ''call_'' @ show_int i);
                     name = (case bk_name b of Some n \<Rightarrow> n | None \<Rightarrow> [])
             in (case (if trim (bk_buffer b) = [] then Inr (JObject []) else from_str J (bk_buffer b)) of
                   Inl err \<Rightarrow> Inl (ProviderError (''tool_use block '' @ k @ '' ('' @ name
                     @ '') finished with arguments that are not valid JSON: '' @ err @ ''. The accumulated text was: ''
                     @ excerpt (bk_buffer b)))
                 | Inr input \<Rightarrow> Inr ([Delta_Call k name (to_string J input)],
                     acc\<lparr>aa_calls := aa_calls acc @
                       [JObject [(''id'', JString k), (''name'', JString name), (''input'', input)]]\<rparr>))))))"

definition message_delta :: "json \<Rightarrow> anthropic_acc \<Rightarrow> anthropic_acc" where [hx_defs]:
  "message_delta data acc =
     (let acc = (case get_field ''usage'' data of
            Some u \<Rightarrow> acc\<lparr>aa_usage := (aa_usage acc)
                \<lparr>input_tokens := (if 0 < number u ''input_tokens'' then number u ''input_tokens'' else input_tokens (aa_usage acc)),
                 output_tokens := (if 0 < number u ''output_tokens'' then number u ''output_tokens'' else output_tokens (aa_usage acc))\<rparr>\<rparr>
          | None \<Rightarrow> acc)
      in (case Option.bind (get_field ''delta'' data) (str_field ''stop_reason'') of
            Some r \<Rightarrow> acc\<lparr>aa_stop_reason := Some r\<rparr> | None \<Rightarrow> acc))"

definition error_event :: "json \<Rightarrow> anthropic_acc \<Rightarrow> anthropic_acc" where [hx_defs]:
  "error_event data acc = acc\<lparr>aa_error := Some
     (case Option.bind (get_field ''error'' data) (str_field ''message'') of
        Some m \<Rightarrow> m | None \<Rightarrow> ''the provider sent an error event'')\<rparr>"

definition event_kind :: "string \<Rightarrow> json \<Rightarrow> string" where [hx_defs]:
  "event_kind event_name data = (case str_field ''type'' data of Some k \<Rightarrow> if k = [] then event_name else k | None \<Rightarrow> event_name)"

definition apply_event :: "json_lib \<Rightarrow> string \<Rightarrow> json \<Rightarrow> anthropic_acc \<Rightarrow> hx_error + (stream_delta list \<times> anthropic_acc)" where [hx_defs]:
  "apply_event J event_name data acc =
     (let kind = event_kind event_name data in
      if kind = ''message_start'' then Inr ([], message_start data acc)
      else if kind = ''content_block_start'' then Inr (block_start data acc)
      else if kind = ''content_block_delta'' then Inr (block_delta data acc)
      else if kind = ''content_block_stop'' then block_stop J data acc
      else if kind = ''message_delta'' then Inr ([], message_delta data acc)
      else if kind = ''error'' then Inr ([], error_event data acc)
      else Inr ([], acc))"

definition call_part :: "json_lib \<Rightarrow> json \<Rightarrow> part" where [hx_defs]:
  "call_part J c = ToolCall (str_field_or ''call'' ''id'' c) (str_field_or [] ''name'' c) (to_string J (field_or_null ''input'' c))"

definition stream_stop :: "string option \<Rightarrow> finish_reason" where [hx_defs]:
  "stream_stop r = (if r = Some ''tool_use'' then Tool_Use else if r = Some ''max_tokens'' then Length_Limit else Stop)"

definition finish_turn :: "json_lib \<Rightarrow> anthropic_acc \<Rightarrow> string \<Rightarrow> hx_error + wire_response" where [hx_defs]:
  "finish_turn J acc requested = (case aa_error acc of
     Some m \<Rightarrow> Inl (ProviderError m)
   | None \<Rightarrow>
      (let parts = text_parts (aa_text acc) @ map (call_part J) (aa_calls acc) in
       if parts = [] then Inl (ProviderError
         ''the streamed turn contained neither text nor a tool call, so there is no reply to return'')
       else Inr \<lparr>rs_message = new_message Assistant parts, rs_usage = aa_usage acc,
              rs_model = (if aa_model acc = [] then requested else aa_model acc),
              rs_finish = stream_stop (aa_stop_reason acc)\<rparr>))"

subsection \<open>Frames and the loop\<close>

definition frame_end :: "string \<Rightarrow> nat option" where [hx_defs]:
  "frame_end raw = (case find_str lf2 raw of
     Some i \<Rightarrow> Some (i + 2) | None \<Rightarrow> map_option (\<lambda>i. i + 4) (find_str crlf2 raw))"

definition parse_frame :: "json_lib \<Rightarrow> string \<Rightarrow> (string \<times> json) option" where [hx_defs]:
  "parse_frame J frame =
     (if data_lines frame = [] then None
      else (case from_str J (join [CHR 0x0A] (data_lines frame)) of
          Inl _ \<Rightarrow> None
        | Inr v \<Rightarrow> Some (fold (\<lambda>(f, w) event. if f = ''event'' then w else event) (frame_fields frame) [], v)))"

text \<open>\<^const>\<open>None\<close> for a frame that is not there yet and for one without a payload, which is gone from the buffer.\<close>

definition take_sse_frame :: "json_lib \<Rightarrow> string \<Rightarrow> (string \<times> json) option \<times> string" where [hx_defs]:
  "take_sse_frame J raw = (case frame_end raw of
     None \<Rightarrow> (None, raw)
   | Some n \<Rightarrow> (parse_frame J (take n raw), drop n raw))"

lemma frame_end_bounds: "frame_end raw = Some n \<Longrightarrow> 0 < n \<and> n \<le> length raw"
  by (auto simp: frame_end_def lf2_def crlf2_def split: option.splits dest: find_str_bounds)

lemma take_sse_frame_shorter: "take_sse_frame J raw = (Some e, rest) \<Longrightarrow> length rest < length raw"
  using frame_end_bounds [of raw] by (auto simp: take_sse_frame_def split: option.splits)

definition feed_frame :: "client \<Rightarrow> string \<times> json \<Rightarrow> anthropic_acc turn \<Rightarrow> hx_error option \<times> anthropic_acc turn" where [hx_defs]:
  "feed_frame C frame tn = (case frame of (event_name, data) \<Rightarrow>
     (case apply_event (cl_json C) event_name data (tn_acc tn) of
        Inl e \<Rightarrow> (Some e, tn)
      | Inr (deltas, acc) \<Rightarrow> send_all (cl_sink C) deltas (tn\<lparr>tn_acc := acc\<rparr>)))"

text \<open>
  The inner loop ends at an error, or when the buffer gives no frame.  The outcome tells the two ways of that apart, which
  the reader treats alike: nothing complete is left, or a frame without a payload was taken off.
\<close>

function feed_frames :: "client \<Rightarrow> string \<Rightarrow> anthropic_acc turn \<Rightarrow> (hx_error + unit) option \<times> string \<times> anthropic_acc turn" where
  "feed_frames C raw tn = (case take_sse_frame (cl_json C) raw of
     (None, rest) \<Rightarrow> (if frame_end raw = None then None else Some (Inr ()), rest, tn)
   | (Some frame, rest) \<Rightarrow> (case feed_frame C frame tn of
       (Some e, tn) \<Rightarrow> (Some (Inl e), rest, tn)
     | (None, tn) \<Rightarrow> feed_frames C rest tn))"
  by pat_completeness auto
termination by (relation "measure (\<lambda>(C, raw, tn). length raw)") (auto dest: take_sse_frame_shorter [OF sym])

declare feed_frames.simps [simp del]

fun read_frames :: "client \<Rightarrow> (string + string) list \<Rightarrow> string \<Rightarrow> string \<Rightarrow> anthropic_acc turn
    \<Rightarrow> hx_error option \<times> string \<times> string \<times> anthropic_acc turn" where
  "read_frames C [] pending raw tn = (None, pending, raw, tn)"
| "read_frames C (Inl err # parts) pending raw tn =
     (Some (ProviderError (cl_id C @ '': the stream was interrupted: '' @ err)), pending, raw, tn)"
| "read_frames C (Inr chunk # parts) pending raw tn =
     (case decoder_push pending chunk of (out, pending) \<Rightarrow>
        (case feed_frames C (raw @ out) tn of
          (Some (Inl e), raw, tn) \<Rightarrow> (Some e, pending, raw, tn)
        | (_, raw, tn) \<Rightarrow> read_frames C parts pending raw tn))"

definition feed_tail :: "client \<Rightarrow> string \<Rightarrow> anthropic_acc turn \<Rightarrow> hx_error option \<times> anthropic_acc turn" where [hx_defs]:
  "feed_tail C raw tn = (case parse_frame (cl_json C) raw of
     None \<Rightarrow> (None, tn) | Some frame \<Rightarrow> feed_frame C frame tn)"

definition anthropic_turn :: "client \<Rightarrow> (string + string) list \<Rightarrow> string \<Rightarrow> (hx_error + wire_response) \<times> anthropic_acc turn" where [hx_defs]:
  "anthropic_turn C parts requested =
     (case read_frames C parts [] [] \<lparr>tn_acc = new_anthropic_acc, tn_sent = []\<rparr> of
        (Some e, _, _, tn) \<Rightarrow> (Inl e, tn)
      | (None, pending, raw, tn) \<Rightarrow>
     (case feed_tail C (raw @ decoder_finish pending) tn of
        (Some e, tn) \<Rightarrow> (Inl e, tn)
      | (None, tn) \<Rightarrow> (finish_turn (cl_json C) (tn_acc tn) requested, tn)))"

subsection \<open>Calls over HTTP\<close>

definition anthropic_request :: "(string \<Rightarrow> string option) \<Rightarrow> endpoint \<Rightarrow> string \<Rightarrow> string \<Rightarrow> json \<Rightarrow> hx_error + http_request" where [hx_defs]:
  "anthropic_request header_ok ep accept key body = (case header_ok key of
     Some err \<Rightarrow> Inl (ProviderError (ep_id ep @ '': the credential is not a valid header value: '' @ err))
   | None \<Rightarrow> Inr \<lparr>hq_url = messages_url (ep_base_url ep),
       hq_headers = [(''content-type'', ''application/json''), (''accept'', accept), (''x-api-key'', key),
         (''anthropic-version'', ''2023-06-01'')], hq_body = body\<rparr>)"

definition anthropic_complete :: "(string \<Rightarrow> string option) \<Rightarrow> json_lib \<Rightarrow> endpoint \<Rightarrow> (http_request \<Rightarrow> transport) \<Rightarrow> string \<Rightarrow> chat_request
    \<Rightarrow> hx_error + wire_response" where [hx_defs]:
  "anthropic_complete header_ok J ep net key req =
     (case anthropic_body J req of
        Inl e \<Rightarrow> Inl e
      | Inr body \<Rightarrow>
     (case anthropic_request header_ok ep ''application/json'' key body of
        Inl e \<Rightarrow> Inl e
      | Inr rq \<Rightarrow>
     (case sent_request (ep_id ep) net rq of
        Inl e \<Rightarrow> Inl e
      | Inr r \<Rightarrow>
     (let t = body_text ''the response body could not be read'' r in
      if \<not> is_success r then Inl (classify_error (ep_id ep) (hr_status r) (retry_after r) t)
      else (case from_str J t of
          Inl err \<Rightarrow> Inl (ProviderError (ep_id ep @ '': the response was not JSON ('' @ err @ ''); body: '' @ first_chars 512 t))
        | Inr parsed \<Rightarrow> anthropic_reply J parsed (cr_model req))))))"

definition anthropic_stream :: "(string \<Rightarrow> string option) \<Rightarrow> endpoint \<Rightarrow> client \<Rightarrow> (http_request \<Rightarrow> transport) \<Rightarrow> string \<Rightarrow> chat_request
    \<Rightarrow> (hx_error + wire_response) \<times> anthropic_acc turn" where [hx_defs]:
  "anthropic_stream header_ok ep C net key req =
     (let tn = \<lparr>tn_acc = new_anthropic_acc, tn_sent = []\<rparr> in
     (case anthropic_body (cl_json C) req of
        Inl e \<Rightarrow> (Inl e, tn)
      | Inr body \<Rightarrow>
     (case anthropic_request header_ok ep ''text/event-stream'' key (set_field ''stream'' (JBool True) body) of
        Inl e \<Rightarrow> (Inl e, tn)
      | Inr rq \<Rightarrow>
     (case sent_request (cl_id C) net rq of
        Inl e \<Rightarrow> (Inl e, tn)
      | Inr r \<Rightarrow>
          if \<not> is_success r
          then (Inl (classify_error (cl_id C) (hr_status r) (retry_after r) (body_text ''could not read'' r)), tn)
          else anthropic_turn C (hr_chunks r) (cr_model req)))))"

end
