(* ===== verification/Openai_Stream_Facts.thy ===== *)
theory Openai_Stream_Facts imports Openai_Stream
begin

section \<open>What the network's pieces cannot change\<close>

text \<open>
  The framing of the OpenAI reader is stable: the interpretation of \<open>framed_reader\<close> on it gives that a turn depends
  on the bytes alone, as long as nothing follows the terminal marker.  Then what the sink is shown against the reply,
  and where the stream and the whole reply differ.
\<close>

subsection \<open>The end of an event\<close>

lemma find_str_at: "find_str p s = Some i \<Longrightarrow> take (length p) (drop i s) = p"
proof (induction s arbitrary: i)
  case (Cons c s)
  then show ?case by (auto simp: starts_with_def split: if_splits)
qed (auto split: if_splits)

lemma starts_with_shorter: "starts_with (s @ t) p \<Longrightarrow> length p \<le> length s \<Longrightarrow> starts_with s p"
  by (simp add: starts_with_def)

lemma find_str_more: "find_str p s = Some i \<Longrightarrow> find_str p (s @ t) = Some i"
proof (induction s arbitrary: i)
  case Nil
  then show ?case by (cases t) (auto simp: starts_with_def split: if_splits)
next
  case (Cons c s)
  have "starts_with (c # s) p \<Longrightarrow> starts_with (c # s @ t) p" by (auto simp: starts_with_iff) (metis append.assoc append_Cons)
  moreover note starts_with_shorter [of "c # s" t p]
  ultimately show ?case using Cons find_str_bounds [of p "c # s"] by (auto split: if_splits)
qed

lemma find_str_late: "find_str p s = None \<Longrightarrow> find_str p (s @ t) = Some j \<Longrightarrow> length s < j + length p"
proof (induction s arbitrary: j)
  case (Cons c s)
  show ?case using Cons starts_with_shorter [of "c # s" t p] by (fastforce split: if_splits)
qed (auto split: if_splits)

lemma marks_apart:
  assumes "find_str lf2 s = Some a" "find_str crlf2 s = Some b"
  shows "b \<noteq> a" "Suc b \<noteq> a"
proof -
  have l: "s ! a = CHR 0x0A" "s ! Suc a = CHR 0x0A"
    using arg_cong [OF find_str_at [OF assms(1)], of "\<lambda>x. x ! 0"] arg_cong [OF find_str_at [OF assms(1)], of "\<lambda>x. x ! 1"]
      find_str_bounds [OF assms(1)] by (simp_all add: lf2_def)
  have c: "s ! b = CHR 0x0D" "s ! Suc (Suc b) = CHR 0x0D"
    using arg_cong [OF find_str_at [OF assms(2)], of "\<lambda>x. x ! 0"] arg_cong [OF find_str_at [OF assms(2)], of "\<lambda>x. x ! 2"]
      find_str_bounds [OF assms(2)] by (simp_all add: crlf2_def)
  show "b \<noteq> a" using l c by auto
  show "Suc b \<noteq> a" using l c by auto
qed

lemma event_end_more:
  assumes "event_end s = Some n"
  shows "event_end (s @ t) = Some n"
proof (cases "find_str lf2 s")
  case None
  then obtain b where b: "find_str crlf2 s = Some b" "n = b + 4"
    using assms by (auto simp: event_end_def split: option.splits)
  have late: "find_str lf2 (s @ t) = Some a \<Longrightarrow> \<not> a < b" for a
    using find_str_late [OF None, of t a] find_str_bounds [OF b(1)] by (simp add: lf2_def crlf2_def)
  then show ?thesis using find_str_more [OF b(1), of t] b(2) by (auto simp: event_end_def split: option.splits)
next
  case (Some a)
  note a = find_str_more [OF Some, of t]
  show ?thesis
  proof (cases "find_str crlf2 s")
    case (Some b)
    then show ?thesis using assms a find_str_more [OF Some, of t] \<open>find_str lf2 s = Some a\<close> by (simp add: event_end_def)
  next
    case None
    have n: "n = a + 2" using assms None Some by (simp add: event_end_def)
    have "find_str crlf2 (s @ t) = Some b \<Longrightarrow> a < b" for b
      using find_str_late [OF None, of t b] find_str_bounds [OF Some] marks_apart [OF a] by (auto simp: lf2_def crlf2_def)
    then show ?thesis using a n by (auto simp: event_end_def split: option.splits)
  qed
qed

definition event_step :: "client \<Rightarrow> string \<Rightarrow> openai_acc turn \<Rightarrow> (hx_error + unit) option \<times> openai_acc turn" where
  "event_step C frame tn = (case feed_event C (parse_sse_frame frame) tn of
     (Inl e, tn) \<Rightarrow> (Some (Inl e), tn)
   | (Inr ended, tn) \<Rightarrow> (if ended then Some (Inr ()) else None, tn))"

interpretation openai: framed_reader event_end "\<lambda>_. True" "event_step C" "feed_events C" for C
proof
  show "feed_events C raw s = (case event_end raw of
        None \<Rightarrow> (None, raw, s)
      | Some n \<Rightarrow> (case event_step C (take n raw) s of
          (None, s) \<Rightarrow> feed_events C (drop n raw) s
        | (Some r, s) \<Rightarrow> (Some r, drop n raw, s)))" for raw s
    by (subst feed_events.simps)
      (auto simp: take_sse_event_def event_step_def split: option.splits prod.splits sum.splits bool.splits)
qed (use event_end_bounds event_end_more in blast)+

subsection \<open>A turn is the text of its bytes\<close>

text \<open>The reader of a whole body, and what it means that the marker closes it.\<close>

definition new_turn :: "openai_acc turn" where
  "new_turn = \<lparr>tn_acc = new_openai_acc, tn_sent = []\<rparr>"

definition read_body :: "client \<Rightarrow> string \<Rightarrow> string \<Rightarrow> (hx_error + wire_response) \<times> openai_acc turn" where
  "read_body C body requested = (case feed_events C body new_turn of
     (Some (Inl e), _, tn) \<Rightarrow> (Inl e, tn)
   | (r, raw, tn) \<Rightarrow> (case (if r \<noteq> None then (None, tn) else feed_trailing C raw tn) of
        (Some e, tn) \<Rightarrow> (Inl e, tn)
      | (None, tn) \<Rightarrow> (finish_stream (cl_json C) (cl_id C) (tn_acc tn) requested, tn)))"

definition marker_is_last :: "client \<Rightarrow> string \<Rightarrow> bool" where
  "marker_is_last C body = (case feed_events C body new_turn of (Some (Inr _), rest, _) \<Rightarrow> rest = [] | _ \<Rightarrow> True)"

lemma read_parts_chunks:
  "read_parts C (map Inr bs) pending raw tn = (case read_chunks (feed_events C) bs pending raw tn of
     (None, left, pending, raw, tn) \<Rightarrow> (Inr False, pending, raw, tn)
   | (Some (Inl e), left, pending, raw, tn) \<Rightarrow> (Inl e, pending, raw, tn)
   | (Some (Inr _), left, pending, raw, tn) \<Rightarrow> (Inr True, pending, raw, tn))"
  by (induction bs arbitrary: pending raw tn) (auto split: prod.splits option.splits sum.splits)

lemma feed_nothing: "feed_events C [] tn = (None, [], tn)"
  by (simp add: feed_events.simps take_sse_event_def event_end_def lf2_def crlf2_def)

text \<open>C15. A streamed turn depends on the bytes the provider sent and not on the pieces the network cut them into: whatever
  the chunks, even inside a character or inside the blank line of an event, the deltas, the reply and the error are
  those of the body read at once, if nothing follows the terminal marker.
\<close>

theorem stream_ignores_chunking:
  assumes "marker_is_last C (utf8_lossy (concat bs))"
  shows "openai_turn C (map Inr bs) requested = read_body C (utf8_lossy (concat bs)) requested"
proof -
  obtain r left p raw tn where rc: "read_chunks (feed_events C) bs [] [] new_turn = (r, left, p, raw, tn)" by (metis surj_pair)
  have w: "feed_events C (utf8_lossy (concat bs)) new_turn = (case r of
      None \<Rightarrow> feed_events C (raw @ decoder_finish p) tn | Some x \<Rightarrow> (Some x, raw @ utf8_lossy (p @ concat left), tn))"
    using openai.read_chunks_whole [OF TrueI rc] by simp
  have rp: "read_parts C (map Inr bs) [] [] new_turn = (case r of
      None \<Rightarrow> (Inr False, p, raw, tn) | Some (Inl e) \<Rightarrow> (Inl e, p, raw, tn) | Some (Inr _) \<Rightarrow> (Inr True, p, raw, tn))"
    using read_parts_chunks [of C bs "[]" "[]" new_turn] rc by (auto split: option.splits sum.splits)
  show ?thesis
  proof (cases r)
    case None
    then show ?thesis using rp w
      by (auto simp: openai_turn_def read_body_def new_turn_def [symmetric] split: option.splits prod.splits sum.splits)
  next
    case (Some x)
    show ?thesis
    proof (cases x)
      case (Inl e)
      then show ?thesis using Some rp w by (simp add: openai_turn_def read_body_def new_turn_def [symmetric])
    next
      case (Inr u)
      have "raw @ utf8_lossy (p @ concat left) = []" using assms w Some Inr by (simp add: marker_is_last_def)
      then have "raw = []" "p = []" by (auto simp: lossy_Nil_iff)
      then show ?thesis using Some Inr rp w
        by (simp add: openai_turn_def read_body_def new_turn_def [symmetric] decoder_finish_def feed_nothing)
    qed
  qed
qed

text \<open>Witness: an event cut in the middle of its blank line.\<close>

definition demo_json :: json_lib where
  "demo_json = \<lparr>from_str = (\<lambda>t. if t = ''1''
       then Inr (JObject [(''choices'', JArray [JObject [(''delta'', JObject [(''content'', JString ''hi'')])]])])
       else if t = ''2''
       then Inr (JObject [(''choices'', JArray [JObject [(''delta'', JObject [(''tool_calls'', JArray
          [JObject [(''index'', JInt 0), (''id'', JString ''a''), (''function'', JObject [(''name'', JString ''ls''), (''arguments'', JString ''1'')])]])])]])])
       else if t = ''3''
       then Inr (JObject [(''choices'', JArray [JObject [(''finish_reason'', JString ''length'')]])])
       else Inl ''?''),
     to_string = (\<lambda>v. ''1'')\<rparr>"

definition demo_client :: client where
  "demo_client = \<lparr>cl_json = demo_json, cl_id = ''p'', cl_sink = (\<lambda>_ _. None)\<rparr>"

definition lf :: char where
  "lf = CHR 0x0A"

lemmas demo_defs = demo_json_def demo_client_def lf_def

lemma stream_ignores_chunking_witness:
  "fst (openai_turn demo_client (map Inr [''data: 1'' @ [lf], lf # ''data: [DO'', ''NE]'' @ [lf, lf]]) ''m'')
    = Inr \<lparr>rs_message = new_message Assistant [Text ''hi''], rs_usage = zero_usage, rs_model = ''m'', rs_finish = Stop\<rparr>"
proof -
  let ?b = "utf8_lossy (concat [''data: 1'' @ [lf], lf # ''data: [DO'', ''NE]'' @ [lf, lf]])"
  have m: "marker_is_last demo_client ?b" by code_simp
  have "fst (read_body demo_client ?b ''m'')
      = Inr \<lparr>rs_message = new_message Assistant [Text ''hi''], rs_usage = zero_usage, rs_model = ''m'', rs_finish = Stop\<rparr>" by code_simp
  then show ?thesis using stream_ignores_chunking [OF m, of "''m''"] by simp
qed

subsection \<open>Deltas and the reply\<close>

fun delta_text_of :: "stream_delta \<Rightarrow> string" where
  "delta_text_of (Delta_Text t) = t"
| "delta_text_of _ = []"

definition shown_text :: "'acc turn \<Rightarrow> string" where
  "shown_text tn = concat (map delta_text_of (tn_sent tn))"

lemma send_all_sent: "send_all sink ds tn = (None, tn') \<Longrightarrow> tn' = tn\<lparr>tn_sent := tn_sent tn @ ds\<rparr>"
  by (induction ds arbitrary: tn) (fastforce split: option.splits)+

lemma finished_calls_text: "concat (map delta_text_of (finished_calls J cs)) = []"
  by (simp add: finished_calls_def)

lemma apply_chunk_text:
  "apply_chunk J chunk acc = (ds, acc') \<Longrightarrow> oa_text acc' = oa_text acc @ concat (map delta_text_of ds)"
  by (auto simp: apply_chunk_def add_text_def add_reasoning_def add_calls_def Let_def finished_calls_text
      split: option.splits prod.splits if_splits)

lemma feed_event_text:
  "feed_event C ev tn = (Inr d, tn') \<Longrightarrow> shown_text tn = oa_text (tn_acc tn) \<Longrightarrow> shown_text tn' = oa_text (tn_acc tn')"
  by (auto simp: feed_event_def shown_text_def split: sse_event.splits if_splits sum.splits prod.splits option.splits
      dest!: send_all_sent apply_chunk_text)

lemma feed_events_text:
  "feed_events C raw tn = (r, rest, tn') \<Longrightarrow> (\<forall>e. r \<noteq> Some (Inl e)) \<Longrightarrow> shown_text tn = oa_text (tn_acc tn)
    \<Longrightarrow> shown_text tn' = oa_text (tn_acc tn')"
proof (induction C raw tn arbitrary: r rest tn' rule: feed_events.induct)
  case (1 C raw tn)
  show ?case
  proof (cases "take_sse_event raw")
    case (Pair o1 rest1)
    show ?thesis
    proof (cases o1)
      case None
      then show ?thesis using 1(2,4) Pair by (simp add: feed_events.simps)
    next
      case (Some ev)
      obtain d tn1 where f: "feed_event C ev tn = (d, tn1)" by fastforce
      consider e where "d = Inl e" | "d = Inr True" | "d = Inr False" by (metis (full_types) sum.exhaust)
      then show ?thesis
      proof cases
        case 1
        then show ?thesis using "1.prems" Pair Some f by (auto simp: feed_events.simps [of C raw])
      next
        case 2
        then show ?thesis using "1.prems" Pair Some f feed_event_text [of C ev tn True] by (simp add: feed_events.simps [of C raw])
      next
        case 3
        then show ?thesis using "1.prems" "1.IH" [OF Pair [symmetric] Some f [symmetric] 3] Pair Some f feed_event_text [of C ev tn False]
          by (simp add: feed_events.simps [of C raw])
      qed
    qed
  qed
qed

lemma read_parts_text:
  "read_parts C parts p raw tn = (Inr d, p', raw', tn') \<Longrightarrow> shown_text tn = oa_text (tn_acc tn)
    \<Longrightarrow> shown_text tn' = oa_text (tn_acc tn')"
proof (induction C parts p raw tn rule: read_parts.induct)
  case (3 C chunk parts p raw tn)
  obtain out p1 where d: "decoder_push p chunk = (out, p1)" by fastforce
  obtain r rest tn1 where f: "feed_events C (raw @ out) tn = (r, rest, tn1)" by (metis surj_pair)
  show ?case using 3 d f feed_events_text [OF f] by (auto split: option.splits sum.splits)
qed auto

text \<open>What was shown while a turn streamed is what the transcript keeps: if the turn ends in a reply, whatever the chunks,
  the text of the reply is the text deltas put together, and the rest of it are tool calls.
\<close>

theorem shown_text_is_kept:
  assumes "openai_turn C parts requested = (Inr reply, tn)"
  shows "\<exists>calls. msg_parts (rs_message reply) = text_parts (shown_text tn) @ calls \<and> list_all is_tool_call calls"
proof -
  obtain d p raw tn1 where r: "read_parts C parts [] [] new_turn = (Inr d, p, raw, tn1)"
    using assms by (auto simp: openai_turn_def new_turn_def split: prod.splits sum.splits)
  have t1: "shown_text tn1 = oa_text (tn_acc tn1)"
    by (rule read_parts_text [OF r]) (simp add: new_turn_def shown_text_def new_openai_acc_def)
  obtain r2 raw2 tn2 where f: "feed_events C (raw @ decoder_finish p) tn1 = (r2, raw2, tn2)" by (metis surj_pair)
  have ok: "\<forall>e. r2 \<noteq> Some (Inl e)"
    using assms r f by (auto simp: openai_turn_def new_turn_def split: prod.splits sum.splits option.splits)
  have t2: "shown_text tn2 = oa_text (tn_acc tn2)" by (rule feed_events_text [OF f ok t1])
  have "shown_text tn = oa_text (tn_acc tn) \<and> Inr reply = finish_stream (cl_json C) (cl_id C) (tn_acc tn) requested"
  proof (cases "d \<or> r2 \<noteq> None")
    case True
    then show ?thesis using assms r f ok t2
      by (auto simp: openai_turn_def new_turn_def split: prod.splits sum.splits option.splits if_splits)
  next
    case False
    then show ?thesis using assms r f t2 feed_event_text
      by (auto simp: openai_turn_def new_turn_def feed_trailing_def split: prod.splits sum.splits option.splits if_splits)
  qed
  then show ?thesis
    by (auto simp: finish_stream_def Let_def new_message_def list_all_iff split: if_splits)
qed

text \<open>Witness: two events.\<close>

lemma shown_text_is_kept_witness:
  "\<exists>reply tn. openai_turn demo_client [Inr (''data: 1'' @ [lf, lf]), Inr (''data: 1'' @ [lf, lf])] ''m'' = (Inr reply, tn)
     \<and> shown_text tn = ''hihi'' \<and> msg_parts (rs_message reply) = [Text ''hihi'']"
proof -
  obtain reply tn where t: "openai_turn demo_client [Inr (''data: 1'' @ [lf, lf]), Inr (''data: 1'' @ [lf, lf])] ''m'' = (Inr reply, tn)"
    and s: "shown_text tn = ''hihi''" "filter (\<lambda>p. is_tool_call p) (msg_parts (rs_message reply)) = []"
  proof -
    let ?t = "openai_turn demo_client [Inr (''data: 1'' @ [lf, lf]), Inr (''data: 1'' @ [lf, lf])] ''m''"
    have "case ?t of (Inr reply, tn) \<Rightarrow> shown_text tn = ''hihi'' \<and> filter (\<lambda>p. is_tool_call p) (msg_parts (rs_message reply)) = [] | _ \<Rightarrow> False"
      by code_simp
    then show thesis using that by (auto split: prod.splits sum.splits)
  qed
  have "msg_parts (rs_message reply) = [Text ''hihi'']"
    using shown_text_is_kept [OF t] s by (auto simp: text_parts_def list_all_iff filter_empty_conv)
  then show ?thesis using t s(1) by blast
qed

subsection \<open>Where a stream is not what it seems\<close>

text \<open>An event behind the marker counts if it comes in the same chunk, and not if it comes in the next.\<close>

lemma event_behind_marker_depends_on_chunks:
  "shown_text (snd (openai_turn demo_client [Inr (''data: [DONE]'' @ [lf, lf] @ ''data: 1'' @ [lf, lf])] ''m'')) = ''hi''
   \<and> shown_text (snd (openai_turn demo_client [Inr (''data: [DONE]'' @ [lf, lf]), Inr (''data: 1'' @ [lf, lf])] ''m'')) = []"
  by code_simp

text \<open>A turn cut off by the token limit ends as if the model had finished.\<close>

lemma streamed_length_limit_is_a_stop:
  "map_sum (\<lambda>e. e) rs_finish (fst (openai_turn demo_client [Inr (''data: 1'' @ [lf, lf] @ ''data: 3'' @ [lf, lf])] ''m'')) = Inr Stop
   \<and> read_finish ''length'' = Length_Limit"
  by code_simp

text \<open>A call whose chunk does not name the reason is dropped, where the whole reply keeps it whatever the reason.\<close>

lemma call_without_reason_is_dropped:
  "fst (openai_turn demo_client [Inr (''data: 2'' @ [lf, lf] @ ''data: [DONE]'' @ [lf, lf])] ''m'')
     = Inl (ProviderError ''p: the streamed turn produced neither text nor a tool call'')
   \<and> map_sum (\<lambda>e. e) (msg_parts \<circ> rs_message) (parse_response demo_json (JObject [(''choices'', JArray [JObject [(''message'', JObject
        [(''tool_calls'', JArray [JObject [(''id'', JString ''a''), (''function'', JObject [(''name'', JString ''ls''), (''arguments'', JString ''1'')])]])])]])]) ''m'')
     = Inr [ToolCall ''a'' ''ls'' ''1'']"
  by code_simp

end
