(* ===== verification/Anthropic_Facts.thy ===== *)
theory Anthropic_Facts imports Anthropic Openai_Stream_Facts
begin

section \<open>What holds of the Anthropic stream\<close>

text \<open>
  The framing is stable for a stream with one spelling of line ends, which the interpretation of \<open>framed_reader\<close>
  states, and the reader depends on the bytes alone if every frame has a payload.  Then deltas and the reply, and what
  happens where frames are not so.
\<close>

definition one_spelling :: "string \<Rightarrow> bool" where
  "one_spelling s \<longleftrightarrow> find_str crlf2 s = None \<or> find_str lf2 s = None"

lemma find_str_None_iff: "p \<noteq> [] \<Longrightarrow> find_str p s = None \<longleftrightarrow> \<not> contains_str s p"
  by (induction s) auto

lemma find_str_None_append:
  "p \<noteq> [] \<Longrightarrow> find_str p (s @ t) = None \<Longrightarrow> find_str p s = None \<and> find_str p t = None"
  by (simp add: find_str_None_iff contains_str_iff) (metis append.assoc)

lemma marks_nonempty [simp]: "lf2 \<noteq> []" "crlf2 \<noteq> []"
  by (simp_all add: lf2_def crlf2_def)

lemma frame_end_more: "one_spelling (s @ t) \<Longrightarrow> frame_end s = Some n \<Longrightarrow> frame_end (s @ t) = Some n"
  using find_str_None_append [of lf2 s t] find_str_None_append [of crlf2 s t] find_str_more [of lf2 s] find_str_more [of crlf2 s]
  by (auto simp: one_spelling_def frame_end_def split: option.splits)

text \<open>The replacement of a character that was cut ends no frame.\<close>

lemma find_str_last:
  assumes "find_str p s = Some j" "p \<noteq> []"
  shows "s ! (j + length p - 1) = last p"
  using arg_cong [OF find_str_at [OF assms(1)], of "\<lambda>x. x ! (length p - 1)"] find_str_bounds [OF assms(1)] assms(2)
  by (cases p) (simp_all add: last_conv_nth)

lemma find_str_replacement:
  assumes "find_str p s = None" "p \<noteq> []" "last p = CHR 0x0A"
  shows "find_str p (s @ replacement) = None"
proof (rule ccontr)
  assume "find_str p (s @ replacement) \<noteq> None"
  then obtain j where j: "find_str p (s @ replacement) = Some j" by blast
  let ?k = "j + length p - 1"
  have k: "length s \<le> ?k" "?k < length (s @ replacement)"
    using find_str_late [OF assms(1) j] find_str_bounds [OF j] assms(2) by (cases p; simp)+
  have "(s @ replacement) ! ?k = last p"
    by (rule find_str_last [OF j assms(2)])
  moreover have "(s @ replacement) ! ?k \<in> set replacement"
    using k by (simp only: nth_append) (simp add: nth_mem)
  ultimately show False using assms(3) by (auto simp: replacement_def)
qed

lemma frame_end_replacement: "frame_end s = None \<Longrightarrow> t \<in> {[], replacement} \<Longrightarrow> frame_end (s @ t) = None"
  using find_str_replacement [of lf2 s] find_str_replacement [of crlf2 s]
  by (auto simp: frame_end_def lf2_def crlf2_def split: option.splits)

definition frame_step :: "client \<Rightarrow> string \<Rightarrow> anthropic_acc turn \<Rightarrow> (hx_error + unit) option \<times> anthropic_acc turn" where
  "frame_step C frame tn = (case parse_frame (cl_json C) frame of
     None \<Rightarrow> (Some (Inr ()), tn)
   | Some f \<Rightarrow> (case feed_frame C f tn of (Some e, tn) \<Rightarrow> (Some (Inl e), tn) | (None, tn) \<Rightarrow> (None, tn)))"

interpretation anthropic: framed_reader frame_end one_spelling "frame_step C" "feed_frames C" for C
proof
  show "one_spelling (a @ b) \<Longrightarrow> one_spelling b" for a b
    using find_str_None_append [of lf2 a b] find_str_None_append [of crlf2 a b] by (auto simp: one_spelling_def)
  show "feed_frames C raw s = (case frame_end raw of
        None \<Rightarrow> (None, raw, s)
      | Some n \<Rightarrow> (case frame_step C (take n raw) s of
          (None, s) \<Rightarrow> feed_frames C (drop n raw) s
        | (Some r, s) \<Rightarrow> (Some r, drop n raw, s)))" for raw s
    by (subst feed_frames.simps) (auto simp: take_sse_frame_def frame_step_def split: option.splits prod.splits)
qed (use frame_end_bounds frame_end_more in blast)+

subsection \<open>A turn is the text of its bytes\<close>

definition new_anthropic_turn :: "anthropic_acc turn" where
  "new_anthropic_turn = \<lparr>tn_acc = new_anthropic_acc, tn_sent = []\<rparr>"

definition read_frames_body :: "client \<Rightarrow> string \<Rightarrow> string \<Rightarrow> (hx_error + wire_response) \<times> anthropic_acc turn" where
  "read_frames_body C body requested = (case feed_frames C body new_anthropic_turn of
     (Some (Inl e), _, tn) \<Rightarrow> (Inl e, tn)
   | (_, raw, tn) \<Rightarrow> (case feed_tail C raw tn of
        (Some e, tn) \<Rightarrow> (Inl e, tn)
      | (None, tn) \<Rightarrow> (finish_turn (cl_json C) (tn_acc tn) requested, tn)))"

text \<open>No frame without a payload: no comment of its own, and every payload JSON.\<close>

definition frames_carry :: "client \<Rightarrow> string \<Rightarrow> bool" where
  "frames_carry C body \<longleftrightarrow> fst (feed_frames C body new_anthropic_turn) \<noteq> Some (Inr ())"

lemma read_frames_chunks:
  "read_chunks (feed_frames C) bs pending raw tn = (r, left, p, raw', tn') \<Longrightarrow> r \<noteq> Some (Inr ()) \<Longrightarrow>
   read_frames C (map Inr bs) pending raw tn = (case r of None \<Rightarrow> (None, p, raw', tn') | Some (Inl e) \<Rightarrow> (Some e, p, raw', tn')
     | Some (Inr _) \<Rightarrow> (None, p, raw', tn'))"
  by (induction bs arbitrary: pending raw tn) (auto split: prod.splits option.splits sum.splits)

lemma read_chunks_rest:
  assumes "read_chunks (feed_frames C) bs pending raw tn = (None, left, p, raw', tn')"
    and "frame_end raw = None" "decoder_finish pending \<in> {[], replacement}"
  shows "frame_end raw' = None \<and> decoder_finish p \<in> {[], replacement}"
  using assms
proof (induction bs arbitrary: pending raw tn)
  case (Cons b bs)
  obtain out q where d: "decoder_push pending b = (out, q)" by fastforce
  obtain e rest t where l: "feed_frames C (raw @ out) tn = (e, rest, t)" by (metis surj_pair)
  have e: "e = None" using Cons.prems(1) d l by (cases e) auto
  show ?case
    using Cons.IH [of q rest t] Cons.prems(1) d l e anthropic.loop_rest [of C "raw @ out" tn rest t] push_rest [OF d] by simp
qed auto

text \<open>The same of the other adapter: if line ends have one spelling throughout and every frame has a payload, the deltas,
  the reply and the error of a streamed turn are those of the body read at once, whatever the chunks.
\<close>

theorem anthropic_ignores_chunking:
  assumes "one_spelling (utf8_lossy (concat bs))" "frames_carry C (utf8_lossy (concat bs))"
  shows "anthropic_turn C (map Inr bs) requested = read_frames_body C (utf8_lossy (concat bs)) requested"
proof -
  obtain r left p raw tn where rc: "read_chunks (feed_frames C) bs [] [] new_anthropic_turn = (r, left, p, raw, tn)" by (metis surj_pair)
  have w: "feed_frames C (utf8_lossy (concat bs)) new_anthropic_turn = (case r of
      None \<Rightarrow> feed_frames C (raw @ decoder_finish p) tn | Some x \<Rightarrow> (Some x, raw @ utf8_lossy (p @ concat left), tn))"
    using anthropic.read_chunks_whole [OF _ rc] assms(1) by simp
  have nr: "r \<noteq> Some (Inr ())" using assms(2) w by (auto simp: frames_carry_def)
  note rf = read_frames_chunks [OF rc nr]
  show ?thesis
  proof (cases r)
    case None
    have "frame_end (raw @ decoder_finish p) = None"
      using read_chunks_rest [OF rc [unfolded None]] frame_end_replacement by (auto simp: frame_end_def lf2_def crlf2_def decoder_finish_def)
    then have "feed_frames C (raw @ decoder_finish p) tn = (None, raw @ decoder_finish p, tn)"
      by (simp add: feed_frames.simps take_sse_frame_def)
    then show ?thesis using None rf w by (simp add: anthropic_turn_def read_frames_body_def new_anthropic_turn_def [symmetric])
  next
    case (Some x)
    then show ?thesis using nr rf w
      by (cases x) (simp_all add: anthropic_turn_def read_frames_body_def new_anthropic_turn_def [symmetric])
  qed
qed

text \<open>Witness: a turn with a call, cut inside an event and inside a blank line.\<close>

definition event_text :: "string \<Rightarrow> string \<Rightarrow> string" where
  "event_text name payload = ''event: '' @ name @ [lf] @ ''data: '' @ payload @ [lf, lf]"

text \<open>A parser of just the payloads of the examples.\<close>

definition toy_payload :: "string \<Rightarrow> string + json" where
  "toy_payload t =
     (if t = ''hi'' then Inr (JObject [(''delta'', JObject [(''type'', JString ''text_delta''), (''text'', JString ''hi'')])])
      else if t = ''call'' then Inr (JObject [(''content_block'', JObject [(''type'', JString ''tool_use''), (''id'', JString ''a''), (''name'', JString ''ls'')])])
      else if t = ''args'' then Inr (JObject [(''delta'', JObject [(''type'', JString ''input_json_delta''), (''partial_json'', JString ''[]'')])])
      else if t = ''stop'' then Inr (JObject [(''delta'', JObject [(''stop_reason'', JString ''tool_use'')])])
      else if t = ''[]'' then Inr (JArray [])
      else if t = ''{}'' then Inr (JObject [])
      else Inl ''?'')"

definition toy_client :: client where
  "toy_client = \<lparr>cl_json = \<lparr>from_str = toy_payload, to_string = (\<lambda>v. case v of JArray _ \<Rightarrow> ''[]'' | _ \<Rightarrow> ''{}'')\<rparr>, cl_id = ''p'', cl_sink = (\<lambda>_ _. None)\<rparr>"

definition toy_body :: string where
  "toy_body = event_text ''content_block_delta'' ''hi'' @ event_text ''content_block_start'' ''call''
     @ event_text ''content_block_delta'' ''args'' @ event_text ''content_block_stop'' ''{}'' @ event_text ''message_delta'' ''stop''"

definition toy_reply :: wire_response where
  "toy_reply = \<lparr>rs_message = new_message Assistant [Text ''hi'', ToolCall ''a'' ''ls'' ''[]''], rs_usage = zero_usage, rs_model = ''m'', rs_finish = Tool_Use\<rparr>"

lemma toy_body_read: "read_frames_body toy_client (utf8_lossy toy_body) ''m'' = (Inr toy_reply, snd (read_frames_body toy_client (utf8_lossy toy_body) ''m''))"
proof -
  have "fst (read_frames_body toy_client (utf8_lossy toy_body) ''m'') = Inr toy_reply" by code_simp
  then show ?thesis by (metis prod.collapse)
qed

lemma anthropic_ignores_chunking_witness:
  "fst (anthropic_turn toy_client (map Inr [take 60 toy_body, drop 60 toy_body]) ''m'') = Inr toy_reply"
proof -
  have j: "concat [take 60 toy_body, drop 60 toy_body] = toy_body" by simp
  have "one_spelling (utf8_lossy toy_body)" "frames_carry toy_client (utf8_lossy toy_body)" by code_simp+
  then show ?thesis
    using anthropic_ignores_chunking [of "[take 60 toy_body, drop 60 toy_body]" toy_client "''m''", unfolded j] toy_body_read by (metis fst_conv)
qed

subsection \<open>Deltas and the reply\<close>

fun delta_call :: "stream_delta \<Rightarrow> part option" where
  "delta_call (Delta_Call i name arguments) = Some (ToolCall i name arguments)"
| "delta_call _ = None"

definition shown_calls :: "'acc turn \<Rightarrow> part list" where
  "shown_calls tn = List.map_filter delta_call (tn_sent tn)"

lemma extend_block_keeps [simp]:
  "aa_text (extend_block i t acc) = aa_text acc" "aa_calls (extend_block i t acc) = aa_calls acc"
  by (simp_all add: extend_block_def split: option.splits)

text \<open>What an event adds to the turn is what it puts out.\<close>

definition adds :: "json_lib \<Rightarrow> anthropic_acc \<Rightarrow> stream_delta list \<Rightarrow> anthropic_acc \<Rightarrow> bool" where
  "adds J acc ds acc' \<longleftrightarrow> aa_text acc' = aa_text acc @ concat (map delta_text_of ds)
     \<and> map (call_part J) (aa_calls acc') = map (call_part J) (aa_calls acc) @ List.map_filter delta_call ds"

lemma message_start_adds: "adds J acc [] (message_start data acc)"
  by (simp add: adds_def message_start_def Let_def map_filter_simps split: option.splits)

lemma message_delta_adds: "adds J acc [] (message_delta data acc)"
  by (simp add: adds_def message_delta_def Let_def map_filter_simps split: option.splits)

lemma block_start_adds: "block_start data acc = (ds, acc') \<Longrightarrow> adds J acc ds acc'"
  by (auto simp: adds_def block_start_def Let_def map_filter_simps split: if_splits)

lemma block_delta_adds: "block_delta data acc = (ds, acc') \<Longrightarrow> adds J acc ds acc'"
  by (auto simp: adds_def block_delta_def Let_def map_filter_simps split: if_splits option.splits)

lemma call_part_entry: "call_part J (JObject [(''id'', JString k), (''name'', JString n), (''input'', v)]) = ToolCall k n (to_string J v)"
  by (simp add: call_part_def str_field_or_def str_field_def field_or_null_def)

lemma block_stop_adds: "block_stop J data acc = Inr (ds, acc') \<Longrightarrow> adds J acc ds acc'"
  by (auto simp: adds_def block_stop_def Let_def map_filter_simps call_part_entry split: if_splits option.splits sum.splits)

lemma apply_event_adds: "apply_event J name data acc = Inr (ds, acc') \<Longrightarrow> adds J acc ds acc'"
  using message_start_adds message_delta_adds block_start_adds block_delta_adds block_stop_adds
  by (auto simp: apply_event_def Let_def split: if_splits) (auto simp: adds_def error_event_def map_filter_simps)

definition in_step :: "json_lib \<Rightarrow> anthropic_acc turn \<Rightarrow> bool" where
  "in_step J tn \<longleftrightarrow> shown_text tn = aa_text (tn_acc tn) \<and> shown_calls tn = map (call_part J) (aa_calls (tn_acc tn))"

lemma map_filter_join: "List.map_filter f (xs @ ys) = List.map_filter f xs @ List.map_filter f ys"
  by (induction xs) (auto simp: map_filter_simps split: option.splits)

lemma feed_frame_in_step: "feed_frame C f tn = (None, tn') \<Longrightarrow> in_step (cl_json C) tn \<Longrightarrow> in_step (cl_json C) tn'"
  by (auto simp: feed_frame_def in_step_def shown_text_def shown_calls_def adds_def map_filter_join
      split: prod.splits sum.splits dest!: send_all_sent apply_event_adds)

lemma feed_frames_in_step:
  "feed_frames C raw tn = (r, rest, tn') \<Longrightarrow> (\<forall>e. r \<noteq> Some (Inl e)) \<Longrightarrow> in_step (cl_json C) tn \<Longrightarrow> in_step (cl_json C) tn'"
proof (induction C raw tn arbitrary: r rest tn' rule: feed_frames.induct)
  case (1 C raw tn)
  show ?case
  proof (cases "take_sse_frame (cl_json C) raw")
    case (Pair o1 rest1)
    show ?thesis
    proof (cases o1)
      case None
      then show ?thesis using "1.prems" Pair by (simp add: feed_frames.simps split: if_splits)
    next
      case (Some f)
      obtain e tn1 where ff: "feed_frame C f tn = (e, tn1)" by fastforce
      show ?thesis
      proof (cases e)
        case None
        then show ?thesis using "1.prems" "1.IH" [OF Pair [symmetric] Some ff [symmetric] None] Pair Some ff feed_frame_in_step [of C f tn]
          by (simp add: feed_frames.simps [of C raw])
      next
        case (Some x)
        then show ?thesis using "1.prems" Pair \<open>o1 = Some f\<close> ff by (auto simp: feed_frames.simps [of C raw])
      qed
    qed
  qed
qed

lemma read_frames_in_step:
  "read_frames C parts p raw tn = (None, p', raw', tn') \<Longrightarrow> in_step (cl_json C) tn \<Longrightarrow> in_step (cl_json C) tn'"
proof (induction C parts p raw tn rule: read_frames.induct)
  case (3 C chunk parts p raw tn)
  obtain out p1 where d: "decoder_push p chunk = (out, p1)" by fastforce
  obtain r rest tn1 where f: "feed_frames C (raw @ out) tn = (r, rest, tn1)" by (metis surj_pair)
  show ?case using 3 d f feed_frames_in_step [OF f] by (auto split: option.splits sum.splits)
qed auto

text \<open>C17. A streamed Anthropic turn shows exactly what it keeps: whatever the chunks, the parts of the reply are the text deltas put
  together, then the calls that were put out, one for one and in order, with their identifiers, names and arguments.
\<close>

theorem anthropic_deltas_are_the_reply:
  assumes "anthropic_turn C parts requested = (Inr reply, tn)"
  shows "msg_parts (rs_message reply) = text_parts (shown_text tn) @ shown_calls tn"
proof -
  obtain p raw tn1 where r: "read_frames C parts [] [] new_anthropic_turn = (None, p, raw, tn1)"
    using assms by (auto simp: anthropic_turn_def new_anthropic_turn_def split: prod.splits option.splits)
  have "in_step (cl_json C) tn1"
    by (rule read_frames_in_step [OF r])
      (simp add: in_step_def new_anthropic_turn_def new_anthropic_acc_def shown_text_def shown_calls_def map_filter_simps)
  moreover obtain tn2 where t: "feed_tail C (raw @ decoder_finish p) tn1 = (None, tn2)" "tn = tn2"
    "finish_turn (cl_json C) (tn_acc tn2) requested = Inr reply"
    using assms r by (auto simp: anthropic_turn_def new_anthropic_turn_def split: prod.splits option.splits)
  ultimately have "in_step (cl_json C) tn"
    using feed_frame_in_step [of C] by (auto simp: feed_tail_def split: option.splits)
  then show ?thesis using t(2,3)
    by (auto simp: in_step_def finish_turn_def Let_def new_message_def split: option.splits if_splits)
qed

text \<open>Witness: the turn of the example.\<close>

lemma anthropic_deltas_are_the_reply_witness:
  "shown_text (snd (anthropic_turn toy_client [Inr toy_body] ''m'')) = ''hi''
   \<and> text_parts ''hi'' @ shown_calls (snd (anthropic_turn toy_client [Inr toy_body] ''m'')) = [Text ''hi'', ToolCall ''a'' ''ls'' ''[]'']"
proof -
  let ?t = "anthropic_turn toy_client [Inr toy_body] ''m''"
  have r: "fst ?t = Inr toy_reply" by code_simp
  have s: "shown_text (snd ?t) = ''hi''" by code_simp
  have "?t = (Inr toy_reply, snd ?t)" using r by (metis prod.collapse)
  from anthropic_deltas_are_the_reply [OF this] s show ?thesis by (simp add: toy_reply_def new_message_def)
qed

subsection \<open>Frames without a payload, and mixed line ends\<close>

text \<open>
  A comment ends the inner loop, and the frames behind it wait for the next chunk; behind the last chunk they are read as
  one frame, and lost.
\<close>

lemma comment_loses_what_follows:
  "fst (anthropic_turn toy_client [Inr (event_text ''content_block_delta'' ''hi'')] ''m'') = Inr (toy_reply\<lparr>rs_message := new_message Assistant [Text ''hi''], rs_finish := Stop\<rparr>)
   \<and> fst (anthropic_turn toy_client [Inr ('': keepalive'' @ [lf, lf] @ event_text ''content_block_delta'' ''hi'' @ event_text ''message_delta'' ''stop'')] ''m'')
     = Inl (ProviderError ''the streamed turn contained neither text nor a tool call, so there is no reply to return'')"
  by code_simp

text \<open>A blank line in one spelling hides earlier ones in the other: two frames are read as one.\<close>

lemma mixed_line_ends_merge_frames:
  "frame_end (''a'' @ [CHR 0x0D, CHR 0x0A, CHR 0x0D, CHR 0x0A] @ ''b'' @ [lf, lf]) = Some 8
   \<and> event_end (''a'' @ [CHR 0x0D, CHR 0x0A, CHR 0x0D, CHR 0x0A] @ ''b'' @ [lf, lf]) = Some 5"
  by code_simp

end
