(* ===== verification/Model_Call.thy ===== *)
theory Model_Call imports Anthropic
begin

section \<open>Model calls through the routing table\<close>

text \<open>
  \<open>crates/hx-agent/src/model.rs\<close> and the registry of \<open>crates/hx-provider/src/provider.rs\<close>: a role is routed to a provider and a
  credential, the key is resolved, the call is made while the table is free for others, and its reservation is settled.  A
  call is therefore two steps, around what the provider does.  Providers and secret stores are parameters.
\<close>

subsection \<open>The registry\<close>

datatype adapter = Openai_Adapter endpoint | Anthropic_Adapter endpoint

fun adapter_models :: "adapter \<Rightarrow> string list" where
  "adapter_models (Openai_Adapter ep) = ep_models ep"
| "adapter_models (Anthropic_Adapter ep) = ep_models ep"

type_synonym registry = "(string \<times> adapter) list"

definition api_root_for_ollama :: "string \<Rightarrow> string" where [hx_defs]:
  "api_root_for_ollama base_url =
     (let trimmed = trim_end_matches (CHR ''/'') base_url in
      if ends_with trimmed ''/v1'' then trimmed else trimmed @ ''/v1'')"

definition provider_adapter :: "string \<Rightarrow> provider_config \<Rightarrow> hx_error + adapter" where [hx_defs]:
  "provider_adapter name pc =
     (case pc_base_url pc of
        None \<Rightarrow> Inl (ConfigError (''provider '' @ [CHR 0x27] @ name @ [CHR 0x27]
          @ '' has no base_url; the adapter needs an API root (e.g. https://api.openai.com/v1)''))
      | Some base \<Rightarrow> (case pc_kind pc of
          Model_Config.Openai \<Rightarrow> Inr (Openai_Adapter (new_endpoint name base (pc_models pc)))
        | Custom \<Rightarrow> Inr (Openai_Adapter (new_endpoint name base (pc_models pc)))
        | Ollama \<Rightarrow> Inr (Openai_Adapter (without_auth (new_endpoint name (api_root_for_ollama base) (pc_models pc))))
        | Model_Config.Anthropic \<Rightarrow> Inr (Anthropic_Adapter (new_endpoint name base (pc_models pc)))
        | Google \<Rightarrow> Inl (ConfigError (''provider '' @ [CHR 0x27] @ name @ [CHR 0x27]
            @ '' is configured as `google`, which has its own wire format and no adapter yet. Use an OpenAI-compatible gateway in the meantime.''))))"

fun registry_from_config :: "(string \<times> provider_config) list \<Rightarrow> registry \<Rightarrow> hx_error + registry" where
  "registry_from_config [] reg = Inr reg"
| "registry_from_config ((name, pc) # pcs) reg = (case provider_adapter name pc of
     Inl e \<Rightarrow> Inl e
   | Inr a \<Rightarrow> registry_from_config pcs (AList.update name a reg))"

definition resolve_provider :: "string \<Rightarrow> string \<Rightarrow> registry \<Rightarrow> hx_error + adapter" where [hx_defs]:
  "resolve_provider pid model reg = (case map_of reg pid of
     None \<Rightarrow> Inl (ConfigError (''unknown provider '' @ [CHR 0x27] @ pid @ [CHR 0x27]))
   | Some a \<Rightarrow>
      if adapter_models a \<noteq> [] \<and> \<not> list_ex (\<lambda>m. m = model) (adapter_models a)
      then Inl (NoRoute (''provider '' @ [CHR 0x27] @ pid @ [CHR 0x27] @ '' does not list model '' @ [CHR 0x27] @ model @ [CHR 0x27]))
      else Inr a)"

subsection \<open>A callable for a role\<close>

datatype call_error = Routing_Error router_error | Call_Error hx_error

record role_model =
  rm_role :: string
  rm_preferred :: string
  rm_last :: "(string \<times> string) option"
  rm_spent :: f64

definition new_role_model :: "string \<Rightarrow> registry \<Rightarrow> model_router \<Rightarrow> call_error + role_model" where [hx_defs]:
  "new_role_model role reg r = (case pool_for_role role r of
     Inl e \<Rightarrow> Inl (Routing_Error e)
   | Inr pool \<Rightarrow>
      (case Option.bind (map_of (mr_pools r) pool) (\<lambda>p. case rp_routes p of rt # _ \<Rightarrow> Some (rt_model rt) | [] \<Rightarrow> None) of
         None \<Rightarrow> Inl (Call_Error (NoRoute (''pool '' @ [CHR 0x27] @ pool @ [CHR 0x27] @ '' for role '' @ [CHR 0x27] @ role
           @ [CHR 0x27] @ '' has no routes'')))
       | Some m \<Rightarrow>
          if reg = [] then Inl (Call_Error (ConfigError (''no providers are configured, so role '' @ [CHR 0x27] @ role
            @ [CHR 0x27] @ '' cannot be called'')))
          else Inr \<lparr>rm_role = role, rm_preferred = m, rm_last = None, rm_spent = 0\<rparr>))"

text \<open>The ids reported before the first call.\<close>

definition model_provider_id :: "role_model \<Rightarrow> string" where [hx_defs]:
  "model_provider_id m = (case rm_last m of Some (p, _) \<Rightarrow> p | None \<Rightarrow> ''unrouted'')"

definition model_credential_id :: "role_model \<Rightarrow> string" where [hx_defs]:
  "model_credential_id m = (case rm_last m of Some (_, c) \<Rightarrow> c | None \<Rightarrow> ''unrouted'')"

text \<open>A call that is with its provider: the ticket it holds, what was sent and with which key, and the time it was asked.\<close>

record open_call =
  oc_ticket :: route_ticket
  oc_adapter :: adapter
  oc_key :: string
  oc_request :: chat_request
  oc_now :: datetime

definition begin_call :: "registry \<Rightarrow> (string \<Rightarrow> hx_error + string) \<Rightarrow> string \<Rightarrow> chat_request \<Rightarrow> datetime \<Rightarrow> model_router
    \<Rightarrow> (call_error + open_call) \<times> model_router" where [hx_defs]:
  "begin_call reg secrets role req now r =
     (let tokens = reservation_tokens req in
     (case estimate_role_reservation_usd role tokens r of
        Inl e \<Rightarrow> (Inl (Routing_Error e), r)
      | Inr usd \<Rightarrow>
     (case acquire_for_role role tokens usd now r of
        (Inl e, r) \<Rightarrow> (Inl (Routing_Error e), r)
      | (Inr t, r) \<Rightarrow>
     (case resolve_provider (rt_provider (rk_route t)) (rt_model (rk_route t)) reg of
        Inl e \<Rightarrow> (Inl (Call_Error e), release_route t now r)
      | Inr a \<Rightarrow>
     (case secrets (tk_secret_ref (rk_credential t)) of
        Inl e \<Rightarrow> (Inl (Call_Error e), release_route t now r)
      | Inr key \<Rightarrow> (Inr \<lparr>oc_ticket = t, oc_adapter = a, oc_key = key,
          oc_request = req\<lparr>cr_model := rt_model (rk_route t)\<rparr>, oc_now = now\<rparr>, r))))))"

definition total_tokens :: "usage \<Rightarrow> nat" where [hx_defs]:
  "total_tokens u = input_tokens u + output_tokens u"

definition end_call :: "open_call \<Rightarrow> hx_error + chat_response \<Rightarrow> role_model \<Rightarrow> model_router
    \<Rightarrow> (hx_error + chat_response) \<times> role_model \<times> model_router" where [hx_defs]:
  "end_call c answer m r = (let t = oc_ticket c in
     (case answer of
        Inr resp \<Rightarrow>
          (let cost = estimate_cost (rk_route t) (rs_usage resp) r in
           (Inr resp,
            m\<lparr>rm_spent := fadd (rm_spent m) cost, rm_last := Some (rt_provider (rk_route t), tk_credential (rk_credential t))\<rparr>,
            reconcile_route t (total_tokens (rs_usage resp)) cost (oc_now c) r))
      | Inl e \<Rightarrow>
          (let r = (if is_auth_failure e
               then snd (mark_route_unhealthy (rt_provider (rk_route t)) (tk_credential (rk_credential t)) (error_text e) r) else r)
           in (Inl e, m, release_route t (oc_now c) r))))"

text \<open>The whole call, of a provider that answers.\<close>

definition role_complete :: "registry \<Rightarrow> (string \<Rightarrow> hx_error + string) \<Rightarrow> (adapter \<Rightarrow> chat_request \<Rightarrow> string \<Rightarrow> hx_error + chat_response)
    \<Rightarrow> chat_request \<Rightarrow> datetime \<Rightarrow> role_model \<Rightarrow> model_router \<Rightarrow> (call_error + chat_response) \<times> role_model \<times> model_router" where [hx_defs]:
  "role_complete reg secrets provider req now m r =
     (case begin_call reg secrets (rm_role m) req now r of
        (Inl e, r) \<Rightarrow> (Inl e, m, r)
      | (Inr c, r) \<Rightarrow> (case end_call c (provider (oc_adapter c) (oc_request c) (oc_key c)) m r of
          (Inl e, m, r) \<Rightarrow> (Inl (Call_Error e), m, r) | (Inr resp, m, r) \<Rightarrow> (Inr resp, m, r)))"

subsection \<open>Callables side by side\<close>

text \<open>
  Every run of a daemon shares one routing table, and the table is not locked while a provider works.  A call in flight
  is answered, or abandoned: the agent loop drops a call at its deadline, between the two steps.
\<close>

record calls_world =
  cw_router :: model_router
  cw_models :: "role_model list"
  cw_open :: "(nat \<times> open_call) list"
  cw_abandoned :: "open_call list"

datatype model_step =
    Begin nat chat_request datetime
  | Answer nat "hx_error + chat_response"
  | Abandon nat

fun call_step :: "registry \<Rightarrow> (string \<Rightarrow> hx_error + string) \<Rightarrow> model_step \<Rightarrow> calls_world \<Rightarrow> calls_world" where
  "call_step reg secrets (Begin i req now) w =
     (if i < length (cw_models w)
      then (case begin_call reg secrets (rm_role (cw_models w ! i)) req now (cw_router w) of
          (Inl e, r) \<Rightarrow> w\<lparr>cw_router := r\<rparr>
        | (Inr c, r) \<Rightarrow> w\<lparr>cw_router := r, cw_open := (i, c) # cw_open w\<rparr>)
      else w)"
| "call_step reg secrets (Answer k answer) w =
     (if k < length (cw_open w)
      then (case cw_open w ! k of (i, c) \<Rightarrow> (case end_call c answer (cw_models w ! i) (cw_router w) of
          (_, m, r) \<Rightarrow> w\<lparr>cw_router := r, cw_models := (cw_models w)[i := m],
            cw_open := take k (cw_open w) @ drop (Suc k) (cw_open w)\<rparr>))
      else w)"
| "call_step reg secrets (Abandon k) w =
     (if k < length (cw_open w)
      then w\<lparr>cw_open := take k (cw_open w) @ drop (Suc k) (cw_open w), cw_abandoned := snd (cw_open w ! k) # cw_abandoned w\<rparr>
      else w)"

definition new_calls :: "model_router \<Rightarrow> role_model list \<Rightarrow> calls_world" where [hx_defs]:
  "new_calls r ms = \<lparr>cw_router = r, cw_models = ms, cw_open = [], cw_abandoned = []\<rparr>"

end
