(* ===== verification/Model_Call_Facts.thy ===== *)
theory Model_Call_Facts imports Model_Call Router_Facts
begin

section \<open>No call loses its reservation but by a deadline\<close>









subsection \<open>A dropped call\<close>





end
