(* ===== verification/Fetch_Target.thy ===== *)
theory Fetch_Target imports Egress "HOL-Library.Char_ord" "HOL-Library.List_Lexorder"
begin

section \<open>Which pages may be fetched\<close>

text \<open>
  \<open>crates/hx-browser/src/target.rs\<close>: the admission of a URL, the addresses that are not on the public internet, and the
  pinning of a host name to the addresses it was judged by.  The crate \<open>url\<close> and the resolver are parameters; addresses
  are those of the standard library.
\<close>

subsection \<open>Addresses\<close>

text \<open>The order of \<open>IpAddr\<close>: version 4 before version 6, then by number.\<close>

instantiation ip_addr :: linorder
begin

definition less_eq_ip_addr :: "ip_addr \<Rightarrow> ip_addr \<Rightarrow> bool" where
  "a \<le> b \<longleftrightarrow> (case (a, b) of (V4 x, V4 y) \<Rightarrow> x \<le> y | (V4 _, V6 _) \<Rightarrow> True | (V6 _, V4 _) \<Rightarrow> False | (V6 x, V6 y) \<Rightarrow> x \<le> y)"

definition less_ip_addr :: "ip_addr \<Rightarrow> ip_addr \<Rightarrow> bool" where
  "a < b \<longleftrightarrow> (case (a, b) of (V4 x, V4 y) \<Rightarrow> x < y | (V4 _, V6 _) \<Rightarrow> True | (V6 _, V4 _) \<Rightarrow> False | (V6 x, V6 y) \<Rightarrow> x < y)"

instance
  by standard (auto simp: less_eq_ip_addr_def less_ip_addr_def split: ip_addr.splits)

end

text \<open>The bytes of a version 4 address and the groups of a version 6 address.\<close>

definition octet :: "32 word \<Rightarrow> nat \<Rightarrow> nat" where [hx_defs]:
  "octet a i = unat a div 256 ^ (3 - i) mod 256"

definition segment :: "128 word \<Rightarrow> nat \<Rightarrow> nat" where [hx_defs]:
  "segment a i = unat a div 65536 ^ (7 - i) mod 65536"

definition is_private :: "32 word \<Rightarrow> bool" where [hx_defs]:
  "is_private a \<longleftrightarrow> octet a 0 = 10 \<or> (octet a 0 = 172 \<and> 16 \<le> octet a 1 \<and> octet a 1 \<le> 31)
     \<or> (octet a 0 = 192 \<and> octet a 1 = 168)"

definition is_link_local :: "32 word \<Rightarrow> bool" where [hx_defs]:
  "is_link_local a \<longleftrightarrow> octet a 0 = 169 \<and> octet a 1 = 254"

definition is_documentation :: "32 word \<Rightarrow> bool" where [hx_defs]:
  "is_documentation a \<longleftrightarrow> (octet a 0 = 192 \<and> octet a 1 = 0 \<and> octet a 2 = 2)
     \<or> (octet a 0 = 198 \<and> octet a 1 = 51 \<and> octet a 2 = 100) \<or> (octet a 0 = 203 \<and> octet a 1 = 0 \<and> octet a 2 = 113)"

definition is_cgnat :: "32 word \<Rightarrow> bool" where [hx_defs]:
  "is_cgnat a \<longleftrightarrow> octet a 0 = 100 \<and> octet a 1 AND 0xC0 = 64"

definition to_ipv4_mapped :: "128 word \<Rightarrow> 32 word option" where [hx_defs]:
  "to_ipv4_mapped a = (if drop_bit 32 a = 0xFFFF then Some (ucast a) else None)"

text \<open>The reason an address is not on the public internet.\<close>

definition why_not_public_v4 :: "32 word \<Rightarrow> string option" where [hx_defs]:
  "why_not_public_v4 a =
     (if octet a 0 = 127 then Some ''it is the loopback address''
      else if is_private a then Some ''it is in a private range (RFC 1918)''
      else if is_link_local a
        then Some ''it is a link-local address, which is where the cloud metadata service lives''
      else if a = 0 then Some ''it is the unspecified address 0.0.0.0''
      else if a = 0xFFFFFFFF then Some ''it is the broadcast address''
      else if 224 \<le> octet a 0 \<and> octet a 0 \<le> 239 then Some ''it is a multicast address''
      else if is_documentation a then Some ''it is in a documentation range, which never routes''
      else if is_cgnat a then Some ''it is in the carrier-grade NAT range 100.64.0.0/10''
      else None)"

definition why_not_public_v6 :: "128 word \<Rightarrow> string option" where [hx_defs]:
  "why_not_public_v6 a =
     (if a = 1 then Some ''it is the IPv6 loopback address''
      else if a = 0 then Some ''it is the unspecified IPv6 address''
      else if segment a 0 AND 0xFF00 = 0xFF00 then Some ''it is an IPv6 multicast address''
      else if segment a 0 AND 0xFE00 = 0xFC00 then Some ''it is an IPv6 unique-local address (fc00::/7)''
      else if segment a 0 AND 0xFFC0 = 0xFE80 then Some ''it is an IPv6 link-local address (fe80::/10)''
      else case to_ipv4_mapped a of Some v4 \<Rightarrow> why_not_public_v4 v4 | None \<Rightarrow> None)"

definition why_not_public_ip :: "ip_addr \<Rightarrow> string option" where [hx_defs]:
  "why_not_public_ip ip = (case ip of V4 a \<Rightarrow> why_not_public_v4 a | V6 a \<Rightarrow> why_not_public_v6 a)"

text \<open>
  \<open>Display\<close> of an address.  The longest run of at least two zero groups, the first of equal ones, is written as two colons.
\<close>

definition show_ipv4 :: "32 word \<Rightarrow> string" where [hx_defs]:
  "show_ipv4 a = join ''.'' (map (\<lambda>i. show_nat (octet a i)) [0..<4])"

definition hex_digit :: "nat \<Rightarrow> char" where [hx_defs]:
  "hex_digit d = char_of (if d < 10 then 48 + d else 87 + d)"

fun show_hex :: "nat \<Rightarrow> string" where
  "show_hex n = (if n < 16 then [hex_digit n] else show_hex (n div 16) @ [hex_digit (n mod 16)])"

declare show_hex.simps [simp del]

text \<open>The start and the length of the longest run of zeros: the run being read, then the longest so far.\<close>

fun longest_zeros :: "nat \<Rightarrow> nat \<times> nat \<Rightarrow> nat \<times> nat \<Rightarrow> nat list \<Rightarrow> nat \<times> nat" where
  "longest_zeros i current best [] = best"
| "longest_zeros i (cs, cl) (bs, bl) (g # gs) =
     (if g = 0 then
        (let c = (if cl = 0 then i else cs, Suc cl);
             b = (if snd c > bl then c else (bs, bl))
         in longest_zeros (Suc i) c b gs)
      else longest_zeros (Suc i) (0, 0) (bs, bl) gs)"

definition show_ipv6 :: "128 word \<Rightarrow> string" where [hx_defs]:
  "show_ipv6 a = (case to_ipv4_mapped a of
     Some v4 \<Rightarrow> ''::ffff:'' @ show_ipv4 v4
   | None \<Rightarrow> (let gs = map (segment a) [0..<8]; show_all = (\<lambda>gs. join '':'' (map show_hex gs)) in
       case longest_zeros 0 (0, 0) (0, 0) gs of (start, n) \<Rightarrow>
         if n > 1 then show_all (take start gs) @ ''::'' @ show_all (drop (start + n) gs) else show_all gs))"

definition show_ip :: "ip_addr \<Rightarrow> string" where [hx_defs]:
  "show_ip ip = (case ip of V4 a \<Rightarrow> show_ipv4 a | V6 a \<Rightarrow> show_ipv6 a)"

subsection \<open>Admission\<close>

datatype admission = Public_Internet | Allow_Local

datatype block_reason =
    Scheme_Block string
  | Private_Host string string
  | Malformed string
  | Redirected string string
  | Unresolvable string string

record target_refusal =
  rf_reason :: block_reason
  rf_display :: string

text \<open>
  What the crate \<open>url\<close> offers, over its type \<open>'u\<close> of URLs.  A resolver answers with an error or the addresses of a name.
\<close>

datatype url_host = Domain_Name string | Host_V4 "32 word" | Host_V6 "128 word"

record 'u url_lib =
  u_parse :: "string \<Rightarrow> string + 'u"
  u_join :: "'u \<Rightarrow> string \<Rightarrow> string + 'u"
  u_scheme :: "'u \<Rightarrow> string"
  u_host :: "'u \<Rightarrow> url_host option"
  u_host_str :: "'u \<Rightarrow> string option"
  u_port :: "'u \<Rightarrow> nat option"
  u_path :: "'u \<Rightarrow> string"
  u_as_str :: "'u \<Rightarrow> string"

type_synonym resolver = "string \<Rightarrow> string + ip_addr list"

datatype 'u target_url = Target 'u

record 'u pinned_target =
  pt_target :: "'u target_url"
  pt_addrs :: "ip_addr list"

definition unbracket :: "string \<Rightarrow> string" where [hx_defs]:
  "unbracket host = (case strip_prefix ''['' host of
     None \<Rightarrow> host
   | Some r \<Rightarrow> if ends_with r '']'' then butlast r else host)"

definition display_ellipsis :: string where [hx_defs]:
  "display_ellipsis = [CHR 0xE2, CHR 0x80, CHR 0xA6]"

definition max_display_bytes :: nat where [hx_defs]:
  "max_display_bytes = 200"

text \<open>The largest boundary up to \<open>n\<close>; the loop ends because the start of a text is one.\<close>

fun boundary_at_most :: "string \<Rightarrow> nat \<Rightarrow> nat" where
  "boundary_at_most s 0 = 0"
| "boundary_at_most s (Suc n) = (if is_char_boundary s (Suc n) then Suc n else boundary_at_most s n)"

definition truncate_display :: "string \<Rightarrow> string" where [hx_defs]:
  "truncate_display v = (if length v \<le> max_display_bytes then v
     else take (boundary_at_most v max_display_bytes) v @ display_ellipsis)"

definition redact_url :: "'u url_lib \<Rightarrow> 'u \<Rightarrow> string" where [hx_defs]:
  "redact_url U u = truncate_display
     (u_scheme U u @ ''://'' @ (case u_host_str U u of Some h \<Rightarrow> h | None \<Rightarrow> ''<no host>'')
      @ (case u_port U u of Some p \<Rightarrow> '':'' @ show_nat p | None \<Rightarrow> []) @ u_path U u)"

definition best_effort_display :: "'u url_lib \<Rightarrow> string \<Rightarrow> string" where [hx_defs]:
  "best_effort_display U raw = (case u_parse U raw of Inr u \<Rightarrow> redact_url U u | Inl _ \<Rightarrow> ''<unparseable URL>'')"

definition local_suffixes :: "(string \<times> string) list" where [hx_defs]:
  "local_suffixes =
     [(''.localhost'', ''the .localhost TLD is reserved for the loopback interface (RFC 6761)''),
      (''.local'', ''the .local TLD is mDNS, which only resolves on the local network''),
      (''.internal'', ''the .internal TLD is reserved for private networks''),
      (''.home.arpa'', ''the .home.arpa TLD is reserved for home networks (RFC 8375)'')]"

definition local_name_reason :: "string \<Rightarrow> string option" where [hx_defs]:
  "local_name_reason host =
     (if host = ''localhost'' then Some ''it is localhost''
      else if host \<in> set [''metadata.google.internal'', ''instance-data'', ''metadata'']
        then Some ''it is a cloud metadata service name''
      else if CHR ''.'' \<notin> set host then Some ''a single-label name can only resolve on the local network''
      else map_option snd (List.find (\<lambda>(suffix, _). ends_with host suffix) local_suffixes))"

definition parse_with :: "'u url_lib \<Rightarrow> admission \<Rightarrow> string \<Rightarrow> target_refusal + 'u target_url" where [hx_defs]:
  "parse_with U adm raw = (let trimmed = trim raw;
       refuse = (\<lambda>r. Inl \<lparr>rf_reason = r, rf_display = best_effort_display U trimmed\<rparr>) in
     case u_parse U trimmed of
       Inl e \<Rightarrow> refuse (Malformed e)
     | Inr u \<Rightarrow>
         if u_scheme U u \<noteq> ''http'' \<and> u_scheme U u \<noteq> ''https'' then refuse (Scheme_Block (u_scheme U u))
         else case u_host_str U u of
           None \<Rightarrow> refuse (Malformed ''it has no host'')
         | Some h \<Rightarrow>
             (let host = trim_end_matches (CHR ''.'') (unbracket h) in
              if host = [] then refuse (Malformed ''it has an empty host'')
              else if adm = Public_Internet then
                (case (case u_host U u of
                    Some (Host_V4 a) \<Rightarrow> why_not_public_ip (V4 a)
                  | Some (Host_V6 a) \<Rightarrow> why_not_public_ip (V6 a)
                  | _ \<Rightarrow> local_name_reason host) of
                   Some reason \<Rightarrow> refuse (Private_Host host reason)
                 | None \<Rightarrow> Inr (Target u))
              else Inr (Target u)))"

definition target_host :: "'u url_lib \<Rightarrow> 'u target_url \<Rightarrow> string" where [hx_defs]:
  "target_host U t = (case t of Target u \<Rightarrow> unbracket (case u_host_str U u of Some h \<Rightarrow> h | None \<Rightarrow> []))"

definition dns_name :: "'u url_lib \<Rightarrow> 'u target_url \<Rightarrow> string option" where [hx_defs]:
  "dns_name U t = (case t of Target u \<Rightarrow>
     (case u_host U u of Some (Domain_Name _) \<Rightarrow> Some (target_host U t) | _ \<Rightarrow> None))"

definition request_url :: "'u url_lib \<Rightarrow> 'u target_url \<Rightarrow> string" where [hx_defs]:
  "request_url U t = (case t of Target u \<Rightarrow> u_as_str U u)"

definition redacted :: "'u url_lib \<Rightarrow> 'u target_url \<Rightarrow> string" where [hx_defs]:
  "redacted U t = (case t of Target u \<Rightarrow> redact_url U u)"

subsection \<open>Pinning\<close>

fun first_private :: "ip_addr list \<Rightarrow> (ip_addr \<times> string) option" where
  "first_private [] = None"
| "first_private (a # as) = (case why_not_public_ip a of Some r \<Rightarrow> Some (a, r) | None \<Rightarrow> first_private as)"

definition pin :: "'u url_lib \<Rightarrow> admission \<Rightarrow> resolver \<Rightarrow> 'u target_url \<Rightarrow> target_refusal + 'u pinned_target" where [hx_defs]:
  "pin U adm resolve t =
     (if dns_name U t = None then Inr \<lparr>pt_target = t, pt_addrs = []\<rparr>
      else let name = target_host U t;
               refused = (\<lambda>r. Inl \<lparr>rf_reason = r, rf_display = redacted U t\<rparr>) in
        case resolve name of
          Inl e \<Rightarrow> refused (Unresolvable name e)
        | Inr found \<Rightarrow>
            (let addrs = remdups_adj (sort found) in
             if addrs = [] then refused (Unresolvable name ''it resolved to no addresses'')
             else case (if adm = Public_Internet then first_private addrs else None) of
               Some (a, reason) \<Rightarrow> refused (Private_Host (show_ip a) reason)
             | None \<Rightarrow> Inr \<lparr>pt_target = t, pt_addrs = addrs\<rparr>))"

definition pin_with :: "'u url_lib \<Rightarrow> admission \<Rightarrow> string \<Rightarrow> resolver \<Rightarrow> target_refusal + 'u pinned_target" where [hx_defs]:
  "pin_with U adm raw resolve = (case parse_with U adm raw of Inl r \<Rightarrow> Inl r | Inr t \<Rightarrow> pin U adm resolve t)"

definition pin_redirect :: "'u url_lib \<Rightarrow> admission \<Rightarrow> resolver \<Rightarrow> 'u target_url \<Rightarrow> string \<Rightarrow> target_refusal + 'u pinned_target" where [hx_defs]:
  "pin_redirect U adm resolve t location = (case u_parse U (request_url U t) of
     Inl _ \<Rightarrow> Inl \<lparr>rf_reason = Malformed ''the admitted target could not be parsed back into a URL'',
       rf_display = redacted U t\<rparr>
   | Inr base \<Rightarrow> (case u_join U base location of
       Inl e \<Rightarrow> Inl \<lparr>rf_reason = Malformed (''the redirect could not be resolved: '' @ e), rf_display = redacted U t\<rparr>
     | Inr next_url \<Rightarrow> pin_with U adm (u_as_str U next_url) resolve))"

definition host_resolver_rules :: "'u url_lib \<Rightarrow> 'u pinned_target \<Rightarrow> string option" where [hx_defs]:
  "host_resolver_rules U p = (case dns_name U (pt_target p) of
     None \<Rightarrow> None
   | Some name \<Rightarrow> if pt_addrs p = [] then None
       else Some (join '', '' (remdups_adj (sort (map (\<lambda>ip. ''MAP '' @ name @ '' '' @ show_ip ip) (pt_addrs p))))))"

end
