(* ===== verification/Page_Fetch.thy ===== *)
theory Page_Fetch imports Fetch_Target
begin

section \<open>Fetching a page\<close>

text \<open>
  The rest of \<open>crates/hx-browser/src\<close>: \<open>error.rs\<close>, \<open>profile.rs\<close>, the plain rung \<open>rungs/http.rs\<close> with its redirects, the
  ladder \<open>ladder.rs\<close> and the pool \<open>pool.rs\<close>.  The HTTP client, the resolver and the file system are parameters: a hop sees a
  resolver and a server of its own, so a name may resolve differently at every hop.  Times are left out.
\<close>

subsection \<open>Errors\<close>

datatype rung_kind = Http_Rung | Stealth_Rung | Interactive_Rung

fun rung_label :: "rung_kind \<Rightarrow> string" where
  "rung_label Http_Rung = ''http''"
| "rung_label Stealth_Rung = ''stealth''"
| "rung_label Interactive_Rung = ''interactive''"

datatype refusal_reason = Challenge string | Status nat

datatype fetch_error =
    Refused rung_kind refusal_reason
  | Transport rung_kind string
  | Http_Status rung_kind nat
  | Not_Text rung_kind string
  | Too_Large rung_kind nat nat
  | Unavailable rung_kind string
  | Interactive string
  | Blocked target_refusal

datatype disposition = Escalate | Stop

fun fetch_disposition :: "fetch_error \<Rightarrow> disposition" where
  "fetch_disposition (Refused _ _) = Escalate"
| "fetch_disposition (Unavailable _ _) = Escalate"
| "fetch_disposition (Transport _ _) = Stop"
| "fetch_disposition (Http_Status _ _) = Stop"
| "fetch_disposition (Not_Text _ _) = Stop"
| "fetch_disposition (Too_Large _ _ _) = Stop"
| "fetch_disposition (Interactive _) = Stop"
| "fetch_disposition (Blocked _) = Stop"

fun error_rung :: "fetch_error \<Rightarrow> rung_kind option" where
  "error_rung (Refused r _) = Some r"
| "error_rung (Transport r _) = Some r"
| "error_rung (Http_Status r _) = Some r"
| "error_rung (Not_Text r _) = Some r"
| "error_rung (Unavailable r _) = Some r"
| "error_rung (Too_Large r _ _) = Some r"
| "error_rung (Interactive _) = None"
| "error_rung (Blocked _) = None"

definition is_refusal :: "fetch_error \<Rightarrow> bool" where [hx_defs]:
  "is_refusal e \<longleftrightarrow> fetch_disposition e = Escalate"

fun show_refusal_reason :: "refusal_reason \<Rightarrow> string" where
  "show_refusal_reason (Challenge marker) = ''a challenge page was served ('' @ marker @ '')''"
| "show_refusal_reason (Status status) = ''the site answered HTTP '' @ show_nat status"

text \<open>\<open>show_debug\<close> is \<open>Debug\<close> of a string.\<close>

fun show_block_reason :: "(string \<Rightarrow> string) \<Rightarrow> block_reason \<Rightarrow> string" where
  "show_block_reason show_debug (Scheme_Block scheme) =
     ''the scheme is '' @ show_debug scheme @ '', and only http and https are fetchable''"
| "show_block_reason show_debug (Private_Host host reason) = host @ '' is not on the public internet: '' @ reason"
| "show_block_reason show_debug (Malformed reason) = ''it is not a URL ('' @ reason @ '')''"
| "show_block_reason show_debug (Redirected host reason) =
     ''it redirected to '' @ host @ '', which is not on the public internet: '' @ reason"
| "show_block_reason show_debug (Unresolvable host reason) =
     host @ '' did not resolve to an address admission can verify: '' @ reason"

definition show_refusal :: "(string \<Rightarrow> string) \<Rightarrow> target_refusal \<Rightarrow> string" where [hx_defs]:
  "show_refusal show_debug r = rf_display r @ '' is not a fetchable target: '' @ show_block_reason show_debug (rf_reason r)"

fun show_fetch_error :: "(string \<Rightarrow> string) \<Rightarrow> fetch_error \<Rightarrow> string" where
  "show_fetch_error show_debug (Refused rung reason) =
     ''the '' @ rung_label rung @ '' rung was refused: '' @ show_refusal_reason reason"
| "show_fetch_error show_debug (Transport rung reason) =
     ''the '' @ rung_label rung @ '' rung could not reach the host: '' @ reason"
| "show_fetch_error show_debug (Http_Status rung status) =
     ''the '' @ rung_label rung @ '' rung got HTTP '' @ show_nat status @ '', which is neither a page nor a wall''"
| "show_fetch_error show_debug (Not_Text rung content_type) =
     ''the '' @ rung_label rung @ '' rung got '' @ content_type @ '', which is not text''"
| "show_fetch_error show_debug (Too_Large rung bytes limit) =
     ''the '' @ rung_label rung @ '' rung got a body over its cap: '' @ show_nat bytes @ '' bytes, limit '' @ show_nat limit"
| "show_fetch_error show_debug (Unavailable rung reason) =
     ''the '' @ rung_label rung @ '' rung is unavailable: '' @ reason"
| "show_fetch_error show_debug (Interactive reason) = ''the interactive rung stopped: '' @ reason"
| "show_fetch_error show_debug (Blocked r) = show_refusal show_debug r"

subsection \<open>Profiles\<close>

definition is_ascii_lowercase :: "char \<Rightarrow> bool" where [hx_defs]:
  "is_ascii_lowercase c \<longleftrightarrow> 97 \<le> byte c \<and> byte c \<le> 122"

definition is_windows_device_name :: "string \<Rightarrow> bool" where [hx_defs]:
  "is_windows_device_name name = (let stem = hd (split_on (CHR ''.'') name) in
     stem \<in> set [''con'', ''prn'', ''aux'', ''nul'']
     \<or> (length stem = 4 \<and> (starts_with stem ''com'' \<or> starts_with stem ''lpt'') \<and> list_all is_ascii_digit (drop 3 stem)))"

datatype profile_error = Unsafe_Session_Id string string | Profile_Io string string

definition safe_dir_name :: "string \<Rightarrow> profile_error + string" where [hx_defs]:
  "safe_dir_name raw = (let refuse = (\<lambda>why. Inl (Unsafe_Session_Id raw why)) in
     if raw = [] then refuse ''it is empty''
     else if length raw > 128 then refuse ''it is longer than 128 bytes''
     else if raw = ''.'' \<or> raw = ''..'' then refuse ''it names a directory relative to its parent''
     else if starts_with raw ''.'' then refuse ''it starts with a dot, which names a hidden or relative path''
     else if \<not> list_all (\<lambda>c. is_ascii_lowercase c \<or> is_ascii_digit c \<or> c \<in> set ''-_.'') raw
       then refuse (''it is not made only of lowercase letters, digits, '' @ [CHR 0x27] @ ''-'' @ [CHR 0x27] @ '', ''
         @ [CHR 0x27] @ ''_'' @ [CHR 0x27] @ '' and '' @ [CHR 0x27] @ ''.'' @ [CHR 0x27])
     else if is_windows_device_name raw
       then refuse ''it is a reserved device name on Windows, where no directory can be created''
     else Inr raw)"

fun show_profile_error :: "(string \<Rightarrow> string) \<Rightarrow> profile_error \<Rightarrow> string" where
  "show_profile_error show_debug (Unsafe_Session_Id sid reason) =
     ''session id '' @ show_debug sid @ '' cannot name a profile directory: '' @ reason"
| "show_profile_error show_debug (Profile_Io path source) = ''could not create '' @ path @ '': '' @ source"

record session_profile =
  sp_session :: string
  sp_dir :: string

definition join_path :: "string \<Rightarrow> string \<Rightarrow> string" where [hx_defs]:
  "join_path root name = (if root = [] \<or> last root = CHR ''/'' then root @ name else root @ ''/'' @ name)"

text \<open>\<open>mkdir\<close> gives the error of creating a directory, if there is one.\<close>

definition root_session :: "(string \<Rightarrow> string option) \<Rightarrow> string \<Rightarrow> string \<Rightarrow> profile_error + session_profile" where [hx_defs]:
  "root_session mkdir root sid = (case safe_dir_name sid of
     Inl e \<Rightarrow> Inl e
   | Inr name \<Rightarrow> (let dir = join_path root name in
       case mkdir dir of Some e \<Rightarrow> Inl (Profile_Io dir e) | None \<Rightarrow> Inr \<lparr>sp_session = sid, sp_dir = dir\<rparr>))"

text \<open>The cookies a file holds, as one header value; a file that cannot be read has none.\<close>

definition cookie_pairs :: "string \<Rightarrow> string list" where [hx_defs]:
  "cookie_pairs raw = filter (\<lambda>l. l \<noteq> [] \<and> \<not> starts_with l ''#'' \<and> CHR ''='' \<in> set l) (map trim (str_lines raw))"

definition read_cookies :: "string option \<Rightarrow> string option" where [hx_defs]:
  "read_cookies file = (case file of
     None \<Rightarrow> None
   | Some raw \<Rightarrow> if cookie_pairs raw = [] then None else Some (join ''; '' (cookie_pairs raw)))"

definition written_cookies :: "string \<Rightarrow> string" where [hx_defs]:
  "written_cookies cookies = ''# written by hx-browser'' @ [CHR 0x0A]
     @ concat (map (\<lambda>l. l @ [CHR 0x0A]) (filter (\<lambda>l. l \<noteq> [] \<and> CHR ''='' \<in> set l) (map trim (str_lines cookies))))"

definition write_cookies :: "string \<Rightarrow> string option \<Rightarrow> string option" where [hx_defs]:
  "write_cookies cookies file = Some ((case file of Some raw \<Rightarrow> raw | None \<Rightarrow> []) @ written_cookies cookies)"

subsection \<open>The plain rung\<close>

record sent_request =
  rq_url :: string
  rq_pins :: "(string \<times> ip_addr list) option"
  rq_cookies :: "string option"

text \<open>
  An answer: the status, the \<open>Location\<close> header if there is one, and \<open>None\<close> inside for a value that is no text, the content
  type if it is a text, and the pieces of the body, one of which may be an error.
\<close>

record http_answer =
  an_status :: nat
  an_location :: "string option option"
  an_content_type :: "string option"
  an_chunks :: "(string + string) list"

text \<open>
  What a hop meets: the resolver, the client pinned to some addresses, which may fail to be built, and the server.  A cookie
  value that cannot be a header is dropped.
\<close>

record hop_world =
  hw_resolve :: resolver
  hw_client :: "string \<times> ip_addr list \<Rightarrow> string option"
  hw_send :: "sent_request \<Rightarrow> string + http_answer"
  hw_header_value :: "string \<Rightarrow> bool"

record 'u untrusted_page =
  up_target :: "'u target_url"
  up_status :: nat
  up_content_type :: string
  up_rung :: rung_kind
  up_body :: string

definition max_redirects :: nat where [hx_defs]:
  "max_redirects = 5"

definition max_body_bytes :: nat where [hx_defs]:
  "max_body_bytes = 4 * 1024 * 1024"

definition is_followable :: "nat \<Rightarrow> bool" where [hx_defs]:
  "is_followable status \<longleftrightarrow> status \<in> set [301, 302, 303, 307, 308]"

definition is_wall_status :: "nat \<Rightarrow> bool" where [hx_defs]:
  "is_wall_status status \<longleftrightarrow> status \<in> set [403, 429, 503]"

definition is_text :: "string \<Rightarrow> bool" where [hx_defs]:
  "is_text content_type = (let essence = to_ascii_lowercase (trim (hd (split_on (CHR '';'') content_type))) in
     essence = [] \<or> starts_with essence ''text/'' \<or> ends_with essence ''+json'' \<or> ends_with essence ''+xml''
     \<or> essence \<in> set [''application/json'', ''application/xml'', ''application/javascript'', ''application/x-javascript'',
          ''application/x-ndjson'', ''application/ld+json'', ''application/rss+xml'', ''application/atom+xml''])"

definition challenge_markers :: "string list" where [hx_defs]:
  "challenge_markers = [''cf-challenge'', ''cf_chl_opt'', ''challenge-platform'', ''__cf_chl'', ''just a moment'',
     ''attention required'', ''checking your browser before accessing'', ''enable javascript and cookies to continue'',
     ''ddos protection by'', ''captcha-delivery'']"

definition challenge_marker :: "string \<Rightarrow> string option" where [hx_defs]:
  "challenge_marker body = List.find (contains_str (to_ascii_lowercase body)) challenge_markers"

fun relabel :: "block_reason \<Rightarrow> block_reason" where
  "relabel (Private_Host host reason) = Redirected host reason"
| "relabel other = other"

fun read_page_body :: "string \<Rightarrow> (string + string) list \<Rightarrow> fetch_error + string" where
  "read_page_body collected [] = Inr (utf8_lossy collected)"
| "read_page_body collected (Inl e # _) = Inl (Transport Http_Rung e)"
| "read_page_body collected (Inr chunk # rest) =
     (if length collected + length chunk > max_body_bytes
      then Inl (Too_Large Http_Rung (length collected + length chunk) max_body_bytes)
      else read_page_body (collected @ chunk) rest)"

definition pin_target :: "'u url_lib \<Rightarrow> admission \<Rightarrow> hop_world \<Rightarrow> 'u target_url \<Rightarrow> fetch_error + 'u pinned_target" where [hx_defs]:
  "pin_target U adm w t = (case pin U adm (hw_resolve w) t of Inl r \<Rightarrow> Inl (Blocked r) | Inr p \<Rightarrow> Inr p)"

definition admit_redirect :: "'u url_lib \<Rightarrow> admission \<Rightarrow> hop_world \<Rightarrow> 'u pinned_target \<Rightarrow> string option \<Rightarrow> fetch_error + 'u pinned_target" where [hx_defs]:
  "admit_redirect U adm w from location = (case location of
     None \<Rightarrow> Inl (Transport Http_Rung ''the redirect was not a readable header value'')
   | Some l \<Rightarrow> (case pin_redirect U adm (hw_resolve w) (pt_target from) l of
       Inl r \<Rightarrow> Inl (Blocked \<lparr>rf_reason = relabel (rf_reason r), rf_display = redacted U (pt_target from)\<rparr>)
     | Inr p \<Rightarrow> Inr p))"

text \<open>The pins of the client of a hop, and the request it sends.\<close>

definition hop_client :: "'u url_lib \<Rightarrow> hop_world \<Rightarrow> 'u pinned_target \<Rightarrow> fetch_error + (string \<times> ip_addr list) option" where [hx_defs]:
  "hop_client U w p = (if pt_addrs p = [] then Inr None
     else let pins = (case dns_name U (pt_target p) of Some n \<Rightarrow> n | None \<Rightarrow> [], pt_addrs p) in
       case hw_client w pins of
         Some e \<Rightarrow> Inl (Unavailable Http_Rung (''the pinned HTTP client could not be built: '' @ e))
       | None \<Rightarrow> Inr (Some pins))"

definition hop_request :: "'u url_lib \<Rightarrow> hop_world \<Rightarrow> string option \<Rightarrow> (string \<times> ip_addr list) option \<Rightarrow> 'u pinned_target \<Rightarrow> sent_request" where [hx_defs]:
  "hop_request U w cookies pins p = \<lparr>rq_url = request_url U (pt_target p), rq_pins = pins,
     rq_cookies = (case read_cookies cookies of Some c \<Rightarrow> if hw_header_value w c then Some c else None | None \<Rightarrow> None)\<rparr>"

definition page_of :: "'u pinned_target \<Rightarrow> http_answer \<Rightarrow> fetch_error + 'u untrusted_page" where [hx_defs]:
  "page_of p an =
     (if is_wall_status (an_status an) then Inl (Refused Http_Rung (Status (an_status an)))
      else if \<not> (200 \<le> an_status an \<and> an_status an < 300) then Inl (Http_Status Http_Rung (an_status an))
      else let content_type = (case an_content_type an of Some ct \<Rightarrow> ct | None \<Rightarrow> []) in
        if \<not> is_text content_type then Inl (Not_Text Http_Rung content_type)
        else case read_page_body [] (an_chunks an) of
          Inl e \<Rightarrow> Inl e
        | Inr body \<Rightarrow> (case challenge_marker body of
            Some m \<Rightarrow> Inl (Refused Http_Rung (Challenge m))
          | None \<Rightarrow> Inr \<lparr>up_target = pt_target p, up_status = an_status an, up_content_type = content_type,
              up_rung = Http_Rung, up_body = body\<rparr>))"

text \<open>
  The loop over the hops, with every request it sent.  A hop is met at \<open>world hops\<close>; a redirect is admitted with the
  resolver of the hop it leads to.
\<close>

function fetch_loop :: "'u url_lib \<Rightarrow> admission \<Rightarrow> (nat \<Rightarrow> hop_world) \<Rightarrow> string option \<Rightarrow> nat \<Rightarrow> 'u pinned_target
    \<Rightarrow> sent_request list \<Rightarrow> (fetch_error + 'u untrusted_page) \<times> sent_request list" where
  "fetch_loop U adm world cookies hops p sent = (case hop_client U (world hops) p of
     Inl e \<Rightarrow> (Inl e, sent)
   | Inr pins \<Rightarrow> (let rq = hop_request U (world hops) cookies pins p; sent = sent @ [rq] in
     case hw_send (world hops) rq of
       Inl e \<Rightarrow> (Inl (Transport Http_Rung e), sent)
     | Inr an \<Rightarrow>
         if is_followable (an_status an) then
           (if hops \<ge> max_redirects then (Inl (Http_Status Http_Rung (an_status an)), sent)
            else case an_location an of
              None \<Rightarrow> (Inl (Http_Status Http_Rung (an_status an)), sent)
            | Some location \<Rightarrow> (case admit_redirect U adm (world (Suc hops)) p location of
                Inl e \<Rightarrow> (Inl e, sent)
              | Inr p' \<Rightarrow> fetch_loop U adm world cookies (Suc hops) p' sent))
         else (page_of p an, sent)))"
  by pat_completeness auto
termination by (relation "measure (\<lambda>(U, adm, world, cookies, hops, p, sent). Suc max_redirects - hops)")
  (auto simp: max_redirects_def)

declare fetch_loop.simps [simp del]

definition http_fetch :: "'u url_lib \<Rightarrow> admission \<Rightarrow> (nat \<Rightarrow> hop_world) \<Rightarrow> string option \<Rightarrow> 'u target_url
    \<Rightarrow> (fetch_error + 'u untrusted_page) \<times> sent_request list" where [hx_defs]:
  "http_fetch U adm world cookies t = (case pin_target U adm (world 0) t of
     Inl e \<Rightarrow> (Inl e, []) | Inr p \<Rightarrow> fetch_loop U adm world cookies 0 p [])"

subsection \<open>The ladder\<close>

text \<open>
  A rung has a kind, a name and what it gives for a target in a profile: \<open>None\<close> if it does not finish in time.  The
  deadline is in milliseconds.
\<close>

record 'u rung =
  rg_kind :: rung_kind
  rg_name :: string
  rg_fetch :: "'u target_url \<Rightarrow> session_profile \<Rightarrow> (fetch_error + 'u untrusted_page) option"

record attempt =
  at_rung :: rung_kind
  at_name :: string
  at_failure :: "string option"
  at_escalated :: bool

record 'u fetch_report =
  fr_target :: string
  fr_page :: "'u untrusted_page option"
  fr_stop_reason :: "string option"
  fr_attempts :: "attempt list"

record 'u ladder =
  ld_rungs :: "'u rung list"
  ld_timeout :: nat
  ld_max_attempts :: nat

definition new_ladder :: "'u rung list \<Rightarrow> 'u ladder" where [hx_defs]:
  "new_ladder rs = \<lparr>ld_rungs = rs, ld_timeout = 20000, ld_max_attempts = length rs\<rparr>"

definition report_stopped :: "string \<Rightarrow> string \<Rightarrow> 'u fetch_report" where [hx_defs]:
  "report_stopped target reason = \<lparr>fr_target = target, fr_page = None, fr_stop_reason = Some reason, fr_attempts = []\<rparr>"

definition report_refused :: "(string \<Rightarrow> string) \<Rightarrow> string \<Rightarrow> target_refusal \<Rightarrow> 'u fetch_report" where [hx_defs]:
  "report_refused show_debug target r = report_stopped target (show_refusal show_debug r)"

definition show_secs :: "nat \<Rightarrow> string" where [hx_defs]:
  "show_secs ms = show_nat (ms div 1000) @ (if ms mod 1000 = 0 then []
     else CHR ''.'' # trim_end_matches (CHR ''0'') (drop 1 (show_nat (1000 + ms mod 1000))))"

fun climb_ladder :: "(string \<Rightarrow> string) \<Rightarrow> nat \<Rightarrow> string \<Rightarrow> 'u target_url \<Rightarrow> session_profile \<Rightarrow> 'u rung list \<Rightarrow> attempt list
    \<Rightarrow> 'u fetch_report" where
  "climb_ladder show_debug ms display t prof [] attempts =
     \<lparr>fr_target = display, fr_page = None,
      fr_stop_reason = Some (case (if attempts = [] then None else at_failure (last attempts)) of
        Some f \<Rightarrow> f | None \<Rightarrow> ''the ladder has no rungs to try''),
      fr_attempts = attempts\<rparr>"
| "climb_ladder show_debug ms display t prof (r # rs) attempts = (case rg_fetch r t prof of
     Some (Inr page) \<Rightarrow>
       \<lparr>fr_target = display, fr_page = Some page, fr_stop_reason = None,
        fr_attempts = attempts @ [\<lparr>at_rung = rg_kind r, at_name = rg_name r, at_failure = None, at_escalated = False\<rparr>]\<rparr>
   | Some (Inl e) \<Rightarrow> (let escalated = (fetch_disposition e = Escalate); failure = show_fetch_error show_debug e;
       attempts' = attempts @ [\<lparr>at_rung = rg_kind r, at_name = rg_name r, at_failure = Some failure, at_escalated = escalated\<rparr>] in
       if \<not> escalated
       then \<lparr>fr_target = display, fr_page = None, fr_stop_reason = Some failure, fr_attempts = attempts'\<rparr>
       else climb_ladder show_debug ms display t prof rs attempts')
   | None \<Rightarrow> (let reason = ''the '' @ rung_label (rg_kind r) @ '' rung did not finish within '' @ show_secs ms @ ''s'' in
       \<lparr>fr_target = display, fr_page = None, fr_stop_reason = Some reason,
        fr_attempts = attempts @ [\<lparr>at_rung = rg_kind r, at_name = rg_name r, at_failure = Some reason, at_escalated = False\<rparr>]\<rparr>))"

definition ladder_fetch :: "'u url_lib \<Rightarrow> (string \<Rightarrow> string) \<Rightarrow> 'u ladder \<Rightarrow> 'u target_url \<Rightarrow> session_profile \<Rightarrow> 'u fetch_report" where [hx_defs]:
  "ladder_fetch U show_debug L t prof =
     climb_ladder show_debug (ld_timeout L) (redacted U t) t prof (take (ld_max_attempts L) (ld_rungs L)) []"

definition escalation_trail :: "'u fetch_report \<Rightarrow> string" where [hx_defs]:
  "escalation_trail r = join '', ''
     (List.map_filter (\<lambda>a. map_option (\<lambda>f. at_name a @ '' ('' @ f @ '')'') (at_failure a)) (fr_attempts r))"

definition report_summary :: "'u fetch_report \<Rightarrow> string" where [hx_defs]:
  "report_summary r = (case fr_page r of
     Some page \<Rightarrow> show_nat (length (up_body page)) @ '' bytes from '' @ fr_target r @ '' via the ''
       @ rung_label (up_rung page) @ '' rung''
       @ (if escalation_trail r \<noteq> [] then ''; escalated past '' @ escalation_trail r else [])
   | None \<Rightarrow>
       if fr_attempts r = [] then ''no rung ran: '' @ (case fr_stop_reason r of Some s \<Rightarrow> s | None \<Rightarrow> ''the target was refused'')
       else ''no rung produced a page after '' @ show_nat (length (fr_attempts r)) @ '' attempt(s): ''
         @ (case fr_stop_reason r of Some s \<Rightarrow> s | None \<Rightarrow> ''no reason recorded''))"

subsection \<open>The pool\<close>

record 'u browser_pool =
  bp_root :: string
  bp_ladder :: "'u ladder"
  bp_admission :: admission
  bp_sessions :: "(string \<times> session_profile) list"

definition new_browser_pool :: "string \<Rightarrow> 'u ladder \<Rightarrow> 'u browser_pool" where [hx_defs]:
  "new_browser_pool root L = \<lparr>bp_root = root, bp_ladder = L, bp_admission = Public_Internet, bp_sessions = []\<rparr>"

definition pool_session :: "(string \<Rightarrow> string option) \<Rightarrow> string \<Rightarrow> 'u browser_pool
    \<Rightarrow> (profile_error + session_profile) \<times> 'u browser_pool" where [hx_defs]:
  "pool_session mkdir sid bp = (case map_of (bp_sessions bp) sid of
     Some prof \<Rightarrow> (Inr prof, bp)
   | None \<Rightarrow> (case root_session mkdir (bp_root bp) sid of
       Inl e \<Rightarrow> (Inl e, bp)
     | Inr prof \<Rightarrow> (Inr prof, bp\<lparr>bp_sessions := (sid, prof) # bp_sessions bp\<rparr>)))"

definition pool_fetch :: "'u url_lib \<Rightarrow> (string \<Rightarrow> string) \<Rightarrow> (string \<Rightarrow> string option) \<Rightarrow> string \<Rightarrow> string \<Rightarrow> 'u browser_pool
    \<Rightarrow> 'u fetch_report \<times> 'u browser_pool" where [hx_defs]:
  "pool_fetch U show_debug mkdir sid url bp = (case parse_with U (bp_admission bp) url of
     Inl r \<Rightarrow> (report_refused show_debug (rf_display r) r, bp)
   | Inr t \<Rightarrow> (case pool_session mkdir sid bp of
       (Inl e, bp) \<Rightarrow> (report_stopped (redacted U t) (show_profile_error show_debug e), bp)
     | (Inr prof, bp) \<Rightarrow> (ladder_fetch U show_debug (bp_ladder bp) t prof, bp)))"

end
