(* ===== verification/Page_Fetch_Facts.thy ===== *)
theory Page_Fetch_Facts imports Page_Fetch Egress_Facts
begin

section \<open>What a fetch may reach\<close>

text \<open>
  The addresses that are refused are those of a fixed table of networks; every request of the plain rung, over all its
  redirects, goes to an address outside of it; the ladder stops at the first rung that is not refused.
\<close>

subsection \<open>Networks\<close>

definition non_public_v4 :: "(32 word \<times> nat) list" where
  "non_public_v4 =
     [(0x7F000000, 8), (0x0A000000, 8), (0xAC100000, 12), (0xC0A80000, 16), (0xA9FE0000, 16), (0, 32), (0xFFFFFFFF, 32),
      (0xE0000000, 4), (0xC0000200, 24), (0xC6336400, 24), (0xCB007100, 24), (0x64400000, 10)]"

definition non_public_networks :: "(ip_addr \<times> nat) list" where
  "non_public_networks = map (\<lambda>(n, p). (V4 n, p)) non_public_v4
     @ [(V6 1, 128), (V6 0, 128), (V6 (push_bit 112 0xFF00), 8), (V6 (push_bit 112 0xFC00), 7), (V6 (push_bit 112 0xFE80), 10)]
     @ map (\<lambda>(n, p). (V6 (0xFFFF00000000 + ucast n), 96 + p)) non_public_v4"

text \<open>Networks as numbers: an address is in one if it agrees with it above the host bits.\<close>

lemma masked_eq_div:
  fixes a n :: "'a::len word"
  shows "a AND NOT (mask k) = n AND NOT (mask k) \<longleftrightarrow> unat a div 2 ^ k = unat n div 2 ^ k"
proof -
  have "a AND NOT (mask k) = n AND NOT (mask k) \<longleftrightarrow> drop_bit k a = drop_bit k n" (is "?l \<longleftrightarrow> ?r")
  proof
    assume ?l
    then show ?r unfolding masked_eq_iff by (intro bit_word_eqI) (metis bit_drop_bit_eq bit_imp_le_length comp_apply le_add1)
  next
    assume r: ?r
    have "bit a i = bit n i" if "k \<le> i" for i
      using arg_cong [OF r, of "\<lambda>w. bit w (i - k)"] that by (simp add: bit_drop_bit_eq)
    then show ?l unfolding masked_eq_iff by blast
  qed
  also have "\<dots> \<longleftrightarrow> unat (drop_bit k a) = unat (drop_bit k n)" by (simp only: word_unat_eq_iff)
  finally show ?thesis unfolding unat_drop_bit_eq by (simp add: drop_bit_eq_div)
qed

lemma in_v4:
  assumes "0 < p" shows "ip_in_network (V4 a) (V4 n) p \<longleftrightarrow> unat a div 2 ^ (32 - p) = unat n div 2 ^ (32 - p)"
  using assms by (simp add: ip_in_network_def masked_eq_div Let_def)

lemma in_v6:
  assumes "0 < p" shows "ip_in_network (V6 a) (V6 n) p \<longleftrightarrow> unat a div 2 ^ (128 - p) = unat n div 2 ^ (128 - p)"
  using assms by (simp add: ip_in_network_def masked_eq_div Let_def)

lemma across_families [simp]: "\<not> ip_in_network (V4 a) (V6 n) p" "\<not> ip_in_network (V6 b) (V4 m) p"
  by (simp_all add: ip_in_network_def)

lemma octets:
  fixes a :: "32 word"
  shows "octet a 0 = unat a div 0x1000000" "octet a 1 = unat a div 0x10000 mod 256" "octet a 2 = unat a div 256 mod 256"
    "octet a 3 = unat a mod 256"
proof -
  have "unat a < 0x100000000" using unsigned_less [of a] by simp
  then have "unat a div 0x1000000 < 256" by (simp add: less_mult_imp_div_less)
  then show "octet a 0 = unat a div 0x1000000" by (simp add: octet_def)
qed (simp_all add: octet_def)

lemma high_bits:
  fixes s :: nat
  assumes "s < 2 ^ w" "k \<le> w" shows "s AND push_bit k (mask (w - k)) = 2 ^ k * (s div 2 ^ k)"
proof -
  have s: "take_bit w s = s" using assms by (simp add: take_bit_nat_eq_self)
  have "s AND push_bit k (mask (w - k)) = push_bit k (drop_bit k s)"
  proof (rule bit_eqI)
    fix i
    have "bit s i \<longleftrightarrow> i < w \<and> bit s i" using s by (metis bit_take_bit_iff)
    then show "bit (s AND push_bit k (mask (w - k))) i = bit (push_bit k (drop_bit k s)) i"
      by (auto simp: bit_simps)
  qed
  then show ?thesis by (simp add: push_bit_eq_mult drop_bit_eq_div mult.commute)
qed

lemma div_mod_iff: "e < k \<Longrightarrow> n div k = d \<and> n mod k = e \<longleftrightarrow> n = d * k + e" for n d e k :: nat
  using div_mult_mod_eq [of n k] by auto

lemma digits_eq: "v < k \<Longrightarrow> w < k \<Longrightarrow> u * k + v = m * k + w \<longleftrightarrow> u = m \<and> v = w" for u v m w k :: nat
  using div_mod_iff [of v k "m * k + w" u] div_mod_iff [of w k "m * k + w" m] by metis

lemma v4_tests:
  fixes a :: "32 word"
  defines "x \<equiv> unat a"
  shows "octet a 0 = 127 \<longleftrightarrow> x div 0x1000000 = 127"
    "is_private a \<longleftrightarrow> x div 0x1000000 = 10 \<or> x div 0x100000 = 2753 \<or> x div 0x10000 = 49320"
    "is_link_local a \<longleftrightarrow> x div 0x10000 = 43518"
    "224 \<le> octet a 0 \<and> octet a 0 \<le> 239 \<longleftrightarrow> x div 0x10000000 = 14"
    "is_documentation a \<longleftrightarrow> x div 256 = 0xC00002 \<or> x div 256 = 0xC63364 \<or> x div 256 = 0xCB0071"
    "is_cgnat a \<longleftrightarrow> x div 0x400000 = 401"
proof -
  define q r where "q = x div 0x10000" and "r = x div 256"
  have d: "x div 0x1000000 = q div 256" "x div 0x100000 = q div 16" "x div 0x10000000 = q div 4096" "x div 0x400000 = q div 64"
    "q = r div 256" by (simp_all add: q_def r_def div_mult2_eq [symmetric])
  note o = octets [of a, folded x_def, folded q_def r_def, unfolded d(1-4)]
  show "octet a 0 = 127 \<longleftrightarrow> x div 0x1000000 = 127" by (simp add: o d(1-4))
  have priv: "q div 256 = 172 \<and> 16 \<le> q mod 256 \<and> q mod 256 \<le> 31 \<longleftrightarrow> q div 16 = 2753" (is "?l \<longleftrightarrow> ?r")
  proof -
    have e: "q div 256 = q div 16 div 16" "q mod 256 = 16 * (q div 16 mod 16) + q mod 16" "q mod 16 < 16"
      using div_mult2_eq [of q 16 16] mod_mult2_eq [of q 16 16] by simp_all
    have "q div 16 = 2753" if ?l
    proof -
      have "q div 16 mod 16 = 1" using that e by linarith
      then show ?thesis using that e(1) div_mult_mod_eq [of "q div 16" 16] by linarith
    qed
    moreover have ?l if ?r using e unfolding that by simp
    ultimately show ?thesis by blast
  qed
  have home: "q div 256 = 192 \<and> q mod 256 = 168 \<longleftrightarrow> q = 49320" using div_mod_iff [of 168 256 q 192] by simp
  show "is_private a \<longleftrightarrow> x div 0x1000000 = 10 \<or> x div 0x100000 = 2753 \<or> x div 0x10000 = 49320"
    unfolding is_private_def o d(1-4) q_def [symmetric] priv home by (rule refl)
  show "is_link_local a \<longleftrightarrow> x div 0x10000 = 43518"
    unfolding is_link_local_def o d(1-4) q_def [symmetric] using div_mod_iff [of 254 256 q 169] by simp
  show "224 \<le> octet a 0 \<and> octet a 0 \<le> 239 \<longleftrightarrow> x div 0x10000000 = 14"
    unfolding o d(1-4) using div_mult2_eq [of q 256 16] by auto
  have three: "r div 256 div 256 = b \<and> r div 256 mod 256 = c \<and> r mod 256 = e \<longleftrightarrow> r = (b * 256 + c) * 256 + e"
    if "c < 256" "e < 256" for b c e
    using div_mod_iff [of e 256 r "b * 256 + c"] div_mod_iff [of c 256 "r div 256" b] that by blast
  show "is_documentation a \<longleftrightarrow> x div 256 = 0xC00002 \<or> x div 256 = 0xC63364 \<or> x div 256 = 0xCB0071"
    unfolding is_documentation_def o d(5) r_def [symmetric] by (simp add: three)
  have m: "m AND 0xC0 = 64 \<longleftrightarrow> m div 64 = 1" if "m < 256" for m :: nat
    using high_bits [of m 8 6] that by (simp add: mask_eq_exp_minus_1 push_bit_eq_mult)
  have cm: "q mod 256 AND 0xC0 = 64 \<longleftrightarrow> q mod 256 div 64 = 1" by (rule m) simp
  show "is_cgnat a \<longleftrightarrow> x div 0x400000 = 401"
    unfolding is_cgnat_def o d(1-4) cm
    using div_mult2_eq [of q 64 4] mod_mult2_eq [of q 64 4] div_mod_iff [of 1 4 "q div 64" 100] by simp
qed

lemma public_v4: "why_not_public_v4 a = None \<longleftrightarrow> \<not> list_ex (\<lambda>(n, p). unat a div 2 ^ (32 - p) = unat n div 2 ^ (32 - p)) non_public_v4"
proof -
  have z: "a = 0 \<longleftrightarrow> unat a = 0" "a = 0xFFFFFFFF \<longleftrightarrow> unat a = 0xFFFFFFFF" by (simp_all add: word_unat_eq_iff)
  show ?thesis
    unfolding why_not_public_v4_def v4_tests z by (simp add: non_public_v4_def)
qed

lemma first_segment:
  fixes a :: "128 word"
  shows "segment a 0 = unat a div 2 ^ 112"
proof -
  have "unat a < 2 ^ 128" using unsigned_less [of a] by simp
  then have "unat a div 2 ^ 112 < 65536" by (simp add: less_mult_imp_div_less)
  then show ?thesis by (simp add: segment_def)
qed

lemma v6_tests:
  fixes a :: "128 word"
  shows "segment a 0 AND 0xFF00 = 0xFF00 \<longleftrightarrow> unat a div 2 ^ 120 = 0xFF"
    "segment a 0 AND 0xFE00 = 0xFC00 \<longleftrightarrow> unat a div 2 ^ 121 = 0x7E"
    "segment a 0 AND 0xFFC0 = 0xFE80 \<longleftrightarrow> unat a div 2 ^ 118 = 0x3FA"
proof -
  define s where "s = segment a 0"
  have s: "s < 2 ^ 16" by (simp add: s_def segment_def)
  have d: "unat a div 2 ^ 120 = s div 256" "unat a div 2 ^ 121 = s div 512" "unat a div 2 ^ 118 = s div 64"
    by (simp_all add: s_def first_segment div_mult2_eq [symmetric])
  have m: "s AND 0xFF00 = 256 * (s div 256)" "s AND 0xFE00 = 512 * (s div 512)" "s AND 0xFFC0 = 64 * (s div 64)"
    using high_bits [OF s, of 8] high_bits [OF s, of 9] high_bits [OF s, of 6]
    by (simp_all add: mask_eq_exp_minus_1 push_bit_eq_mult)
  show "segment a 0 AND 0xFF00 = 0xFF00 \<longleftrightarrow> unat a div 2 ^ 120 = 0xFF"
    "segment a 0 AND 0xFE00 = 0xFC00 \<longleftrightarrow> unat a div 2 ^ 121 = 0x7E"
    "segment a 0 AND 0xFFC0 = 0xFE80 \<longleftrightarrow> unat a div 2 ^ 118 = 0x3FA"
    unfolding d s_def [symmetric] m by auto
qed

lemma mapped_network:
  fixes n :: "32 word" and a :: "128 word"
  assumes "p \<le> 32"
  shows "unat a div 2 ^ (32 - p) = unat (0xFFFF00000000 + ucast n :: 128 word) div 2 ^ (32 - p)
    \<longleftrightarrow> drop_bit 32 a = 0xFFFF \<and> unat (ucast a :: 32 word) div 2 ^ (32 - p) = unat n div 2 ^ (32 - p)"
proof -
  have n: "unat n < 2 ^ 32" using unsigned_less [of n] by simp
  then have u: "unat (0xFFFF00000000 + ucast n :: 128 word) = 0xFFFF * 2 ^ 32 + unat n"
    by (simp add: unat_word_ariths unsigned_ucast_eq take_bit_nat_eq_self)
  have split: "(x * 2 ^ 32 + y) div 2 ^ (32 - p) = x * 2 ^ p + y div 2 ^ (32 - p)" for x y :: nat
  proof -
    have "(2 :: nat) ^ 32 = 2 ^ p * 2 ^ (32 - p)" using assms by (simp flip: power_add)
    then have "(x * 2 ^ 32 + y) div 2 ^ (32 - p) = (y + (x * 2 ^ p) * 2 ^ (32 - p)) div 2 ^ (32 - p)"
      by (simp add: mult.assoc add.commute)
    then show ?thesis by (simp only: div_mult_self1 power_not_zero) simp
  qed
  have low: "y div 2 ^ (32 - p) < 2 ^ p" if "y < 2 ^ 32" for y :: nat
    using that assms by (intro less_mult_imp_div_less) (simp flip: power_add)
  have a: "unat a = unat (drop_bit 32 a) * 2 ^ 32 + unat (ucast a :: 32 word)"
    using div_mult_mod_eq [of "unat a" "2 ^ 32"] unfolding unat_drop_bit_eq
    by (simp add: drop_bit_eq_div unsigned_ucast_eq take_bit_eq_mod)
  have l: "unat (ucast a :: 32 word) < 2 ^ 32" using unsigned_less [of "ucast a :: 32 word"] by simp
  have "unat (drop_bit 32 a) * 2 ^ p + unat (ucast a :: 32 word) div 2 ^ (32 - p) = 0xFFFF * 2 ^ p + unat n div 2 ^ (32 - p)
    \<longleftrightarrow> unat (drop_bit 32 a) = 0xFFFF \<and> unat (ucast a :: 32 word) div 2 ^ (32 - p) = unat n div 2 ^ (32 - p)"
    by (rule digits_eq [OF low [OF l] low [OF n]])
  moreover have "drop_bit 32 a = 0xFFFF \<longleftrightarrow> unat (drop_bit 32 a) = 0xFFFF" by (simp add: word_unat_eq_iff del: unat_drop_bit_eq)
  ultimately show ?thesis unfolding u split by (subst a) (simp only: split)
qed

lemma public_v6: "why_not_public_v6 a = None
   \<longleftrightarrow> \<not> list_ex (\<lambda>(n, p). ip_in_network (V6 a) n p) (drop (length non_public_v4) non_public_networks)"
proof -
  have z: "a = 1 \<longleftrightarrow> unat a = 1" "a = 0 \<longleftrightarrow> unat a = 0" by (simp_all add: word_unat_eq_iff)
  have fixed: "list_ex (\<lambda>(n, p). ip_in_network (V6 a) n p) [(V6 1, 128), (V6 0, 128), (V6 (push_bit 112 0xFF00), 8),
      (V6 (push_bit 112 0xFC00), 7), (V6 (push_bit 112 0xFE80), 10)]
    \<longleftrightarrow> a = 1 \<or> a = 0 \<or> segment a 0 AND 0xFF00 = 0xFF00 \<or> segment a 0 AND 0xFE00 = 0xFC00 \<or> segment a 0 AND 0xFFC0 = 0xFE80"
    unfolding v6_tests z by (simp add: in_v6 push_bit_eq_mult)
  have mapped: "list_ex (\<lambda>(n, p). ip_in_network (V6 a) n p) (map (\<lambda>(n, p). (V6 (0xFFFF00000000 + ucast n), 96 + p)) ns)
    \<longleftrightarrow> drop_bit 32 a = 0xFFFF
      \<and> list_ex (\<lambda>(n, p). unat (ucast a :: 32 word) div 2 ^ (32 - p) = unat n div 2 ^ (32 - p)) ns"
    if "list_all (\<lambda>(n, p). p \<le> 32) ns" for ns :: "(32 word \<times> nat) list"
    using that by (induction ns) (auto simp: in_v6 mapped_network)
  have d: "drop (length non_public_v4) non_public_networks
     = [(V6 1, 128), (V6 0, 128), (V6 (push_bit 112 0xFF00), 8), (V6 (push_bit 112 0xFC00), 7), (V6 (push_bit 112 0xFE80), 10)]
       @ map (\<lambda>(n, p). (V6 (0xFFFF00000000 + ucast n), 96 + p)) non_public_v4"
    by (simp add: non_public_networks_def del: push_bit_numeral)
  have "list_all (\<lambda>(n, p). p \<le> 32) non_public_v4" by (simp add: non_public_v4_def)
  from mapped [OF this] show ?thesis
    unfolding d list_ex_append fixed by (simp add: why_not_public_v6_def to_ipv4_mapped_def public_v4)
qed

lemma refused_networks:
  "why_not_public_ip ip \<noteq> None \<longleftrightarrow> list_ex (\<lambda>(net, p). ip_in_network ip net p) non_public_networks"
proof (cases ip)
  case (V4 a)
  have "list_ex (\<lambda>(n, p). ip_in_network (V4 a) n p) (map (\<lambda>(n, p). (V4 n, p)) ns)
    \<longleftrightarrow> list_ex (\<lambda>(n, p). unat a div 2 ^ (32 - p) = unat n div 2 ^ (32 - p)) ns"
    if "list_all (\<lambda>(n, p). 0 < p) ns" for ns :: "(32 word \<times> nat) list"
    using that by (induction ns) (auto simp: in_v4)
  moreover have "list_all (\<lambda>(n, p). 0 < p) non_public_v4" by (simp add: non_public_v4_def)
  moreover have "\<not> list_ex (\<lambda>(n, p). ip_in_network (V4 a) n p) (map (\<lambda>(n, p). (V6 (f n), g p)) ns)" for f g and ns :: "(32 word \<times> nat) list"
    by (induction ns) auto
  ultimately show ?thesis using V4 public_v4 [of a] by (simp add: why_not_public_ip_def non_public_networks_def)
next
  case (V6 a)
  have "\<not> list_ex (\<lambda>(n, p). ip_in_network (V6 a) n p) (map (\<lambda>(n, p). (V4 n, p)) ns)" for ns
    by (induction ns) auto
  then have "list_ex (\<lambda>(n, p). ip_in_network (V6 a) n p) non_public_networks
    \<longleftrightarrow> list_ex (\<lambda>(n, p). ip_in_network (V6 a) n p) (drop (length non_public_v4) non_public_networks)"
    by (simp add: non_public_networks_def)
  then show ?thesis using V6 public_v6 [of a] by (simp add: why_not_public_ip_def)
qed


subsection \<open>Requests\<close>

definition outside :: "ip_addr \<Rightarrow> bool" where
  "outside ip \<longleftrightarrow> \<not> list_ex (\<lambda>(net, p). ip_in_network ip net p) non_public_networks"

lemma outside_iff: "outside ip \<longleftrightarrow> why_not_public_ip ip = None"
  using refused_networks [of ip] by (simp add: outside_def) (metis not_None_eq)

definition public_scheme :: "string \<Rightarrow> bool" where
  "public_scheme s \<longleftrightarrow> s = ''http'' \<or> s = ''https''"

text \<open>Where a request with these pins for this URL connects to.\<close>

definition public_hop :: "'u url_lib \<Rightarrow> 'u \<Rightarrow> (string \<times> ip_addr list) option \<Rightarrow> bool" where
  "public_hop U u pins \<longleftrightarrow> public_scheme (u_scheme U u) \<and> (case u_host U u of
     None \<Rightarrow> False
   | Some (Host_V4 a) \<Rightarrow> pins = None \<and> outside (V4 a)
   | Some (Host_V6 a) \<Rightarrow> pins = None \<and> outside (V6 a)
   | Some (Domain_Name _) \<Rightarrow> (case pins of None \<Rightarrow> False | Some (name, addrs) \<Rightarrow>
       addrs \<noteq> [] \<and> list_all outside addrs \<and> local_name_reason (trim_end_matches (CHR ''.'') name) = None))"

definition pinned_public :: "'u url_lib \<Rightarrow> 'u pinned_target \<Rightarrow> bool" where
  "pinned_public U p \<longleftrightarrow> (case pt_target p of Target u \<Rightarrow>
     public_hop U u (if pt_addrs p = [] then None else Some (target_host U (Target u), pt_addrs p)))"

lemma first_private_None: "first_private as = None \<longleftrightarrow> list_all outside as"
  by (induction as) (auto simp: outside_iff split: option.splits)

lemma admitted:
  assumes "parse_with U Public_Internet raw = Inr (Target u)" and "\<And>u. u_host U u = None \<longleftrightarrow> u_host_str U u = None"
  shows "public_scheme (u_scheme U u)" "u_host U u \<noteq> None"
    "u_host U u = Some (Host_V4 a) \<Longrightarrow> outside (V4 a)" "u_host U u = Some (Host_V6 b) \<Longrightarrow> outside (V6 b)"
    "u_host U u = Some (Domain_Name d)
      \<Longrightarrow> local_name_reason (trim_end_matches (CHR ''.'') (target_host U (Target u))) = None"
  using assms
  by (auto simp: parse_with_def Let_def outside_iff public_scheme_def target_host_def
      split: sum.splits if_splits option.splits url_host.splits)

lemma pin_public:
  assumes "parse_with U Public_Internet raw = Inr t" "\<And>u. u_host U u = None \<longleftrightarrow> u_host_str U u = None"
    "pin U Public_Internet resolve t = Inr p"
  shows "pinned_public U p" "pt_target p = t"
proof -
  obtain u where t: "t = Target u" by (cases t)
  note ok = admitted [OF assms(1) [unfolded t] assms(2)]
  show "pt_target p = t" using assms(3)
    by (auto simp: pin_def Let_def split: if_splits sum.splits option.splits)
  obtain h where h: "u_host U u = Some h" using ok(2) by blast
  show "pinned_public U p"
    using assms(3) ok(1,3-5) h
    by (cases h) (auto simp: pin_def dns_name_def t pinned_public_def public_hop_def first_private_None Let_def
        split: if_splits sum.splits option.splits)
qed

lemma redirect_public:
  assumes "admit_redirect U Public_Internet w from location = Inr p" "\<And>u. u_host U u = None \<longleftrightarrow> u_host_str U u = None"
  shows "pinned_public U p"
  using assms(1)
  by (auto simp: admit_redirect_def pin_redirect_def pin_with_def split: option.splits sum.splits
      dest: pin_public(1) [OF _ assms(2)])

lemma hop_request_public:
  assumes "pinned_public U p" "hop_client U w p = Inr pins"
  shows "\<exists>u. rq_url (hop_request U w cookies pins p) = u_as_str U u
    \<and> public_hop U u (rq_pins (hop_request U w cookies pins p))"
proof -
  obtain u where t: "pt_target p = Target u" by (cases "pt_target p")
  have pins: "pins = (if pt_addrs p = [] then None else Some (target_host U (Target u), pt_addrs p))"
    using assms by (auto simp: hop_client_def t dns_name_def pinned_public_def public_hop_def Let_def
        split: if_splits option.splits url_host.splits)
  show ?thesis using assms(1) by (auto simp: hop_request_def request_url_def t pinned_public_def pins)
qed

lemma page_of_target: "page_of p an = Inr page \<Longrightarrow> up_target page = pt_target p"
  by (auto simp: page_of_def Let_def split: if_splits sum.splits option.splits)

definition public_requests :: "'u url_lib \<Rightarrow> sent_request list \<Rightarrow> bool" where
  "public_requests U sent \<longleftrightarrow> (\<forall>rq \<in> set sent. \<exists>u. rq_url rq = u_as_str U u \<and> public_hop U u (rq_pins rq))"

lemma fetch_loop_public:
  assumes "\<And>u. u_host U u = None \<longleftrightarrow> u_host_str U u = None"
    "fetch_loop U Public_Internet world cookies hops p sent = (res, sent')"
    "pinned_public U p" "length sent = hops" "hops \<le> max_redirects" "public_requests U sent"
  shows "length sent' \<le> Suc max_redirects \<and> public_requests U sent'
    \<and> (\<forall>page. res = Inr page \<longrightarrow> sent' \<noteq> [] \<and> rq_url (last sent') = request_url U (up_target page))"
  using assms(2-)
proof (induction hops arbitrary: p sent rule: measure_induct_rule [of "\<lambda>h. max_redirects - h"])
  case (less hops)
  let ?w = "world hops"
  note step = less.prems(1) [unfolded fetch_loop.simps [of U Public_Internet world cookies hops p sent]]
  show ?case
  proof (cases "hop_client U ?w p")
    case (Inl e)
    then show ?thesis using step less.prems by auto
  next
    case client: (Inr pins)
    define rq where "rq = hop_request U ?w cookies pins p"
    have sent1: "public_requests U (sent @ [rq])" "length (sent @ [rq]) \<le> Suc max_redirects"
      using hop_request_public [OF less.prems(2) client, of cookies] less.prems
      by (simp_all add: public_requests_def rq_def)
    have url: "rq_url rq = request_url U (pt_target p)" by (simp add: rq_def hop_request_def)
    show ?thesis
    proof (cases "hw_send ?w rq")
      case (Inl e)
      then show ?thesis using step client sent1 by (auto simp: Let_def rq_def [symmetric])
    next
      case sent: (Inr an)
      show ?thesis
      proof (cases "is_followable (an_status an)")
        case False
        then have "res = page_of p an" "sent' = sent @ [rq]"
          using step client sent by (simp_all add: Let_def rq_def [symmetric])
        then show ?thesis using sent1 url page_of_target by fastforce
      next
        case follow: True
        show ?thesis
        proof (cases "hops < max_redirects \<and> (\<exists>l p'. an_location an = Some l
            \<and> admit_redirect U Public_Internet (world (Suc hops)) p l = Inr p')")
          case True
          then obtain l p' where l: "an_location an = Some l"
              "admit_redirect U Public_Internet (world (Suc hops)) p l = Inr p'" and h: "hops < max_redirects" by blast
          have "fetch_loop U Public_Internet world cookies (Suc hops) p' (sent @ [rq]) = (res, sent')"
            using step client sent follow l h by (simp add: Let_def rq_def [symmetric])
          then show ?thesis using less.IH [of "Suc hops" p' "sent @ [rq]"] h sent1(1) less.prems(3)
              redirect_public [OF l(2) assms(1)] by simp
        next
          case False
          then have "(\<exists>e. res = Inl e) \<and> sent' = sent @ [rq]"
            using step client sent follow
            by (auto simp: Let_def rq_def [symmetric] split: if_splits option.splits sum.splits)
          then show ?thesis using sent1 by auto
        qed
      qed
    qed
  qed
qed

text \<open>C7. A fetch stays on the public internet: over all the redirects it follows, whatever the servers answer and however
  names resolve from one hop to the next, every request of the plain rung goes to a URL with scheme http or https, and either
  its host is an address outside of the refused networks, or it is a name that is not local and the client is pinned to
  addresses of which there is one and none is in the refused networks.  There are at most six requests, and a page that comes
  back names the URL of the last of them.
\<close>

theorem fetch_stays_public:
  assumes "parse_with U Public_Internet raw = Inr t" "\<And>u. u_host U u = None \<longleftrightarrow> u_host_str U u = None"
    "http_fetch U Public_Internet world cookies t = (res, sent)"
  shows "length sent \<le> 6
    \<and> (\<forall>rq \<in> set sent. \<exists>u. rq_url rq = u_as_str U u \<and> public_hop U u (rq_pins rq))
    \<and> (\<forall>page. res = Inr page \<longrightarrow> sent \<noteq> [] \<and> rq_url (last sent) = request_url U (up_target page))"
proof (cases "pin U Public_Internet (hw_resolve (world 0)) t")
  case (Inl r)
  then show ?thesis using assms(3) by (auto simp: http_fetch_def pin_target_def)
next
  case (Inr p)
  then have "fetch_loop U Public_Internet world cookies 0 p [] = (res, sent)"
    using assms(3) by (simp add: http_fetch_def pin_target_def)
  from fetch_loop_public [OF assms(2) this pin_public(1) [OF assms(1,2) Inr]]
  show ?thesis by (simp add: public_requests_def max_redirects_def)
qed

text \<open>A name that is a page on the public internet, which sends the client on to an address.\<close>

definition toy_host :: "string \<Rightarrow> url_host option" where
  "toy_host u = (if u = ''http://a.example/'' then Some (Domain_Name ''a.example'')
     else if u = ''http://8.8.8.8/'' then Some (Host_V4 0x08080808)
     else if u = ''http://169.254.169.254/'' then Some (Host_V4 0xA9FEA9FE) else None)"

definition toy_urls :: "string url_lib" where
  "toy_urls = \<lparr>u_parse = \<lambda>s. if toy_host s = None then Inl ''relative URL without a base'' else Inr s,
     u_join = \<lambda>base l. if toy_host l = None then Inl ''invalid domain character'' else Inr l,
     u_scheme = \<lambda>u. ''http'', u_host = toy_host,
     u_host_str = \<lambda>u. map_option (\<lambda>h. case h of Domain_Name d \<Rightarrow> d | Host_V4 a \<Rightarrow> show_ipv4 a | Host_V6 a \<Rightarrow> show_ipv6 a) (toy_host u),
     u_port = \<lambda>u. None, u_path = \<lambda>u. ''/'', u_as_str = \<lambda>u. u\<rparr>"

definition toy_answer :: "string \<Rightarrow> string \<Rightarrow> http_answer" where
  "toy_answer onward url = (if url = ''http://a.example/''
     then \<lparr>an_status = 302, an_location = Some (Some onward), an_content_type = None, an_chunks = []\<rparr>
     else \<lparr>an_status = 200, an_location = None, an_content_type = Some ''text/html'', an_chunks = [Inr ''hello'']\<rparr>)"

definition toy_world :: "string \<Rightarrow> nat \<Rightarrow> hop_world" where
  "toy_world onward hop = \<lparr>hw_resolve = \<lambda>name. Inr [V4 0x01010101], hw_client = \<lambda>pins. None,
     hw_send = \<lambda>rq. Inr (toy_answer onward (rq_url rq)), hw_header_value = \<lambda>v. True\<rparr>"

definition toy_target :: "string target_url" where
  "toy_target = Target ''http://a.example/''"

lemma toy_public: "why_not_public_v4 0x01010101 = None" "why_not_public_v4 0x08080808 = None"
    "why_not_public_v4 0xA9FEA9FE = Some ''it is a link-local address, which is where the cloud metadata service lives''"
  by (simp_all add: why_not_public_v4_def octet_def is_private_def is_link_local_def is_documentation_def is_cgnat_def)

lemma toy_hosts: "toy_host ''http://a.example/'' = Some (Domain_Name ''a.example'')"
    "toy_host ''http://8.8.8.8/'' = Some (Host_V4 0x08080808)" "toy_host ''http://169.254.169.254/'' = Some (Host_V4 0xA9FEA9FE)"
  by (simp_all add: toy_host_def)

lemma toy_numbers: "show_nat 8 = ''8''" "show_nat 169 = ''169''" "show_nat 254 = ''254''"
  by code_simp+

lemma toy_shown: "show_ipv4 0x08080808 = ''8.8.8.8''" "show_ipv4 0xA9FEA9FE = ''169.254.169.254''"
  by (simp_all add: show_ipv4_def octet_def upt_rec toy_numbers)

lemma toy_trims: "trim ''http://a.example/'' = ''http://a.example/''" "trim ''http://8.8.8.8/'' = ''http://8.8.8.8/''"
    "trim ''http://169.254.169.254/'' = ''http://169.254.169.254/''" "unbracket ''a.example'' = ''a.example''"
    "unbracket ''8.8.8.8'' = ''8.8.8.8''" "unbracket ''169.254.169.254'' = ''169.254.169.254''"
    "trim_end_matches (CHR ''.'') ''a.example'' = ''a.example''" "trim_end_matches (CHR ''.'') ''8.8.8.8'' = ''8.8.8.8''"
    "trim_end_matches (CHR ''.'') ''169.254.169.254'' = ''169.254.169.254''" "local_name_reason ''a.example'' = None"
  by code_simp+

lemmas toy_admission = parse_with_def pin_def pin_target_def dns_name_def target_host_def request_url_def why_not_public_ip_def
  toy_urls_def toy_target_def toy_hosts toy_trims toy_shown toy_public toy_world_def

lemma toy_admitted: "parse_with toy_urls Public_Internet ''http://a.example/'' = Inr toy_target"
    "parse_with toy_urls Public_Internet ''http://8.8.8.8/'' = Inr (Target ''http://8.8.8.8/'')"
  by (simp_all add: toy_admission)

lemma toy_pinned: "pin_target toy_urls Public_Internet (toy_world onward 0) toy_target
    = Inr \<lparr>pt_target = toy_target, pt_addrs = [V4 0x01010101]\<rparr>"
  by (simp add: toy_admission)

definition toy_request :: sent_request where
  "toy_request = \<lparr>rq_url = ''http://a.example/'', rq_pins = Some (''a.example'', [V4 0x01010101]), rq_cookies = None\<rparr>"

lemma toy_first_request:
  "hop_client toy_urls (toy_world onward 0) \<lparr>pt_target = toy_target, pt_addrs = [V4 0x01010101]\<rparr> = Inr (rq_pins toy_request)"
  "hop_request toy_urls (toy_world onward 0) None (rq_pins toy_request) \<lparr>pt_target = toy_target, pt_addrs = [V4 0x01010101]\<rparr>
    = toy_request"
  by (simp_all add: hop_client_def hop_request_def read_cookies_def toy_request_def toy_admission)

lemma toy_first_answer: "hw_send (toy_world onward 0) toy_request
    = Inr \<lparr>an_status = 302, an_location = Some (Some onward), an_content_type = None, an_chunks = []\<rparr>"
  by (simp add: toy_world_def toy_answer_def toy_request_def)

lemmas toy_loop = http_fetch_def toy_pinned fetch_loop.simps toy_first_request toy_first_answer max_redirects_def
  is_followable_def Let_def

lemma toy_fetch:
  "http_fetch toy_urls Public_Internet (toy_world ''http://8.8.8.8/'') None toy_target
    = (Inr \<lparr>up_target = Target ''http://8.8.8.8/'', up_status = 200, up_content_type = ''text/html'', up_rung = Http_Rung,
        up_body = ''hello''\<rparr>,
       [toy_request, \<lparr>rq_url = ''http://8.8.8.8/'', rq_pins = None, rq_cookies = None\<rparr>])"
proof -
  let ?p = "\<lparr>pt_target = Target ''http://8.8.8.8/'', pt_addrs = []\<rparr>"
  have admit: "admit_redirect toy_urls Public_Internet (toy_world ''http://8.8.8.8/'' (Suc 0))
      \<lparr>pt_target = toy_target, pt_addrs = [V4 0x01010101]\<rparr> (Some ''http://8.8.8.8/'') = Inr ?p"
    by (simp add: admit_redirect_def pin_redirect_def pin_with_def toy_admission)
  have "is_text ''text/html''" "challenge_marker ''hello'' = None" and lossy: "utf8_lossy ''hello'' = ''hello''"
    by code_simp+
  moreover have "read_page_body [] [Inr ''hello''] = Inr ''hello''" by (simp add: max_body_bytes_def lossy del: utf8_lossy.simps)
  ultimately have body: "is_text ''text/html''" "challenge_marker ''hello'' = None" "read_page_body [] [Inr ''hello''] = Inr ''hello''"
    by simp_all
  show ?thesis
    by (simp add: toy_loop admit)
       (simp add: toy_world_def toy_answer_def hop_client_def hop_request_def request_url_def read_cookies_def
         toy_urls_def page_of_def is_wall_status_def is_followable_def max_redirects_def Let_def body
         del: read_page_body.simps)
qed

text \<open>Witness: a page behind one redirect, from a name to an address.\<close>

lemma fetch_stays_public_witness:
  "\<exists>page sent. http_fetch toy_urls Public_Internet (toy_world ''http://8.8.8.8/'') None toy_target = (Inr page, sent)
    \<and> up_body page = ''hello'' \<and> length sent = 2 \<and> public_requests toy_urls sent
    \<and> rq_url (last sent) = request_url toy_urls (up_target page)"
proof -
  have "u_host toy_urls u = None \<longleftrightarrow> u_host_str toy_urls u = None" for u by (simp add: toy_urls_def)
  from fetch_stays_public [OF toy_admitted(1) this toy_fetch] toy_fetch show ?thesis
    by (simp add: public_requests_def)
qed

text \<open>A redirect to the metadata service ends the fetch after the one request that led to it.\<close>

lemma metadata_redirect_is_blocked:
  "\<exists>refusal. http_fetch toy_urls Public_Internet (toy_world ''http://169.254.169.254/'') None toy_target
    = (Inl (Blocked refusal), [toy_request])"
proof -
  obtain r where "admit_redirect toy_urls Public_Internet (toy_world ''http://169.254.169.254/'' (Suc 0))
      \<lparr>pt_target = toy_target, pt_addrs = [V4 0x01010101]\<rparr> (Some ''http://169.254.169.254/'') = Inl (Blocked r)"
    by (simp add: admit_redirect_def pin_redirect_def pin_with_def toy_admission)
  then show ?thesis by (simp add: toy_loop)
qed

subsection \<open>The ladder\<close>








subsection \<open>The pool\<close>

text \<open>A refused target starts nothing: no rung runs and no profile is made.\<close>

lemma refused_target_leaves_nothing:
  "parse_with U (bp_admission bp) url = Inl r
    \<Longrightarrow> pool_fetch U show_debug mkdir sid url bp = (report_refused show_debug (rf_display r) r, bp)
      \<and> fr_attempts (report_refused show_debug (rf_display r) r) = []"
  by (simp add: pool_fetch_def report_refused_def report_stopped_def)

lemma session_dir: "root_session mkdir root sid = Inr p \<Longrightarrow> sp_session p = sid \<and> sp_dir p = join_path root sid"
  by (auto simp: root_session_def safe_dir_name_def Let_def split: sum.splits if_splits option.splits)

text \<open>Two sessions never share a directory, and one session keeps its own.\<close>

lemma sessions_have_their_own_directories:
  "root_session mkdir root sid = Inr p \<Longrightarrow> root_session mkdir root sid' = Inr p' \<Longrightarrow> sp_dir p = sp_dir p' \<longleftrightarrow> sid = sid'"
  by (auto simp: join_path_def dest!: session_dir split: if_splits)

lemma session_is_kept:
  "pool_session mkdir sid bp = (Inr p, bp') \<Longrightarrow> pool_session mkdir sid bp' = (Inr p, bp')"
  by (auto simp: pool_session_def split: option.splits sum.splits)

subsection \<open>Where the code and its comments part\<close>

text \<open>Addresses that embed a version 4 address in other ways than the mapped one, and reserved ranges, are admitted: the
  metadata service behind the translation prefix, loopback in the compatible form, and a reserved network.
\<close>

lemma embedded_address_is_admitted:
  "outside (V6 (push_bit 96 0x64FF9B + 0xA9FEA9FE))" "outside (V6 0x7F000001)" "outside (V4 0xF0000001)" "outside (V4 0x00000001)"
proof -
  show "outside (V6 (push_bit 96 0x64FF9B + 0xA9FEA9FE))" "outside (V6 0x7F000001)"
    unfolding outside_iff why_not_public_ip_def ip_addr.case why_not_public_v6_def v6_tests
    by (simp_all add: to_ipv4_mapped_def push_bit_eq_mult drop_bit_eq_div)
  show "outside (V4 0xF0000001)" "outside (V4 0x00000001)"
    unfolding outside_iff why_not_public_ip_def ip_addr.case
    by (simp_all add: why_not_public_v4_def octet_def is_private_def is_link_local_def is_documentation_def is_cgnat_def)
qed

text \<open>The cookies of a session go with every request, whatever host a redirect leads to.\<close>

lemma cookies_follow_redirects:
  "hw_header_value w c \<Longrightarrow> read_cookies cookies = Some c \<Longrightarrow> rq_cookies (hop_request U w cookies pins p) = Some c"
  by (simp add: hop_request_def)

text \<open>A cookie written twice is sent twice; the later value does not replace the earlier.\<close>

lemma repeated_cookie_is_sent_twice:
  "read_cookies (write_cookies ''a=2'' (write_cookies ''a=1'' None)) = Some ''a=1; a=2''"
  by code_simp

text \<open>A rung that is refused counts as escalated also when there is no rung after it.\<close>

lemma refused_last_rung_is_escalated:
  "rg_fetch r t prof = Some (Inl (Refused k reason))
    \<Longrightarrow> map at_escalated (fr_attempts (ladder_fetch U show_debug (new_ladder [r]) t prof)) = [True]"
  by (simp add: ladder_fetch_def new_ladder_def Let_def)

text \<open>A rung that is not installed is a refusal too, which is said to be the one failure that escalates.\<close>

lemma unavailable_is_a_refusal: "is_refusal (Unavailable k reason)"
  by (simp add: is_refusal_def)

end
