(* ===== verification/Spec2Isabelle.thy ===== *)
theory Spec2Isabelle
  imports Capability Command_Risk_Facts Approval_Rules_Facts Approval_Session_Facts Router_Facts
    Agent_Loop_Facts Spawner_Facts Review_Facts Gateway_Facts Sandbox_Sweep_Facts
    Openai_Facts Anthropic_Facts Model_Call_Facts Page_Fetch_Facts
begin

text \<open>
  A verification library for \<^bold>\<open>hx\<close>, an agent harness written in Rust: a daemon that runs language-model
  agents with tools on local and remote machines.  What decides what such a daemon may do, what it may spend,
  and how it drives its models is modelled here.

  \<^bold>\<open>Who may do what.\<close>  Every side effect of an agent passes two gates of the crate \<open>hx-core\<close>.
  \<^item> \<open>Capability\<close> (\<open>crates/hx-core/src/capability.rs\<close>): a token is a list of grants over resources
    (paths, hosts, commands, tools), with rates, byte and spend bounds; \<open>check_with_usage\<close> decides a
    request.  The theory holds the model and its facts: the check is the disjunction of the grants, a
    path grant is a prefix of components, a bound reported to a caller is exact.  Where the code can
    panic (a slice off a character boundary) the model returns None.
  \<^item> \<open>Risk\<close>, \<open>Command_Lexer\<close>, \<open>Command_Risk\<close> (first part of \<open>crates/hx-core/src/approval.rs\<close>): the risk
    classes and autonomy levels, the segmentation of a shell line, and the classifier.  The recursion
    through command substitutions is bounded in the code by a depth of 8, which is the fuel of
    \<open>classify_at\<close>; running out of it is the code's own answer \<open>Mutate\<close>.  \<open>Command_Risk_Facts\<close>: a line is
    as severe as each of its segments and substitutions, and read-only exactly when all are.
  \<^item> \<open>Approval_Rules\<close> (its middle part): globs, rules, the key a decision is remembered under, what a
    call will touch, deletions whose targets cannot be listed, policies and the shipped deny list.
    \<open>Approval_Rules_Facts\<close>: globs against their declarative reading, keys, deletions.
  \<^item> \<open>Approval_Session\<close> (its last part): the state machine of a chat (\<open>decide\<close>, \<open>resolve\<close>,
    \<open>timeout\<close>, \<open>set_level\<close>, \<open>revoke\<close>).  \<open>Approval_Session_Facts\<close>: when exactly an action is allowed, and what
    holds in every reachable state: deny rules, denials and the shipped floor are final, silence denies,
    unattended runs are bounded.

  \<^bold>\<open>What may be spent.\<close>  Every model call reserves capacity in three layers of the crate \<open>hx-provider\<close>.
  \<^item> \<open>Rate_Limits\<close> (\<open>limits.rs\<close>): token buckets and the limiter of one key.  \<open>Rate_Limits_Facts\<close>: a grant
    was within every ceiling, a burst never exceeds the rate, a release undoes its acquisition.
  \<^item> \<open>Credential_Pool\<close> (\<open>pool.rs\<close>): the keys of a provider, five strategies, a ceiling.
    \<open>Credential_Pool_Facts\<close>: a pool serves exactly if some healthy key can, the weighted strategy is
    fair at every moment, and no reservation leaks.
  \<^item> \<open>Model_Config\<close> and \<open>Router\<close> (\<open>config.rs\<close>, \<open>router.rs\<close>): roles, named pools with inheritance, routes
    over shared keys.  \<open>Router_Facts\<close>: what inheritance and member globs mean, that a configuration that
    loads routes every role for good, and the accounting of the whole tower.

  \<^item> \<open>Sse\<close>, \<open>Json\<close>, \<open>Openai\<close>, \<open>Openai_Stream\<close>, \<open>Anthropic\<close> (\<open>sse.rs\<close>, \<open>openai.rs\<close>, \<open>anthropic.rs\<close>,
    \<open>anthropic_stream.rs\<close>): the two adapters, from the request to the reply, whole or streamed.  The bytes of a stream come in
    pieces of the network's choosing; the contract \<open>framed_reader\<close> (in \<open>Sse\<close>) says what of a framing makes the pieces
    immaterial, and both readers interpret it.  \<open>Openai_Facts\<close>, \<open>Openai_Stream_Facts\<close>, \<open>Anthropic_Facts\<close>: a turn depends on its
    bytes alone, fragments of calls come together, what was shown is what is kept.
  \<^item> \<open>Model_Call\<close> (\<open>hx-agent/src/model.rs\<close>, the registry of \<open>provider.rs\<close>): a call through the table, in two steps around
    what the provider does, beside other calls.  \<open>Model_Call_Facts\<close>: no reservation is lost except by a deadline.

  \<^bold>\<open>How a run is driven.\<close>  The crates \<open>hx-agent\<close> and \<open>hx-server\<close> put the gates and the models together.
  \<^item> \<open>Messages\<close> (\<open>hx-core/src/message.rs\<close>, \<open>hx-provider/src/provider.rs\<close>): transcripts, requests, answers.
  \<^item> \<open>Agent_Gate\<close> (\<open>handle_call\<close> of \<open>hx-agent/src/agent.rs\<close>, with \<open>hx-tools/src/tool.rs\<close>): one tool call,
    from its arguments through the token, the approval session and the approver to the tool and the check of
    what the tool opened.  \<open>Agent_Gate_Facts\<close>: a tool runs only through both gates, and what is shown is
    within the grants.
  \<^item> \<open>Compaction\<close> (\<open>hx-agent/src/compact.rs\<close>, \<open>context.rs\<close>): cutting the middle out of a transcript.  A
    compacted transcript never separates a call from its result.
  \<^item> \<open>Agent_Loop\<close> (\<open>run\<close> of \<open>agent.rs\<close>): the turns, deadlines, budgets and events of a run.
    \<open>Agent_Loop_Facts\<close>: an invariant of every run, as a locale, interpreted on the gate and on the requests.
  \<^item> \<open>Model_Pool\<close> (\<open>hx-core/src/pool.rs\<close>) and \<open>Spawner\<close> (\<open>hx-server/src/spawn.rs\<close>, \<open>fanout.rs\<close>): pools of
    models, the clamping of parameters, lanes that move to another member when one dies, and fan-outs.
    \<open>Model_Pool_Facts\<close>, \<open>Spawner_Facts\<close>: draws are exact, lanes end, children are independent.

  \<^bold>\<open>What a human is asked, and shown.\<close>
  \<^item> \<open>Approval_Queue\<close> (\<open>hx-agent/src/queue.rs\<close>): the questions of all runs, asked and answered side by side.  It is a step
    relation; the channel of an answer and the clock are the library's, so any order is a step.
    \<open>Approval_Queue_Facts\<close>: a yes is an answer within the ceiling of the surface it came from, what the queue shows is what is
    open, every question can end, and what runs on an answer was covered by it.
  \<^item> \<open>Gateway\<close> (\<open>hx-gateway/src/types.rs\<close>, \<open>router.rs\<close>, \<open>answer.rs\<close>, \<open>bridge.rs\<close>, and of \<open>telegram.rs\<close> the updates, the
    buttons and the coalescer): questions in a chat and the taps that answer them.  \<open>Gateway_Facts\<close>: a tap answers
    the question it names, in its conversation, by a sender who may.
  \<^item> \<open>Review_Diff\<close> and \<open>Review\<close> (\<open>hx-server/src/diff.rs\<close>, \<open>review.rs\<close>): what a session did to the files, as a diff with its
    secrets masked.  \<open>Review_Diff_Facts\<close>: a diff is true to both texts and keeps a longest common
    subsequence, and exactly when the redaction panics.  \<open>Review_Facts\<close>: the replay of a transcript refines the file tools.
  \<^item> \<open>Redaction\<close> (\<open>hx-secrets/src/redact.rs\<close>): masking of registered secrets and of secret-looking text.

  \<^bold>\<open>Where the work is done.\<close>
  \<^item> \<open>Remote_Host\<close> (\<open>hx-remote/src/host.rs\<close>): quoting for two shells, the output of a command, its bounds.
    \<open>Remote_Host_Facts\<close>: a quoted argument is read back as one word; the bounded buffer refines the stream.
  \<^item> \<open>File_Tools\<close> (\<open>hx-tools/src/fs.rs\<close>): read, write and patch over a host that is a record of operations.
    \<open>File_Tools_Facts\<close>: a patch changes one place.
  \<^item> \<open>Egress\<close> (\<open>hx-sandbox/src/egress/policy.rs\<close>, \<open>bin/egress_proxy.rs\<close> and the checks of \<open>spec.rs\<close>): what a sandbox may
    reach.  The proxy is a program of its own with its own copies of the parser and the matcher, so they are
    modelled twice and proved equal.  \<open>Egress_Facts\<close>: what is dialled is listed.
  \<^item> \<open>Sandbox_Spec\<close>, \<open>Sandbox_Docker\<close>, \<open>Sandbox_Manager\<close> (\<open>spec.rs\<close>, \<open>docker.rs\<close> with \<open>egress.rs\<close>, \<open>runtime.rs\<close>): what
    a profile becomes, the requests to the container engine, and the life cycle.  The engine is a record of
    operations over a state of its own (\<open>docker\<close>); its contract is the locale \<open>docker_daemon\<close>, and what the manager
    needs of any runtime is the locale \<open>sandbox_engine\<close>, which \<open>docker_daemon\<close> gives (\<open>Sandbox_Manager_Facts\<close>,
    \<open>Sandbox_Docker_Facts\<close>).  \<open>Sandbox_Facts\<close>: sandboxes are confined, none is lost, a failed creation leaves
    nothing.  \<open>Sandbox_Sweep_Facts\<close>: the limit, and what a sweep leaves.
  \<^item> \<open>Fetch_Target\<close> and \<open>Page_Fetch\<close> (\<open>hx-browser/src/target.rs\<close>, \<open>rungs/http.rs\<close>, \<open>profile.rs\<close>, \<open>ladder.rs\<close>,
    \<open>pool.rs\<close>): which URLs may be fetched, the pinning of names, the plain client over its redirects (at most five, which
    is the measure of the loop), and the ladder of dearer ones.  \<open>Page_Fetch_Facts\<close>: a fetch never leaves the public internet,
    which is what a table of networks leaves; the ladder stops at the first answer.

  Shared: \<open>Rust_Prelude\<close> (strings as bytes, characters, splitting), \<open>Rust_Utf8\<close> (lossy decoding), \<open>Rust_Net\<close> (addresses as
  the standard library reads them), \<open>Rust_Float\<close> (\<open>f64\<close> as a rational
  with every operation rounded to binary64, to nearest even; instants as integers of nanoseconds),
  \<open>Machine\<close> (reachable states; the contract \<open>invariant\<close>) and \<open>Reservations\<close> (the contract \<open>reservations\<close>
  between a provider of tickets and a client that settles each once), which the limiter, the credential pool, its
  ceiling, the router and its named pools all interpret.

  \<^bold>\<open>Conventions.\<close>  Machine integers that can wrap are words; counters that are only compared are natural
  numbers, with the bound said where they are introduced.  An error of the source is a constructor that carries
  the arguments of its message, or the message itself where it is short.  A mutable receiver is the
  last argument of an operation and comes back in its result.  What a run meets outside the repository (a provider's
  answer, a tool's outcome, a human's decision, the clock) is a function from the number of the call to what
  came back, an argument of the definitions that use it.  A loop the source does not bound is a partial
  function whose value None is that it never returns.

  \<^bold>\<open>Not modelled.\<close>  Infinite and NaN floats (amounts and rates come from finite numbers and the operations
  modelled do not divide by zero); serialization.  Of the providers the HTTP transport and the JSON parser, which are parameters;
  of the remote layer the SSH, SFTP and WinRM transports; of the sandboxes uploads, downloads and logs (tar
  streams), the virtual machine runtime and the remote engine; of the gateway the HTTP side of its connectors; of
  the server the axum handlers and the event streams; the SQLite stores and queries, search backends and their cache,
  the rungs that drive a browser or ask a person, MCP, and the command line.  They are asynchronous code over libraries that are not part of the
  repository, around the parts modelled here.
\<close>

end
